(* ===== verification/Prelude.thy ===== *)
theory Prelude
  imports Main "HOL-Library.Sublist" "HOL-Library.Char_ord"
begin

text \<open>
  Generic material that every component of the development uses: the collections of proof
  hints, lemmas on lists, and the parts of Go's standard library that the program calls on
  strings and integers (packages strings, strconv and fmt).  Strings are lists of characters,
  one per byte; the whitespace of strings.TrimSpace is the ASCII whitespace, since the texts
  trimmed by the program are the ASCII output of commands.
\<close>

named_theorems emits_intros "rules for the calls a procedure may issue"
named_theorems io_defs "definitions of the plumbing of procedures"
named_theorems cond_simps "facts on the lists of status conditions"
named_theorems slice_simps "facts on the slice helpers"

section \<open>Lists\<close>

text \<open>The index of the first element that satisfies a predicate.\<close>

fun find_index :: "('a \<Rightarrow> bool) \<Rightarrow> 'a list \<Rightarrow> nat option" where
  "find_index P [] = None"
| "find_index P (x # xs) = (if P x then Some 0 else map_option Suc (find_index P xs))"

lemma find_index_Some_iff:
  "find_index P xs = Some i \<longleftrightarrow> i < length xs \<and> P (xs ! i) \<and> (\<forall>j<i. \<not> P (xs ! j))"
proof (induction xs arbitrary: i)
  case Nil
  then show ?case by simp
next
  case (Cons x xs)
  show ?case
  proof (cases i)
    case 0
    then show ?thesis by auto
  next
    case (Suc k)
    then show ?thesis
      using Cons.IH [of k] by (auto simp: All_less_Suc2)
  qed
qed

lemma find_index_None_iff: "find_index P xs = None \<longleftrightarrow> (\<forall>x\<in>set xs. \<not> P x)"
  by (induction xs) auto

text \<open>Changing the first element that satisfies a predicate, as a write through a pointer
  to that element does.\<close>

fun update_first :: "('a \<Rightarrow> bool) \<Rightarrow> ('a \<Rightarrow> 'a) \<Rightarrow> 'a list \<Rightarrow> 'a list" where
  "update_first P f [] = []"
| "update_first P f (x # xs) = (if P x then f x # xs else x # update_first P f xs)"

lemma length_update_first [simp]: "length (update_first P f xs) = length xs"
  by (induction xs) auto

lemma update_first_none [simp]: "\<forall>x\<in>set xs. \<not> P x \<Longrightarrow> update_first P f xs = xs"
  by (induction xs) auto

lemma map_update_first:
  "(\<And>x. g (f x) = g x) \<Longrightarrow> map g (update_first P f xs) = map g xs"
  by (induction xs) auto

lemma find_update_first:
  "(\<And>x. P (f x) = P x) \<Longrightarrow>
    find P (update_first P f xs) = map_option f (find P xs)"
  by (induction xs) auto

lemma find_update_first_other:
  "(\<And>x. P x \<Longrightarrow> \<not> Q x) \<Longrightarrow> (\<And>x. P x \<Longrightarrow> \<not> Q (f x)) \<Longrightarrow>
    find Q (update_first P f xs) = find Q xs"
  by (induction xs) auto

lemma find_None_iff_bex: "find P xs = None \<longleftrightarrow> (\<forall>x\<in>set xs. \<not> P x)"
  by (auto simp: find_None_iff)

lemma find_SomeD: "find P xs = Some x \<Longrightarrow> x \<in> set xs \<and> P x"
  by (induction xs) (auto split: if_splits)

text \<open>With distinct keys a lookup by key finds exactly the elements of the list.\<close>

lemma find_key_distinct:
  "distinct (map g xs) \<Longrightarrow> x \<in> set xs \<Longrightarrow> find (\<lambda>y. g y = g x) xs = Some x"
  by (induction xs) (auto simp: rev_image_eqI)

section \<open>Strings\<close>

text \<open>strings.Contains, strings.HasPrefix, strings.CutPrefix and strings.TrimSuffix.\<close>

definition str_contains :: "string \<Rightarrow> string \<Rightarrow> bool" where
  "str_contains s sub = sublist sub s"

definition has_prefix :: "string \<Rightarrow> string \<Rightarrow> bool" where
  "has_prefix s p = prefix p s"

definition cut_prefix :: "string \<Rightarrow> string \<Rightarrow> string option" where
  "cut_prefix s p = (if prefix p s then Some (drop (length p) s) else None)"

definition trim_suffix :: "string \<Rightarrow> string \<Rightarrow> string" where
  "trim_suffix s p = (if suffix p s then take (length s - length p) s else s)"

lemma cut_prefix_append [simp]: "cut_prefix (p @ s) p = Some s"
  by (simp add: cut_prefix_def)

lemma cut_prefix_Some_iff: "cut_prefix s p = Some r \<longleftrightarrow> s = p @ r"
  by (auto simp: cut_prefix_def prefix_def)

text \<open>strings.Split for a separator of one byte.\<close>

fun split_on :: "char \<Rightarrow> string \<Rightarrow> string list" where
  "split_on c [] = [[]]"
| "split_on c (x # xs) =
     (if x = c then [] # split_on c xs
      else (case split_on c xs of [] \<Rightarrow> [[x]] | w # ws \<Rightarrow> (x # w) # ws))"

lemma split_on_not_Nil [simp]: "split_on c s \<noteq> []"
  by (induction s) (auto split: list.splits)

text \<open>strings.Join.\<close>

fun join_with :: "string \<Rightarrow> string list \<Rightarrow> string" where
  "join_with sep [] = []"
| "join_with sep [w] = w"
| "join_with sep (w # v # ws) = w @ sep @ join_with sep (v # ws)"

lemma split_on_no_sep: "c \<notin> set w \<Longrightarrow> split_on c w = [w]"
  by (induction w) auto

lemma split_on_append_sep:
  "c \<notin> set w \<Longrightarrow> split_on c (w @ c # s) = w # split_on c s"
  by (induction w) auto

lemma split_join:
  "ws \<noteq> [] \<Longrightarrow> \<forall>w\<in>set ws. c \<notin> set w \<Longrightarrow> split_on c (join_with [c] ws) = ws"
  by (induction "[c]" ws rule: join_with.induct)
    (auto simp: split_on_no_sep split_on_append_sep)

lemma of_char_less: "(of_char c :: nat) < 256"
  by (metis of_char_mod_256 mod_less_divisor zero_less_numeral)

text \<open>strings.TrimSpace.\<close>

definition is_space :: "char \<Rightarrow> bool" where
  "is_space c = (let n = (of_char c :: nat) in n = 32 \<or> (9 \<le> n \<and> n \<le> 13))"

definition trim_space :: "string \<Rightarrow> string" where
  "trim_space s = rev (dropWhile is_space (rev (dropWhile is_space s)))"

lemma dropWhile_none: "\<forall>x\<in>set xs. \<not> P x \<Longrightarrow> dropWhile P xs = xs"
  by (cases xs) auto

lemma trim_space_no_space: "\<forall>x\<in>set s. \<not> is_space x \<Longrightarrow> trim_space s = s"
  by (simp add: trim_space_def dropWhile_none)

section \<open>Decimal integers\<close>

text \<open>The decimal rendering of fmt's %d.\<close>

definition digit_char :: "nat \<Rightarrow> char" where
  "digit_char d = char_of (48 + d)"

fun show_nat :: "nat \<Rightarrow> string" where
  "show_nat n = (if n < 10 then [digit_char n] else show_nat (n div 10) @ [digit_char (n mod 10)])"

declare show_nat.simps [simp del]

definition show_int :: "int \<Rightarrow> string" where
  "show_int i = (if i < 0 then ''-'' @ show_nat (nat (- i)) else show_nat (nat i))"

text \<open>strconv.ParseInt for base 10: an optional sign, then at least one digit; None stands for
  the error of a malformed number or of a value out of range.\<close>

definition is_digit :: "char \<Rightarrow> bool" where
  "is_digit c = (48 \<le> (of_char c :: nat) \<and> (of_char c :: nat) \<le> 57)"

definition parse_digits :: "string \<Rightarrow> nat option" where
  "parse_digits s =
     (if s = [] \<or> \<not> list_all is_digit s then None
      else Some (foldl (\<lambda>n c. 10 * n + (of_char c - 48)) 0 s))"

definition parse_int :: "nat \<Rightarrow> string \<Rightarrow> int option" where
  "parse_int bits s =
     (let (neg, ds) = (case s of [] \<Rightarrow> (False, s)
                       | c # cs \<Rightarrow> if c = CHR ''-'' then (True, cs)
                                   else if c = CHR ''+'' then (False, cs) else (False, s))
      in (case parse_digits ds of None \<Rightarrow> None
          | Some n \<Rightarrow>
              if neg then (if n \<le> 2 ^ (bits - 1) then Some (- int n) else None)
              else (if n < 2 ^ (bits - 1) then Some (int n) else None)))"

lemma of_char_digit_char: "d < 10 \<Longrightarrow> (of_char (digit_char d) :: nat) = 48 + d"
  by (simp add: digit_char_def)

lemma is_digit_digit_char: "d < 10 \<Longrightarrow> is_digit (digit_char d)"
  by (simp add: is_digit_def of_char_digit_char)

lemma show_nat_not_Nil [simp]: "show_nat n \<noteq> []"
  by (subst show_nat.simps) simp

lemma show_nat_digits: "list_all is_digit (show_nat n)"
proof (induction n rule: show_nat.induct)
  case (1 n)
  then show ?case
    by (subst show_nat.simps) (auto simp: is_digit_digit_char)
qed

lemma foldl_show_nat:
  "foldl (\<lambda>n c. 10 * n + (of_char c - 48)) 0 (show_nat n) = n"
proof (induction n rule: show_nat.induct)
  case (1 n)
  show ?case
  proof (cases "n < 10")
    case True
    then show ?thesis by (subst show_nat.simps) (simp add: of_char_digit_char)
  next
    case False
    with 1 show ?thesis
      by (subst show_nat.simps) (simp add: of_char_digit_char)
  qed
qed

lemma parse_digits_show_nat [simp]: "parse_digits (show_nat n) = Some n"
  by (simp add: parse_digits_def show_nat_digits foldl_show_nat)

lemma show_nat_head: "show_nat n = c # cs \<Longrightarrow> is_digit c"
  using show_nat_digits [of n] by simp

lemma is_digit_not_sign: "is_digit c \<Longrightarrow> c \<noteq> CHR ''-'' \<and> c \<noteq> CHR ''+''"
  by (auto simp: is_digit_def)

text \<open>Printing an integer of the given width and parsing it back gives the integer.\<close>

lemma parse_show_int:
  assumes "- (2 ^ (bits - 1)) \<le> i" and "i < 2 ^ (bits - 1)"
  shows "parse_int bits (show_int i) = Some i"
proof (cases "i < 0")
  case True
  have "int (nat (- i)) \<le> 2 ^ (bits - 1)" using True assms(1) by simp
  then have "nat (- i) \<le> 2 ^ (bits - 1)" using True by (simp add: nat_le_iff)
  with True show ?thesis by (simp add: parse_int_def show_int_def)
next
  case False
  have "nat i < 2 ^ (bits - 1)" using False assms(2) by (simp add: nat_less_iff)
  moreover obtain c cs where s: "show_nat (nat i) = c # cs"
    by (cases "show_nat (nat i)") auto
  moreover have "c \<noteq> CHR ''-''" "c \<noteq> CHR ''+''"
    using show_nat_head [OF s] is_digit_not_sign by auto
  moreover have "parse_digits (c # cs) = Some (nat i)"
    using parse_digits_show_nat [of "nat i"] s by simp
  ultimately show ?thesis using False
    by (simp add: parse_int_def show_int_def)
qed

lemma is_digit_not_space: "is_digit c \<Longrightarrow> \<not> is_space c"
  by (auto simp: is_digit_def is_space_def Let_def)

lemma show_int_no_space: "\<forall>c\<in>set (show_int i). \<not> is_space c"
proof -
  have "\<forall>c\<in>set (show_nat n). \<not> is_space c" for n
    using show_nat_digits [of n] by (auto simp: list_all_iff is_digit_not_space)
  moreover have "\<not> is_space CHR ''-''" by (simp add: is_space_def)
  ultimately show ?thesis by (auto simp: show_int_def)
qed

text \<open>A number below a power of ten has at most that many digits.\<close>

lemma length_show_nat: "n < 10 ^ k \<Longrightarrow> 0 < k \<Longrightarrow> length (show_nat n) \<le> k"
proof (induction n arbitrary: k rule: show_nat.induct)
  case (1 n)
  show ?case
  proof (cases "n < 10")
    case True
    with "1.prems" show ?thesis by (subst show_nat.simps) simp
  next
    case False
    obtain j where k: "k = Suc j" using "1.prems"(2) by (cases k) auto
    with False "1.prems"(1) have j: "0 < j" by (cases j) auto
    from "1.prems"(1) k have "n div 10 < 10 ^ j"
      by (simp add: less_mult_imp_div_less mult.commute)
    from "1.IH" [OF False this j] False k show ?thesis
      by (subst show_nat.simps) simp
  qed
qed

lemma show_nat_inject: "show_nat m = show_nat n \<Longrightarrow> m = n"
  by (metis foldl_show_nat)

lemma show_int_nonneg [simp]: "0 \<le> i \<Longrightarrow> show_int i = show_nat (nat i)"
  by (simp add: show_int_def)

section \<open>Division\<close>

text \<open>The division of Go on integers truncates towards zero; the divisors are positive.\<close>

definition go_div :: "int \<Rightarrow> int \<Rightarrow> int" where
  "go_div a b = (if a < 0 then - ((- a) div b) else a div b)"

lemma go_div_nonneg [simp]: "0 \<le> a \<Longrightarrow> go_div a b = a div b"
  by (simp add: go_div_def)

text \<open>Rounding up and down to a multiple.\<close>

lemma round_down:
  fixes a b :: int
  assumes "0 < b"
  shows "b dvd a div b * b" and "a div b * b \<le> a" and "a < a div b * b + b"
    and "\<And>c. b dvd c \<Longrightarrow> c \<le> a \<Longrightarrow> c \<le> a div b * b"
proof -
  show "b dvd a div b * b" by simp
  have m: "a div b * b + a mod b = a" by (rule div_mult_mod_eq)
  moreover have "0 \<le> a mod b" "a mod b < b" using assms by simp_all
  ultimately show "a div b * b \<le> a" and "a < a div b * b + b" by linarith+
  fix c assume "b dvd c" "c \<le> a"
  then obtain k where k: "c = b * k" by (elim dvdE)
  with \<open>c \<le> a\<close> assms have "k \<le> a div b" by (metis nonzero_mult_div_cancel_left order_less_irrefl zdiv_mono1)
  with k assms show "c \<le> a div b * b" by (simp add: mult.commute)
qed

lemma round_up:
  fixes a b :: int
  assumes "0 < b"
  defines "r \<equiv> (a + b - 1) div b * b"
  shows "b dvd r" and "a \<le> r" and "r < a + b" and "\<And>c. b dvd c \<Longrightarrow> a \<le> c \<Longrightarrow> r \<le> c"
proof -
  show "b dvd r" by (simp add: r_def)
  show "a \<le> r" using round_down(3) [OF assms(1), of "a + b - 1"] by (simp add: r_def)
  show less: "r < a + b" using round_down(2) [OF assms(1), of "a + b - 1"] by (simp add: r_def)
  fix c assume "b dvd c" "a \<le> c"
  show "r \<le> c"
  proof (rule ccontr)
    assume "\<not> r \<le> c"
    then have "0 < r - c" by simp
    moreover have "b dvd r - c" using \<open>b dvd r\<close> \<open>b dvd c\<close> by simp
    ultimately have "b \<le> r - c" by (simp add: zdvd_imp_le)
    with less \<open>a \<le> c\<close> show False by simp
  qed
qed

end
