(* ===== verification/Slices.thy ===== *)
theory Slices
  imports Prelude
begin

text \<open>
  The slice helpers of internal/common/slices/slices.go, and the two functions of Go's
  package slices that the program calls on slices it shares.  A slice is a list; nil and
  empty slices are the same list, which no caller of these helpers tells apart.  Each
  helper is translated with the loop it has in the source and then proved equal to the
  list function a reader expects.
\<close>

section \<open>The helpers\<close>

fun slices_Any :: "'a list \<Rightarrow> ('a \<Rightarrow> bool) \<Rightarrow> bool" where
  "slices_Any [] predicate = False"
| "slices_Any (e # list) predicate = (if predicate e then True else slices_Any list predicate)"

fun Filter_loop :: "'a list \<Rightarrow> ('a \<Rightarrow> bool) \<Rightarrow> 'a list \<Rightarrow> 'a list" where
  "Filter_loop [] predicate result = result"
| "Filter_loop (e # list) predicate result =
     Filter_loop list predicate (if predicate e then result @ [e] else result)"

definition slices_Filter :: "'a list \<Rightarrow> ('a \<Rightarrow> bool) \<Rightarrow> 'a list" where
  "slices_Filter list predicate = Filter_loop list predicate []"

fun Map_loop :: "'a list \<Rightarrow> ('a \<Rightarrow> 'b) \<Rightarrow> 'b list \<Rightarrow> 'b list" where
  "Map_loop [] f result = result"
| "Map_loop (e # list) f result = Map_loop list f (result @ [f e])"

definition slices_Map :: "'a list \<Rightarrow> ('a \<Rightarrow> 'b) \<Rightarrow> 'b list" where
  "slices_Map list f = Map_loop list f []"

fun TryMap_loop :: "'a list \<Rightarrow> ('a \<Rightarrow> 'e + 'b) \<Rightarrow> 'b list \<Rightarrow> 'e + 'b list" where
  "TryMap_loop [] f result = Inr result"
| "TryMap_loop (e # list) f result =
     (case f e of Inl err \<Rightarrow> Inl err | Inr r \<Rightarrow> TryMap_loop list f (result @ [r]))"

definition slices_TryMap :: "'a list \<Rightarrow> ('a \<Rightarrow> 'e + 'b) \<Rightarrow> 'e + 'b list" where
  "slices_TryMap list f = TryMap_loop list f []"

text \<open>slices.Contains of the Go library.\<close>

definition slices_Contains :: "'a list \<Rightarrow> 'a \<Rightarrow> bool" where
  "slices_Contains list e = list_ex (\<lambda>x. x = e) list"

definition AppendUnique :: "'a list \<Rightarrow> 'a \<Rightarrow> 'a list" where
  "AppendUnique list elem = (if slices_Any list (\<lambda>e. e = elem) then list else list @ [elem])"

text \<open>slices.Delete(list, i, i+1) of the Go library.\<close>

definition slices_Delete1 :: "'a list \<Rightarrow> nat \<Rightarrow> 'a list" where
  "slices_Delete1 list i = take i list @ drop (Suc i) list"

function RemoveAll_loop :: "'a list \<Rightarrow> nat \<Rightarrow> 'a \<Rightarrow> 'a list" where
  "RemoveAll_loop list i elem =
     (if i < length list then
        if list ! i = elem then RemoveAll_loop (slices_Delete1 list i) i elem
        else RemoveAll_loop list (Suc i) elem
      else list)"
  by pat_completeness auto
termination
  by (relation "measure (\<lambda>(list, i, elem). length list - i)") (auto simp: slices_Delete1_def)

declare RemoveAll_loop.simps [simp del]

definition RemoveAll :: "'a list \<Rightarrow> 'a \<Rightarrow> 'a list" where
  "RemoveAll list elem = RemoveAll_loop list 0 elem"

fun all_contained :: "'a list \<Rightarrow> 'a list \<Rightarrow> bool" where
  "all_contained [] b = True"
| "all_contained (e # a) b = (if \<not> slices_Contains b e then False else all_contained a b)"

definition SetsEqual :: "'a list \<Rightarrow> 'a list \<Rightarrow> bool" where
  "SetsEqual a b = (if \<not> all_contained a b then False
                    else if \<not> all_contained b a then False else True)"

fun Deduplicate_loop :: "'a list \<Rightarrow> 'a list \<Rightarrow> 'a list" where
  "Deduplicate_loop [] result = result"
| "Deduplicate_loop (e # list) result =
     Deduplicate_loop list (if \<not> slices_Contains result e then result @ [e] else result)"

definition Deduplicate :: "'a list \<Rightarrow> 'a list" where
  "Deduplicate list = Deduplicate_loop list []"

text \<open>The arguments of CountNonNil are pointers of several types; what the code reads of
  each is whether it is nil.\<close>

fun CountNonNil :: "bool list \<Rightarrow> nat" where
  "CountNonNil [] = 0"
| "CountNonNil (nonNil # vs) = (if nonNil then Suc (CountNonNil vs) else CountNonNil vs)"

text \<open>
  slices.DeleteFunc of the Go library deletes in place: it compacts the kept elements at the
  front of the backing array and clears the tail to the element type's zero value.  The
  first component is the slice it returns; the second is what the caller's own slice, which
  still has its old length, reads afterwards.
\<close>

definition slices_DeleteFunc :: "'a \<Rightarrow> 'a list \<Rightarrow> ('a \<Rightarrow> bool) \<Rightarrow> 'a list \<times> 'a list" where
  "slices_DeleteFunc zero s del =
     (let kept = filter (\<lambda>v. \<not> del v) s
      in (kept, kept @ replicate (length s - length kept) zero))"

section \<open>What the helpers compute\<close>

lemma slices_Any_eq [slice_simps, simp]: "slices_Any list predicate = list_ex predicate list"
  by (induction list) auto

lemma Filter_loop_eq: "Filter_loop list P result = result @ filter P list"
  by (induction list arbitrary: result) auto

lemma slices_Filter_eq [slice_simps, simp]: "slices_Filter list P = filter P list"
  by (simp add: slices_Filter_def Filter_loop_eq)

lemma Map_loop_eq: "Map_loop list f result = result @ map f list"
  by (induction list arbitrary: result) auto

lemma slices_Map_eq [slice_simps, simp]: "slices_Map list f = map f list"
  by (simp add: slices_Map_def Map_loop_eq)

lemma TryMap_loop_Inr:
  "TryMap_loop list f result = Inr ys \<longleftrightarrow>
    (\<exists>zs. ys = result @ zs \<and> list_all2 (\<lambda>x z. f x = Inr z) list zs)"
proof (induction list arbitrary: result)
  case Nil
  then show ?case by auto
next
  case (Cons e list)
  then show ?case
    by (cases "f e") (auto simp: list_all2_Cons1)
qed

lemma slices_TryMap_Inr:
  "slices_TryMap list f = Inr ys \<longleftrightarrow> list_all2 (\<lambda>x z. f x = Inr z) list ys"
  by (simp add: slices_TryMap_def TryMap_loop_Inr)

lemma TryMap_loop_Inl:
  "TryMap_loop list f result = Inl e \<longleftrightarrow>
    (\<exists>i<length list. f (list ! i) = Inl e \<and> (\<forall>j<i. \<exists>r. f (list ! j) = Inr r))"
proof (induction list arbitrary: result)
  case Nil
  then show ?case by simp
next
  case (Cons x list)
  show ?case
    by (cases "f x") (auto simp: Cons.IH Ex_less_Suc2 All_less_Suc2)
qed

lemma slices_TryMap_Inl:
  "slices_TryMap list f = Inl e \<longleftrightarrow>
    (\<exists>i<length list. f (list ! i) = Inl e \<and> (\<forall>j<i. \<exists>r. f (list ! j) = Inr r))"
  by (simp add: slices_TryMap_def TryMap_loop_Inl)

lemma slices_Contains_iff [slice_simps, simp]: "slices_Contains list e \<longleftrightarrow> e \<in> set list"
  by (auto simp: slices_Contains_def list_ex_iff)

lemma AppendUnique_eq [slice_simps]:
  "AppendUnique list e = (if e \<in> set list then list else list @ [e])"
  by (auto simp: AppendUnique_def list_ex_iff)

lemma RemoveAll_loop_eq:
  "i \<le> length list \<Longrightarrow>
    RemoveAll_loop list i e = take i list @ filter (\<lambda>x. x \<noteq> e) (drop i list)"
proof (induction list i e rule: RemoveAll_loop.induct)
  case (1 list i e)
  show ?case
  proof (cases "i < length list")
    case False
    with "1.prems" show ?thesis by (subst RemoveAll_loop.simps) simp
  next
    case True
    then have drop: "drop i list = list ! i # drop (Suc i) list"
      by (simp add: Cons_nth_drop_Suc)
    show ?thesis
    proof (cases "list ! i = e")
      case True
      with \<open>i < length list\<close> "1.IH"(1) drop show ?thesis
        by (subst RemoveAll_loop.simps) (simp add: slices_Delete1_def)
    next
      case False
      with \<open>i < length list\<close> "1.IH"(2) drop show ?thesis
        by (subst RemoveAll_loop.simps) (simp add: take_Suc_conv_app_nth)
    qed
  qed
qed

lemma RemoveAll_eq [slice_simps, simp]: "RemoveAll list e = filter (\<lambda>x. x \<noteq> e) list"
  by (simp add: RemoveAll_def RemoveAll_loop_eq)

lemma all_contained_iff: "all_contained a b \<longleftrightarrow> set a \<subseteq> set b"
  by (induction a) auto

lemma SetsEqual_iff [slice_simps, simp]: "SetsEqual a b \<longleftrightarrow> set a = set b"
  by (auto simp: SetsEqual_def all_contained_iff)

lemma set_Deduplicate_loop: "set (Deduplicate_loop list result) = set result \<union> set list"
  by (induction list arbitrary: result) auto

lemma distinct_Deduplicate_loop: "distinct result \<Longrightarrow> distinct (Deduplicate_loop list result)"
  by (induction list arbitrary: result) auto

lemma set_Deduplicate [slice_simps, simp]: "set (Deduplicate list) = set list"
  by (simp add: Deduplicate_def set_Deduplicate_loop)

lemma distinct_Deduplicate [simp]: "distinct (Deduplicate list)"
  by (simp add: Deduplicate_def distinct_Deduplicate_loop)

lemma CountNonNil_eq: "CountNonNil vs = length (filter id vs)"
  by (induction vs) auto

lemma slices_DeleteFunc_fst [simp]: "fst (slices_DeleteFunc z s del) = filter (\<lambda>v. \<not> del v) s"
  by (simp add: slices_DeleteFunc_def Let_def)

lemma slices_DeleteFunc_alias_none:
  "\<forall>v\<in>set s. \<not> del v \<Longrightarrow> slices_DeleteFunc z s del = (s, s)"
  by (simp add: slices_DeleteFunc_def Let_def)

lemma length_slices_DeleteFunc_alias [simp]:
  "length (snd (slices_DeleteFunc z s del)) = length s"
  by (simp add: slices_DeleteFunc_def Let_def)

lemma set_slices_DeleteFunc_alias:
  "\<exists>v\<in>set s. del v \<Longrightarrow>
    set (snd (slices_DeleteFunc z s del)) = insert z {v \<in> set s. \<not> del v}"
proof -
  assume "\<exists>v\<in>set s. del v"
  then have "length (filter (\<lambda>v. \<not> del v) s) < length s"
    by (auto intro: length_filter_less)
  then show ?thesis
    by (auto simp: slices_DeleteFunc_def Let_def)
qed

section \<open>Lists used as sets\<close>

text \<open>
  The attachment lists of the API objects (listType=set) are changed through one interface: a
  membership test, an idempotent insertion and a removal.  The staging and unstaging
  handlers and the node reconcilers rely only on the laws below.
\<close>

locale list_set =
  fixes mem :: "'s \<Rightarrow> 'a \<Rightarrow> bool"
    and ins :: "'s \<Rightarrow> 'a \<Rightarrow> 's"
    and del :: "'s \<Rightarrow> 'a \<Rightarrow> 's"
    and invar :: "'s \<Rightarrow> bool"
  assumes mem_ins: "mem (ins s x) y \<longleftrightarrow> y = x \<or> mem s y"
    and mem_del: "mem (del s x) y \<longleftrightarrow> y \<noteq> x \<and> mem s y"
    and ins_mem: "mem s x \<Longrightarrow> ins s x = s"
    and del_not_mem: "\<not> mem s x \<Longrightarrow> del s x = s"
    and del_ins: "\<not> mem s x \<Longrightarrow> del (ins s x) x = s"
    and invar_ins: "invar s \<Longrightarrow> invar (ins s x)"
    and invar_del: "invar s \<Longrightarrow> invar (del s x)"
begin

lemma ins_idem: "ins (ins s x) x = ins s x"
  by (rule ins_mem) (simp add: mem_ins)

lemma del_idem: "del (del s x) x = del s x"
  by (rule del_not_mem) (simp add: mem_del)

lemma mem_ins_del: "mem (ins (del s x) x) y \<longleftrightarrow> y = x \<or> mem s y"
  by (auto simp: mem_ins mem_del)

lemma invar_ins_del: "invar s \<Longrightarrow> invar (ins (del s x) y)"
  by (intro invar_ins invar_del)

end

interpretation nodes: list_set slices_Contains AppendUnique RemoveAll distinct
  by unfold_locales (auto simp: AppendUnique_eq filter_id_conv)

end
