(* ===== verification/K8s_Meta.thy ===== *)
theory K8s_Meta
  imports Slices
begin

text \<open>
  The parts of the vendored Kubernetes libraries that the controllers compute with: errors,
  object metadata, finalizers and owner references (controller-runtime's controllerutil) and
  status conditions (apimachinery's api/meta).  A pointer into a condition list is the first
  element of its type, and a time is a natural number, None for the zero time.
\<close>

section \<open>Errors\<close>

text \<open>
  The errors the program tells apart: those of the Kubernetes API by their reason, the
  WatchPending error of internal/manager/common/util/watch.go, failed commands, gRPC status
  errors by code, other library errors by text, os.ErrNotExist, and run-time panics.
\<close>

datatype goerr =
    ErrNotFound
  | ErrAlreadyExists
  | ErrConflict
  | BadRequest string
  | ServiceUnavailable string
  | ApiError string
  | WatchPending string
  | CmdExitError "string list" int string
  | CmdError "string list" string string
  | ParseError string
  | GrpcStatus string string
  | OtherError string
  | ErrNotExist
  | Panic string

text \<open>client.IgnoreNotFound and client.IgnoreAlreadyExists.\<close>

definition IgnoreNotFound :: "goerr option \<Rightarrow> goerr option" where
  "IgnoreNotFound err = (if err = Some ErrNotFound then None else err)"

definition IgnoreAlreadyExists :: "goerr option \<Rightarrow> goerr option" where
  "IgnoreAlreadyExists err = (if err = Some ErrAlreadyExists then None else err)"

fun is_WatchPending :: "goerr \<Rightarrow> bool" where
  "is_WatchPending (WatchPending why) = True"
| "is_WatchPending _ = False"

section \<open>Object metadata\<close>

record OwnerReference =
  or_APIVersion :: string
  or_Kind :: string
  or_Name :: string
  or_UID :: string
  or_BlockOwnerDeletion :: "bool option"
  or_Controller :: "bool option"

record ObjectMeta =
  om_Name :: string
  om_Namespace :: string
  om_UID :: string
  om_ResourceVersion :: string
  om_Generation :: int
  om_DeletionTimestamp :: "nat option"
  om_Labels :: "(string \<times> string) list option"
  om_Finalizers :: "string list"
  om_OwnerReferences :: "OwnerReference list"

text \<open>The metadata of an object literal that sets only name, namespace and labels.\<close>

definition new_meta :: "string \<Rightarrow> string \<Rightarrow> (string \<times> string) list option \<Rightarrow> ObjectMeta" where
  "new_meta name namespace labels =
     \<lparr>om_Name = name, om_Namespace = namespace, om_UID = '''', om_ResourceVersion = '''',
      om_Generation = 0, om_DeletionTimestamp = None, om_Labels = labels,
      om_Finalizers = [], om_OwnerReferences = []\<rparr>"

text \<open>Both finalizer functions return the changed metadata and whether they changed it.\<close>

definition AddFinalizer :: "ObjectMeta \<Rightarrow> string \<Rightarrow> ObjectMeta \<times> bool" where
  "AddFinalizer obj finalizer =
     (let f = om_Finalizers obj
      in if list_ex (\<lambda>e. e = finalizer) f then (obj, False)
         else (obj\<lparr>om_Finalizers := f @ [finalizer]\<rparr>, True))"

definition RemoveFinalizer :: "ObjectMeta \<Rightarrow> string \<Rightarrow> ObjectMeta \<times> bool" where
  "RemoveFinalizer obj finalizer =
     (let f = om_Finalizers obj; kept = filter (\<lambda>e. e \<noteq> finalizer) f
      in (obj\<lparr>om_Finalizers := kept\<rparr>, length f \<noteq> length kept))"

definition has_finalizer :: "string \<Rightarrow> ObjectMeta \<Rightarrow> bool" where
  "has_finalizer finalizer obj \<longleftrightarrow> finalizer \<in> set (om_Finalizers obj)"

text \<open>The group and version of an API version; None is the error of more than one slash.\<close>

definition ParseGroupVersion :: "string \<Rightarrow> (string \<times> string) option" where
  "ParseGroupVersion gv =
     (if gv = [] \<or> gv = ''/'' then Some ([], [])
      else (case split_on (CHR ''/'') gv of
              [v] \<Rightarrow> Some ([], v)
            | [g, v] \<Rightarrow> Some (g, v)
            | _ \<Rightarrow> None))"

definition referSameObject :: "OwnerReference \<Rightarrow> OwnerReference \<Rightarrow> bool" where
  "referSameObject a b =
     (case ParseGroupVersion (or_APIVersion a) of
        None \<Rightarrow> False
      | Some aGV \<Rightarrow>
          (case ParseGroupVersion (or_APIVersion b) of
             None \<Rightarrow> False
           | Some bGV \<Rightarrow> fst aGV = fst bGV \<and> or_Kind a = or_Kind b \<and> or_Name a = or_Name b))"

definition indexOwnerRef :: "OwnerReference list \<Rightarrow> OwnerReference \<Rightarrow> nat option" where
  "indexOwnerRef ownerReferences ref = find_index (\<lambda>r. referSameObject r ref) ownerReferences"

definition upsertOwnerRef :: "OwnerReference \<Rightarrow> ObjectMeta \<Rightarrow> ObjectMeta" where
  "upsertOwnerRef ref objm =
     (let owners = om_OwnerReferences objm
      in objm\<lparr>om_OwnerReferences :=
           (case indexOwnerRef owners ref of
              None \<Rightarrow> owners @ [ref]
            | Some idx \<Rightarrow> owners[idx := ref])\<rparr>)"

definition validateOwner :: "ObjectMeta \<Rightarrow> ObjectMeta \<Rightarrow> goerr option" where
  "validateOwner owner objm =
     (let ownerNs = om_Namespace owner
      in if ownerNs \<noteq> [] then
           (let objNs = om_Namespace objm
            in if objNs = [] then
                 Some (OtherError ''cluster-scoped resource must not have a namespace-scoped owner'')
               else if ownerNs \<noteq> objNs then
                 Some (OtherError ''cross-namespace owner references are disallowed'')
               else None)
         else None)"

text \<open>
  An owner is an object of one of the kinds of api/v1alpha1, all registered in the scheme
  (config.init), so looking its kind up in the scheme succeeds and gives the group version
  of the API group and the kind.
\<close>

record owner_object =
  ow_APIVersion :: string
  ow_Kind :: string
  ow_Meta :: ObjectMeta

definition SetOwnerReference ::
  "owner_object \<Rightarrow> ObjectMeta \<Rightarrow> bool option \<Rightarrow> goerr + ObjectMeta" where
  "SetOwnerReference owner objm blockOwnerDeletion =
     (case validateOwner (ow_Meta owner) objm of
        Some err \<Rightarrow> Inl err
      | None \<Rightarrow>
          Inr (upsertOwnerRef
                 \<lparr>or_APIVersion = ow_APIVersion owner, or_Kind = ow_Kind owner,
                  or_Name = om_Name (ow_Meta owner), or_UID = om_UID (ow_Meta owner),
                  or_BlockOwnerDeletion = blockOwnerDeletion, or_Controller = None\<rparr>
                 objm))"

text \<open>RemoveOwnerReference fails when there is no such reference.\<close>

definition RemoveOwnerReference :: "owner_object \<Rightarrow> ObjectMeta \<Rightarrow> goerr + ObjectMeta" where
  "RemoveOwnerReference owner objm =
     (let owners = om_OwnerReferences objm
      in if length owners < 1 then Inl (OtherError ''no owner references'')
         else (case indexOwnerRef owners
                  \<lparr>or_APIVersion = ow_APIVersion owner, or_Kind = ow_Kind owner,
                   or_Name = om_Name (ow_Meta owner), or_UID = '''',
                   or_BlockOwnerDeletion = None, or_Controller = None\<rparr> of
                 None \<Rightarrow> Inl (OtherError ''no such owner reference'')
               | Some index \<Rightarrow>
                   Inr (objm\<lparr>om_OwnerReferences := take index owners @ drop (Suc index) owners\<rparr>)))"

text \<open>metav1.GetControllerOf and SetControllerReference.\<close>

definition GetControllerOf :: "ObjectMeta \<Rightarrow> OwnerReference option" where
  "GetControllerOf controllee =
     find (\<lambda>r. or_Controller r = Some True) (om_OwnerReferences controllee)"

definition SetControllerReference :: "owner_object \<Rightarrow> ObjectMeta \<Rightarrow> goerr + ObjectMeta" where
  "SetControllerReference owner controlled =
     (case validateOwner (ow_Meta owner) controlled of
        Some err \<Rightarrow> Inl err
      | None \<Rightarrow>
          (let ref = \<lparr>or_APIVersion = ow_APIVersion owner, or_Kind = ow_Kind owner,
                      or_Name = om_Name (ow_Meta owner), or_UID = om_UID (ow_Meta owner),
                      or_BlockOwnerDeletion = Some True, or_Controller = Some True\<rparr>
           in (case GetControllerOf controlled of
                 Some existing \<Rightarrow>
                   if \<not> referSameObject existing ref
                   then Inl (OtherError ''already owned by another controller'')
                   else Inr (upsertOwnerRef ref controlled)
               | None \<Rightarrow> Inr (upsertOwnerRef ref controlled))))"

lemma AddFinalizer_has [simp]: "has_finalizer f (fst (AddFinalizer obj f))"
  by (auto simp: AddFinalizer_def has_finalizer_def Let_def list_ex_iff)

lemma AddFinalizer_changed: "snd (AddFinalizer obj f) \<longleftrightarrow> \<not> has_finalizer f obj"
  by (auto simp: AddFinalizer_def has_finalizer_def Let_def list_ex_iff)

lemma AddFinalizer_unchanged: "has_finalizer f obj \<Longrightarrow> AddFinalizer obj f = (obj, False)"
  by (auto simp: AddFinalizer_def has_finalizer_def Let_def list_ex_iff)

lemma RemoveFinalizer_not [simp]: "\<not> has_finalizer f (fst (RemoveFinalizer obj f))"
  by (simp add: RemoveFinalizer_def has_finalizer_def Let_def)

lemma RemoveFinalizer_changed: "snd (RemoveFinalizer obj f) \<longleftrightarrow> has_finalizer f obj"
proof -
  have "length xs \<noteq> length (filter (\<lambda>e. e \<noteq> f) xs) \<longleftrightarrow> f \<in> set xs" for xs :: "string list"
    by (metis (mono_tags, lifting) filter_True length_filter_less nat_neq_iff)
  then show ?thesis
    by (simp add: RemoveFinalizer_def has_finalizer_def Let_def)
qed

lemma AddFinalizer_frame [simp]:
  "om_Name (fst (AddFinalizer obj f)) = om_Name obj"
  "om_DeletionTimestamp (fst (AddFinalizer obj f)) = om_DeletionTimestamp obj"
  "om_OwnerReferences (fst (AddFinalizer obj f)) = om_OwnerReferences obj"
  "om_Namespace (fst (AddFinalizer obj f)) = om_Namespace obj"
  "om_Labels (fst (AddFinalizer obj f)) = om_Labels obj"
  by (auto simp: AddFinalizer_def Let_def)

section \<open>Status conditions\<close>

text \<open>The condition types of api/v1alpha1; the condition statuses of metav1.\<close>

datatype condition_type =
    LvCreated
  | DataSourceCompleted
  | Available
  | Abnormal
  | ActiveCond
  | OtherCondition string

datatype ConditionStatus =
    ConditionTrue
  | ConditionFalse
  | ConditionUnknown
  | OtherStatus string

record Condition =
  c_Type :: condition_type
  c_Status :: ConditionStatus
  c_Reason :: string
  c_Message :: string
  c_LastTransitionTime :: "nat option"
  c_ObservedGeneration :: int

text \<open>The condition literals of the program leave the time and the generation unset.\<close>

definition new_condition ::
  "condition_type \<Rightarrow> ConditionStatus \<Rightarrow> string \<Rightarrow> string \<Rightarrow> Condition" where
  "new_condition t status reason message =
     \<lparr>c_Type = t, c_Status = status, c_Reason = reason, c_Message = message,
      c_LastTransitionTime = None, c_ObservedGeneration = 0\<rparr>"

definition FindStatusCondition :: "Condition list \<Rightarrow> condition_type \<Rightarrow> Condition option" where
  "FindStatusCondition conditions t = find (\<lambda>c. c_Type c = t) conditions"

text \<open>
  The in-place update of an existing condition: every field that differs is overwritten and
  reported; the transition time moves only with the status.
\<close>

definition merge_condition :: "nat \<Rightarrow> Condition \<Rightarrow> Condition \<Rightarrow> Condition \<times> bool" where
  "merge_condition now new existing =
     (let (e1, ch1) =
            (if c_Status existing \<noteq> c_Status new
             then (existing\<lparr>c_Status := c_Status new,
                     c_LastTransitionTime :=
                       (case c_LastTransitionTime new of None \<Rightarrow> Some now | Some t \<Rightarrow> Some t)\<rparr>, True)
             else (existing, False));
          (e2, ch2) =
            (if c_Reason e1 \<noteq> c_Reason new then (e1\<lparr>c_Reason := c_Reason new\<rparr>, True) else (e1, ch1));
          (e3, ch3) =
            (if c_Message e2 \<noteq> c_Message new then (e2\<lparr>c_Message := c_Message new\<rparr>, True) else (e2, ch2))
      in (if c_ObservedGeneration e3 \<noteq> c_ObservedGeneration new
          then (e3\<lparr>c_ObservedGeneration := c_ObservedGeneration new\<rparr>, True) else (e3, ch3)))"

definition SetStatusCondition ::
  "nat \<Rightarrow> Condition list \<Rightarrow> Condition \<Rightarrow> Condition list \<times> bool" where
  "SetStatusCondition now conditions newCondition =
     (case FindStatusCondition conditions (c_Type newCondition) of
        None \<Rightarrow>
          (conditions @
             [case c_LastTransitionTime newCondition of
                None \<Rightarrow> newCondition\<lparr>c_LastTransitionTime := Some now\<rparr>
              | Some t \<Rightarrow> newCondition], True)
      | Some existing \<Rightarrow>
          (let (merged, changed) = merge_condition now newCondition existing
           in (update_first (\<lambda>c. c_Type c = c_Type newCondition) (\<lambda>c. merged) conditions,
               changed)))"

fun IsStatusConditionPresentAndEqual ::
  "Condition list \<Rightarrow> condition_type \<Rightarrow> ConditionStatus \<Rightarrow> bool" where
  "IsStatusConditionPresentAndEqual [] t status = False"
| "IsStatusConditionPresentAndEqual (c # conditions) t status =
     (if c_Type c = t then c_Status c = status
      else IsStatusConditionPresentAndEqual conditions t status)"

definition IsStatusConditionTrue :: "Condition list \<Rightarrow> condition_type \<Rightarrow> bool" where
  "IsStatusConditionTrue conditions t =
     IsStatusConditionPresentAndEqual conditions t ConditionTrue"

lemma IsStatusConditionPresentAndEqual_find:
  "IsStatusConditionPresentAndEqual cs t status \<longleftrightarrow>
    (\<exists>c. FindStatusCondition cs t = Some c \<and> c_Status c = status)"
  by (induction cs) (auto simp: FindStatusCondition_def)

lemma IsStatusConditionTrue_find:
  "IsStatusConditionTrue cs t \<longleftrightarrow>
    (\<exists>c. FindStatusCondition cs t = Some c \<and> c_Status c = ConditionTrue)"
  by (simp add: IsStatusConditionTrue_def IsStatusConditionPresentAndEqual_find)

lemma merge_condition_fields:
  "c_Type (fst (merge_condition now new ex)) = c_Type ex"
  "c_Status (fst (merge_condition now new ex)) = c_Status new"
  "c_Reason (fst (merge_condition now new ex)) = c_Reason new"
  "c_Message (fst (merge_condition now new ex)) = c_Message new"
  "c_ObservedGeneration (fst (merge_condition now new ex)) = c_ObservedGeneration new"
  by (auto simp: merge_condition_def Let_def)

lemma merge_condition_unchanged:
  "snd (merge_condition now new ex) = False \<longleftrightarrow>
    c_Status ex = c_Status new \<and> c_Reason ex = c_Reason new \<and>
    c_Message ex = c_Message new \<and> c_ObservedGeneration ex = c_ObservedGeneration new"
  by (auto simp: merge_condition_def Let_def)

lemma merge_condition_id:
  "snd (merge_condition now new ex) = False \<Longrightarrow> fst (merge_condition now new ex) = ex"
  by (auto simp: merge_condition_def Let_def split: if_splits)

lemma find_append_new:
  "find P (xs @ [x]) = (case find P xs of Some y \<Rightarrow> Some y | None \<Rightarrow> if P x then Some x else None)"
  by (induction xs) auto

lemma SetStatusCondition_find_other [cond_simps]:
  assumes "t \<noteq> c_Type new"
  shows "FindStatusCondition (fst (SetStatusCondition now cs new)) t = FindStatusCondition cs t"
proof (cases "FindStatusCondition cs (c_Type new)")
  case None
  with assms show ?thesis
    by (auto simp: SetStatusCondition_def FindStatusCondition_def find_append_new
        split: option.splits)
next
  case (Some ex)
  then have "c_Type ex = c_Type new" by (auto simp: FindStatusCondition_def dest: find_SomeD)
  with assms have "find (\<lambda>c. c_Type c = t)
      (update_first (\<lambda>c. c_Type c = c_Type new) (\<lambda>c. fst (merge_condition now new ex)) cs)
      = find (\<lambda>c. c_Type c = t) cs"
    by (intro find_update_first_other) (auto simp: merge_condition_fields)
  with Some show ?thesis
    by (simp add: SetStatusCondition_def FindStatusCondition_def split_beta)
qed

lemma SetStatusCondition_find_same:
  "\<exists>c. FindStatusCondition (fst (SetStatusCondition now cs new)) (c_Type new) = Some c \<and>
    c_Type c = c_Type new \<and> c_Status c = c_Status new \<and> c_Reason c = c_Reason new \<and>
    c_Message c = c_Message new"
proof (cases "FindStatusCondition cs (c_Type new)")
  case None
  then show ?thesis
    by (auto simp: SetStatusCondition_def FindStatusCondition_def find_append_new
        split: option.splits)
next
  case (Some ex)
  then have "c_Type ex = c_Type new" by (auto simp: FindStatusCondition_def dest: find_SomeD)
  then have "find (\<lambda>c. c_Type c = c_Type new)
      (update_first (\<lambda>c. c_Type c = c_Type new) (\<lambda>c. fst (merge_condition now new ex)) cs)
      = Some (fst (merge_condition now new ex))"
    using Some
    by (induction cs) (auto simp: merge_condition_fields FindStatusCondition_def)
  with Some \<open>c_Type ex = c_Type new\<close> show ?thesis
    by (simp add: SetStatusCondition_def FindStatusCondition_def split_beta merge_condition_fields)
qed

lemma SetStatusCondition_true_same [cond_simps]:
  "IsStatusConditionTrue (fst (SetStatusCondition now cs new)) (c_Type new) \<longleftrightarrow>
    c_Status new = ConditionTrue"
  using SetStatusCondition_find_same [of now cs new]
  by (auto simp: IsStatusConditionTrue_find)

lemma SetStatusCondition_true_other [cond_simps]:
  "t \<noteq> c_Type new \<Longrightarrow>
    IsStatusConditionTrue (fst (SetStatusCondition now cs new)) t \<longleftrightarrow> IsStatusConditionTrue cs t"
  by (simp add: IsStatusConditionTrue_find SetStatusCondition_find_other)

lemma SetStatusCondition_unchanged:
  "snd (SetStatusCondition now cs new) = False \<Longrightarrow> fst (SetStatusCondition now cs new) = cs"
proof (cases "FindStatusCondition cs (c_Type new)")
  case None
  assume "snd (SetStatusCondition now cs new) = False"
  with None show ?thesis by (simp add: SetStatusCondition_def)
next
  case (Some ex)
  assume u: "snd (SetStatusCondition now cs new) = False"
  with Some have m: "fst (merge_condition now new ex) = ex"
    by (simp add: SetStatusCondition_def split_beta merge_condition_id)
  have "update_first (\<lambda>c. c_Type c = c_Type new) (\<lambda>c. ex) cs = cs"
    using Some by (induction cs) (auto simp: FindStatusCondition_def split: if_splits)
  with Some m show ?thesis by (simp add: SetStatusCondition_def split_beta)
qed

text \<open>Condition types stay distinct (listType=map, listMapKey=type).\<close>

lemma SetStatusCondition_distinct:
  "distinct (map c_Type cs) \<Longrightarrow> distinct (map c_Type (fst (SetStatusCondition now cs new)))"
proof (cases "FindStatusCondition cs (c_Type new)")
  case None
  assume "distinct (map c_Type cs)"
  moreover have "c_Type new \<notin> c_Type ` set cs"
    using None by (auto simp: FindStatusCondition_def find_None_iff)
  ultimately show ?thesis
    using None by (auto simp: SetStatusCondition_def split: option.splits)
next
  case (Some ex)
  assume d: "distinct (map c_Type cs)"
  have t: "c_Type ex = c_Type new"
    using Some by (auto simp: FindStatusCondition_def dest: find_SomeD)
  have "map c_Type (update_first (\<lambda>c. c_Type c = c_Type new)
      (\<lambda>c. fst (merge_condition now new ex)) cs) = map c_Type cs"
    by (induction cs) (auto simp: merge_condition_fields t)
  with d Some show ?thesis by (simp add: SetStatusCondition_def split_beta)
qed

section \<open>The contract of a condition store\<close>

text \<open>
  Every reconciler reads and writes conditions through a test, a lookup and an update.  The
  facts they rely on are the laws of the locale: what a test returns after an update, that
  an unchanged update leaves the store alone, and that updates keep the types distinct.
\<close>

locale condition_store =
  fixes put :: "'s \<Rightarrow> 'c \<Rightarrow> 's \<times> bool"
    and holds :: "'s \<Rightarrow> 'k \<Rightarrow> bool"
    and key :: "'c \<Rightarrow> 'k"
    and truth :: "'c \<Rightarrow> bool"
    and invar :: "'s \<Rightarrow> bool"
  assumes holds_put_same: "holds (fst (put s c)) (key c) \<longleftrightarrow> truth c"
    and holds_put_other: "k \<noteq> key c \<Longrightarrow> holds (fst (put s c)) k \<longleftrightarrow> holds s k"
    and put_unchanged: "\<not> snd (put s c) \<Longrightarrow> fst (put s c) = s"
    and invar_put: "invar s \<Longrightarrow> invar (fst (put s c))"
begin

lemma holds_put: "holds (fst (put s c)) k \<longleftrightarrow> (if k = key c then truth c else holds s k)"
  by (simp add: holds_put_same holds_put_other)

lemma put_changes_test: "holds s (key c) \<noteq> truth c \<Longrightarrow> snd (put s c)"
  using holds_put_same put_unchanged by metis

lemma holds_put_twice:
  "key c \<noteq> key d \<Longrightarrow>
    holds (fst (put (fst (put s c)) d)) (key c) \<longleftrightarrow> truth c"
  by (simp add: holds_put)

end

interpretation conds: condition_store "SetStatusCondition now" IsStatusConditionTrue c_Type
    "\<lambda>c. c_Status c = ConditionTrue" "\<lambda>cs. distinct (map c_Type cs)"
  for now
  by unfold_locales
    (auto simp: cond_simps SetStatusCondition_distinct intro: SetStatusCondition_unchanged)

lemma new_condition_simps [simp]:
  "c_Type (new_condition t st r m) = t"
  "c_Status (new_condition t st r m) = st"
  "c_Reason (new_condition t st r m) = r"
  "c_Message (new_condition t st r m) = m"
  by (simp_all add: new_condition_def)

end
