(* ===== verification/Api_Types.thy ===== *)
theory Api_Types
  imports K8s_Meta
begin

text \<open>
  The custom resources of api/v1alpha1: Volume, Snapshot, ThinPoolLv and NBDExport, with their
  methods.  A Go struct is a record with the fields in the order of the source, each
  prefixed by a tag of its struct; a string with a closed set of constants is a datatype whose
  last constructor holds any other string, so that the default branches of the code stay
  reachable; a pointer that may be nil is an option.  Sizes are int64 fields that the
  controllers only compare, store and print, so they are integers here; the arithmetic on
  them, in the CSI layer, is on words.
\<close>

section \<open>Volume\<close>

datatype VolumeMode = VolumeModeThin | VolumeModeLinear | OtherVolumeMode string

datatype VolumeWipePolicy =
  VolumeWipePolicyFull | VolumeWipePolicyUnsafeFast | OtherWipePolicy string

record VolumeTypeFilesystem =
  fs_FsType :: string
  fs_MountOptions :: "string list"

record VolumeType =
  vt_Block :: "unit option"
  vt_Filesystem :: "VolumeTypeFilesystem option"

datatype VolumeContentsType =
    VolumeContentsTypeEmpty
  | VolumeContentsTypeCloneVolume
  | VolumeContentsTypeCloneSnapshot
  | OtherVolumeContents string

record VolumeContents =
  vc_ContentsType :: VolumeContentsType
  vc_CloneVolume :: "string option"
  vc_CloneSnapshot :: "string option"

datatype VolumeAccessMode =
    SingleNodeReaderOnly
  | SingleNodeSingleWriter
  | SingleNodeMultiWriter
  | MultiNodeReaderOnly
  | MultiNodeSingleWriter
  | MultiNodeMultiWriter
  | OtherAccessMode string

record VolumeSpec =
  vs_VgName :: string
  vs_Binding :: string
  vs_Mode :: VolumeMode
  vs_WipePolicy :: VolumeWipePolicy
  vs_Type :: VolumeType
  vs_Contents :: VolumeContents
  vs_AccessModes :: "VolumeAccessMode list"
  vs_SizeBytes :: int
  vs_AttachToNodes :: "string list"

fun ReadOnly_loop :: "VolumeAccessMode list \<Rightarrow> bool" where
  "ReadOnly_loop [] = True"
| "ReadOnly_loop (mode # modes) =
     (case mode of
        SingleNodeSingleWriter \<Rightarrow> False
      | SingleNodeMultiWriter \<Rightarrow> False
      | MultiNodeSingleWriter \<Rightarrow> False
      | MultiNodeMultiWriter \<Rightarrow> False
      | SingleNodeReaderOnly \<Rightarrow> ReadOnly_loop modes
      | MultiNodeReaderOnly \<Rightarrow> ReadOnly_loop modes
      | OtherAccessMode s \<Rightarrow> ReadOnly_loop modes)"

definition VolumeSpec_ReadOnly :: "VolumeSpec \<Rightarrow> bool" where
  "VolumeSpec_ReadOnly v = ReadOnly_loop (vs_AccessModes v)"

record VolumeStatus =
  vst_ObservedGeneration :: int
  vst_Conditions :: "Condition list"
  vst_SizeBytes :: int
  vst_AttachedToNodes :: "string list"
  vst_Path :: string
  vst_NBDExport :: string

definition IsAttachedToNode :: "VolumeStatus \<Rightarrow> string \<Rightarrow> bool" where
  "IsAttachedToNode v node = slices_Contains (vst_AttachedToNodes v) node"

record Volume =
  v_Meta :: ObjectMeta
  v_Spec :: VolumeSpec
  v_Status :: VolumeStatus

section \<open>Snapshot\<close>

record SnapshotSpec =
  ss_VgName :: string
  ss_Binding :: string
  ss_SourceVolume :: string

record SnapshotStatus =
  sst_ObservedGeneration :: int
  sst_Conditions :: "Condition list"
  sst_SizeBytes :: int

record Snapshot =
  s_Meta :: ObjectMeta
  s_Spec :: SnapshotSpec
  s_Status :: SnapshotStatus

section \<open>ThinPoolLv\<close>

datatype ThinLvSpecStateName =
    SpecInactive
  | SpecActive
  | SpecRemoved
  | OtherSpecState string

datatype ThinLvContentsType =
    ThinLvContentsTypeEmpty
  | ThinLvContentsTypeSnapshot
  | OtherThinLvContents string

record ThinLvContents =
  tc_ContentsType :: ThinLvContentsType
  tc_Snapshot :: "string option"

record ThinLvSpec =
  ls_Name :: string
  ls_Binding :: string
  ls_Contents :: ThinLvContents
  ls_ReadOnly :: bool
  ls_SizeBytes :: int
  ls_State :: ThinLvSpecStateName

record ThinPoolLvSpec =
  ps_VgName :: string
  ps_SizeBytes :: int
  ps_ThinLvs :: "ThinLvSpec list"
  ps_ActiveOnNode :: string

datatype ThinLvStatusStateName =
    StatusInactive
  | StatusActive
  | StatusRemoved
  | OtherStatusState string

text \<open>The state of a thin LV: its name, and the path where it is active.\<close>

record ThinLvStatusState =
  st_Name :: ThinLvStatusStateName
  st_Active :: "string option"

record ThinLvStatus =
  lst_Name :: string
  lst_State :: ThinLvStatusState
  lst_SizeBytes :: int

record ThinPoolLvStatus =
  pst_ObservedGeneration :: int
  pst_Conditions :: "Condition list"
  pst_ActiveOnNode :: string
  pst_ThinLvs :: "ThinLvStatus list"

record ThinPoolLv =
  p_Meta :: ObjectMeta
  p_Spec :: ThinPoolLvSpec
  p_Status :: ThinPoolLvStatus

text \<open>
  FindThinLv returns a pointer to the first element of the name.  Reading through it is the
  lookup; writing through it is the change of that element.
\<close>

fun find_thin_spec :: "ThinLvSpec list \<Rightarrow> string \<Rightarrow> ThinLvSpec option" where
  "find_thin_spec [] name = None"
| "find_thin_spec (l # ls) name = (if ls_Name l = name then Some l else find_thin_spec ls name)"

definition Spec_FindThinLv :: "ThinPoolLvSpec \<Rightarrow> string \<Rightarrow> ThinLvSpec option" where
  "Spec_FindThinLv s name = find_thin_spec (ps_ThinLvs s) name"

fun find_thin_status :: "ThinLvStatus list \<Rightarrow> string \<Rightarrow> ThinLvStatus option" where
  "find_thin_status [] name = None"
| "find_thin_status (l # ls) name =
     (if lst_Name l = name then Some l else find_thin_status ls name)"

definition Status_FindThinLv :: "ThinPoolLvStatus \<Rightarrow> string \<Rightarrow> ThinLvStatus option" where
  "Status_FindThinLv s name = find_thin_status (pst_ThinLvs s) name"

definition modify_thin_spec ::
  "string \<Rightarrow> (ThinLvSpec \<Rightarrow> ThinLvSpec) \<Rightarrow> ThinPoolLv \<Rightarrow> ThinPoolLv" where
  "modify_thin_spec name f p =
     p\<lparr>p_Spec := (p_Spec p)\<lparr>ps_ThinLvs :=
        update_first (\<lambda>l. ls_Name l = name) f (ps_ThinLvs (p_Spec p))\<rparr>\<rparr>"

definition modify_thin_status ::
  "string \<Rightarrow> (ThinLvStatus \<Rightarrow> ThinLvStatus) \<Rightarrow> ThinPoolLv \<Rightarrow> ThinPoolLv" where
  "modify_thin_status name f p =
     p\<lparr>p_Status := (p_Status p)\<lparr>pst_ThinLvs :=
        update_first (\<lambda>l. lst_Name l = name) f (pst_ThinLvs (p_Status p))\<rparr>\<rparr>"

text \<open>The thin LVs of a pool: those with a spec, each with its status if it has one, then the
  statuses that have no spec.\<close>

record ThinLv =
  tl_Spec :: "ThinLvSpec option"
  tl_Status :: "ThinLvStatus option"

fun ThinLvs_specs :: "ThinPoolLv \<Rightarrow> ThinLvSpec list \<Rightarrow> ThinLv list \<Rightarrow> ThinLv list" where
  "ThinLvs_specs s [] thinLvs = thinLvs"
| "ThinLvs_specs s (spec # specs) thinLvs =
     ThinLvs_specs s specs
       (thinLvs @ [\<lparr>tl_Spec = Some spec, tl_Status = Status_FindThinLv (p_Status s) (ls_Name spec)\<rparr>])"

fun ThinLvs_statuses :: "ThinPoolLv \<Rightarrow> ThinLvStatus list \<Rightarrow> ThinLv list \<Rightarrow> ThinLv list" where
  "ThinLvs_statuses s [] thinLvs = thinLvs"
| "ThinLvs_statuses s (status # statuses) thinLvs =
     ThinLvs_statuses s statuses
       (if Spec_FindThinLv (p_Spec s) (lst_Name status) = None
        then thinLvs @ [\<lparr>tl_Spec = None, tl_Status = Some status\<rparr>] else thinLvs)"

definition ThinLvs :: "ThinPoolLv \<Rightarrow> ThinLv list" where
  "ThinLvs s =
     ThinLvs_statuses s (pst_ThinLvs (p_Status s)) (ThinLvs_specs s (ps_ThinLvs (p_Spec s)) [])"

section \<open>NBDExport\<close>

record NBDExportSpec =
  es_Export :: string
  es_Path :: string
  es_Host :: string
  es_SizeBytes :: int
  es_Clients :: "string list"

record NBDExportStatus =
  est_ObservedGeneration :: int
  est_Conditions :: "Condition list"
  est_URI :: string

record NBDExport =
  e_Meta :: ObjectMeta
  e_Spec :: NBDExportSpec
  e_Status :: NBDExportStatus

section \<open>The lookup contract\<close>

text \<open>
  The spec and the status of a pool are lists with the name as the key (listType=map,
  listMapKey=name); the reconcilers look both up by name.
\<close>

locale keyed_list =
  fixes lookup :: "'s \<Rightarrow> string \<Rightarrow> 'e option"
    and elems :: "'s \<Rightarrow> 'e list"
    and key :: "'e \<Rightarrow> string"
  assumes lookup_Some: "lookup s k = Some e \<Longrightarrow> e \<in> set (elems s) \<and> key e = k"
    and lookup_None: "lookup s k = None \<longleftrightarrow> (\<forall>e\<in>set (elems s). key e \<noteq> k)"
begin

lemma lookup_elem: "e \<in> set (elems s) \<Longrightarrow> \<exists>e'. lookup s (key e) = Some e'"
  using lookup_None [of s "key e"] by auto

lemma lookup_distinct:
  assumes "distinct (map key (elems s))" and "e \<in> set (elems s)"
  shows "lookup s (key e) = Some e"
proof -
  obtain e' where e': "lookup s (key e) = Some e'" using lookup_elem [OF assms(2)] by blast
  then have "e' \<in> set (elems s)" and "key e' = key e" using lookup_Some by blast+
  with assms have "e' = e" by (auto simp: distinct_map inj_on_def)
  with e' show ?thesis by simp
qed

lemma lookup_iff:
  "distinct (map key (elems s)) \<Longrightarrow> lookup s k = Some e \<longleftrightarrow> e \<in> set (elems s) \<and> key e = k"
  using lookup_Some lookup_distinct by metis

end

lemma find_thin_spec_Some: "find_thin_spec ls n = Some l \<Longrightarrow> l \<in> set ls \<and> ls_Name l = n"
  by (induction ls) (auto split: if_splits)

lemma find_thin_spec_None: "find_thin_spec ls n = None \<longleftrightarrow> (\<forall>l\<in>set ls. ls_Name l \<noteq> n)"
  by (induction ls) auto

lemma find_thin_status_Some:
  "find_thin_status ls n = Some l \<Longrightarrow> l \<in> set ls \<and> lst_Name l = n"
  by (induction ls) (auto split: if_splits)

lemma find_thin_status_None:
  "find_thin_status ls n = None \<longleftrightarrow> (\<forall>l\<in>set ls. lst_Name l \<noteq> n)"
  by (induction ls) auto

interpretation spec_lvs: keyed_list Spec_FindThinLv ps_ThinLvs ls_Name
  by unfold_locales
    (auto simp: Spec_FindThinLv_def find_thin_spec_None dest: find_thin_spec_Some)

interpretation status_lvs: keyed_list Status_FindThinLv pst_ThinLvs lst_Name
  by unfold_locales
    (auto simp: Status_FindThinLv_def find_thin_status_None dest: find_thin_status_Some)

lemma find_thin_spec_update_same:
  "(\<And>l. ls_Name (f l) = ls_Name l) \<Longrightarrow>
    find_thin_spec (update_first (\<lambda>l. ls_Name l = n) f ls) n = map_option f (find_thin_spec ls n)"
  by (induction ls) auto

lemma find_thin_spec_update_other:
  "(\<And>l. ls_Name (f l) = ls_Name l) \<Longrightarrow> m \<noteq> n \<Longrightarrow>
    find_thin_spec (update_first (\<lambda>l. ls_Name l = n) f ls) m = find_thin_spec ls m"
  by (induction ls) auto

lemma find_thin_status_update_same:
  "(\<And>l. lst_Name (f l) = lst_Name l) \<Longrightarrow>
    find_thin_status (update_first (\<lambda>l. lst_Name l = n) f ls) n =
      map_option f (find_thin_status ls n)"
  by (induction ls) auto

lemma find_thin_spec_append:
  "find_thin_spec (ls @ ms) n =
    (case find_thin_spec ls n of Some l \<Rightarrow> Some l | None \<Rightarrow> find_thin_spec ms n)"
  by (induction ls) auto

lemma modify_thin_spec_frame [simp]:
  "p_Meta (modify_thin_spec n f p) = p_Meta p"
  "p_Status (modify_thin_spec n f p) = p_Status p"
  "ps_VgName (p_Spec (modify_thin_spec n f p)) = ps_VgName (p_Spec p)"
  "ps_ActiveOnNode (p_Spec (modify_thin_spec n f p)) = ps_ActiveOnNode (p_Spec p)"
  by (simp_all add: modify_thin_spec_def)

lemma modify_thin_status_frame [simp]:
  "p_Meta (modify_thin_status n f p) = p_Meta p"
  "p_Spec (modify_thin_status n f p) = p_Spec p"
  "pst_ActiveOnNode (p_Status (modify_thin_status n f p)) = pst_ActiveOnNode (p_Status p)"
  "pst_Conditions (p_Status (modify_thin_status n f p)) = pst_Conditions (p_Status p)"
  by (simp_all add: modify_thin_status_def)

section \<open>ThinLvs\<close>

lemma ThinLvs_specs_eq:
  "ThinLvs_specs s specs acc = acc @
    map (\<lambda>spec. \<lparr>tl_Spec = Some spec, tl_Status = Status_FindThinLv (p_Status s) (ls_Name spec)\<rparr>)
      specs"
  by (induction specs arbitrary: acc) auto

lemma ThinLvs_statuses_eq:
  "ThinLvs_statuses s statuses acc = acc @
    map (\<lambda>status. \<lparr>tl_Spec = None, tl_Status = Some status\<rparr>)
      (filter (\<lambda>status. Spec_FindThinLv (p_Spec s) (lst_Name status) = None) statuses)"
  by (induction statuses arbitrary: acc) auto

lemma ThinLvs_eq:
  "ThinLvs s =
    map (\<lambda>spec. \<lparr>tl_Spec = Some spec, tl_Status = Status_FindThinLv (p_Status s) (ls_Name spec)\<rparr>)
      (ps_ThinLvs (p_Spec s)) @
    map (\<lambda>status. \<lparr>tl_Spec = None, tl_Status = Some status\<rparr>)
      (filter (\<lambda>status. Spec_FindThinLv (p_Spec s) (lst_Name status) = None)
        (pst_ThinLvs (p_Status s)))"
  by (simp add: ThinLvs_def ThinLvs_specs_eq ThinLvs_statuses_eq)

text \<open>The name under which an entry of ThinLvs is listed.\<close>

definition ThinLv_name :: "ThinLv \<Rightarrow> string" where
  "ThinLv_name t = (case tl_Spec t of Some spec \<Rightarrow> ls_Name spec
                    | None \<Rightarrow> (case tl_Status t of Some status \<Rightarrow> lst_Name status | None \<Rightarrow> []))"

lemma map_ThinLv_name:
  "map ThinLv_name (ThinLvs s) =
    map ls_Name (ps_ThinLvs (p_Spec s)) @
    map lst_Name (filter (\<lambda>status. Spec_FindThinLv (p_Spec s) (lst_Name status) = None)
        (pst_ThinLvs (p_Status s)))"
  by (simp add: ThinLvs_eq ThinLv_name_def comp_def)

end
