(* ===== verification/Go_IO.thy ===== *)
theory Go_IO
  imports Api_Types "HOL-Library.Word" "HOL-Library.AList"
begin

text \<open>
  The procedures of the program and what they do to the outside world.

  The program runs against code that is not in the repository: the Kubernetes API server, the
  host's lvm, dmsetup, nbd-client and mount commands, qemu-storage-daemon.  None of it is
  given a definition here.  A procedure issues calls; the list of the calls made so far is
  the trace, and the environment answers each call by an arbitrary function of the trace
  before the call and of its arguments.  Every behaviour of the outside, other controllers
  changing objects between two calls included, is such a function, so a theorem about a
  procedure in every environment and every world is a theorem about all of them.

  What the process itself keeps in memory (the tables of NBD devices and of QMP block
  devices, the running background workers) is the rest of the world.
\<close>

section \<open>Calls and the environment\<close>

datatype 'o api_call =
    ApiGet string
  | ApiList
  | ApiCreate 'o
  | ApiUpdate 'o
  | ApiUpdateStatus 'o
  | ApiDelete 'o "string option"

datatype qmp_command =
    QmpBlockdevAdd string string
  | QmpBlockdevDel string
  | QmpBlockExportAdd string string string
  | QmpBlockExportDel string
  | QmpQueryBlockExports
  | QmpQuit

text \<open>The work items of the node controller (ddWork and blkdiscardWork).\<close>

datatype work =
    DdWork string string
  | BlkdiscardWork string int

text \<open>The calls on the file system, of the CSI node service and of the start-up, and on the mounter of
  the vendored mount-utils.  A file that is open is named by its path.\<close>

datatype os_call =
    OsMkdirAll string
  | OsRemove string
  | OsSymlink string string
  | OsLstat string
  | OsStat string
  | OsCreateTemp string string
  | OsChmod string
  | OsWriteString string string
  | OsCloseFile string
  | OsRename string string

datatype mount_call =
    IsMountPoint string
  | MountFs string string string "string list"
  | CleanupMountPoint string
  | FormatAndMount string string string "string list"
  | NeedResize string string
  | ResizeFs string string

datatype call =
    VolumeCall "Volume api_call"
  | SnapshotCall "Snapshot api_call"
  | PoolCall "ThinPoolLv api_call"
  | ExportCall "NBDExport api_call"
  | Exec "string list"
  | StatHost string
  | GlobNbd
  | QmpConnect
  | Qmp qmp_command
  | WorkerStart string work
  | WorkerPoll string
  | WorkerCancel string
  | OsCall os_call
  | MountCall mount_call

text \<open>
  The API client for one kind of object.  Get returns the object of a name; a successful
  Create, Update or Status().Update returns the object as the server stored it, which is
  what the client decodes into the caller's object.
\<close>

record 'o api_client =
  cl_Get :: "call list \<Rightarrow> string \<Rightarrow> goerr + 'o"
  cl_List :: "call list \<Rightarrow> goerr + 'o list"
  cl_Create :: "call list \<Rightarrow> 'o \<Rightarrow> goerr + 'o"
  cl_Update :: "call list \<Rightarrow> 'o \<Rightarrow> goerr + 'o"
  cl_UpdateStatus :: "call list \<Rightarrow> 'o \<Rightarrow> goerr + 'o"
  cl_Delete :: "call list \<Rightarrow> 'o \<Rightarrow> goerr option"

text \<open>What running a command gives: its output, with the exit status or the reason it did
  not run.\<close>

datatype exec_outcome =
    ExecOk string
  | ExecExit int string
  | ExecFailed string string

datatype stat_outcome =
    StatExists
  | StatNotExist
  | StatFailed string

record env =
  LocalNodeName :: string
  Namespace :: string
  PodIP :: string
  volumes :: "Volume api_client"
  snapshots :: "Snapshot api_client"
  pools :: "ThinPoolLv api_client"
  exports :: "NBDExport api_client"
  env_exec :: "call list \<Rightarrow> string list \<Rightarrow> exec_outcome"
  env_stat :: "call list \<Rightarrow> string \<Rightarrow> stat_outcome"
  env_glob :: "call list \<Rightarrow> string list"
  env_qmp_connect :: "call list \<Rightarrow> goerr option"
  env_qmp :: "call list \<Rightarrow> qmp_command \<Rightarrow> string + string list"
  env_worker :: "call list \<Rightarrow> string \<Rightarrow> goerr option option"
  env_os :: "call list \<Rightarrow> os_call \<Rightarrow> goerr + bool"
  env_temp :: "call list \<Rightarrow> goerr + string"
  env_mount :: "call list \<Rightarrow> mount_call \<Rightarrow> goerr + bool"
  env_now :: "call list \<Rightarrow> nat"

record world =
  trace :: "call list"
  nbd_clients :: "(string \<times> string) list"
  blockdevs_m :: "(string \<times> string) list"
  blockdevs_count :: "64 word"
  nbd_Shutdown :: bool
  shutdown_closed :: bool
  workers_m :: "(string \<times> work) list"

definition init_world :: world where
  "init_world = \<lparr>trace = [], nbd_clients = [], blockdevs_m = [], blockdevs_count = 0,
     nbd_Shutdown = False, shutdown_closed = False, workers_m = []\<rparr>"

section \<open>Procedures\<close>

type_synonym 'a io = "env \<Rightarrow> world \<Rightarrow> (goerr + 'a) \<times> world"

definition ret :: "'a \<Rightarrow> 'a io" where
  "ret x E w = (Inr x, w)"

definition fail :: "goerr \<Rightarrow> 'a io" where
  "fail e E w = (Inl e, w)"

definition bindE :: "'a io \<Rightarrow> ('a \<Rightarrow> 'b io) \<Rightarrow> 'b io" where
  "bindE m k E w = (case m E w of (Inl e, w') \<Rightarrow> (Inl e, w') | (Inr x, w') \<Rightarrow> k x E w')"

definition thenE :: "'a io \<Rightarrow> 'b io \<Rightarrow> 'b io" where
  "thenE m k = bindE m (\<lambda>x. k)"

text \<open>A procedure whose error the caller inspects or drops.\<close>

definition attempt :: "'a io \<Rightarrow> (goerr + 'a) io" where
  "attempt m E w = (case m E w of (r, w') \<Rightarrow> (Inr r, w'))"

definition ignoreErr :: "'a io \<Rightarrow> unit io" where
  "ignoreErr m = bindE (attempt m) (\<lambda>x. ret ())"

text \<open>Returning the error of a call that gives one, and lifting a pure result.\<close>

definition liftE :: "goerr + 'a \<Rightarrow> 'a io" where
  "liftE r = (case r of Inl e \<Rightarrow> fail e | Inr x \<Rightarrow> ret x)"

definition returnErr :: "goerr option \<Rightarrow> unit io" where
  "returnErr err = (case err of None \<Rightarrow> ret () | Some e \<Rightarrow> fail e)"

definition whenE :: "bool \<Rightarrow> unit io \<Rightarrow> unit io" where
  "whenE b m = (if b then m else ret ())"

definition askEnv :: "(env \<Rightarrow> 'a) \<Rightarrow> 'a io" where
  "askEnv f E w = (Inr (f E), w)"

definition getW :: "(world \<Rightarrow> 'a) \<Rightarrow> 'a io" where
  "getW f E w = (Inr (f w), w)"

text \<open>In-memory state is changed through modifyW, which never touches the trace.\<close>

definition modifyW :: "(world \<Rightarrow> world) \<Rightarrow> unit io" where
  "modifyW f E w = (Inr (), (f w)\<lparr>trace := trace w\<rparr>)"

definition timeNow :: "nat io" where
  "timeNow E w = (Inr (env_now E (trace w)), w)"

text \<open>The one primitive that talks to the outside: record the call, return the answer.\<close>

definition invoke :: "(env \<Rightarrow> call list \<Rightarrow> goerr + 'a) \<Rightarrow> call \<Rightarrow> 'a io" where
  "invoke f c E w = (f E (trace w), w\<lparr>trace := trace w @ [c]\<rparr>)"

text \<open>A loop over a list that carries a state and stops at the first error.\<close>

fun foldE :: "('x \<Rightarrow> 's \<Rightarrow> 's io) \<Rightarrow> 'x list \<Rightarrow> 's \<Rightarrow> 's io" where
  "foldE f [] s = ret s"
| "foldE f (x # xs) s = bindE (f x s) (foldE f xs)"

lemmas [io_defs] = ret_def fail_def bindE_def thenE_def attempt_def ignoreErr_def
  liftE_def returnErr_def whenE_def askEnv_def getW_def modifyW_def timeNow_def invoke_def

section \<open>The API clients\<close>

text \<open>The error of a delete is returned like any other.\<close>

definition os_do :: "os_call \<Rightarrow> bool io" where
  "os_do c = invoke (\<lambda>E h. env_os E h c) (OsCall c)"

text \<open>os.Remove of a path that may be missing.\<close>

definition remove_if_exists :: "string \<Rightarrow> unit io" where
  "remove_if_exists path =
     bindE (attempt (os_do (OsRemove path))) (\<lambda>removed.
       case removed of
         Inr u \<Rightarrow> ret ()
       | Inl err \<Rightarrow> if err \<noteq> ErrNotExist then fail err else ret ())"

definition from_err :: "goerr option \<Rightarrow> goerr + unit" where
  "from_err e = (case e of None \<Rightarrow> Inr () | Some x \<Rightarrow> Inl x)"

definition api_get ::
  "(env \<Rightarrow> 'o api_client) \<Rightarrow> ('o api_call \<Rightarrow> call) \<Rightarrow> string \<Rightarrow> 'o io" where
  "api_get sel wrap name = invoke (\<lambda>E h. cl_Get (sel E) h name) (wrap (ApiGet name))"

definition api_list :: "(env \<Rightarrow> 'o api_client) \<Rightarrow> ('o api_call \<Rightarrow> call) \<Rightarrow> 'o list io" where
  "api_list sel wrap = invoke (\<lambda>E h. cl_List (sel E) h) (wrap ApiList)"

definition api_create ::
  "(env \<Rightarrow> 'o api_client) \<Rightarrow> ('o api_call \<Rightarrow> call) \<Rightarrow> 'o \<Rightarrow> 'o io" where
  "api_create sel wrap x = invoke (\<lambda>E h. cl_Create (sel E) h x) (wrap (ApiCreate x))"

definition api_update ::
  "(env \<Rightarrow> 'o api_client) \<Rightarrow> ('o api_call \<Rightarrow> call) \<Rightarrow> 'o \<Rightarrow> 'o io" where
  "api_update sel wrap x = invoke (\<lambda>E h. cl_Update (sel E) h x) (wrap (ApiUpdate x))"

definition api_update_status ::
  "(env \<Rightarrow> 'o api_client) \<Rightarrow> ('o api_call \<Rightarrow> call) \<Rightarrow> 'o \<Rightarrow> 'o io" where
  "api_update_status sel wrap x =
     invoke (\<lambda>E h. cl_UpdateStatus (sel E) h x) (wrap (ApiUpdateStatus x))"

definition api_delete ::
  "(env \<Rightarrow> 'o api_client) \<Rightarrow> ('o api_call \<Rightarrow> call) \<Rightarrow> 'o \<Rightarrow> string option \<Rightarrow> unit io" where
  "api_delete sel wrap x propagation =
     invoke (\<lambda>E h. from_err (cl_Delete (sel E) h x)) (wrap (ApiDelete x propagation))"

lemmas api_defs = api_get_def api_list_def api_create_def api_update_def
  api_update_status_def api_delete_def

section \<open>Reading results\<close>

lemma bindE_Inr_iff:
  "bindE m k E w = (Inr y, w2) \<longleftrightarrow>
    (\<exists>x w1. m E w = (Inr x, w1) \<and> k x E w1 = (Inr y, w2))"
  by (auto simp: bindE_def split: prod.splits sum.splits)

lemma bindE_Inl_iff:
  "bindE m k E w = (Inl e, w2) \<longleftrightarrow>
    m E w = (Inl e, w2) \<or> (\<exists>x w1. m E w = (Inr x, w1) \<and> k x E w1 = (Inl e, w2))"
  by (auto simp: bindE_def split: prod.splits sum.splits)

lemma ret_iff [simp]: "ret x E w = (r, w2) \<longleftrightarrow> r = Inr x \<and> w2 = w"
  by (auto simp: ret_def)

lemma fail_iff [simp]: "fail e E w = (r, w2) \<longleftrightarrow> r = Inl e \<and> w2 = w"
  by (auto simp: fail_def)

lemma bindE_ret [simp]: "bindE (ret x) k = k x"
  by (simp add: bindE_def ret_def fun_eq_iff)

lemma bindE_fail [simp]: "bindE (fail e) k = fail e"
  by (simp add: bindE_def fail_def fun_eq_iff)

lemma ret_right [simp]: "bindE m ret = m"
  by (auto simp: bindE_def ret_def fun_eq_iff split: prod.splits sum.splits)

lemma bindE_assoc: "bindE (bindE m f) g = bindE m (\<lambda>x. bindE (f x) g)"
  by (auto simp: bindE_def fun_eq_iff split: prod.splits sum.splits)

lemma whenE_True [simp]: "whenE True m = m" and whenE_False [simp]: "whenE False m = ret ()"
  by (simp_all add: whenE_def)

lemma askEnv_iff [simp]: "askEnv f E w = (r, w2) \<longleftrightarrow> r = Inr (f E) \<and> w2 = w"
  by (auto simp: askEnv_def)

lemma getW_iff [simp]: "getW f E w = (r, w2) \<longleftrightarrow> r = Inr (f w) \<and> w2 = w"
  by (auto simp: getW_def)

lemma timeNow_iff [simp]: "timeNow E w = (r, w2) \<longleftrightarrow> r = Inr (env_now E (trace w)) \<and> w2 = w"
  by (auto simp: timeNow_def)

lemma bindE_askEnv [simp]: "bindE (askEnv f) k E w = k (f E) E w"
  by (simp add: bindE_def askEnv_def)

lemma bindE_getW [simp]: "bindE (getW f) k E w = k (f w) E w"
  by (simp add: bindE_def getW_def)

lemma bindE_timeNow [simp]: "bindE timeNow k E w = k (env_now E (trace w)) E w"
  by (simp add: bindE_def timeNow_def)

lemma attempt_iff: "attempt m E w = (r, w2) \<longleftrightarrow> (\<exists>r1. m E w = (r1, w2) \<and> r = Inr r1)"
  by (auto simp: attempt_def split: prod.splits)

lemma thenE_Inr_iff:
  "thenE m k E w = (Inr y, w2) \<longleftrightarrow> (\<exists>x w1. m E w = (Inr x, w1) \<and> k E w1 = (Inr y, w2))"
  by (simp add: thenE_def bindE_Inr_iff)

lemma thenE_Inl_iff:
  "thenE m k E w = (Inl e, w2) \<longleftrightarrow>
    m E w = (Inl e, w2) \<or> (\<exists>x w1. m E w = (Inr x, w1) \<and> k E w1 = (Inl e, w2))"
  by (simp add: thenE_def bindE_Inl_iff)

lemma invoke_iff:
  "invoke f c E w = (r, w2) \<longleftrightarrow> r = f E (trace w) \<and> w2 = w\<lparr>trace := trace w @ [c]\<rparr>"
  by (auto simp: invoke_def)

lemmas io_result = bindE_Inr_iff thenE_Inr_iff

text \<open>A run of a branching procedure is a run of one of its branches.\<close>

lemma case_sum_run:
  "(case r of Inl e \<Rightarrow> f e | Inr x \<Rightarrow> g x) E w = y \<longleftrightarrow>
    (\<exists>e. r = Inl e \<and> f e E w = y) \<or> (\<exists>x. r = Inr x \<and> g x E w = y)"
  by (cases r) auto

lemma case_option_run:
  "(case r of None \<Rightarrow> f | Some x \<Rightarrow> g x) E w = y \<longleftrightarrow>
    (r = None \<and> f E w = y) \<or> (\<exists>x. r = Some x \<and> g x E w = y)"
  by (cases r) auto

lemma case_prod_run:
  "(case r of (a, b) \<Rightarrow> f a b) E w = y \<longleftrightarrow> (\<exists>a b. r = (a, b) \<and> f a b E w = y)"
  by (cases r) auto

lemma if_run: "(if b then m else k) E w = y \<longleftrightarrow> (b \<and> m E w = y) \<or> (\<not> b \<and> k E w = y)"
  by auto

lemma liftE_run: "liftE r E w = (y, w2) \<longleftrightarrow> r = y \<and> w2 = w"
  by (cases r) (auto simp: liftE_def)

lemma returnErr_run:
  "returnErr r E w = (y, w2) \<longleftrightarrow> y = (case r of None \<Rightarrow> Inr () | Some e \<Rightarrow> Inl e) \<and> w2 = w"
  by (cases r) (auto simp: returnErr_def)

lemma whenE_run:
  "whenE b m E w = (y, w2) \<longleftrightarrow> (if b then m E w = (y, w2) else y = Inr () \<and> w2 = w)"
  by (auto simp: whenE_def)

lemma ignoreErr_run: "ignoreErr m E w = (y, w2) \<longleftrightarrow> y = Inr () \<and> w2 = snd (m E w)"
  by (cases "m E w") (auto simp: ignoreErr_def bindE_def attempt_def ret_def)

lemmas io_run = bindE_Inr_iff thenE_Inr_iff attempt_iff case_sum_run case_option_run case_prod_run
  if_run liftE_run returnErr_run whenE_run ignoreErr_run

section \<open>Which calls a procedure may issue\<close>

text \<open>
  The procedure only appends to the trace, and only calls that satisfy P, whether it
  succeeds or fails and whatever the environment answers.
\<close>

definition emits :: "(env \<Rightarrow> call \<Rightarrow> bool) \<Rightarrow> 'a io \<Rightarrow> bool" where
  "emits P m \<longleftrightarrow>
     (\<forall>E w. \<exists>cs. trace (snd (m E w)) = trace w @ cs \<and> (\<forall>c\<in>set cs. P E c))"

lemma emits_ret [emits_intros]: "emits P (ret x)"
  by (simp add: emits_def ret_def)

lemma emits_fail [emits_intros]: "emits P (fail e)"
  by (simp add: emits_def fail_def)

lemma emits_askEnv [emits_intros]: "emits P (askEnv f)"
  by (simp add: emits_def askEnv_def)

lemma emits_getW [emits_intros]: "emits P (getW f)"
  by (simp add: emits_def getW_def)

lemma emits_modifyW [emits_intros]: "emits P (modifyW f)"
  by (simp add: emits_def modifyW_def)

lemma emits_timeNow [emits_intros]: "emits P timeNow"
  by (simp add: emits_def timeNow_def)

lemma emits_invoke [emits_intros]: "(\<And>E. P E c) \<Longrightarrow> emits P (invoke f c)"
  by (simp add: emits_def invoke_def)

lemma emits_bindE [emits_intros]:
  assumes m: "emits P m" and k: "\<And>x. emits P (k x)"
  shows "emits P (bindE m k)"
  unfolding emits_def
proof (intro allI)
  fix E w
  obtain r w1 where mw: "m E w = (r, w1)" by (cases "m E w")
  from m obtain cs where cs: "trace w1 = trace w @ cs" "\<forall>c\<in>set cs. P E c"
    unfolding emits_def using mw by (metis snd_conv)
  show "\<exists>cs. trace (snd (bindE m k E w)) = trace w @ cs \<and> (\<forall>c\<in>set cs. P E c)"
  proof (cases r)
    case (Inl e)
    with mw cs show ?thesis by (auto simp: bindE_def)
  next
    case (Inr x)
    from k [of x] obtain ds where "trace (snd (k x E w1)) = trace w1 @ ds" "\<forall>c\<in>set ds. P E c"
      unfolding emits_def by blast
    with mw cs Inr have "trace (snd (bindE m k E w)) = trace w @ (cs @ ds)"
      and "\<forall>c\<in>set (cs @ ds). P E c"
      by (auto simp: bindE_def)
    then show ?thesis by blast
  qed
qed

lemma emits_thenE [emits_intros]: "emits P m \<Longrightarrow> emits P k \<Longrightarrow> emits P (thenE m k)"
  by (simp add: thenE_def emits_bindE)

lemma emits_attempt [emits_intros]: "emits P m \<Longrightarrow> emits P (attempt m)"
  by (simp add: emits_def attempt_def split_beta)

lemma emits_ignoreErr [emits_intros]: "emits P m \<Longrightarrow> emits P (ignoreErr m)"
  by (simp add: ignoreErr_def emits_intros)

lemma emits_if [emits_intros]:
  "(b \<Longrightarrow> emits P m) \<Longrightarrow> (\<not> b \<Longrightarrow> emits P k) \<Longrightarrow> emits P (if b then m else k)"
  by simp

lemma emits_whenE [emits_intros]: "(b \<Longrightarrow> emits P m) \<Longrightarrow> emits P (whenE b m)"
  by (simp add: whenE_def emits_ret)

lemma emits_liftE [emits_intros]: "emits P (liftE r)"
  by (cases r) (simp_all add: liftE_def emits_intros)

lemma emits_bind_liftE:
  "(\<And>x. r = Inr x \<Longrightarrow> emits P (k x)) \<Longrightarrow> emits P (bindE (liftE r) k)"
  by (cases r) (simp_all add: liftE_def emits_fail)

lemma emits_returnErr [emits_intros]: "emits P (returnErr r)"
  by (cases r) (simp_all add: returnErr_def emits_intros)

lemma emits_case_option [emits_intros]:
  "(x = None \<Longrightarrow> emits P m) \<Longrightarrow> (\<And>y. x = Some y \<Longrightarrow> emits P (k y)) \<Longrightarrow>
    emits P (case x of None \<Rightarrow> m | Some y \<Rightarrow> k y)"
  by (cases x) auto

lemma emits_case_sum [emits_intros]:
  "(\<And>y. x = Inl y \<Longrightarrow> emits P (m y)) \<Longrightarrow> (\<And>y. x = Inr y \<Longrightarrow> emits P (k y)) \<Longrightarrow>
    emits P (case x of Inl y \<Rightarrow> m y | Inr y \<Rightarrow> k y)"
  by (cases x) auto

lemma emits_case_prod [emits_intros]:
  "(\<And>a b. x = (a, b) \<Longrightarrow> emits P (k a b)) \<Longrightarrow> emits P (case x of (a, b) \<Rightarrow> k a b)"
  by (cases x) auto

lemma emits_case_list [emits_intros]:
  "(x = [] \<Longrightarrow> emits P m) \<Longrightarrow> (\<And>y ys. x = y # ys \<Longrightarrow> emits P (k y ys)) \<Longrightarrow>
    emits P (case x of [] \<Rightarrow> m | y # ys \<Rightarrow> k y ys)"
  by (cases x) auto

lemma emits_Let [emits_intros]: "(\<And>y. y = x \<Longrightarrow> emits P (k y)) \<Longrightarrow> emits P (let y = x in k y)"
  by simp

lemma emits_foldE [emits_intros]:
  "(\<And>x s. x \<in> set xs \<Longrightarrow> emits P (f x s)) \<Longrightarrow> emits P (foldE f xs s)"
  by (induction xs arbitrary: s) (auto intro!: emits_intros)

lemma emits_mono: "emits P m \<Longrightarrow> (\<And>E c. P E c \<Longrightarrow> Q E c) \<Longrightarrow> emits Q m"
  unfolding emits_def by metis

lemma emits_api [emits_intros]:
  "(\<And>E. P E (wrap (ApiGet n))) \<Longrightarrow> emits P (api_get sel wrap n)"
  "(\<And>E. P E (wrap ApiList)) \<Longrightarrow> emits P (api_list sel wrap)"
  "(\<And>E. P E (wrap (ApiCreate x))) \<Longrightarrow> emits P (api_create sel wrap x)"
  "(\<And>E. P E (wrap (ApiUpdate x))) \<Longrightarrow> emits P (api_update sel wrap x)"
  "(\<And>E. P E (wrap (ApiUpdateStatus x))) \<Longrightarrow> emits P (api_update_status sel wrap x)"
  "(\<And>E. P E (wrap (ApiDelete x p))) \<Longrightarrow> emits P (api_delete sel wrap x p)"
  by (simp_all add: api_defs emits_invoke)

text \<open>The calls of one run.\<close>

definition new_calls :: "world \<Rightarrow> world \<Rightarrow> call list" where
  "new_calls w w2 = drop (length (trace w)) (trace w2)"

lemma emits_new_calls:
  assumes "emits P m" and "m E w = (r, w2)" and "c \<in> set (new_calls w w2)"
  shows "P E c"
proof -
  from assms(1) have "\<exists>cs. trace (snd (m E w)) = trace w @ cs \<and> (\<forall>c\<in>set cs. P E c)"
    by (simp add: emits_def)
  with assms(2) obtain cs where "trace w2 = trace w @ cs" "\<forall>c\<in>set cs. P E c" by auto
  with assms(3) show ?thesis by (auto simp: new_calls_def)
qed

lemma new_calls_self [simp]: "new_calls w w = []"
  by (simp add: new_calls_def)

text \<open>
  What every call of a run satisfies, with the world in which the run began: the first answers
  of the run are those at that world's trace.
\<close>

definition issues :: "'a io \<Rightarrow> (env \<Rightarrow> world \<Rightarrow> call \<Rightarrow> bool) \<Rightarrow> bool" where
  "issues m P \<longleftrightarrow> (\<forall>E w c. c \<in> set (new_calls w (snd (m E w))) \<longrightarrow> P E w c)"

lemma issuesI:
  "(\<And>E w r w2 c. m E w = (r, w2) \<Longrightarrow> c \<in> set (new_calls w w2) \<Longrightarrow> P E w c) \<Longrightarrow> issues m P"
  unfolding issues_def by (metis prod.collapse)

lemma emits_issues: "emits P m \<Longrightarrow> issues m (\<lambda>E w. P E)"
  by (rule issuesI) (rule emits_new_calls)

section \<open>What a procedure guarantees when it succeeds\<close>

text \<open>
  A result holds of every successful run.  The rules follow the structure of the procedure,
  as for the calls.
\<close>

definition yields :: "'a io \<Rightarrow> (env \<Rightarrow> world \<Rightarrow> 'a \<Rightarrow> world \<Rightarrow> bool) \<Rightarrow> bool" where
  "yields m Q \<longleftrightarrow> (\<forall>E w x w2. m E w = (Inr x, w2) \<longrightarrow> Q E w x w2)"

lemma yieldsI: "(\<And>E w x w2. m E w = (Inr x, w2) \<Longrightarrow> Q E w x w2) \<Longrightarrow> yields m Q"
  by (simp add: yields_def)

lemma yieldsD: "yields m Q \<Longrightarrow> m E w = (Inr x, w2) \<Longrightarrow> Q E w x w2"
  by (simp add: yields_def)

lemma foldE_append: "foldE f (xs @ ys) s = bindE (foldE f xs s) (foldE f ys)"
proof (induction xs arbitrary: s)
  case Nil
  then show ?case by simp
next
  case (Cons x xs)
  then have "foldE f (xs @ ys) = (\<lambda>t. bindE (foldE f xs t) (foldE f ys))"
    by (intro ext) simp
  then show ?case by (simp add: bindE_assoc)
qed

text \<open>An invariant of the loop state holds at the end of a successful loop.\<close>

lemma foldE_invariant:
  assumes "foldE f xs s E w = (Inr s2, w2)" and "I s"
    and "\<And>x t w t2 w2. x \<in> set xs \<Longrightarrow> I t \<Longrightarrow> f x t E w = (Inr t2, w2) \<Longrightarrow> I t2"
  shows "I s2"
  using assms
proof (induction xs arbitrary: s w)
  case Nil
  then show ?case by simp
next
  case (Cons x xs)
  from Cons.prems(1) obtain t w1 where
    "f x s E w = (Inr t, w1)" and rest: "foldE f xs t E w1 = (Inr s2, w2)"
    by (auto simp: bindE_Inr_iff)
  with Cons.prems(2,3) have "I t" by (meson list.set_intros(1))
  from Cons.IH [OF rest this] Cons.prems(3) show ?case by (meson list.set_intros(2))
qed

section \<open>Indexing\<close>

text \<open>Reading a slice by index; an index out of range panics.\<close>

definition at :: "'a list \<Rightarrow> nat \<Rightarrow> 'a option" where
  "at xs i = (if i < length xs then Some (xs ! i) else None)"

definition index_panic :: "'a io" where
  "index_panic = fail (Panic ''index out of range'')"

lemma emits_index_panic [emits_intros]: "emits P index_panic"
  unfolding index_panic_def by (intro emits_intros)

section \<open>Retrying\<close>

text \<open>retry.RetryOnConflict: a conflict is retried while steps are left.\<close>

fun RetryOnConflict :: "nat \<Rightarrow> 'a io \<Rightarrow> 'a io" where
  "RetryOnConflict 0 fn = fail ErrConflict"
| "RetryOnConflict (Suc steps) fn =
     bindE (attempt fn) (\<lambda>result.
       case result of
         Inr x \<Rightarrow> ret x
       | Inl err \<Rightarrow> if err = ErrConflict \<and> steps > 0 then RetryOnConflict steps fn else fail err)"

lemma emits_RetryOnConflict: "emits P m \<Longrightarrow> emits P (RetryOnConflict n m)"
  by (induction n) (auto intro!: emits_intros)

text \<open>A conflict is retried: the operation succeeds if one of the tries does.\<close>

lemma RetryOnConflict_Inl:
  "RetryOnConflict n m E w = (Inl e, w2) \<Longrightarrow> e \<noteq> ErrConflict \<Longrightarrow> \<exists>w0. m E w0 = (Inl e, w2)"
  by (induction n arbitrary: w) (auto simp: bindE_Inl_iff attempt_iff case_sum_run if_run)

lemma RetryOnConflict_Inr:
  "RetryOnConflict n m E w = (Inr x, w2) \<Longrightarrow> \<exists>w0. m E w0 = (Inr x, w2)"
  by (induction n arbitrary: w) (auto simp: io_run split: if_splits)

end
