(* ===== verification/Commands.thy ===== *)
theory Commands
  imports Go_IO
begin

text \<open>
  internal/common/commands/commands.go: running commands on the host, the idempotent
  wrappers of dmsetup, lvcreate, lvremove and lvextend, the counter kept in LVM tags, and
  nbd-client.  The argument vectors are those the program builds.  The contexts that cancel a
  command, the logging and the locale setting of the child are not modelled;
  LvmCreateProfile, which writes a file at the start-up, is in Startup.
\<close>

record Output =
  ExitCode :: int
  Combined :: string

section \<open>Running commands\<close>

fun outcome_result :: "string list \<Rightarrow> exec_outcome \<Rightarrow> Output \<times> goerr option" where
  "outcome_result command (ExecOk combined) = (\<lparr>ExitCode = 0, Combined = combined\<rparr>, None)"
| "outcome_result command (ExecExit code combined) =
     (\<lparr>ExitCode = code, Combined = combined\<rparr>, Some (CmdExitError command code combined))"
| "outcome_result command (ExecFailed err combined) =
     (\<lparr>ExitCode = -1, Combined = combined\<rparr>, Some (CmdError command err combined))"

definition RunInContainer :: "string list \<Rightarrow> (Output \<times> goerr option) io" where
  "RunInContainer command =
     bindE (invoke (\<lambda>E h. Inr (env_exec E h command)) (Exec command)) (\<lambda>outcome.
       ret (outcome_result command outcome))"

definition RunOnHost :: "string list \<Rightarrow> (Output \<times> goerr option) io" where
  "RunOnHost command = RunInContainer ([''nsenter'', ''--target'', ''1'', ''--all''] @ command)"

text \<open>The caller that only asks whether the command failed: if err != nil return err.\<close>

definition checkErr :: "(Output \<times> goerr option) io \<Rightarrow> Output io" where
  "checkErr m = bindE m (\<lambda>(output, err). case err of None \<Rightarrow> ret output | Some e \<Rightarrow> fail e)"

text \<open>The path is looked up below the host's root.\<close>

definition PathExistsOnHost :: "string \<Rightarrow> bool io" where
  "PathExistsOnHost hostPath =
     bindE (invoke (\<lambda>E h. Inr (env_stat E h hostPath)) (StatHost hostPath)) (\<lambda>outcome.
       case outcome of
         StatExists \<Rightarrow> ret True
       | StatNotExist \<Rightarrow> ret False
       | StatFailed err \<Rightarrow> fail (OtherError err))"

text \<open>A failure whose output contains one of the given texts counts as success.\<close>

definition suppress :: "string list \<Rightarrow> (Output \<times> goerr option) io \<Rightarrow> (Output \<times> goerr option) io" where
  "suppress texts m = bindE m (\<lambda>(output, err).
     if err \<noteq> None \<and> list_ex (\<lambda>t. str_contains (Combined output) t) texts
     then ret (output, None) else ret (output, err))"

section \<open>Device mapper\<close>

definition Dmsetup :: "string list \<Rightarrow> (Output \<times> goerr option) io" where
  "Dmsetup args = RunOnHost (''dmsetup'' # args)"

definition DmsetupCreateIdempotent :: "string list \<Rightarrow> (Output \<times> goerr option) io" where
  "DmsetupCreateIdempotent args = suppress [''resource busy''] (Dmsetup (''create'' # args))"

definition DmsetupSuspendIdempotent :: "string list \<Rightarrow> (Output \<times> goerr option) io" where
  "DmsetupSuspendIdempotent args =
     suppress [''No such device or address''] (Dmsetup (''suspend'' # args))"

definition DmsetupRemoveIdempotent :: "string list \<Rightarrow> (Output \<times> goerr option) io" where
  "DmsetupRemoveIdempotent args =
     suppress [''No such device or address''] (Dmsetup (''remove'' # args))"

section \<open>LVM\<close>

definition Lvm :: "string list \<Rightarrow> (Output \<times> goerr option) io" where
  "Lvm args = RunOnHost (''lvm'' # args)"

text \<open>Bytes outside the safe set become a hash sign and two upper-case hexadecimal digits.\<close>

definition hex_digit :: "nat \<Rightarrow> char" where
  "hex_digit n = (if n < 10 then char_of (48 + n) else char_of (55 + n))"

definition munge_safe :: "char \<Rightarrow> bool" where
  "munge_safe c =
     (let b = (of_char c :: nat)
      in (97 \<le> b \<and> b \<le> 122) \<or> (65 \<le> b \<and> b \<le> 90) \<or> (48 \<le> b \<and> b \<le> 57) \<or>
         c = CHR ''/'' \<or> c = CHR ''='' \<or> c = CHR ''.'' \<or> c = CHR ''-'' \<or> c = CHR ''_'')"

fun munge :: "string \<Rightarrow> string" where
  "munge [] = []"
| "munge (c # input) =
     (if munge_safe c then [c]
      else [CHR ''#'', hex_digit (of_char c div 16), hex_digit (of_char c mod 16)]) @ munge input"

text \<open>config.Domain, the API group of the deployment, has this default.\<close>

definition Domain :: string where
  "Domain = ''kubesan.gitlab.io''"

definition Finalizer :: string where
  "Finalizer = Domain @ ''/finalizer''"

definition CloneSourceLabel :: string where
  "CloneSourceLabel = Domain @ ''/cloneSourcePool''"

definition PopulationNodeLabel :: string where
  "PopulationNodeLabel = Domain @ ''/populationNode''"

definition LvmLvCreateIdempotent :: "string \<Rightarrow> string list \<Rightarrow> (Output \<times> goerr option) io" where
  "LvmLvCreateIdempotent binding args =
     suppress [''already exists'']
       (Lvm (([''lvcreate''] @
              (if binding \<noteq> [] then [''--addtag'', Domain @ ''/binding='' @ munge binding] else []))
             @ args))"

definition LvmLvRemoveIdempotent :: "string list \<Rightarrow> (Output \<times> goerr option) io" where
  "LvmLvRemoveIdempotent args = suppress [''ailed to find''] (Lvm (''lvremove'' # args))"

definition LvmLvExtendIdempotent :: "string list \<Rightarrow> (Output \<times> goerr option) io" where
  "LvmLvExtendIdempotent args =
     suppress [''matches existing size'', ''not larger than existing size'']
       (Lvm (''lvextend'' # args))"

definition LvmLvHasTag :: "string \<Rightarrow> string \<Rightarrow> string \<Rightarrow> bool io" where
  "LvmLvHasTag vgName lvName tag =
     bindE (checkErr (Lvm [''lvs'', ''--devicesfile'', vgName, ''--select'',
                           ''lv_tags = {\"'' @ tag @ ''\"}'', vgName @ ''/'' @ lvName]))
       (\<lambda>output. ret (Combined output \<noteq> []))"

definition LvmLvAddTag :: "string \<Rightarrow> string \<Rightarrow> string \<Rightarrow> unit io" where
  "LvmLvAddTag vgName lvName tag =
     bindE (checkErr (Lvm [''lvchange'', ''--devicesfile'', vgName, ''--addtag'', tag,
                           vgName @ ''/'' @ lvName])) (\<lambda>output. ret ())"

definition LvmLvDelTag :: "string \<Rightarrow> string \<Rightarrow> string \<Rightarrow> unit io" where
  "LvmLvDelTag vgName lvName tag =
     bindE (checkErr (Lvm [''lvchange'', ''--devicesfile'', vgName, ''--deltag'', tag,
                           vgName @ ''/'' @ lvName])) (\<lambda>output. ret ())"

definition LvmLvGetTags :: "string \<Rightarrow> string \<Rightarrow> string list io" where
  "LvmLvGetTags vgName lvName =
     bindE (checkErr (Lvm [''lvs'', ''--devicesfile'', vgName, ''--options'', ''lv_tags'',
                           ''--noheadings'', vgName @ ''/'' @ lvName]))
       (\<lambda>output. ret (split_on (CHR '','') (trim_space (Combined output))))"

text \<open>The tag that stores a value, and the value a tag stores: None for a tag of another key,
  Some None for a tag of the key whose suffix is no number.\<close>

definition counter_tag :: "string \<Rightarrow> int \<Rightarrow> string" where
  "counter_tag key value = key @ ''='' @ show_int value"

definition counter_value :: "string \<Rightarrow> string \<Rightarrow> int option option" where
  "counter_value key tag = map_option (parse_int 64) (cut_prefix tag (key @ ''=''))"

fun GetCounter_loop :: "string \<Rightarrow> string list \<Rightarrow> int \<Rightarrow> int" where
  "GetCounter_loop key [] value = value"
| "GetCounter_loop key (tag # tags) value =
     (case counter_value key tag of
        None \<Rightarrow> GetCounter_loop key tags value
      | Some None \<Rightarrow> GetCounter_loop key tags value
      | Some (Some candidate) \<Rightarrow>
          GetCounter_loop key tags (if candidate > value then candidate else value))"

definition LvmLvGetCounter :: "string \<Rightarrow> string \<Rightarrow> string \<Rightarrow> int io" where
  "LvmLvGetCounter vgName lvName key =
     bindE (LvmLvGetTags vgName lvName) (\<lambda>tags. ret (GetCounter_loop key tags 0))"

definition UpdateCounter_step ::
  "string \<Rightarrow> string \<Rightarrow> string \<Rightarrow> string \<Rightarrow> int \<Rightarrow> int io" where
  "UpdateCounter_step vgName lvName key tag value =
     (case counter_value key tag of
        None \<Rightarrow> ret value
      | Some None \<Rightarrow> thenE (ignoreErr (LvmLvDelTag vgName lvName tag)) (ret value)
      | Some (Some candidate) \<Rightarrow>
          if candidate > value then
            thenE (ignoreErr (LvmLvDelTag vgName lvName (counter_tag key value))) (ret candidate)
          else if candidate < value then
            thenE (ignoreErr (LvmLvDelTag vgName lvName tag)) (ret value)
          else ret value)"

definition LvmLvUpdateCounterIfLower :: "string \<Rightarrow> string \<Rightarrow> string \<Rightarrow> int \<Rightarrow> int io" where
  "LvmLvUpdateCounterIfLower vgName lvName key value =
     thenE (LvmLvAddTag vgName lvName (counter_tag key value))
       (bindE (LvmLvGetTags vgName lvName) (\<lambda>tags.
          foldE (UpdateCounter_step vgName lvName key) tags 0))"

definition LvmSize :: "string \<Rightarrow> string \<Rightarrow> int io" where
  "LvmSize vgName lvName =
     bindE (checkErr (Lvm [''lvs'', ''--devicesfile'', vgName, ''--options'', ''lv_size'',
                           ''--units'', ''b'', ''--no-headings'', ''--no-suffix'',
                           vgName @ ''/'' @ lvName])) (\<lambda>output.
       case parse_int 64 (trim_space (Combined output)) of
         Some n \<Rightarrow> ret n
       | None \<Rightarrow> fail (ParseError (Combined output)))"

section \<open>nbd-client\<close>

definition nbdClient :: "string list \<Rightarrow> (Output \<times> goerr option) io" where
  "nbdClient args =
     RunInContainer ([''nsenter'', ''--target'', ''1'', ''--net'', ''nbd-client''] @ args)"

text \<open>
  The two regular expressions, as leftmost greedy searches: a host of non-slash characters
  and a name of non-blank characters after nbd://, and the non-blank characters after the
  text Connected /dev/.
\<close>

definition re_space :: "char \<Rightarrow> bool" where
  "re_space c = (let n = (of_char c :: nat) in n = 32 \<or> n = 9 \<or> n = 10 \<or> n = 12 \<or> n = 13)"

definition nbd_uri_at :: "string \<Rightarrow> (string \<times> string) option" where
  "nbd_uri_at s =
     (case cut_prefix s ''nbd://'' of
        None \<Rightarrow> None
      | Some r \<Rightarrow>
          (case dropWhile (\<lambda>c. c \<noteq> CHR ''/'') r of
             [] \<Rightarrow> None
           | slash # p \<Rightarrow>
               Some (takeWhile (\<lambda>c. c \<noteq> CHR ''/'') r, takeWhile (\<lambda>c. \<not> re_space c) p)))"

fun nbdClientURIPattern :: "string \<Rightarrow> (string \<times> string) option" where
  "nbdClientURIPattern [] = None"
| "nbdClientURIPattern (c # s) =
     (case nbd_uri_at (c # s) of Some m \<Rightarrow> Some m | None \<Rightarrow> nbdClientURIPattern s)"

fun nbdClientConnectedPattern :: "string \<Rightarrow> string option" where
  "nbdClientConnectedPattern [] = None"
| "nbdClientConnectedPattern (c # s) =
     (case cut_prefix (c # s) ''Connected /dev/'' of
        Some r \<Rightarrow> Some (takeWhile (\<lambda>c. \<not> re_space c) r)
      | None \<Rightarrow> nbdClientConnectedPattern s)"

definition NBDClientConnect :: "string \<Rightarrow> string io" where
  "NBDClientConnect uri =
     (case nbdClientURIPattern uri of
        None \<Rightarrow> fail (BadRequest ''could not parse NBD URI'')
      | Some (host, name) \<Rightarrow>
          bindE (checkErr (nbdClient [''--identifier'', uri, ''--connections'', ''8'',
                                      ''--name'', name, host])) (\<lambda>output.
            case nbdClientConnectedPattern (Combined output) of
              None \<Rightarrow> fail (BadRequest ''could not parse NBD device from nbd-client'')
            | Some dev \<Rightarrow> ret dev))"

definition NBDClientBackend :: "string \<Rightarrow> string io" where
  "NBDClientBackend device =
     bindE (checkErr (RunOnHost [''cat'', ''/sys/block/'' @ device @ ''/backend''])) (\<lambda>output.
       ret (trim_suffix (Combined output) [char_of (10::nat)]))"

definition NBDClientDisconnect :: "string \<Rightarrow> string \<Rightarrow> unit io" where
  "NBDClientDisconnect uri device =
     bindE (NBDClientBackend device) (\<lambda>backend.
       if backend \<noteq> uri then ret ()
       else bindE (checkErr (nbdClient [''--disconnect'', ''/dev/'' @ device])) (\<lambda>output. ret ()))"

section \<open>The commands as calls\<close>

definition host_call :: "string list \<Rightarrow> call" where
  "host_call command = Exec ([''nsenter'', ''--target'', ''1'', ''--all''] @ command)"

definition lvm_call :: "string list \<Rightarrow> call" where
  "lvm_call args = host_call (''lvm'' # args)"

definition dmsetup_call :: "string list \<Rightarrow> call" where
  "dmsetup_call args = host_call (''dmsetup'' # args)"

lemma call_inject [simp]:
  "host_call a = host_call b \<longleftrightarrow> a = b"
  "lvm_call a = lvm_call b \<longleftrightarrow> a = b"
  "dmsetup_call a = dmsetup_call b \<longleftrightarrow> a = b"
  by (auto simp: host_call_def lvm_call_def dmsetup_call_def)

lemma call_distinct [simp]:
  "lvm_call a \<noteq> dmsetup_call b" "dmsetup_call b \<noteq> lvm_call a"
  "lvm_call a \<noteq> PoolCall x" "PoolCall x \<noteq> lvm_call a"
  "lvm_call a \<noteq> VolumeCall y" "VolumeCall y \<noteq> lvm_call a"
  "lvm_call a \<noteq> SnapshotCall z" "SnapshotCall z \<noteq> lvm_call a"
  "lvm_call a \<noteq> ExportCall u" "ExportCall u \<noteq> lvm_call a"
  "lvm_call a \<noteq> StatHost p" "StatHost p \<noteq> lvm_call a"
  "dmsetup_call a \<noteq> PoolCall x" "PoolCall x \<noteq> dmsetup_call a"
  "dmsetup_call a \<noteq> StatHost p" "StatHost p \<noteq> dmsetup_call a"
  "dmsetup_call a \<noteq> VolumeCall y" "VolumeCall y \<noteq> dmsetup_call a"
  "dmsetup_call a \<noteq> ExportCall u" "ExportCall u \<noteq> dmsetup_call a"
  by (auto simp: host_call_def lvm_call_def dmsetup_call_def)

text \<open>Running a command appends it to the trace and always gives an output and an error.\<close>

lemma RunInContainer_eq:
  "RunInContainer command E w =
    (Inr (outcome_result command (env_exec E (trace w) command)),
     w\<lparr>trace := trace w @ [Exec command]\<rparr>)"
  by (simp add: RunInContainer_def io_defs)

definition host_outcome :: "env \<Rightarrow> world \<Rightarrow> string list \<Rightarrow> exec_outcome" where
  "host_outcome E w command =
     env_exec E (trace w) ([''nsenter'', ''--target'', ''1'', ''--all''] @ command)"

definition after :: "world \<Rightarrow> call \<Rightarrow> world" where
  "after w c = w\<lparr>trace := trace w @ [c]\<rparr>"

lemma trace_after [simp]: "trace (after w c) = trace w @ [c]"
  by (simp add: after_def)

lemma new_calls_after [simp]: "new_calls w (after w c) = [c]"
  by (simp add: new_calls_def)

lemma after_mem [simp]:
  "nbd_clients (after w c) = nbd_clients w" "blockdevs_m (after w c) = blockdevs_m w"
  "blockdevs_count (after w c) = blockdevs_count w" "nbd_Shutdown (after w c) = nbd_Shutdown w"
  "shutdown_closed (after w c) = shutdown_closed w" "workers_m (after w c) = workers_m w"
  by (simp_all add: after_def)

lemma RunOnHost_eq:
  "RunOnHost command E w =
    (Inr (outcome_result ([''nsenter'', ''--target'', ''1'', ''--all''] @ command)
            (host_outcome E w command)), after w (host_call command))"
  by (simp add: RunOnHost_def RunInContainer_eq host_outcome_def host_call_def after_def)

text \<open>The text of an outcome, and whether it counts as success.\<close>

fun outcome_text :: "exec_outcome \<Rightarrow> string" where
  "outcome_text (ExecOk combined) = combined"
| "outcome_text (ExecExit code combined) = combined"
| "outcome_text (ExecFailed err combined) = combined"

definition is_ok :: "exec_outcome \<Rightarrow> bool" where
  "is_ok outcome \<longleftrightarrow> (\<exists>combined. outcome = ExecOk combined)"

definition tolerated :: "string list \<Rightarrow> exec_outcome \<Rightarrow> bool" where
  "tolerated texts outcome \<longleftrightarrow>
     is_ok outcome \<or> list_ex (\<lambda>t. str_contains (outcome_text outcome) t) texts"

lemma is_ok_simps [simp]:
  "is_ok (ExecOk c)" "\<not> is_ok (ExecExit n c)" "\<not> is_ok (ExecFailed e c)"
  by (simp_all add: is_ok_def)

lemma outcome_result_err [simp]: "snd (outcome_result cmd oc) = None \<longleftrightarrow> is_ok oc"
  by (cases oc) auto

lemma outcome_result_text [simp]: "Combined (fst (outcome_result cmd oc)) = outcome_text oc"
  by (cases oc) auto

lemma Lvm_eq:
  "\<exists>cmd. Lvm args E w =
     (Inr (outcome_result cmd (host_outcome E w (''lvm'' # args))), after w (lvm_call args))"
  by (simp add: Lvm_def RunOnHost_eq lvm_call_def) blast

lemma Dmsetup_eq:
  "\<exists>cmd. Dmsetup args E w =
     (Inr (outcome_result cmd (host_outcome E w (''dmsetup'' # args))), after w (dmsetup_call args))"
  by (simp add: Dmsetup_def RunOnHost_eq dmsetup_call_def) blast

text \<open>A checked command succeeds exactly when its outcome does, and makes one call.\<close>

lemma checkErr_Lvm_Inr:
  "checkErr (Lvm args) E w = (Inr out, w2) \<longleftrightarrow>
    is_ok (host_outcome E w (''lvm'' # args)) \<and> w2 = after w (lvm_call args) \<and>
    out = \<lparr>ExitCode = 0, Combined = outcome_text (host_outcome E w (''lvm'' # args))\<rparr>"
  by (cases "host_outcome E w (''lvm'' # args)")
    (auto simp: checkErr_def Lvm_def RunOnHost_eq lvm_call_def bindE_Inr_iff)

lemma checkErr_suppress_Lvm_Inr:
  "(\<exists>out. checkErr (suppress texts (Lvm args)) E w = (Inr out, w2)) \<longleftrightarrow>
    tolerated texts (host_outcome E w (''lvm'' # args)) \<and> w2 = after w (lvm_call args)"
  by (cases "host_outcome E w (''lvm'' # args)")
    (auto simp: checkErr_def suppress_def Lvm_def RunOnHost_eq lvm_call_def bindE_Inr_iff
      tolerated_def)

lemma checkErr_Dmsetup_Inr:
  "checkErr (Dmsetup args) E w = (Inr out, w2) \<longleftrightarrow>
    is_ok (host_outcome E w (''dmsetup'' # args)) \<and> w2 = after w (dmsetup_call args) \<and>
    out = \<lparr>ExitCode = 0, Combined = outcome_text (host_outcome E w (''dmsetup'' # args))\<rparr>"
  by (cases "host_outcome E w (''dmsetup'' # args)")
    (auto simp: checkErr_def Dmsetup_def RunOnHost_eq dmsetup_call_def bindE_Inr_iff)

lemma checkErr_suppress_Dmsetup_Inr:
  "(\<exists>out. checkErr (suppress texts (Dmsetup args)) E w = (Inr out, w2)) \<longleftrightarrow>
    tolerated texts (host_outcome E w (''dmsetup'' # args)) \<and> w2 = after w (dmsetup_call args)"
  by (cases "host_outcome E w (''dmsetup'' # args)")
    (auto simp: checkErr_def suppress_def Dmsetup_def RunOnHost_eq dmsetup_call_def bindE_Inr_iff
      tolerated_def)

lemma emits_RunInContainer [emits_intros]:
  "(\<And>E. P E (Exec command)) \<Longrightarrow> emits P (RunInContainer command)"
  by (simp add: RunInContainer_def emits_intros)

lemma emits_RunOnHost [emits_intros]:
  "(\<And>E. P E (host_call command)) \<Longrightarrow> emits P (RunOnHost command)"
  by (simp add: RunOnHost_def host_call_def emits_intros)

lemma emits_checkErr [emits_intros]: "emits P m \<Longrightarrow> emits P (checkErr m)"
  unfolding checkErr_def by (intro emits_intros)

lemma emits_suppress [emits_intros]: "emits P m \<Longrightarrow> emits P (suppress texts m)"
  unfolding suppress_def by (intro emits_intros)

lemma emits_Lvm [emits_intros]: "(\<And>E. P E (lvm_call args)) \<Longrightarrow> emits P (Lvm args)"
  by (simp add: Lvm_def lvm_call_def emits_intros)

lemma emits_Dmsetup [emits_intros]: "(\<And>E. P E (dmsetup_call args)) \<Longrightarrow> emits P (Dmsetup args)"
  by (simp add: Dmsetup_def dmsetup_call_def emits_intros)

lemma emits_PathExistsOnHost [emits_intros]:
  "(\<And>E. P E (StatHost p)) \<Longrightarrow> emits P (PathExistsOnHost p)"
  by (auto simp: PathExistsOnHost_def intro!: emits_intros split: stat_outcome.split)

text \<open>The argument vector of an idempotent lvcreate.\<close>

definition lvcreate_args :: "string \<Rightarrow> string list \<Rightarrow> string list" where
  "lvcreate_args binding args =
     ([''lvcreate''] @
        (if binding \<noteq> [] then [''--addtag'', Domain @ ''/binding='' @ munge binding] else [])) @ args"

lemma lvcreate_args_not_lvremove [simp]:
  "lvcreate_args b args \<noteq> ''lvremove'' # xs" "''lvremove'' # xs \<noteq> lvcreate_args b args"
  by (auto simp: lvcreate_args_def)

lemma emits_idempotent [emits_intros]:
  "(\<And>E. P E (lvm_call (lvcreate_args b args))) \<Longrightarrow> emits P (LvmLvCreateIdempotent b args)"
  "(\<And>E. P E (lvm_call (''lvremove'' # args))) \<Longrightarrow> emits P (LvmLvRemoveIdempotent args)"
  "(\<And>E. P E (lvm_call (''lvextend'' # args))) \<Longrightarrow> emits P (LvmLvExtendIdempotent args)"
  "(\<And>E. P E (dmsetup_call (''create'' # args))) \<Longrightarrow> emits P (DmsetupCreateIdempotent args)"
  "(\<And>E. P E (dmsetup_call (''suspend'' # args))) \<Longrightarrow> emits P (DmsetupSuspendIdempotent args)"
  "(\<And>E. P E (dmsetup_call (''remove'' # args))) \<Longrightarrow> emits P (DmsetupRemoveIdempotent args)"
  by (simp_all add: LvmLvCreateIdempotent_def LvmLvRemoveIdempotent_def LvmLvExtendIdempotent_def
      DmsetupCreateIdempotent_def DmsetupSuspendIdempotent_def DmsetupRemoveIdempotent_def
      lvcreate_args_def emits_intros)

lemma lvcreate_args_hd [simp]: "hd (lvcreate_args b args) = ''lvcreate''"
  "lvcreate_args b args \<noteq> []" "lvcreate_args b args = x # xs \<Longrightarrow> x = ''lvcreate''"
  by (auto simp: lvcreate_args_def split: if_splits)

lemma idempotent_Inr:
  "(\<exists>out. checkErr (LvmLvCreateIdempotent b args) E w = (Inr out, w2)) \<longleftrightarrow>
    tolerated [''already exists''] (host_outcome E w (''lvm'' # lvcreate_args b args)) \<and>
    w2 = after w (lvm_call (lvcreate_args b args))"
  "(\<exists>out. checkErr (LvmLvRemoveIdempotent args) E w = (Inr out, w2)) \<longleftrightarrow>
    tolerated [''ailed to find''] (host_outcome E w (''lvm'' # ''lvremove'' # args)) \<and>
    w2 = after w (lvm_call (''lvremove'' # args))"
  "(\<exists>out. checkErr (LvmLvExtendIdempotent args) E w = (Inr out, w2)) \<longleftrightarrow>
    tolerated [''matches existing size'', ''not larger than existing size'']
      (host_outcome E w (''lvm'' # ''lvextend'' # args)) \<and>
    w2 = after w (lvm_call (''lvextend'' # args))"
  unfolding LvmLvCreateIdempotent_def LvmLvRemoveIdempotent_def LvmLvExtendIdempotent_def
    lvcreate_args_def [symmetric]
  by (simp_all only: checkErr_suppress_Lvm_Inr)

lemma emits_LvmSize [emits_intros]:
  "(\<And>E. P E (lvm_call [''lvs'', ''--devicesfile'', vg, ''--options'', ''lv_size'', ''--units'', ''b'',
      ''--no-headings'', ''--no-suffix'', vg @ ''/'' @ lv])) \<Longrightarrow> emits P (LvmSize vg lv)"
  unfolding LvmSize_def by (intro emits_intros)

lemma new_calls_append: "trace w2 = trace w @ cs \<Longrightarrow> new_calls w w2 = cs"
  by (simp add: new_calls_def)

text \<open>Every reconciler begins by getting its object; here is the run that follows.\<close>

lemma attempt_get:
  "bindE (attempt (api_get sel wrap name)) k E w =
    k (cl_Get (sel E) (trace w) name) E (after w (wrap (ApiGet name)))"
  by (simp add: bindE_def attempt_def api_get_def invoke_def after_def)

lemma emits_run:
  assumes "emits P m" and "m E w1 = (r, w2)" and "trace w1 = trace w @ cs"
  shows "\<forall>c\<in>set (new_calls w w2). c \<in> set cs \<or> P E c"
proof -
  from assms(1,2) obtain ds where "trace w2 = trace w1 @ ds" "\<forall>c\<in>set ds. P E c"
    unfolding emits_def by (metis snd_conv)
  with assms(3) show ?thesis by (auto simp: new_calls_def)
qed

section \<open>Errors that are handled and passed on\<close>

lemma attempt_handled_Inr:
  "bindE (attempt m) (\<lambda>x. case x of Inl err \<Rightarrow> thenE (h err) (fail err) | Inr y \<Rightarrow> k y) E w = (Inr z, w2) \<longleftrightarrow>
    (\<exists>y w1. m E w = (Inr y, w1) \<and> k y E w1 = (Inr z, w2))"
  by (cases "m E w") (auto simp: io_result attempt_iff split: sum.splits)

lemma attempt_handled_Inl:
  fixes k :: "'y \<Rightarrow> 'z io"
  shows "bindE (attempt m) (\<lambda>x. case x of Inl err \<Rightarrow> thenE (h err) (fail err) | Inr y \<Rightarrow> k y) E w = (Inl e, w2) \<longleftrightarrow>
    (\<exists>e' w1. m E w = (Inl e', w1) \<and> thenE (h e') (fail e' :: 'z io) E w1 = (Inl e, w2)) \<or>
    (\<exists>y w1. m E w = (Inr y, w1) \<and> k y E w1 = (Inl e, w2))"
  by (cases "m E w") (auto simp: bindE_Inl_iff attempt_iff split: sum.splits)

lemma new_calls_trans:
  "trace w1 = trace w @ cs \<Longrightarrow> trace w2 = trace w1 @ ds \<Longrightarrow> new_calls w w2 = cs @ ds"
  by (simp add: new_calls_def)

section \<open>Procedures that follow a plan\<close>

text \<open>
  A straight-line procedure issues the calls of a fixed plan in order and stops at the first
  failure; it succeeds only at the end of the plan.
\<close>

definition follows :: "'a io \<Rightarrow> call list \<Rightarrow> bool" where
  "follows m plan \<longleftrightarrow>
     (\<forall>E w. \<exists>n \<le> length plan. trace (snd (m E w)) = trace w @ take n plan \<and>
        (plan \<noteq> [] \<longrightarrow> 0 < n) \<and> ((\<exists>x. fst (m E w) = Inr x) \<longrightarrow> n = length plan))"

lemma follows_ret: "follows (ret x) []"
  by (simp add: follows_def ret_def)

lemma follows_thenE:
  assumes "follows m p" and "follows k q" and "p \<noteq> []"
  shows "follows (thenE m k) (p @ q)"
  unfolding follows_def
proof (intro allI)
  fix E w
  obtain r w1 where m: "m E w = (r, w1)" by (cases "m E w")
  from assms(1,3) obtain n where n: "n \<le> length p" "trace w1 = trace w @ take n p" "0 < n"
    "(\<exists>x. r = Inr x) \<longrightarrow> n = length p"
    unfolding follows_def using m by (metis fst_conv snd_conv)
  show "\<exists>n \<le> length (p @ q). trace (snd (thenE m k E w)) = trace w @ take n (p @ q) \<and>
      (p @ q \<noteq> [] \<longrightarrow> 0 < n) \<and>
      ((\<exists>x. fst (thenE m k E w) = Inr x) \<longrightarrow> n = length (p @ q))"
  proof (cases r)
    case (Inl e)
    with m n show ?thesis by (auto simp: thenE_def bindE_def intro: exI [of _ n])
  next
    case (Inr x)
    from assms(2) obtain l where l: "l \<le> length q" "trace (snd (k E w1)) = trace w1 @ take l q"
      "(\<exists>x. fst (k E w1) = Inr x) \<longrightarrow> l = length q"
      unfolding follows_def by blast
    have "take (length p + l) (p @ q) = p @ take l q" by simp
    with m n l Inr show ?thesis
      by (auto simp: thenE_def bindE_def intro!: exI [of _ "length p + l"])
  qed
qed

lemma follows_bindE:
  assumes m: "follows m p" and k: "\<And>x E w w1. m E w = (Inr x, w1) \<Longrightarrow> follows (k x) q" and "p \<noteq> []"
  shows "follows (bindE m k) (p @ q)"
  unfolding follows_def
proof (intro allI)
  fix E w
  obtain r w1 where mw: "m E w = (r, w1)" by (cases "m E w")
  show "\<exists>n \<le> length (p @ q). trace (snd (bindE m k E w)) = trace w @ take n (p @ q) \<and>
      (p @ q \<noteq> [] \<longrightarrow> 0 < n) \<and>
      ((\<exists>x. fst (bindE m k E w) = Inr x) \<longrightarrow> n = length (p @ q))"
  proof (cases r)
    case (Inl e)
    from m \<open>p \<noteq> []\<close> obtain n where "n \<le> length p" "trace w1 = trace w @ take n p" "0 < n"
      unfolding follows_def using mw by (metis snd_conv)
    with mw Inl show ?thesis by (auto simp: bindE_def intro: exI [of _ n])
  next
    case (Inr x)
    have "bindE m k E w = thenE m (k x) E w" using mw Inr by (simp add: bindE_def thenE_def)
    moreover have "follows (thenE m (k x)) (p @ q)"
      using m k [of E w x w1] mw Inr \<open>p \<noteq> []\<close> by (simp add: follows_thenE)
    ultimately show ?thesis unfolding follows_def by metis
  qed
qed

lemma follows_Cons: "follows m [c] \<Longrightarrow> follows k q \<Longrightarrow> follows (thenE m k) (c # q)"
  using follows_thenE [of m "[c]" k q] by simp

lemma followsI:
  assumes "\<And>E w. trace (snd (m E w)) = trace w @ [c]"
  shows "follows m [c]"
  unfolding follows_def using assms by (auto intro: exI [of _ 1])

lemma trace_checkErr: "trace (snd (checkErr m E w)) = trace (snd (m E w))"
  by (auto simp: checkErr_def bindE_def ret_def fail_def split: prod.split sum.split option.split)

lemma trace_suppress: "trace (snd (suppress texts m E w)) = trace (snd (m E w))"
  by (auto simp: suppress_def bindE_def ret_def split: prod.split sum.split)

lemma trace_Dmsetup: "trace (snd (Dmsetup args E w)) = trace w @ [dmsetup_call args]"
  by (simp add: Dmsetup_def RunOnHost_eq dmsetup_call_def)

lemma trace_Lvm: "trace (snd (Lvm args E w)) = trace w @ [lvm_call args]"
  by (simp add: Lvm_def RunOnHost_eq lvm_call_def)

lemmas trace_command = trace_checkErr trace_suppress trace_Dmsetup trace_Lvm

lemma follows_commands:
  "follows (checkErr (Dmsetup args)) [dmsetup_call args]"
  "follows (checkErr (DmsetupCreateIdempotent args)) [dmsetup_call (''create'' # args)]"
  "follows (checkErr (DmsetupSuspendIdempotent args)) [dmsetup_call (''suspend'' # args)]"
  "follows (checkErr (DmsetupRemoveIdempotent args)) [dmsetup_call (''remove'' # args)]"
  "follows (checkErr (Lvm args)) [lvm_call args]"
  "follows (checkErr (LvmLvRemoveIdempotent args)) [lvm_call (''lvremove'' # args)]"
  "follows (checkErr (LvmLvExtendIdempotent args)) [lvm_call (''lvextend'' # args)]"
  by (rule followsI, simp add: trace_command DmsetupCreateIdempotent_def
      DmsetupSuspendIdempotent_def DmsetupRemoveIdempotent_def LvmLvRemoveIdempotent_def
      LvmLvExtendIdempotent_def)+

lemma follows_calls:
  assumes "follows m plan" and "m E w = (r, w2)"
  shows "\<exists>n \<le> length plan. trace w2 = trace w @ take n plan \<and> new_calls w w2 = take n plan \<and>
    (plan \<noteq> [] \<longrightarrow> 0 < n) \<and> ((\<exists>x. r = Inr x) \<longrightarrow> n = length plan)"
  using assms unfolding follows_def new_calls_def
  by (metis append_eq_conv_conj fst_conv snd_conv)

end
