(* ===== verification/Sample.thy ===== *)
theory Sample
  imports Commands
begin

text \<open>
  Concrete objects and an environment, at which the properties are applied.  The environment
  answers every request of the API with the object it is given or sent, and every command with
  success.
\<close>

definition echo_client :: "'o list \<Rightarrow> 'o api_client" where
  "echo_client xs =
     \<lparr>cl_Get = (\<lambda>h n. case xs of [] \<Rightarrow> Inl ErrNotFound | x # ys \<Rightarrow> Inr x), cl_List = (\<lambda>h. Inr xs),
      cl_Create = (\<lambda>h x. Inr x), cl_Update = (\<lambda>h x. Inr x), cl_UpdateStatus = (\<lambda>h x. Inr x),
      cl_Delete = (\<lambda>h x. None)\<rparr>"

definition sample_env ::
  "Volume list \<Rightarrow> Snapshot list \<Rightarrow> ThinPoolLv list \<Rightarrow> string \<Rightarrow> env" where
  "sample_env vs ss ps out =
     \<lparr>LocalNodeName = ''node1'', Namespace = ''kubesan-system'', PodIP = ''10.0.0.1'',
      volumes = echo_client vs, snapshots = echo_client ss, pools = echo_client ps,
      exports = echo_client [],
      env_exec = (\<lambda>h command. ExecOk out), env_stat = (\<lambda>h path. StatExists), env_glob = (\<lambda>h. []),
      env_qmp_connect = (\<lambda>h. None), env_qmp = (\<lambda>h c. Inr []), env_worker = (\<lambda>h n. Some None),
      env_os = (\<lambda>h c. Inr False), env_temp = (\<lambda>h. Inr ''tmp''), env_mount = (\<lambda>h c. Inr False), env_now = (\<lambda>h. length h)\<rparr>"

lemma sample_env_simps [simp]:
  "volumes (sample_env vs ss ps out) = echo_client vs"
  "snapshots (sample_env vs ss ps out) = echo_client ss"
  "pools (sample_env vs ss ps out) = echo_client ps"
  "LocalNodeName (sample_env vs ss ps out) = ''node1''"
  "env_exec (sample_env vs ss ps out) = (\<lambda>h command. ExecOk out)"
  by (simp_all add: sample_env_def)

lemma echo_client_simps [simp]:
  "cl_Get (echo_client (x # xs)) = (\<lambda>h n. Inr x)" "cl_Get (echo_client []) = (\<lambda>h n. Inl ErrNotFound)"
  "cl_List (echo_client ys) = (\<lambda>h. Inr ys)" "cl_Update (echo_client ys) = (\<lambda>h x. Inr x)"
  by (simp_all add: echo_client_def)

definition sample_meta :: "string \<Rightarrow> ObjectMeta" where
  "sample_meta name = (new_meta name ''kubesan-system'' None)\<lparr>om_Finalizers := [Finalizer]\<rparr>"

lemma sample_meta_simps [simp]:
  "om_Name (sample_meta name) = name" "om_DeletionTimestamp (sample_meta name) = None"
  "has_finalizer Finalizer (sample_meta name)"
  by (simp_all add: sample_meta_def new_meta_def has_finalizer_def)

text \<open>A thin block volume of 8 MiB with the given conditions.\<close>

definition sample_spec :: VolumeSpec where
  "sample_spec =
     \<lparr>vs_VgName = ''vg'', vs_Binding = ''ns/pvc'', vs_Mode = VolumeModeThin,
      vs_WipePolicy = VolumeWipePolicyFull, vs_Type = \<lparr>vt_Block = Some (), vt_Filesystem = None\<rparr>,
      vs_Contents = \<lparr>vc_ContentsType = VolumeContentsTypeEmpty, vc_CloneVolume = None,
        vc_CloneSnapshot = None\<rparr>,
      vs_AccessModes = [SingleNodeMultiWriter], vs_SizeBytes = 8388608, vs_AttachToNodes = []\<rparr>"

definition sample_volume :: "string \<Rightarrow> condition_type list \<Rightarrow> Volume" where
  "sample_volume name conds =
     \<lparr>v_Meta = sample_meta name, v_Spec = sample_spec,
      v_Status = \<lparr>vst_ObservedGeneration = 0,
        vst_Conditions = map (\<lambda>t. new_condition t ConditionTrue [] []) conds, vst_SizeBytes = 8388608,
        vst_AttachedToNodes = [], vst_Path = [], vst_NBDExport = []\<rparr>\<rparr>"

definition sample_snapshot :: "string \<Rightarrow> Snapshot" where
  "sample_snapshot name =
     \<lparr>s_Meta = sample_meta name,
      s_Spec = \<lparr>ss_VgName = ''vg'', ss_Binding = ''ns/vs'', ss_SourceVolume = ''vol''\<rparr>,
      s_Status = \<lparr>sst_ObservedGeneration = 0,
        sst_Conditions = [new_condition Available ConditionTrue [] []], sst_SizeBytes = 8388608\<rparr>\<rparr>"

text \<open>A pool placed on a node, with one thin LV in use on it.\<close>

definition sample_pool :: "string \<Rightarrow> ThinPoolLv" where
  "sample_pool node =
     \<lparr>p_Meta = sample_meta ''pool'',
      p_Spec = \<lparr>ps_VgName = ''vg'', ps_SizeBytes = 8388608,
        ps_ThinLvs = [\<lparr>ls_Name = ''thin-clone-vol'', ls_Binding = ''ns/pvc'',
          ls_Contents = \<lparr>tc_ContentsType = ThinLvContentsTypeEmpty, tc_Snapshot = None\<rparr>,
          ls_ReadOnly = False, ls_SizeBytes = 8388608, ls_State = SpecActive\<rparr>],
        ps_ActiveOnNode = node\<rparr>,
      p_Status = \<lparr>pst_ObservedGeneration = 0,
        pst_Conditions = [new_condition Available ConditionTrue [] []], pst_ActiveOnNode = node,
        pst_ThinLvs = []\<rparr>\<rparr>"

end
