(* ===== verification/Lvm_Counter.thy ===== *)
theory Lvm_Counter
  imports Commands
begin

text \<open>
  The two encodings of commands.go that keep data in LVM tags: binding names munged into tag
  characters, and the monotone counter that records how much of a linear volume is safe to
  expose.
\<close>

section \<open>Munged bindings\<close>

definition hex_value :: "char \<Rightarrow> nat" where
  "hex_value c = (let n = of_char c in if n \<le> 57 then n - 48 else n - 55)"

text \<open>Reading a munged text back; the inverse is not in the program.\<close>

fun unmunge :: "string \<Rightarrow> string" where
  "unmunge [] = []"
| "unmunge (c # s) =
     (if c = CHR ''#'' then
        (case s of a # b # s' \<Rightarrow> char_of (16 * hex_value a + hex_value b) # unmunge s' | _ \<Rightarrow> [])
      else c # unmunge s)"

lemma hex_value_hex_digit: "n < 16 \<Longrightarrow> hex_value (hex_digit n) = n"
  by (auto simp: hex_value_def hex_digit_def Let_def)

lemma munge_safe_not_hash: "munge_safe c \<Longrightarrow> c \<noteq> CHR ''#''"
  by (auto simp: munge_safe_def)

lemma hex_digit_safe: "n < 16 \<Longrightarrow> munge_safe (hex_digit n)"
  by (auto simp: munge_safe_def hex_digit_def Let_def)

lemma unmunge_munge_eq: "unmunge (munge s) = s"
proof (induction s)
  case Nil
  then show ?case by simp
next
  case (Cons c s)
  have b: "(of_char c :: nat) < 256" by (rule of_char_less)
  then have "hex_value (hex_digit (of_char c div 16)) = of_char c div 16"
    by (intro hex_value_hex_digit) (simp add: less_mult_imp_div_less)
  moreover have "hex_value (hex_digit (of_char c mod 16)) = of_char c mod 16"
    by (intro hex_value_hex_digit) simp
  ultimately show ?case
    using Cons munge_safe_not_hash [of c] by (auto simp: mult_div_mod_eq)
qed

lemma munge_chars: "\<forall>c\<in>set (munge s). munge_safe c \<or> c = CHR ''#''"
proof (induction s)
  case Nil
  then show ?case by simp
next
  case (Cons c s)
  have "(of_char c :: nat) div 16 < 16"
    using of_char_less [of c] by (simp add: less_mult_imp_div_less)
  with Cons show ?case by (auto simp: hex_digit_safe)
qed

section \<open>The counter\<close>

definition counter_values :: "string \<Rightarrow> string list \<Rightarrow> int set" where
  "counter_values key tags = {v. \<exists>t\<in>set tags. counter_value key t = Some (Some v)}"

lemma counter_values_simps [simp]:
  "counter_values key [] = {}"
  "counter_values key (t # ts) =
    (case counter_value key t of Some (Some v) \<Rightarrow> insert v (counter_values key ts)
     | _ \<Rightarrow> counter_values key ts)"
  by (auto simp: counter_values_def split: option.splits)

lemma finite_counter_values [simp]: "finite (counter_values key tags)"
  by (induction tags) (auto split: option.split)

lemma GetCounter_loop_Max:
  "GetCounter_loop key tags cur = Max (insert cur (counter_values key tags))"
proof (induction tags arbitrary: cur)
  case Nil
  then show ?case by simp
next
  case (Cons t ts)
  have "Max (insert (max a b) S) = Max (insert a (insert b S))" if "finite S" for a b :: int and S :: "int set"
    using that by (cases "S = {}") (simp_all add: max.assoc)
  moreover have "(if (a::int) > b then a else b) = max b a" for a b by simp
  ultimately show ?case by (auto simp: Cons.IH split: option.split)
qed

lemma counter_value_tag [simp]:
  "- (2 ^ 63) \<le> v \<Longrightarrow> v < 2 ^ 63 \<Longrightarrow> counter_value key (counter_tag key v) = Some (Some v)"
proof -
  assume "- (2 ^ 63) \<le> v" "v < 2 ^ 63"
  then have "parse_int 64 (show_int v) = Some v" by (intro parse_show_int) simp_all
  moreover have "cut_prefix (counter_tag key v) (key @ ''='') = Some (show_int v)"
    by (simp add: counter_tag_def cut_prefix_Some_iff)
  ultimately show ?thesis by (simp add: counter_value_def)
qed

lemma parse_int64_range: "parse_int 64 s = Some v \<Longrightarrow> - (2 ^ 63) \<le> v \<and> v < 2 ^ 63"
  by (auto simp: parse_int_def Let_def split: option.splits if_splits list.splits prod.splits)

lemma counter_value_range:
  "counter_value key t = Some (Some v) \<Longrightarrow> - (2 ^ 63) \<le> v \<and> v < 2 ^ 63"
  by (auto simp: counter_value_def dest: parse_int64_range)

definition deltag_call :: "string \<Rightarrow> string \<Rightarrow> string \<Rightarrow> call" where
  "deltag_call vgName lvName tag =
     lvm_call [''lvchange'', ''--devicesfile'', vgName, ''--deltag'', tag, vgName @ ''/'' @ lvName]"

definition addtag_call :: "string \<Rightarrow> string \<Rightarrow> string \<Rightarrow> call" where
  "addtag_call vgName lvName tag =
     lvm_call [''lvchange'', ''--devicesfile'', vgName, ''--addtag'', tag, vgName @ ''/'' @ lvName]"

definition gettags_args :: "string \<Rightarrow> string \<Rightarrow> string list" where
  "gettags_args vgName lvName =
     [''lvs'', ''--devicesfile'', vgName, ''--options'', ''lv_tags'', ''--noheadings'',
      vgName @ ''/'' @ lvName]"

text \<open>The tags the environment would list in a world.\<close>

definition tags_at :: "env \<Rightarrow> world \<Rightarrow> string \<Rightarrow> string \<Rightarrow> string list" where
  "tags_at E w vgName lvName =
     split_on (CHR '','')
       (trim_space (outcome_text (host_outcome E w (''lvm'' # gettags_args vgName lvName))))"

lemma LvmLvGetTags_Inr:
  "LvmLvGetTags vg lv E w = (Inr tags, w2) \<longleftrightarrow>
    is_ok (host_outcome E w (''lvm'' # gettags_args vg lv)) \<and> tags = tags_at E w vg lv \<and>
    w2 = after w (lvm_call (gettags_args vg lv))"
  by (auto simp: LvmLvGetTags_def bindE_Inr_iff checkErr_Lvm_Inr gettags_args_def tags_at_def)

lemma LvmLvAddTag_Inr:
  "LvmLvAddTag vg lv tag E w = (Inr u, w2) \<Longrightarrow> w2 = after w (addtag_call vg lv tag)"
  by (auto simp: LvmLvAddTag_def bindE_Inr_iff checkErr_Lvm_Inr addtag_call_def)

lemma ignore_LvmLvDelTag:
  "ignoreErr (LvmLvDelTag vg lv tag) E w = (Inr (), after w (deltag_call vg lv tag))"
  by (simp add: ignoreErr_def LvmLvDelTag_def attempt_def bindE_def checkErr_def Lvm_def
      RunOnHost_eq lvm_call_def deltag_call_def ret_def fail_def
      split: prod.split option.split)

lemma LvmLvGetCounter_Inr:
  "LvmLvGetCounter vg lv key E w = (Inr r, w2) \<Longrightarrow>
    r = Max (insert 0 (counter_values key (tags_at E w vg lv)))"
  by (auto simp: LvmLvGetCounter_def bindE_Inr_iff LvmLvGetTags_Inr GetCounter_loop_Max)

text \<open>The tags a step may delete, relative to the final value of the counter.\<close>

definition stale_tag :: "string \<Rightarrow> int \<Rightarrow> string \<Rightarrow> bool" where
  "stale_tag key r t \<longleftrightarrow>
     counter_value key t = Some None \<or> (\<exists>v<r. counter_value key t = Some (Some v))"

lemma stale_tag_mono: "stale_tag key r t \<Longrightarrow> r \<le> r' \<Longrightarrow> stale_tag key r' t"
  by (auto simp: stale_tag_def)

lemma UpdateCounter_step_total:
  assumes "- (2 ^ 63) \<le> cur" and "cur < 2 ^ 63"
  shows "\<exists>r cs. UpdateCounter_step vg lv key tag cur E w = (Inr r, w\<lparr>trace := trace w @ cs\<rparr>) \<and>
    r = GetCounter_loop key [tag] cur \<and>
    (\<forall>c\<in>set cs. \<exists>t. c = deltag_call vg lv t \<and> stale_tag key r t)"
proof (cases "counter_value key tag")
  case None
  then show ?thesis by (auto simp: UpdateCounter_step_def intro: exI [of _ "[]"])
next
  case (Some cv)
  show ?thesis
  proof (cases cv)
    case None
    with Some show ?thesis
      by (auto simp: UpdateCounter_step_def thenE_def bindE_def ignore_LvmLvDelTag after_def ret_def
          stale_tag_def intro!: exI [of _ "[deltag_call vg lv tag]"])
  next
    case (Some c)
    with \<open>counter_value key tag = Some cv\<close> have cvt: "counter_value key tag = Some (Some c)" by simp
    consider "c > cur" | "c < cur" | "c = cur" by linarith
    then show ?thesis
    proof cases
      case 1
      with cvt assms show ?thesis
        by (auto simp: UpdateCounter_step_def thenE_def bindE_def ignore_LvmLvDelTag after_def
            ret_def stale_tag_def intro!: exI [of _ "[deltag_call vg lv (counter_tag key cur)]"])
    next
      case 2
      with cvt show ?thesis
        by (auto simp: UpdateCounter_step_def thenE_def bindE_def ignore_LvmLvDelTag after_def
            ret_def stale_tag_def intro!: exI [of _ "[deltag_call vg lv tag]"])
    next
      case 3
      with cvt show ?thesis by (auto simp: UpdateCounter_step_def intro: exI [of _ "[]"])
    qed
  qed
qed

lemma GetCounter_loop_bounds:
  "- (2 ^ 63) \<le> cur \<Longrightarrow> cur < 2 ^ 63 \<Longrightarrow>
    - (2 ^ 63) \<le> GetCounter_loop key tags cur \<and> GetCounter_loop key tags cur < 2 ^ 63 \<and>
    cur \<le> GetCounter_loop key tags cur"
proof (induction tags arbitrary: cur)
  case Nil
  then show ?case by simp
next
  case (Cons t ts)
  show ?case
  proof (cases "counter_value key t")
    case None
    with Cons show ?thesis by simp
  next
    case (Some cv)
    show ?thesis
    proof (cases cv)
      case None
      with Some Cons show ?thesis by simp
    next
      case (Some c)
      then have "counter_value key t = Some (Some c)" using \<open>counter_value key t = Some cv\<close> by simp
      with counter_value_range [OF this] Cons.prems show ?thesis
        using Cons.IH [of "if c > cur then c else cur"] by auto
    qed
  qed
qed

lemma UpdateCounter_loop_total:
  assumes "- (2 ^ 63) \<le> cur" and "cur < 2 ^ 63"
  shows "\<exists>cs. foldE (UpdateCounter_step vg lv key) tags cur E w =
      (Inr (GetCounter_loop key tags cur), w\<lparr>trace := trace w @ cs\<rparr>) \<and>
    (\<forall>c\<in>set cs. \<exists>t. c = deltag_call vg lv t \<and> stale_tag key (GetCounter_loop key tags cur) t)"
  using assms
proof (induction tags arbitrary: cur w)
  case Nil
  then show ?case by (auto intro: exI [of _ "[]"])
next
  case (Cons t ts)
  let ?r = "GetCounter_loop key [t] cur"
  obtain cs where step: "UpdateCounter_step vg lv key t cur E w = (Inr ?r, w\<lparr>trace := trace w @ cs\<rparr>)"
    and cs: "\<forall>c\<in>set cs. \<exists>t. c = deltag_call vg lv t \<and> stale_tag key ?r t"
    using UpdateCounter_step_total [OF Cons.prems, of vg lv key t E w] by auto
  have b: "- (2 ^ 63) \<le> ?r" "?r < 2 ^ 63"
    using GetCounter_loop_bounds [OF Cons.prems, of key "[t]"] by auto
  have eq: "GetCounter_loop key (t # ts) cur = GetCounter_loop key ts ?r"
    by (auto split: option.split)
  have le: "?r \<le> GetCounter_loop key ts ?r" using GetCounter_loop_bounds [OF b] by auto
  obtain ds where "foldE (UpdateCounter_step vg lv key) ts ?r E (w\<lparr>trace := trace w @ cs\<rparr>) =
      (Inr (GetCounter_loop key ts ?r), w\<lparr>trace := (trace w @ cs) @ ds\<rparr>)"
    and ds: "\<forall>c\<in>set ds. \<exists>t. c = deltag_call vg lv t \<and> stale_tag key (GetCounter_loop key ts ?r) t"
    using Cons.IH [OF b, of "w\<lparr>trace := trace w @ cs\<rparr>"] by auto
  with step have "foldE (UpdateCounter_step vg lv key) (t # ts) cur E w =
      (Inr (GetCounter_loop key (t # ts) cur), w\<lparr>trace := trace w @ (cs @ ds)\<rparr>)"
    unfolding eq by (simp add: bindE_def del: GetCounter_loop.simps)
  moreover have "\<forall>c\<in>set (cs @ ds). \<exists>t'. c = deltag_call vg lv t' \<and>
      stale_tag key (GetCounter_loop key (t # ts) cur) t'"
    using cs ds stale_tag_mono [OF _ le] unfolding eq set_append by blast
  ultimately show ?case by blast
qed

lemma LvmLvUpdateCounterIfLower_Inr:
  assumes "LvmLvUpdateCounterIfLower vg lv key cur E w = (Inr r, w2)"
  defines "w1 \<equiv> after w (addtag_call vg lv (counter_tag key cur))"
  shows "r = Max (insert 0 (counter_values key (tags_at E w1 vg lv))) \<and>
    (\<exists>cs. new_calls w w2 = [addtag_call vg lv (counter_tag key cur),
        lvm_call (gettags_args vg lv)] @ cs \<and>
      (\<forall>c\<in>set cs. \<exists>t. c = deltag_call vg lv t \<and> stale_tag key r t))"
proof -
  from assms(1) have fold: "foldE (UpdateCounter_step vg lv key) (tags_at E w1 vg lv) 0 E
      (after w1 (lvm_call (gettags_args vg lv))) = (Inr r, w2)"
    by (auto simp: LvmLvUpdateCounterIfLower_def io_result LvmLvGetTags_Inr w1_def
        dest!: LvmLvAddTag_Inr)
  obtain cs where cs: "foldE (UpdateCounter_step vg lv key) (tags_at E w1 vg lv) 0 E
      (after w1 (lvm_call (gettags_args vg lv))) =
      (Inr (GetCounter_loop key (tags_at E w1 vg lv) 0),
       (after w1 (lvm_call (gettags_args vg lv)))
         \<lparr>trace := trace (after w1 (lvm_call (gettags_args vg lv))) @ cs\<rparr>)"
    "\<forall>c\<in>set cs. \<exists>t. c = deltag_call vg lv t \<and>
      stale_tag key (GetCounter_loop key (tags_at E w1 vg lv) 0) t"
    using UpdateCounter_loop_total [of 0 vg lv key "tags_at E w1 vg lv" E
        "after w1 (lvm_call (gettags_args vg lv))"] by auto
  with fold have "r = GetCounter_loop key (tags_at E w1 vg lv) 0"
    and "new_calls w w2 = [addtag_call vg lv (counter_tag key cur),
        lvm_call (gettags_args vg lv)] @ cs"
    by (auto simp: new_calls_def w1_def)
  with cs(2) show ?thesis by (auto simp: GetCounter_loop_Max)
qed

end
