(* ===== verification/Cluster_ThinPool.thy ===== *)
theory Cluster_ThinPool
  imports Commands
begin

text \<open>
  internal/manager/cluster/thinpoollv_controller.go: the cluster-wide life cycle of a thin
  pool.  The pool LV is created before the pool is reported available, and it is removed, and
  the finalizer dropped, only for a deleted pool that is inactive and has no thin LV left.
\<close>

section \<open>The reconciler\<close>

definition set_pool_condition :: "nat \<Rightarrow> Condition \<Rightarrow> ThinPoolLv \<Rightarrow> ThinPoolLv" where
  "set_pool_condition now condition p =
     p\<lparr>p_Status := (p_Status p)\<lparr>pst_Conditions :=
        fst (SetStatusCondition now (pst_Conditions (p_Status p)) condition)\<rparr>\<rparr>"

definition pool_statusUpdate :: "ThinPoolLv \<Rightarrow> ThinPoolLv io" where
  "pool_statusUpdate thinPoolLv =
     api_update_status pools PoolCall
       (thinPoolLv\<lparr>p_Status := (p_Status thinPoolLv)\<lparr>pst_ObservedGeneration :=
          om_Generation (p_Meta thinPoolLv)\<rparr>\<rparr>)"

definition cluster_createThinPoolLv :: "ThinPoolLv \<Rightarrow> unit io" where
  "cluster_createThinPoolLv thinPoolLv =
     thenE (checkErr (LvmLvCreateIdempotent []
              [''--devicesfile'', ps_VgName (p_Spec thinPoolLv), ''--activate'', ''n'',
               ''--type'', ''thin-pool'', ''--metadataprofile'', ''kubesan'',
               ''--name'', om_Name (p_Meta thinPoolLv),
               ''--size'', show_int (ps_SizeBytes (p_Spec thinPoolLv)) @ ''b'',
               ps_VgName (p_Spec thinPoolLv)]))
     (bindE timeNow (\<lambda>now.
      let condition = new_condition Available ConditionTrue ''Created''
                        ''thin pool logical volume created''
      in thenE (pool_statusUpdate (set_pool_condition now condition thinPoolLv)) (ret ())))"

definition cluster_removeThinPoolLv :: "ThinPoolLv \<Rightarrow> unit io" where
  "cluster_removeThinPoolLv thinPoolLv =
     thenE (checkErr (LvmLvRemoveIdempotent
              [''--devicesfile'', ps_VgName (p_Spec thinPoolLv),
               ps_VgName (p_Spec thinPoolLv) @ ''/'' @ om_Name (p_Meta thinPoolLv)]))
     (let (metadata, removed) = RemoveFinalizer (p_Meta thinPoolLv) Finalizer
      in if removed
         then thenE (api_update pools PoolCall (thinPoolLv\<lparr>p_Meta := metadata\<rparr>)) (ret ())
         else ret ())"

definition pool_reconcileNotDeleting :: "ThinPoolLv \<Rightarrow> unit io" where
  "pool_reconcileNotDeleting thinPoolLv =
     (let (metadata, added) = AddFinalizer (p_Meta thinPoolLv) Finalizer
      in bindE (if added then api_update pools PoolCall (thinPoolLv\<lparr>p_Meta := metadata\<rparr>)
                else ret thinPoolLv) (\<lambda>thinPoolLv.
         if \<not> IsStatusConditionTrue (pst_Conditions (p_Status thinPoolLv)) Available
         then cluster_createThinPoolLv thinPoolLv
         else ret ()))"

definition pool_reconcileDeleting :: "ThinPoolLv \<Rightarrow> unit io" where
  "pool_reconcileDeleting thinPoolLv =
     (if IsStatusConditionTrue (pst_Conditions (p_Status thinPoolLv)) ActiveCond then ret ()
      else if length (pst_ThinLvs (p_Status thinPoolLv)) > 0 then ret ()
      else cluster_removeThinPoolLv thinPoolLv)"

definition pool_Reconcile :: "string \<Rightarrow> unit io" where
  "pool_Reconcile name =
     bindE (attempt (api_get pools PoolCall name)) (\<lambda>got.
       case got of
         Inl err \<Rightarrow> returnErr (IgnoreNotFound (Some err))
       | Inr thinPoolLv \<Rightarrow>
           if om_DeletionTimestamp (p_Meta thinPoolLv) = None
           then pool_reconcileNotDeleting thinPoolLv
           else pool_reconcileDeleting thinPoolLv)"

section \<open>Removal of a pool\<close>

text \<open>What must hold of the pool for its LV to be removed.\<close>

definition removable :: "ThinPoolLv \<Rightarrow> bool" where
  "removable p \<longleftrightarrow> om_DeletionTimestamp (p_Meta p) \<noteq> None \<and>
     \<not> IsStatusConditionTrue (pst_Conditions (p_Status p)) ActiveCond \<and>
     pst_ThinLvs (p_Status p) = []"

definition lvremove_pool_call :: "ThinPoolLv \<Rightarrow> call" where
  "lvremove_pool_call p =
     lvm_call (''lvremove'' # [''--devicesfile'', ps_VgName (p_Spec p),
       ps_VgName (p_Spec p) @ ''/'' @ om_Name (p_Meta p)])"

definition safe_pool_call :: "call \<Rightarrow> bool" where
  "safe_pool_call c \<longleftrightarrow> (\<forall>args. c \<noteq> lvm_call (''lvremove'' # args)) \<and>
     (\<forall>q. c = PoolCall (ApiUpdate q) \<longrightarrow> has_finalizer Finalizer (p_Meta q))"

lemma safe_pool_call_simps [simp]:
  "safe_pool_call (PoolCall (ApiGet n))" "safe_pool_call (PoolCall (ApiUpdateStatus q))"
  "safe_pool_call (lvm_call (lvcreate_args b args))"
  "safe_pool_call (PoolCall (ApiUpdate q)) \<longleftrightarrow> has_finalizer Finalizer (p_Meta q)"
  "\<not> safe_pool_call (lvm_call (''lvremove'' # xs))"
  by (auto simp: safe_pool_call_def)

lemma pool_reconcileNotDeleting_safe: "emits (\<lambda>E. safe_pool_call) (pool_reconcileNotDeleting p)"
  unfolding pool_reconcileNotDeleting_def cluster_createThinPoolLv_def pool_statusUpdate_def
  by (intro emits_intros) (auto dest: arg_cong [of _ _ fst])

lemma cluster_removeThinPoolLv_run:
  assumes "cluster_removeThinPoolLv p E w = (r, w2)"
  shows "\<exists>cs. trace w2 = trace w @ lvremove_pool_call p # cs \<and>
    (cs \<noteq> [] \<longrightarrow> tolerated [''ailed to find''] (host_outcome E w (''lvm'' # ''lvremove'' #
        [''--devicesfile'', ps_VgName (p_Spec p), ps_VgName (p_Spec p) @ ''/'' @ om_Name (p_Meta p)])) \<and>
      cs = [PoolCall (ApiUpdate (p\<lparr>p_Meta := fst (RemoveFinalizer (p_Meta p) Finalizer)\<rparr>))])"
proof -
  let ?args = "[''--devicesfile'', ps_VgName (p_Spec p), ps_VgName (p_Spec p) @ ''/'' @ om_Name (p_Meta p)]"
  obtain r1 w1 where m: "checkErr (LvmLvRemoveIdempotent ?args) E w = (r1, w1)"
    by (cases "checkErr (LvmLvRemoveIdempotent ?args) E w")
  have t: "trace w1 = trace w @ [lvremove_pool_call p]"
    using follows_calls [OF follows_commands(6) m] by (auto simp: lvremove_pool_call_def)
  show ?thesis
  proof (cases r1)
    case (Inl e)
    with assms m t show ?thesis
      by (auto simp: cluster_removeThinPoolLv_def thenE_def bindE_def)
  next
    case (Inr out)
    with m have tol: "tolerated [''ailed to find''] (host_outcome E w (''lvm'' # ''lvremove'' # ?args))"
      using idempotent_Inr(2) by blast
    from assms m Inr have "(if snd (RemoveFinalizer (p_Meta p) Finalizer)
        then thenE (api_update pools PoolCall
          (p\<lparr>p_Meta := fst (RemoveFinalizer (p_Meta p) Finalizer)\<rparr>)) (ret ())
        else ret ()) E w1 = (r, w2)"
      by (simp add: cluster_removeThinPoolLv_def thenE_def bindE_def split_beta Let_def)
    then have "trace w2 = trace w1 \<or> trace w2 = trace w1 @
        [PoolCall (ApiUpdate (p\<lparr>p_Meta := fst (RemoveFinalizer (p_Meta p) Finalizer)\<rparr>))]"
      by (auto simp: if_run thenE_def bindE_def api_update_def invoke_def split: sum.splits)
    with t tol show ?thesis by auto
  qed
qed

text \<open>Every run of the reconciler is harmless, or it is the removal of a removable pool.\<close>

definition removal_run :: "env \<Rightarrow> world \<Rightarrow> world \<Rightarrow> string \<Rightarrow> ThinPoolLv \<Rightarrow> bool" where
  "removal_run E w w2 name p \<longleftrightarrow>
     cl_Get (pools E) (trace w) name = Inr p \<and> removable p \<and>
     (new_calls w w2 = [PoolCall (ApiGet name), lvremove_pool_call p] \<or>
      new_calls w w2 = [PoolCall (ApiGet name), lvremove_pool_call p,
        PoolCall (ApiUpdate (p\<lparr>p_Meta := fst (RemoveFinalizer (p_Meta p) Finalizer)\<rparr>))] \<and>
      tolerated [''ailed to find''] (host_outcome E (after w (PoolCall (ApiGet name)))
        (''lvm'' # ''lvremove'' # [''--devicesfile'', ps_VgName (p_Spec p),
          ps_VgName (p_Spec p) @ ''/'' @ om_Name (p_Meta p)])))"

lemma pool_Reconcile_run:
  assumes "pool_Reconcile name E w = (r, w2)"
  shows "(\<forall>c\<in>set (new_calls w w2). safe_pool_call c) \<or> (\<exists>p. removal_run E w w2 name p)"
proof -
  let ?w1 = "after w (PoolCall (ApiGet name))"
  have run: "(case cl_Get (pools E) (trace w) name of
         Inl err \<Rightarrow> returnErr (IgnoreNotFound (Some err))
       | Inr p \<Rightarrow> if om_DeletionTimestamp (p_Meta p) = None then pool_reconcileNotDeleting p
                  else pool_reconcileDeleting p) E ?w1 = (r, w2)"
    using assms by (simp add: pool_Reconcile_def attempt_get)
  show ?thesis
  proof (cases "cl_Get (pools E) (trace w) name")
    case (Inl e)
    with run show ?thesis by (auto simp: returnErr_run)
  next
    case (Inr p)
    show ?thesis
    proof (cases "om_DeletionTimestamp (p_Meta p) = None")
      case True
      with run Inr have "pool_reconcileNotDeleting p E ?w1 = (r, w2)" by simp
      from emits_run [OF pool_reconcileNotDeleting_safe this, of w "[PoolCall (ApiGet name)]"]
      show ?thesis by auto
    next
      case del: False
      with run Inr have d: "pool_reconcileDeleting p E ?w1 = (r, w2)" by simp
      show ?thesis
      proof (cases "removable p")
        case True
        with d del have "cluster_removeThinPoolLv p E ?w1 = (r, w2)"
          by (auto simp: pool_reconcileDeleting_def removable_def)
        from cluster_removeThinPoolLv_run [OF this] obtain cs where
            "trace w2 = trace ?w1 @ lvremove_pool_call p # cs" and
            "cs \<noteq> [] \<longrightarrow> tolerated [''ailed to find''] (host_outcome E ?w1 (''lvm'' # ''lvremove'' #
                [''--devicesfile'', ps_VgName (p_Spec p), ps_VgName (p_Spec p) @ ''/'' @ om_Name (p_Meta p)])) \<and>
              cs = [PoolCall (ApiUpdate (p\<lparr>p_Meta := fst (RemoveFinalizer (p_Meta p) Finalizer)\<rparr>))]"
          by blast
        then have "removal_run E w w2 name p"
          using Inr True unfolding removal_run_def by (cases "cs = []") (auto simp: new_calls_def)
        then show ?thesis by blast
      next
        case False
        with d del have "w2 = ?w1" by (auto simp: pool_reconcileDeleting_def removable_def if_run)
        then show ?thesis by simp
      qed
    qed
  qed
qed

lemma pool_Reconcile_unsafe:
  assumes "pool_Reconcile name E w = (r, w2)" and "c \<in> set (new_calls w w2)" and "\<not> safe_pool_call c"
  shows "\<exists>p. removal_run E w w2 name p"
  using pool_Reconcile_run [OF assms(1)] assms(2,3) by blast

end
