(* ===== verification/Dm.thy ===== *)
theory Dm
  imports Commands
begin

text \<open>
  internal/common/dm/dm.go: the two layers of linear device-mapper targets wrapped around a
  thin LV.  The upper layer stays suspended while the lower one is swapped, so the table of
  the lower layer may point at the LV, at an NBD device or at the zero target.
\<close>

section \<open>Names and tables\<close>

definition lowerName :: "string \<Rightarrow> string" where
  "lowerName name = ''kubesan-lower-'' @ name"

definition upperName :: "string \<Rightarrow> string" where
  "upperName name = ''kubesan-upper-'' @ name"

definition GetDevicePath :: "string \<Rightarrow> string" where
  "GetDevicePath name = ''/dev/mapper/'' @ upperName name"

definition zeroTable :: "int \<Rightarrow> string" where
  "zeroTable sizeBytes = ''0 '' @ show_int (go_div sizeBytes 512) @ '' zero''"

definition lowerTable :: "int \<Rightarrow> string \<Rightarrow> string" where
  "lowerTable sizeBytes device =
     ''0 '' @ show_int (go_div sizeBytes 512) @ '' linear '' @ device @ '' 0''"

definition upperTable :: "int \<Rightarrow> string \<Rightarrow> string" where
  "upperTable sizeBytes name =
     ''0 '' @ show_int (go_div sizeBytes 512) @ '' linear /dev/mapper/'' @ lowerName name @ '' 0''"

section \<open>Operations\<close>

definition dm_Remove :: "string \<Rightarrow> unit io" where
  "dm_Remove name =
     thenE (checkErr (DmsetupRemoveIdempotent [''--force'', upperName name]))
       (thenE (checkErr (DmsetupRemoveIdempotent [lowerName name])) (ret ()))"

definition dm_Create :: "string \<Rightarrow> int \<Rightarrow> unit io" where
  "dm_Create name sizeBytes =
     thenE (checkErr (DmsetupCreateIdempotent
              [''--uuid'', lowerName name, ''--table'', zeroTable sizeBytes,
               ''--addnodeoncreate'', lowerName name]))
     (bindE (attempt (checkErr (DmsetupCreateIdempotent
              [''--uuid'', upperName name, ''--table'', upperTable sizeBytes name,
               ''--noudevsync'', upperName name]))) (\<lambda>upper.
      case upper of
        Inl err \<Rightarrow> thenE (ignoreErr (DmsetupRemoveIdempotent [lowerName name])) (fail err)
      | Inr output \<Rightarrow>
          bindE (attempt (checkErr (Dmsetup [''mknodes'', upperName name]))) (\<lambda>mknodes.
            case mknodes of
              Inl err \<Rightarrow> thenE (ignoreErr (dm_Remove name)) (fail err)
            | Inr output \<Rightarrow>
                bindE (attempt (PathExistsOnHost (GetDevicePath name))) (\<lambda>path.
                  case (case path of
                          Inl err \<Rightarrow> Some err
                        | Inr exists \<Rightarrow>
                            if \<not> exists then Some (BadRequest ''missing expected dm mapper path'')
                            else None) of
                    Some err \<Rightarrow> thenE (ignoreErr (dm_Remove name)) (fail err)
                  | None \<Rightarrow> ret ()))))"

definition loadTable :: "string \<Rightarrow> string \<Rightarrow> unit io" where
  "loadTable device table =
     thenE (checkErr (Dmsetup [''load'', device, ''--table'', table]))
       (thenE (checkErr (Dmsetup [''resume'', ''--noflush'', ''--nolockfs'', device])) (ret ()))"

text \<open>A device that is missing, or whose path cannot be examined, is left alone.\<close>

definition dm_Suspend :: "string \<Rightarrow> bool \<Rightarrow> unit io" where
  "dm_Suspend name skipSync =
     bindE (attempt (PathExistsOnHost (GetDevicePath name))) (\<lambda>path.
       if path = Inr True then
         thenE (checkErr (DmsetupSuspendIdempotent [upperName name, ''--noflush'', ''--nolockfs'']))
         (thenE (checkErr (DmsetupSuspendIdempotent
                  ([lowerName name] @ (if skipSync then [''--nolockfs''] else []))))
         (loadTable (lowerName name) (zeroTable 512)))
       else ret ())"

definition dm_Resume :: "string \<Rightarrow> int \<Rightarrow> string \<Rightarrow> unit io" where
  "dm_Resume name sizeBytes devPath =
     thenE (loadTable (lowerName name) (lowerTable sizeBytes devPath))
       (loadTable (upperName name) (upperTable sizeBytes name))"

text \<open>The product 512 * sectors is an int64 and wraps.\<close>

definition dm_GetSize :: "string \<Rightarrow> int io" where
  "dm_GetSize name =
     bindE (checkErr (Dmsetup [''table'', upperName name])) (\<lambda>output.
       let words = split_on (CHR '' '') (Combined output)
       in if length words < 2 then fail (BadRequest ''dm table parse failed'')
          else (case parse_int 64 (words ! 1) of
                  None \<Rightarrow> fail (ParseError (words ! 1))
                | Some sectors \<Rightarrow> ret (sint (512 * word_of_int sectors :: 64 word))))"

definition IsLvmActive :: "string \<Rightarrow> string \<Rightarrow> bool io" where
  "IsLvmActive vgName lvName =
     bindE (checkErr (Dmsetup [''info'', ''--select'',
              ''vg_name='' @ vgName @ '' && lv_name='' @ lvName, ''--columns'', ''--noheadings'']))
       (\<lambda>output. ret (Combined output \<noteq> []))"

section \<open>Which commands are issued\<close>

definition load_plan :: "string \<Rightarrow> string \<Rightarrow> call list" where
  "load_plan device table =
     [dmsetup_call [''load'', device, ''--table'', table],
      dmsetup_call [''resume'', ''--noflush'', ''--nolockfs'', device]]"

lemma follows_loadTable: "follows (loadTable device table) (load_plan device table)"
  unfolding loadTable_def load_plan_def by (intro follows_Cons follows_commands follows_ret)

lemma follows_dm_Resume:
  "follows (dm_Resume name sizeBytes devPath)
     (load_plan (lowerName name) (lowerTable sizeBytes devPath) @
      load_plan (upperName name) (upperTable sizeBytes name))"
  unfolding dm_Resume_def by (intro follows_thenE follows_loadTable) (simp add: load_plan_def)

lemma follows_dm_Remove:
  "follows (dm_Remove name)
     [dmsetup_call [''remove'', ''--force'', upperName name],
      dmsetup_call [''remove'', lowerName name]]"
  unfolding dm_Remove_def by (intro follows_Cons follows_commands follows_ret)

definition suspend_plan :: "string \<Rightarrow> bool \<Rightarrow> call list" where
  "suspend_plan name skipSync =
     [dmsetup_call [''suspend'', upperName name, ''--noflush'', ''--nolockfs''],
      dmsetup_call (''suspend'' # [lowerName name] @ (if skipSync then [''--nolockfs''] else []))]
     @ load_plan (lowerName name) (zeroTable 512)"

lemma follows_suspend:
  "follows (thenE (checkErr (DmsetupSuspendIdempotent [upperName name, ''--noflush'', ''--nolockfs'']))
         (thenE (checkErr (DmsetupSuspendIdempotent
                  ([lowerName name] @ (if skipSync then [''--nolockfs''] else []))))
         (loadTable (lowerName name) (zeroTable 512)))) (suspend_plan name skipSync)"
  unfolding suspend_plan_def append_Cons append_Nil
  by (intro follows_Cons follows_loadTable)
    (use follows_commands(3) in \<open>simp_all del: append.simps\<close>)

lemma PathExistsOnHost_trace:
  "trace (snd (PathExistsOnHost p E w)) = trace w @ [StatHost p]"
  by (auto simp: PathExistsOnHost_def io_defs split: stat_outcome.split)

lemma PathExistsOnHost_Inr:
  "PathExistsOnHost p E w = (Inr b, w2) \<longleftrightarrow>
    w2 = after w (StatHost p) \<and>
    (env_stat E (trace w) p = StatExists \<and> b \<or> env_stat E (trace w) p = StatNotExist \<and> \<not> b)"
  by (auto simp: PathExistsOnHost_def bindE_Inr_iff invoke_iff after_def split: stat_outcome.splits)

section \<open>Suspending\<close>

lemma dm_Suspend_absent:
  assumes "env_stat E (trace w) (GetDevicePath name) \<noteq> StatExists"
  shows "dm_Suspend name skipSync E w = (Inr (), after w (StatHost (GetDevicePath name)))"
  using assms by (cases "env_stat E (trace w) (GetDevicePath name)")
    (auto simp: dm_Suspend_def PathExistsOnHost_def io_defs after_def)

lemma dm_Suspend_present:
  assumes "env_stat E (trace w) (GetDevicePath name) = StatExists"
    and "dm_Suspend name skipSync E w = (r, w2)"
  shows "\<exists>n \<le> 4. new_calls w w2 =
      StatHost (GetDevicePath name) # take n (suspend_plan name skipSync) \<and>
    ((\<exists>x. r = Inr x) \<longrightarrow> n = 4)"
proof -
  let ?w = "after w (StatHost (GetDevicePath name))"
  let ?m = "thenE (checkErr (DmsetupSuspendIdempotent [upperName name, ''--noflush'', ''--nolockfs'']))
         (thenE (checkErr (DmsetupSuspendIdempotent
                  ([lowerName name] @ (if skipSync then [''--nolockfs''] else []))))
         (loadTable (lowerName name) (zeroTable 512)))"
  have "attempt (PathExistsOnHost (GetDevicePath name)) E w = (Inr (Inr True), ?w)"
    using assms(1) by (simp add: attempt_def PathExistsOnHost_def bindE_def invoke_def ret_def after_def)
  then have "dm_Suspend name skipSync E w = ?m E ?w"
    unfolding dm_Suspend_def by (subst bindE_def) simp
  with assms(2) have "?m E ?w = (r, w2)" by simp
  from follows_calls [OF follows_suspend this]
  obtain n where n: "n \<le> length (suspend_plan name skipSync)"
    "trace w2 = trace ?w @ take n (suspend_plan name skipSync)"
    "new_calls ?w w2 = take n (suspend_plan name skipSync)"
    "(\<exists>x. r = Inr x) \<longrightarrow> n = length (suspend_plan name skipSync)"
    by blast
  then have "new_calls w w2 = StatHost (GetDevicePath name) # new_calls ?w w2"
    by (simp add: new_calls_def)
  moreover have "length (suspend_plan name skipSync) = 4"
    by (simp add: suspend_plan_def load_plan_def)
  ultimately show ?thesis using n by metis
qed

section \<open>Creating, with its clean-up\<close>

lemma ignore_remove_lower:
  "ignoreErr (DmsetupRemoveIdempotent args) E w = (Inr (), after w (dmsetup_call (''remove'' # args)))"
  by (simp add: ignoreErr_def DmsetupRemoveIdempotent_def suppress_def attempt_def bindE_def ret_def
      Dmsetup_def RunOnHost_eq dmsetup_call_def split: prod.split)

lemma ignore_dm_Remove_trace:
  "\<exists>w1 cs. ignoreErr (dm_Remove name) E w = (Inr (), w1) \<and> cs \<noteq> [] \<and>
    trace w1 = trace w @ cs \<and> (\<forall>c\<in>set cs. \<exists>args. c = dmsetup_call (''remove'' # args))"
proof -
  obtain r w1 where m: "dm_Remove name E w = (r, w1)" by (cases "dm_Remove name E w")
  have "\<exists>cs. cs \<noteq> [] \<and> trace w1 = trace w @ cs \<and>
      (\<forall>c\<in>set cs. \<exists>args. c = dmsetup_call (''remove'' # args))"
  proof -
    obtain n where "0 < n" and tr: "trace w1 = trace w @ take n
        [dmsetup_call [''remove'', ''--force'', upperName name],
         dmsetup_call [''remove'', lowerName name]]"
      using follows_calls [OF follows_dm_Remove m] by auto
    then have "trace w1 \<noteq> trace w" by simp
    moreover have "\<exists>args. c = dmsetup_call (''remove'' # args)" if "c \<in> set (take n
        [dmsetup_call [''remove'', ''--force'', upperName name],
         dmsetup_call [''remove'', lowerName name]])" for c
      using in_set_takeD [OF that] by auto
    ultimately show ?thesis using tr by force
  qed
  with m show ?thesis by (auto simp: ignoreErr_def attempt_def bindE_def ret_def)
qed

lemma dm_Create_Inr:
  assumes "dm_Create name sizeBytes E w = (Inr u, w2)"
  shows "new_calls w w2 =
    [dmsetup_call [''create'', ''--uuid'', lowerName name, ''--table'', zeroTable sizeBytes,
       ''--addnodeoncreate'', lowerName name],
     dmsetup_call [''create'', ''--uuid'', upperName name, ''--table'', upperTable sizeBytes name,
       ''--noudevsync'', upperName name],
     dmsetup_call [''mknodes'', upperName name],
     StatHost (GetDevicePath name)]"
proof -
  have id: "\<And>args w1 out w3. checkErr (DmsetupCreateIdempotent args) E w1 = (Inr out, w3) \<Longrightarrow>
      w3 = after w1 (dmsetup_call (''create'' # args))"
    using checkErr_suppress_Dmsetup_Inr unfolding DmsetupCreateIdempotent_def by blast
  from assms obtain o1 w1 o2 w3 o3 w4 r where
      s1: "checkErr (DmsetupCreateIdempotent [''--uuid'', lowerName name, ''--table'',
        zeroTable sizeBytes, ''--addnodeoncreate'', lowerName name]) E w = (Inr o1, w1)"
    and s2: "checkErr (DmsetupCreateIdempotent [''--uuid'', upperName name, ''--table'',
        upperTable sizeBytes name, ''--noudevsync'', upperName name]) E w1 = (Inr o2, w3)"
    and s3: "checkErr (Dmsetup [''mknodes'', upperName name]) E w3 = (Inr o3, w4)"
    and s4: "bindE (attempt (PathExistsOnHost (GetDevicePath name))) (\<lambda>path.
                  case (case path of
                          Inl err \<Rightarrow> Some err
                        | Inr exists \<Rightarrow>
                            if \<not> exists then Some (BadRequest ''missing expected dm mapper path'')
                            else None) of
                    Some err \<Rightarrow> thenE (ignoreErr (dm_Remove name)) (fail err)
                  | None \<Rightarrow> ret ()) E w4 = (Inr u, w2)"
    unfolding dm_Create_def thenE_Inr_iff [where m = "checkErr _"] attempt_handled_Inr by blast
  obtain r w5 where p: "PathExistsOnHost (GetDevicePath name) E w4 = (r, w5)"
    by (cases "PathExistsOnHost (GetDevicePath name) E w4")
  from s4 have "r = Inr True \<and> w2 = w5"
    unfolding bindE_def attempt_def p
    by (cases r) (auto simp: thenE_def bindE_def fail_def split: prod.splits sum.splits if_splits)
  with p have "w2 = after w4 (StatHost (GetDevicePath name))"
    by (simp add: PathExistsOnHost_Inr)
  moreover from s3 have "w4 = after w3 (dmsetup_call [''mknodes'', upperName name])"
    by (simp add: checkErr_Dmsetup_Inr)
  ultimately have "trace w2 = trace w @ [dmsetup_call (''create'' # [''--uuid'', lowerName name,
        ''--table'', zeroTable sizeBytes, ''--addnodeoncreate'', lowerName name]),
      dmsetup_call (''create'' # [''--uuid'', upperName name, ''--table'',
        upperTable sizeBytes name, ''--noudevsync'', upperName name]),
      dmsetup_call [''mknodes'', upperName name], StatHost (GetDevicePath name)]"
    unfolding id [OF s1] id [OF s2] trace_after append_assoc append_Cons append_Nil by simp
  then show ?thesis by (rule new_calls_append)
qed

text \<open>Whatever a failed Create leaves, its last command takes a layer down again.\<close>

definition cleaned_up :: "world \<Rightarrow> world \<Rightarrow> bool" where
  "cleaned_up w w2 \<longleftrightarrow>
     (\<exists>cs args. trace w2 = trace w @ cs @ [dmsetup_call (''remove'' # args)])"

lemma cleaned_up_after: "cleaned_up w (after w (dmsetup_call (''remove'' # args)))"
  by (auto simp: cleaned_up_def)

lemma cleaned_up_trans: "trace w1 = trace w @ ds \<Longrightarrow> cleaned_up w1 w2 \<Longrightarrow> cleaned_up w w2"
  by (auto simp: cleaned_up_def)

lemma cleaned_up_ignore_Remove: "cleaned_up w (snd (ignoreErr (dm_Remove name) E w))"
proof -
  obtain w1 cs where "ignoreErr (dm_Remove name) E w = (Inr (), w1)" and cs: "cs \<noteq> []"
    "trace w1 = trace w @ cs" "\<forall>c\<in>set cs. \<exists>args. c = dmsetup_call (''remove'' # args)"
    using ignore_dm_Remove_trace [of name E w] by blast
  moreover from cs obtain ds args where "cs = ds @ [dmsetup_call (''remove'' # args)]"
    by (metis append_butlast_last_id last_in_set)
  ultimately show ?thesis by (auto simp: cleaned_up_def)
qed

lemma thenE_fail_Inl:
  "(\<exists>u w1. m E w = (Inr u, w1)) \<Longrightarrow> thenE m (fail e') E w = (Inl e, w2) \<Longrightarrow> w2 = snd (m E w)"
  by (auto simp: thenE_Inl_iff)

lemma checkErr_command_trace:
  assumes "follows (checkErr m) [c]" and "checkErr m E w = (r, w2)"
  shows "trace w2 = trace w @ [c]"
  using follows_calls [OF assms] by auto

lemma dm_Create_Inl:
  assumes "dm_Create name sizeBytes E w = (Inl e, w2)"
  shows "cleaned_up w w2 \<or>
    new_calls w w2 = [dmsetup_call [''create'', ''--uuid'', lowerName name, ''--table'',
      zeroTable sizeBytes, ''--addnodeoncreate'', lowerName name]]"
proof -
  let ?c1 = "DmsetupCreateIdempotent [''--uuid'', lowerName name, ''--table'',
        zeroTable sizeBytes, ''--addnodeoncreate'', lowerName name]"
  let ?c2 = "DmsetupCreateIdempotent [''--uuid'', upperName name, ''--table'',
        upperTable sizeBytes name, ''--noudevsync'', upperName name]"
  let ?c3 = "Dmsetup [''mknodes'', upperName name]"
  let ?path = "attempt (PathExistsOnHost (GetDevicePath name))"
  have rm: "thenE (ignoreErr (dm_Remove name)) (fail e1 :: unit io) E w1 = (Inl e, w2) \<Longrightarrow> cleaned_up w1 w2"
    for e1 w1
    using cleaned_up_ignore_Remove [of w1 name E] ignore_dm_Remove_trace [of name E w1]
      thenE_fail_Inl [of "ignoreErr (dm_Remove name)" E w1 e1 e w2] by auto
  have path: "cleaned_up w1 w2" if "bindE ?path (\<lambda>path.
        case (case path of Inl err \<Rightarrow> Some err | Inr exists \<Rightarrow>
                if \<not> exists then Some (BadRequest ''missing expected dm mapper path'') else None) of
          Some err \<Rightarrow> thenE (ignoreErr (dm_Remove name)) (fail err)
        | None \<Rightarrow> ret ()) E w1 = (Inl e, w2)" for w1
  proof -
    obtain r w3 where p: "PathExistsOnHost (GetDevicePath name) E w1 = (r, w3)"
      by (cases "PathExistsOnHost (GetDevicePath name) E w1")
    from that obtain e1 where "thenE (ignoreErr (dm_Remove name)) (fail e1 :: unit io) E w3 = (Inl e, w2)"
      unfolding bindE_def attempt_def p by (cases r) (auto split: if_splits)
    from rm [OF this] show ?thesis
      using PathExistsOnHost_trace [of "GetDevicePath name" E w1] p by (auto intro: cleaned_up_trans)
  qed
  from assms consider
      (first) "checkErr ?c1 E w = (Inl e, w2)"
    | (second) o1 w1 e1 w3 where "checkErr ?c1 E w = (Inr o1, w1)" "checkErr ?c2 E w1 = (Inl e1, w3)"
        "thenE (ignoreErr (DmsetupRemoveIdempotent [lowerName name])) (fail e1 :: unit io) E w3 = (Inl e, w2)"
    | (third) o1 w1 o2 w3 e3 w4 where "checkErr ?c1 E w = (Inr o1, w1)"
        "checkErr ?c2 E w1 = (Inr o2, w3)" "checkErr ?c3 E w3 = (Inl e3, w4)"
        "thenE (ignoreErr (dm_Remove name)) (fail e3 :: unit io) E w4 = (Inl e, w2)"
    | (fourth) o1 w1 o2 w3 o3 w4 where "checkErr ?c1 E w = (Inr o1, w1)"
        "checkErr ?c2 E w1 = (Inr o2, w3)" "checkErr ?c3 E w3 = (Inr o3, w4)" "cleaned_up w4 w2"
    unfolding dm_Create_def thenE_Inl_iff [where m = "checkErr _"] attempt_handled_Inl
    using path by blast
  then show ?thesis
  proof cases
    case first
    then show ?thesis
      using checkErr_command_trace [OF follows_commands(2)] new_calls_append by blast
  next
    case second
    note create = second(1,2) [THEN checkErr_command_trace [OF follows_commands(2)]]
    from second(3) have "w2 = after w3 (dmsetup_call (''remove'' # [lowerName name]))"
      using ignore_remove_lower [of "[lowerName name]" E w3]
      by (auto dest: thenE_fail_Inl [rotated])
    then have "cleaned_up w3 w2" using cleaned_up_after by simp
    from this [THEN cleaned_up_trans [OF create(2)], THEN cleaned_up_trans [OF create(1)]]
    show ?thesis by simp
  next
    case third
    note create = third(1,2) [THEN checkErr_command_trace [OF follows_commands(2)]]
      third(3) [THEN checkErr_command_trace [OF follows_commands(1)]]
    from rm [OF third(4), THEN cleaned_up_trans [OF create(3)],
        THEN cleaned_up_trans [OF create(2)], THEN cleaned_up_trans [OF create(1)]]
    show ?thesis by simp
  next
    case fourth
    note create = fourth(1,2) [THEN checkErr_command_trace [OF follows_commands(2)]]
      fourth(3) [THEN checkErr_command_trace [OF follows_commands(1)]]
    from fourth(4) [THEN cleaned_up_trans [OF create(3)],
        THEN cleaned_up_trans [OF create(2)], THEN cleaned_up_trans [OF create(1)]]
    show ?thesis by simp
  qed
qed

section \<open>The size read back\<close>

lemma go_div_multiple: "go_div (512 * n) 512 = n"
  by (auto simp: go_div_def)

lemma show_int_no_blank: "CHR '' '' \<notin> set (show_int i)"
  using show_int_no_space [of i] by (auto simp: is_space_def Let_def)

text \<open>The table that Resume loads, as dmsetup prints it, gives back the size.\<close>

lemma dm_GetSize_table:
  assumes "host_outcome E w [''dmsetup'', ''table'', upperName name] =
      ExecOk (upperTable (512 * n) name @ rest)"
    and "- (2 ^ 54) \<le> n" and "n < 2 ^ 54"
  shows "dm_GetSize name E w = (Inr (512 * n), after w (dmsetup_call [''table'', upperName name]))"
proof -
  have table: "checkErr (Dmsetup [''table'', upperName name]) E w =
      (Inr \<lparr>ExitCode = 0, Combined = upperTable (512 * n) name @ rest\<rparr>,
       after w (dmsetup_call [''table'', upperName name]))"
    unfolding checkErr_Dmsetup_Inr assms(1) by simp
  obtain ws where words: "split_on (CHR '' '') (upperTable (512 * n) name @ rest) =
      ''0'' # show_int n # ws"
  proof
    show "split_on (CHR '' '') (upperTable (512 * n) name @ rest) = ''0'' # show_int n #
        split_on (CHR '' '') (''linear /dev/mapper/'' @ lowerName name @ '' 0'' @ rest)"
      using split_on_append_sep [OF show_int_no_blank [of n]]
      by (simp add: upperTable_def go_div_multiple)
  qed
  have parse: "parse_int 64 (show_int n) = Some n"
    using assms(2,3) by (intro parse_show_int) simp_all
  have "(512 * word_of_int n :: 64 word) = word_of_int (512 * n)" by simp
  then have "sint (512 * word_of_int n :: 64 word) = signed_take_bit 63 (512 * n)"
    using sint_sbintrunc' [where 'a = 64, of "512 * n"] by simp
  then have "sint (512 * word_of_int n :: 64 word) = 512 * n"
    using assms(2,3) by (simp add: signed_take_bit_int_eq_self)
  then show ?thesis
    unfolding dm_GetSize_def bindE_def [of "checkErr _"] table by (simp add: words parse ret_def)
qed

end
