(* ===== verification/Node_ThinPool.thy ===== *)
theory Node_ThinPool
  imports Cluster_ThinPool Dm
begin

text \<open>
  internal/manager/node/thinpoollv_node_controller.go: the node's side of a thin pool.  The node
  named in the spec activates the pool once the status shows that no other node has it, and then
  creates, expands, activates, deactivates and removes the thin LVs of the spec.

  The pool is passed along and replaced by what the API server returns from a status update.
  The loops of the source run over an index range fixed at their start, so each step indexes
  into the current pool; an index out of range would be a panic.
\<close>

section \<open>Commands of the pool\<close>

definition pool_path :: "ThinPoolLv \<Rightarrow> string \<Rightarrow> string" where
  "pool_path p lvName = ps_VgName (p_Spec p) @ ''/'' @ lvName"

definition lvchange_n :: "ThinPoolLv \<Rightarrow> string \<Rightarrow> string list" where
  "lvchange_n p lvName =
     [''lvchange'', ''--devicesfile'', ps_VgName (p_Spec p), ''--activate'', ''n'', pool_path p lvName]"

definition lvchange_ey :: "ThinPoolLv \<Rightarrow> string \<Rightarrow> string list" where
  "lvchange_ey p lvName =
     [''lvchange'', ''--devicesfile'', ps_VgName (p_Spec p), ''--activate'', ''ey'', pool_path p lvName]"

definition lvchange_pool_ey :: "ThinPoolLv \<Rightarrow> string list" where
  "lvchange_pool_ey p =
     [''lvchange'', ''--devicesfile'', ps_VgName (p_Spec p), ''--activate'', ''ey'',
      ''--monitor'', ''y'', pool_path p (om_Name (p_Meta p))]"

definition set_status_ActiveOnNode :: "string \<Rightarrow> ThinPoolLv \<Rightarrow> ThinPoolLv" where
  "set_status_ActiveOnNode node p = p\<lparr>p_Status := (p_Status p)\<lparr>pst_ActiveOnNode := node\<rparr>\<rparr>"

text \<open>Writing element i of Status.ThinLvs.\<close>

definition modify_status_at :: "nat \<Rightarrow> (ThinLvStatus \<Rightarrow> ThinLvStatus) \<Rightarrow> ThinPoolLv \<Rightarrow> ThinPoolLv" where
  "modify_status_at i f p =
     p\<lparr>p_Status := (p_Status p)\<lparr>pst_ThinLvs :=
        (pst_ThinLvs (p_Status p))[i := f (pst_ThinLvs (p_Status p) ! i)]\<rparr>\<rparr>"

definition inactive_state :: ThinLvStatusState where
  "inactive_state = \<lparr>st_Name = StatusInactive, st_Active = None\<rparr>"

section \<open>Activation of the pool\<close>

definition deactivate_thin_lv_at :: "nat \<Rightarrow> ThinPoolLv \<Rightarrow> ThinPoolLv io" where
  "deactivate_thin_lv_at i thinPoolLv =
     (case at (pst_ThinLvs (p_Status thinPoolLv)) i of
        None \<Rightarrow> index_panic
      | Some thinLvStatus \<Rightarrow>
          bindE (Lvm (lvchange_n thinPoolLv (lst_Name thinLvStatus))) (\<lambda>(output, err).
            case err of
              None \<Rightarrow> ret (modify_status_at i (\<lambda>st. st\<lparr>lst_State := inactive_state\<rparr>) thinPoolLv)
            | Some e \<Rightarrow>
                if str_contains (Combined output) ''ailed to find''
                then ret (modify_status_at i (\<lambda>st. st\<lparr>lst_State := inactive_state\<rparr>) thinPoolLv)
                else fail e))"

definition should_be_active :: "string \<Rightarrow> ThinPoolLv \<Rightarrow> bool" where
  "should_be_active node thinPoolLv \<longleftrightarrow>
     ps_ActiveOnNode (p_Spec thinPoolLv) = node \<and>
     slices_Any (ps_ThinLvs (p_Spec thinPoolLv)) (\<lambda>spec. ls_State spec = SpecActive)"

definition pool_inCharge :: "string \<Rightarrow> ThinPoolLv \<Rightarrow> bool" where
  "pool_inCharge node thinPoolLv \<longleftrightarrow>
     ps_ActiveOnNode (p_Spec thinPoolLv) = node \<and>
     (pst_ActiveOnNode (p_Status thinPoolLv) = [] \<or> pst_ActiveOnNode (p_Status thinPoolLv) = node) \<and>
     (om_DeletionTimestamp (p_Meta thinPoolLv) = None \<or> length (ps_ThinLvs (p_Spec thinPoolLv)) > 0)"

text \<open>The conditions posted with a change of the active node.\<close>

definition pool_activated :: Condition where
  "pool_activated = new_condition ActiveCond ConditionTrue ''Activated'' ''thin pool activated''"

definition pool_deactivated :: Condition where
  "pool_deactivated = new_condition ActiveCond ConditionFalse ''Deactivated'' ''thin pool deactivated''"

definition post_active_node :: "Condition \<Rightarrow> string \<Rightarrow> ThinPoolLv \<Rightarrow> ThinPoolLv io" where
  "post_active_node condition node thinPoolLv =
     bindE timeNow (\<lambda>now.
       let changed = snd (SetStatusCondition now (pst_Conditions (p_Status thinPoolLv)) condition);
           thinPoolLv = set_pool_condition now condition thinPoolLv
       in if changed \<or> pst_ActiveOnNode (p_Status thinPoolLv) \<noteq> node
          then pool_statusUpdate (set_status_ActiveOnNode node thinPoolLv)
          else ret thinPoolLv)"

text \<open>The result carries the pool and whether thin LVs are to be handled as well; a node that
  must wait for another one to deactivate returns False at once.\<close>

definition reconcileThinPoolLvActivation :: "ThinPoolLv \<Rightarrow> (ThinPoolLv \<times> bool) io" where
  "reconcileThinPoolLvActivation thinPoolLv =
     bindE (askEnv LocalNodeName) (\<lambda>node.
     bindE (IsLvmActive (ps_VgName (p_Spec thinPoolLv)) (om_Name (p_Meta thinPoolLv)))
       (\<lambda>thinPoolIsActive.
       if should_be_active node thinPoolLv \<and>
          pst_ActiveOnNode (p_Status thinPoolLv) \<noteq> [] \<and> pst_ActiveOnNode (p_Status thinPoolLv) \<noteq> node
       then ret (thinPoolLv, False)
       else
         bindE
           (if should_be_active node thinPoolLv then
              thenE (whenE (\<not> thinPoolIsActive)
                       (thenE (checkErr (Lvm (lvchange_pool_ey thinPoolLv))) (ret ())))
                (post_active_node pool_activated node thinPoolLv)
            else if thinPoolIsActive \<or> pst_ActiveOnNode (p_Status thinPoolLv) = node then
              bindE (foldE deactivate_thin_lv_at
                       [0..<length (pst_ThinLvs (p_Status thinPoolLv))] thinPoolLv) (\<lambda>thinPoolLv.
              thenE (checkErr (Lvm (lvchange_n thinPoolLv (om_Name (p_Meta thinPoolLv)))))
                (post_active_node pool_deactivated [] thinPoolLv))
            else ret thinPoolLv)
           (\<lambda>thinPoolLv. ret (thinPoolLv, pool_inCharge node thinPoolLv))))"

section \<open>Thin LVs\<close>

definition removeThinLv :: "ThinPoolLv \<Rightarrow> string \<Rightarrow> unit io" where
  "removeThinLv thinPoolLv thinLvName =
     thenE (checkErr (LvmLvRemoveIdempotent
              [''--devicesfile'', ps_VgName (p_Spec thinPoolLv), pool_path thinPoolLv thinLvName]))
       (ret ())"

text \<open>The statuses that stay: those of LVs whose spec does not ask for removal.  A status
  without a spec is refused.\<close>

fun remaining_statuses ::
  "ThinPoolLv \<Rightarrow> ThinLvStatus list \<Rightarrow> ThinLvStatus list \<Rightarrow> goerr + ThinLvStatus list" where
  "remaining_statuses thinPoolLv [] newThinLvs = Inr newThinLvs"
| "remaining_statuses thinPoolLv (thinLvStatus # statuses) newThinLvs =
     (case Spec_FindThinLv (p_Spec thinPoolLv) (lst_Name thinLvStatus) of
        None \<Rightarrow> Inl (BadRequest ''spec for volume went missing without requesting state Removed'')
      | Some thinLvSpec \<Rightarrow>
          remaining_statuses thinPoolLv statuses
            (if ls_State thinLvSpec \<noteq> SpecRemoved then newThinLvs @ [thinLvStatus] else newThinLvs))"

definition set_ThinLvs_status :: "ThinLvStatus list \<Rightarrow> ThinPoolLv \<Rightarrow> ThinPoolLv" where
  "set_ThinLvs_status sts p = p\<lparr>p_Status := (p_Status p)\<lparr>pst_ThinLvs := sts\<rparr>\<rparr>"

definition reconcileThinLvDeletion :: "ThinPoolLv \<Rightarrow> ThinPoolLv io" where
  "reconcileThinLvDeletion thinPoolLv =
     bindE (foldE (\<lambda>thinLvSpec needUpdate.
              if ls_State thinLvSpec \<noteq> SpecRemoved then ret needUpdate
              else thenE (removeThinLv thinPoolLv (ls_Name thinLvSpec)) (ret True))
              (ps_ThinLvs (p_Spec thinPoolLv)) False) (\<lambda>needUpdate.
       if \<not> needUpdate then ret thinPoolLv
       else
         bindE (liftE (remaining_statuses thinPoolLv (pst_ThinLvs (p_Status thinPoolLv)) []))
           (\<lambda>newThinLvs. pool_statusUpdate (set_ThinLvs_status newThinLvs thinPoolLv)))"

definition record_thin_lv :: "ThinPoolLv \<Rightarrow> ThinLvSpec \<Rightarrow> ThinPoolLv io" where
  "record_thin_lv thinPoolLv thinLvSpec =
     bindE (LvmSize (ps_VgName (p_Spec thinPoolLv)) (ls_Name thinLvSpec)) (\<lambda>sz.
       pool_statusUpdate (set_ThinLvs_status
         (pst_ThinLvs (p_Status thinPoolLv) @
            [\<lparr>lst_Name = ls_Name thinLvSpec, lst_State = inactive_state, lst_SizeBytes = sz\<rparr>])
         thinPoolLv))"

definition node_createThinLv :: "ThinPoolLv \<Rightarrow> ThinLvSpec \<Rightarrow> ThinPoolLv io" where
  "node_createThinLv thinPoolLv thinLvSpec =
     (case tc_ContentsType (ls_Contents thinLvSpec) of
        ThinLvContentsTypeEmpty \<Rightarrow>
          thenE (checkErr (LvmLvCreateIdempotent (ls_Binding thinLvSpec)
                   [''--devicesfile'', ps_VgName (p_Spec thinPoolLv), ''--type'', ''thin'',
                    ''--name'', ls_Name thinLvSpec, ''--thinpool'', om_Name (p_Meta thinPoolLv),
                    ''--virtualsize'', show_int (ls_SizeBytes thinLvSpec) @ ''b'',
                    ps_VgName (p_Spec thinPoolLv)]))
          (thenE (checkErr (Lvm (lvchange_n thinPoolLv (ls_Name thinLvSpec))))
            (record_thin_lv thinPoolLv thinLvSpec))
      | ThinLvContentsTypeSnapshot \<Rightarrow>
          (case tc_Snapshot (ls_Contents thinLvSpec) of
             None \<Rightarrow> ret thinPoolLv
           | Some sourceLv \<Rightarrow>
               if Status_FindThinLv (p_Status thinPoolLv) sourceLv = None then ret thinPoolLv
               else
                 thenE (checkErr (LvmLvCreateIdempotent (ls_Binding thinLvSpec)
                          [''--devicesfile'', ps_VgName (p_Spec thinPoolLv),
                           ''--name'', ls_Name thinLvSpec, ''--snapshot'',
                           ''--setactivationskip'', ''n'', ''--permission'', ''r'',
                           pool_path thinPoolLv sourceLv]))
                   (record_thin_lv thinPoolLv thinLvSpec))
      | OtherThinLvContents s \<Rightarrow> ret thinPoolLv)"

text \<open>The size is written through the pointer that FindThinLv returned.\<close>

definition expandThinLv :: "ThinPoolLv \<Rightarrow> ThinLvSpec \<Rightarrow> ThinPoolLv io" where
  "expandThinLv thinPoolLv thinLvSpec =
     thenE (checkErr (LvmLvExtendIdempotent
              [''--devicesfile'', ps_VgName (p_Spec thinPoolLv),
               ''--size'', show_int (ls_SizeBytes thinLvSpec) @ ''b'',
               pool_path thinPoolLv (ls_Name thinLvSpec)]))
     (bindE (LvmSize (ps_VgName (p_Spec thinPoolLv)) (ls_Name thinLvSpec)) (\<lambda>sz.
        pool_statusUpdate (modify_thin_status (ls_Name thinLvSpec)
          (\<lambda>st. st\<lparr>lst_SizeBytes := sz\<rparr>) thinPoolLv)))"

definition create_thin_lv_at :: "nat \<Rightarrow> ThinPoolLv \<Rightarrow> ThinPoolLv io" where
  "create_thin_lv_at i thinPoolLv =
     (case at (ps_ThinLvs (p_Spec thinPoolLv)) i of
        None \<Rightarrow> index_panic
      | Some thinLvSpec \<Rightarrow>
          if ls_State thinLvSpec = SpecRemoved then ret thinPoolLv
          else
            (case Status_FindThinLv (p_Status thinPoolLv) (ls_Name thinLvSpec) of
               None \<Rightarrow> node_createThinLv thinPoolLv thinLvSpec
             | Some thinLvStatus \<Rightarrow>
                 if ls_SizeBytes thinLvSpec > lst_SizeBytes thinLvStatus \<and> \<not> ls_ReadOnly thinLvSpec
                 then expandThinLv thinPoolLv thinLvSpec
                 else ret thinPoolLv))"

definition reconcileThinLvCreation :: "ThinPoolLv \<Rightarrow> ThinPoolLv io" where
  "reconcileThinLvCreation thinPoolLv =
     foldE create_thin_lv_at [0..<length (ps_ThinLvs (p_Spec thinPoolLv))] thinPoolLv"

definition activate_thin_lv_at :: "nat \<Rightarrow> ThinPoolLv \<Rightarrow> ThinPoolLv io" where
  "activate_thin_lv_at i thinPoolLv =
     (case at (pst_ThinLvs (p_Status thinPoolLv)) i of
        None \<Rightarrow> index_panic
      | Some thinLvStatus \<Rightarrow>
          (let shouldBeActive =
                 (case Spec_FindThinLv (p_Spec thinPoolLv) (lst_Name thinLvStatus) of
                    None \<Rightarrow> False
                  | Some thinLvSpec \<Rightarrow> ls_State thinLvSpec = SpecActive);
               isActiveInStatus = (st_Name (lst_State thinLvStatus) = StatusActive);
               path = ''/dev/'' @ pool_path thinPoolLv (lst_Name thinLvStatus)
           in bindE (PathExistsOnHost path) (\<lambda>isActuallyActive.
                if shouldBeActive then
                  thenE (whenE (\<not> isActuallyActive)
                           (thenE (checkErr (Lvm (lvchange_ey thinPoolLv (lst_Name thinLvStatus)))) (ret ())))
                    (if \<not> isActiveInStatus then
                       pool_statusUpdate (modify_status_at i (\<lambda>st. st\<lparr>lst_State :=
                         \<lparr>st_Name = StatusActive, st_Active = Some path\<rparr>\<rparr>) thinPoolLv)
                     else ret thinPoolLv)
                else
                  thenE (whenE isActuallyActive
                           (thenE (checkErr (Lvm (lvchange_n thinPoolLv (lst_Name thinLvStatus)))) (ret ())))
                    (if isActiveInStatus then
                       pool_statusUpdate (modify_status_at i (\<lambda>st. st\<lparr>lst_State := inactive_state\<rparr>)
                         thinPoolLv)
                     else ret thinPoolLv))))"

definition reconcileThinLvActivations :: "ThinPoolLv \<Rightarrow> ThinPoolLv io" where
  "reconcileThinLvActivations thinPoolLv =
     foldE activate_thin_lv_at [0..<length (pst_ThinLvs (p_Status thinPoolLv))] thinPoolLv"

definition node_pool_Reconcile :: "string \<Rightarrow> unit io" where
  "node_pool_Reconcile name =
     bindE (attempt (api_get pools PoolCall name)) (\<lambda>got.
       case got of
         Inl err \<Rightarrow> returnErr (IgnoreNotFound (Some err))
       | Inr thinPoolLv \<Rightarrow>
           if \<not> IsStatusConditionTrue (pst_Conditions (p_Status thinPoolLv)) Available then ret ()
           else
             bindE (reconcileThinPoolLvActivation thinPoolLv) (\<lambda>(thinPoolLv, inCharge).
               if \<not> inCharge then ret ()
               else
                 bindE (if om_DeletionTimestamp (p_Meta thinPoolLv) = None
                        then reconcileThinLvCreation thinPoolLv else ret thinPoolLv) (\<lambda>thinPoolLv.
                 bindE (reconcileThinLvActivations thinPoolLv) (\<lambda>thinPoolLv.
                 bindE (reconcileThinLvDeletion thinPoolLv) (\<lambda>thinPoolLv.
                   if pst_ActiveOnNode (p_Status thinPoolLv) = []
                   then thenE (checkErr (Lvm (lvchange_n thinPoolLv (om_Name (p_Meta thinPoolLv))))) (ret ())
                   else ret ())))))"

section \<open>Exclusive activation\<close>

text \<open>The command that activates a pool, for any pool.\<close>

definition activates_pool :: "call \<Rightarrow> bool" where
  "activates_pool c \<longleftrightarrow> (\<exists>vg path. c = lvm_call
     [''lvchange'', ''--devicesfile'', vg, ''--activate'', ''ey'', ''--monitor'', ''y'', path])"

lemma activates_pool_simps [simp]:
  "activates_pool (lvm_call (lvchange_pool_ey p))" "\<not> activates_pool (lvm_call (lvchange_ey p n))"
  "\<not> activates_pool (lvm_call (lvchange_n p n))" "\<not> activates_pool (lvm_call (lvcreate_args b a))"
  "\<not> activates_pool (lvm_call (''lvremove'' # a))" "\<not> activates_pool (lvm_call (''lvextend'' # a))"
  "\<not> activates_pool (lvm_call (''lvs'' # a))" "\<not> activates_pool (dmsetup_call a)"
  "\<not> activates_pool (PoolCall x)" "\<not> activates_pool (StatHost f)"
  by (auto simp: activates_pool_def lvchange_pool_ey_def lvchange_ey_def lvchange_n_def lvcreate_args_def)

lemma emits_pool_status [emits_intros]:
  "(\<And>E q. P E (PoolCall (ApiUpdateStatus q))) \<Longrightarrow> emits P (pool_statusUpdate p)"
  unfolding pool_statusUpdate_def by (intro emits_intros)

lemma emits_post_active_node [emits_intros]:
  "(\<And>E q. P E (PoolCall (ApiUpdateStatus q))) \<Longrightarrow> emits P (post_active_node c node p)"
  unfolding post_active_node_def by (intro emits_intros)

lemma emits_deactivate_at [emits_intros]:
  "(\<And>E q n. P E (lvm_call (lvchange_n q n))) \<Longrightarrow> emits P (deactivate_thin_lv_at i p)"
  unfolding deactivate_thin_lv_at_def by (intro emits_intros)

lemma emits_IsLvmActive [emits_intros]:
  "(\<And>E. P E (dmsetup_call [''info'', ''--select'', ''vg_name='' @ vg @ '' && lv_name='' @ lv,
      ''--columns'', ''--noheadings''])) \<Longrightarrow> emits P (IsLvmActive vg lv)"
  unfolding IsLvmActive_def by (intro emits_intros)

text \<open>The commands on thin LVs: no activation of a pool among them.\<close>

lemma creation_quiet: "emits (\<lambda>E c. \<not> activates_pool c) (reconcileThinLvCreation p)"
  unfolding reconcileThinLvCreation_def create_thin_lv_at_def node_createThinLv_def
    expandThinLv_def record_thin_lv_def
  by (intro emits_intros) (auto split: ThinLvContentsType.split intro!: emits_intros)

lemma activations_quiet: "emits (\<lambda>E c. \<not> activates_pool c) (reconcileThinLvActivations p)"
  unfolding reconcileThinLvActivations_def activate_thin_lv_at_def by (intro emits_intros) simp_all

lemma deletion_quiet: "emits (\<lambda>E c. \<not> activates_pool c) (reconcileThinLvDeletion p)"
  unfolding reconcileThinLvDeletion_def removeThinLv_def by (intro emits_intros) simp_all

definition may_activate :: "string \<Rightarrow> ThinPoolLv \<Rightarrow> bool" where
  "may_activate node p \<longleftrightarrow> ps_ActiveOnNode (p_Spec p) = node \<and>
     (pst_ActiveOnNode (p_Status p) = [] \<or> pst_ActiveOnNode (p_Status p) = node) \<and>
     (\<exists>l\<in>set (ps_ThinLvs (p_Spec p)). ls_State l = SpecActive)"

lemma activation_guarded:
  "emits (\<lambda>E c. activates_pool c \<longrightarrow> may_activate (LocalNodeName E) p) (reconcileThinPoolLvActivation p)"
  unfolding emits_def
proof (intro allI)
  fix E w
  let ?P = "\<lambda>(E :: env) c. activates_pool c \<longrightarrow> may_activate (LocalNodeName E) p"
  define m where "m = (\<lambda>node. bindE (IsLvmActive (ps_VgName (p_Spec p)) (om_Name (p_Meta p)))
       (\<lambda>thinPoolIsActive.
       if should_be_active node p \<and>
          pst_ActiveOnNode (p_Status p) \<noteq> [] \<and> pst_ActiveOnNode (p_Status p) \<noteq> node
       then ret (p, False)
       else bindE
           (if should_be_active node p then
              thenE (whenE (\<not> thinPoolIsActive) (thenE (checkErr (Lvm (lvchange_pool_ey p))) (ret ())))
                (post_active_node pool_activated node p)
            else if thinPoolIsActive \<or> pst_ActiveOnNode (p_Status p) = node then
              bindE (foldE deactivate_thin_lv_at [0..<length (pst_ThinLvs (p_Status p))] p) (\<lambda>p.
              thenE (checkErr (Lvm (lvchange_n p (om_Name (p_Meta p)))))
                (post_active_node pool_deactivated [] p))
            else ret p)
           (\<lambda>p. ret (p, pool_inCharge node p))))"
  have eq: "reconcileThinPoolLvActivation p E w = m (LocalNodeName E) E w"
    by (simp add: reconcileThinPoolLvActivation_def m_def)
  have "emits (\<lambda>E' c. activates_pool c \<longrightarrow> may_activate (LocalNodeName E) p) (m (LocalNodeName E))"
    unfolding m_def
    by (intro emits_intros) (auto simp: should_be_active_def may_activate_def list_ex_iff)
  then show "\<exists>cs. trace (snd (reconcileThinPoolLvActivation p E w)) = trace w @ cs \<and>
      (\<forall>c\<in>set cs. activates_pool c \<longrightarrow> may_activate (LocalNodeName E) p)"
    unfolding eq emits_def by blast
qed

lemma node_pool_Reconcile_activates:
  assumes run: "node_pool_Reconcile name E w = (r, w2)"
    and c: "c \<in> set (new_calls w w2)" "activates_pool c"
  shows "\<exists>p. cl_Get (pools E) (trace w) name = Inr p \<and> may_activate (LocalNodeName E) p"
proof -
  let ?w1 = "after w (PoolCall (ApiGet name))"
  define rest where "rest = (\<lambda>p. if \<not> IsStatusConditionTrue (pst_Conditions (p_Status p)) Available then ret ()
      else bindE (reconcileThinPoolLvActivation p) (\<lambda>(thinPoolLv, inCharge).
        if \<not> inCharge then ret ()
        else
          bindE (if om_DeletionTimestamp (p_Meta thinPoolLv) = None
                 then reconcileThinLvCreation thinPoolLv else ret thinPoolLv) (\<lambda>thinPoolLv.
          bindE (reconcileThinLvActivations thinPoolLv) (\<lambda>thinPoolLv.
          bindE (reconcileThinLvDeletion thinPoolLv) (\<lambda>thinPoolLv.
            if pst_ActiveOnNode (p_Status thinPoolLv) = []
            then thenE (checkErr (Lvm (lvchange_n thinPoolLv (om_Name (p_Meta thinPoolLv))))) (ret ())
            else ret ())))))"
  have quiet: "emits (\<lambda>E c. activates_pool c \<longrightarrow> may_activate (LocalNodeName E) p) (rest p)" for p
    unfolding rest_def
    by (intro emits_intros activation_guarded emits_mono [OF creation_quiet]
        emits_mono [OF activations_quiet] emits_mono [OF deletion_quiet]) simp_all
  have "(case cl_Get (pools E) (trace w) name of
         Inl err \<Rightarrow> returnErr (IgnoreNotFound (Some err)) | Inr p \<Rightarrow> rest p) E ?w1 = (r, w2)"
    using run unfolding node_pool_Reconcile_def attempt_get rest_def .
  then consider e where "returnErr (IgnoreNotFound (Some e)) E ?w1 = (r, w2)"
    | p where "cl_Get (pools E) (trace w) name = Inr p" "rest p E ?w1 = (r, w2)"
    by (auto simp: case_sum_run)
  then show ?thesis
  proof cases
    case 1
    with c show ?thesis by (auto simp: returnErr_run)
  next
    case 2
    from emits_run [OF quiet 2(2), of w "[PoolCall (ApiGet name)]"] c 2(1) show ?thesis by auto
  qed
qed

section \<open>Removal of thin LVs\<close>

lemma deletion_only_removed:
  "emits (\<lambda>E c. (\<exists>args. c = lvm_call (''lvremove'' # args)) \<longrightarrow>
      (\<exists>l\<in>set (ps_ThinLvs (p_Spec p)). ls_State l = SpecRemoved \<and>
        c = lvm_call (''lvremove'' # [''--devicesfile'', ps_VgName (p_Spec p), pool_path p (ls_Name l)])))
    (reconcileThinLvDeletion p)"
  unfolding reconcileThinLvDeletion_def removeThinLv_def
  by (intro emits_intros) auto

lemma remaining_statuses_eq:
  "remaining_statuses p sts acc =
    (if \<exists>st\<in>set sts. Spec_FindThinLv (p_Spec p) (lst_Name st) = None
     then Inl (BadRequest ''spec for volume went missing without requesting state Removed'')
     else Inr (acc @ filter (\<lambda>st. \<exists>l. Spec_FindThinLv (p_Spec p) (lst_Name st) = Some l \<and>
                 ls_State l \<noteq> SpecRemoved) sts))"
  by (induction sts arbitrary: acc) (auto split: option.splits)

text \<open>A status posted by the deletion step lists exactly the LVs that stay.\<close>

definition staying :: "ThinPoolLv \<Rightarrow> ThinLvStatus list" where
  "staying p = filter (\<lambda>st. \<exists>l. Spec_FindThinLv (p_Spec p) (lst_Name st) = Some l \<and>
     ls_State l \<noteq> SpecRemoved) (pst_ThinLvs (p_Status p))"

lemma set_ThinLvs_status_simps [simp]:
  "pst_ThinLvs (p_Status (set_ThinLvs_status sts p)) = sts"
  "p_Spec (set_ThinLvs_status sts p) = p_Spec p" "p_Meta (set_ThinLvs_status sts p) = p_Meta p"
  "pst_ActiveOnNode (p_Status (set_ThinLvs_status sts p)) = pst_ActiveOnNode (p_Status p)"
  by (simp_all add: set_ThinLvs_status_def)

lemma deletion_posts:
  "emits (\<lambda>E c. \<forall>q. c = PoolCall (ApiUpdateStatus q) \<longrightarrow>
      pst_ThinLvs (p_Status q) = staying p \<and>
      (\<forall>st\<in>set (pst_ThinLvs (p_Status p)). Spec_FindThinLv (p_Spec p) (lst_Name st) \<noteq> None))
    (reconcileThinLvDeletion p)"
  unfolding reconcileThinLvDeletion_def removeThinLv_def pool_statusUpdate_def
  by (intro emits_bindE [OF emits_foldE] emits_bind_liftE emits_intros)
    (auto simp: remaining_statuses_eq staying_def split: if_splits)

section \<open>Order of deactivation\<close>

lemma modify_status_at_frame [simp]:
  "p_Spec (modify_status_at i f p) = p_Spec p" "p_Meta (modify_status_at i f p) = p_Meta p"
  "length (pst_ThinLvs (p_Status (modify_status_at i f p))) = length (pst_ThinLvs (p_Status p))"
  by (simp_all add: modify_status_at_def)

lemma modify_status_at_names:
  "(\<And>st. lst_Name (f st) = lst_Name st) \<Longrightarrow>
    map lst_Name (pst_ThinLvs (p_Status (modify_status_at i f p))) = map lst_Name (pst_ThinLvs (p_Status p))"
proof (cases "i < length (pst_ThinLvs (p_Status p))")
  case True
  assume "\<And>st. lst_Name (f st) = lst_Name st"
  with True have "map lst_Name ((pst_ThinLvs (p_Status p))[i := f (pst_ThinLvs (p_Status p) ! i)]) =
      (map lst_Name (pst_ThinLvs (p_Status p)))[i := map lst_Name (pst_ThinLvs (p_Status p)) ! i]"
    by (simp add: map_update)
  then show ?thesis by (simp add: modify_status_at_def)
qed (simp add: modify_status_at_def list_update_beyond)

lemma lvchange_n_cong: "p_Spec q = p_Spec p \<Longrightarrow> lvchange_n q n = lvchange_n p n"
  by (simp add: lvchange_n_def pool_path_def)

lemma deactivate_at_run:
  assumes "i < length (pst_ThinLvs (p_Status p))"
  shows "follows (deactivate_thin_lv_at i p)
      [lvm_call (lvchange_n p (lst_Name (pst_ThinLvs (p_Status p) ! i)))]"
    and "deactivate_thin_lv_at i p E w = (Inr q, w2) \<Longrightarrow>
      p_Spec q = p_Spec p \<and> p_Meta q = p_Meta p \<and>
      map lst_Name (pst_ThinLvs (p_Status q)) = map lst_Name (pst_ThinLvs (p_Status p))"
proof -
  let ?n = "lst_Name (pst_ThinLvs (p_Status p) ! i)"
  show "follows (deactivate_thin_lv_at i p) [lvm_call (lvchange_n p ?n)]"
    using assms by (intro followsI)
      (auto simp: deactivate_thin_lv_at_def at_def bindE_def Lvm_def RunOnHost_eq lvm_call_def
        ret_def fail_def split: prod.split option.split)
  show "deactivate_thin_lv_at i p E w = (Inr q, w2) \<Longrightarrow>
      p_Spec q = p_Spec p \<and> p_Meta q = p_Meta p \<and>
      map lst_Name (pst_ThinLvs (p_Status q)) = map lst_Name (pst_ThinLvs (p_Status p))"
    using assms by (auto simp: deactivate_thin_lv_at_def at_def io_run modify_status_at_names)
qed

definition deactivation_plan :: "ThinPoolLv \<Rightarrow> call list" where
  "deactivation_plan p = map (\<lambda>st. lvm_call (lvchange_n p (lst_Name st))) (pst_ThinLvs (p_Status p))"

lemma follows_deactivate:
  assumes "k \<le> length (pst_ThinLvs (p_Status p))"
  shows "follows (foldE deactivate_thin_lv_at [k..<length (pst_ThinLvs (p_Status p))] p)
    (drop k (deactivation_plan p))"
  using assms
proof (induction "length (pst_ThinLvs (p_Status p)) - k" arbitrary: k p)
  case 0
  then show ?case by (simp add: deactivation_plan_def follows_ret)
next
  case (Suc d)
  let ?n = "length (pst_ThinLvs (p_Status p))"
  from Suc.hyps(2) have k: "k < ?n" by simp
  have "follows (bindE (deactivate_thin_lv_at k p) (foldE deactivate_thin_lv_at [Suc k..<?n]))
    ([lvm_call (lvchange_n p (lst_Name (pst_ThinLvs (p_Status p) ! k)))] @ drop (Suc k) (deactivation_plan p))"
  proof (rule follows_bindE)
    fix q E w w1
    assume "deactivate_thin_lv_at k p E w = (Inr q, w1)"
    from deactivate_at_run(2) [OF k this] have q: "p_Spec q = p_Spec p"
      "map lst_Name (pst_ThinLvs (p_Status q)) = map lst_Name (pst_ThinLvs (p_Status p))" by auto
    then have len: "length (pst_ThinLvs (p_Status q)) = ?n" using map_eq_imp_length_eq by blast
    have "deactivation_plan q = map (\<lambda>n. lvm_call (lvchange_n p n)) (map lst_Name (pst_ThinLvs (p_Status q)))"
      by (simp add: deactivation_plan_def lvchange_n_cong [OF q(1)] comp_def)
    then have "deactivation_plan q = deactivation_plan p"
      using q(2) by (simp add: deactivation_plan_def comp_def)
    then show "follows (foldE deactivate_thin_lv_at [Suc k..<?n] q) (drop (Suc k) (deactivation_plan p))"
      using Suc.hyps(1) [of q "Suc k"] Suc.hyps(2) k len by simp
  qed (use deactivate_at_run(1) [OF k] in simp_all)
  moreover have "[k..<?n] = k # [Suc k..<?n]" using k by (rule upt_conv_Cons)
  moreover have "drop k (deactivation_plan p) =
      lvm_call (lvchange_n p (lst_Name (pst_ThinLvs (p_Status p) ! k))) # drop (Suc k) (deactivation_plan p)"
    using k by (simp add: deactivation_plan_def flip: Cons_nth_drop_Suc)
  ultimately show ?case by simp
qed

lemma foldE_deactivate_keeps:
  assumes "foldE deactivate_thin_lv_at [0..<length (pst_ThinLvs (p_Status p))] p E w = (Inr q, w2)"
  shows "p_Spec q = p_Spec p \<and> p_Meta q = p_Meta p"
proof -
  let ?I = "\<lambda>q. p_Spec q = p_Spec p \<and> p_Meta q = p_Meta p \<and>
    map lst_Name (pst_ThinLvs (p_Status q)) = map lst_Name (pst_ThinLvs (p_Status p))"
  have "?I q"
  proof (rule foldE_invariant [OF assms])
    fix i t t2 w w2
    assume "i \<in> set [0..<length (pst_ThinLvs (p_Status p))]" and I: "?I t"
      and step: "deactivate_thin_lv_at i t E w = (Inr t2, w2)"
    then have "i < length (pst_ThinLvs (p_Status t))"
      using map_eq_imp_length_eq [of lst_Name "pst_ThinLvs (p_Status t)" lst_Name "pst_ThinLvs (p_Status p)"]
      by simp
    from deactivate_at_run(2) [OF this step] I show "?I t2" by simp
  qed simp
  then show ?thesis by simp
qed

text \<open>When a node gives the pool up, it deactivates every thin LV of the status and then the
  pool, stops at the first failure, and reports the deactivation only after all of them.\<close>

lemma pool_deactivation_order:
  assumes "\<not> should_be_active (LocalNodeName E) p"
    and active: "IsLvmActive (ps_VgName (p_Spec p)) (om_Name (p_Meta p)) E w = (Inr is_active, w1)"
    and "is_active \<or> pst_ActiveOnNode (p_Status p) = LocalNodeName E"
    and run: "reconcileThinPoolLvActivation p E w = (r, w2)"
  defines "plan \<equiv> deactivation_plan p @ [lvm_call (lvchange_n p (om_Name (p_Meta p)))]"
  shows "\<exists>n \<le> length plan. \<exists>cs. trace w2 = trace w1 @ take n plan @ cs \<and>
    (cs \<noteq> [] \<longrightarrow> n = length plan \<and> (\<exists>q. cs = [PoolCall (ApiUpdateStatus q)] \<and>
       pst_ActiveOnNode (p_Status q) = []))"
proof -
  let ?n = "length (pst_ThinLvs (p_Status p))"
  let ?loop = "foldE deactivate_thin_lv_at [0..<?n] p"
  let ?finish = "\<lambda>q. thenE (checkErr (Lvm (lvchange_n q (om_Name (p_Meta q)))))
      (post_active_node pool_deactivated [] q)"
  have run1: "bindE (bindE ?loop ?finish) (\<lambda>q. ret (q, pool_inCharge (LocalNodeName E) q)) E w1 = (r, w2)"
    using run assms(1,3) active unfolding reconcileThinPoolLvActivation_def
    by (simp add: bindE_def [of "IsLvmActive _ _"])
  obtain r1 w3 where loop: "?loop E w1 = (r1, w3)" by (cases "?loop E w1")
  from follows_calls [OF follows_deactivate [of 0 p] loop]
  obtain k where k: "k \<le> length (deactivation_plan p)" "trace w3 = trace w1 @ take k (deactivation_plan p)"
    "(\<exists>q. r1 = Inr q) \<longrightarrow> k = length (deactivation_plan p)" by auto
  show ?thesis
  proof (cases r1)
    case (Inl e)
    with loop run1 have "w2 = w3" by (simp add: bindE_def)
    with k show ?thesis unfolding plan_def by (intro exI [of _ k] conjI exI [of _ "[]"]) simp_all
  next
    case (Inr q)
    with foldE_deactivate_keeps loop have q: "p_Spec q = p_Spec p" "p_Meta q = p_Meta p" by blast+
    obtain r4 w4 where cmd: "checkErr (Lvm (lvchange_n q (om_Name (p_Meta q)))) E w3 = (r4, w4)"
      by (cases "checkErr (Lvm (lvchange_n q (om_Name (p_Meta q)))) E w3")
    then have t4: "trace w4 = trace w3 @ [lvm_call (lvchange_n p (om_Name (p_Meta p)))]"
      using follows_calls [OF follows_commands(5)] q by (fastforce simp: lvchange_n_cong [OF q(1)])
    with k Inr have plan: "trace w4 = trace w1 @ take (length plan) plan" by (simp add: plan_def)
    have "\<exists>cs. trace w2 = trace w4 @ cs \<and> (cs \<noteq> [] \<longrightarrow>
        (\<exists>q'. cs = [PoolCall (ApiUpdateStatus q')] \<and> pst_ActiveOnNode (p_Status q') = []))"
    proof (cases r4)
      case (Inl e)
      with run1 loop Inr cmd show ?thesis by (simp add: bindE_def thenE_def)
    next
      case (Inr out)
      have "trace w2 = trace (snd (post_active_node pool_deactivated [] q E w4))"
        using run1 loop \<open>r1 = Inr q\<close> cmd Inr
        by (auto simp: bindE_def thenE_def ret_def split: prod.splits sum.splits)
      then show ?thesis
        by (auto simp: post_active_node_def Let_def pool_statusUpdate_def api_update_status_def
            invoke_def set_status_ActiveOnNode_def ret_def split: if_splits)
    qed
    with plan show ?thesis by (intro exI [of _ "length plan"]) auto
  qed
qed

section \<open>Creation\<close>

text \<open>The status lists each thin LV once; creation and expansion keep it so.\<close>

definition status_distinct :: "ThinPoolLv \<Rightarrow> bool" where
  "status_distinct p \<longleftrightarrow> distinct (map lst_Name (pst_ThinLvs (p_Status p)))"

lemma modify_thin_status_names:
  "(\<And>st. lst_Name (f st) = lst_Name st) \<Longrightarrow>
    map lst_Name (pst_ThinLvs (p_Status (modify_thin_status n f p))) =
      map lst_Name (pst_ThinLvs (p_Status p))"
  by (simp add: modify_thin_status_def map_update_first)

lemma Status_FindThinLv_None_names:
  "Status_FindThinLv (p_Status p) n = None \<Longrightarrow> n \<notin> lst_Name ` set (pst_ThinLvs (p_Status p))"
  by (auto simp: Status_FindThinLv_def find_thin_status_None)

lemma creation_distinct:
  assumes "status_distinct p" and "at (ps_ThinLvs (p_Spec p)) i = Some l"
  shows "emits (\<lambda>E c. \<forall>q. c = PoolCall (ApiUpdateStatus q) \<longrightarrow> status_distinct q) (create_thin_lv_at i p)"
proof -
  let ?P = "\<lambda>(E :: env) c. \<forall>q. c = PoolCall (ApiUpdateStatus q) \<longrightarrow> status_distinct q"
  have create: "emits ?P (node_createThinLv p l)"
    if "Status_FindThinLv (p_Status p) (ls_Name l) = None"
  proof -
    have "emits ?P (record_thin_lv p l)"
      using assms(1) Status_FindThinLv_None_names [OF that]
      unfolding record_thin_lv_def pool_statusUpdate_def
      by (intro emits_intros) (auto simp: status_distinct_def)
    then show ?thesis
      unfolding node_createThinLv_def
      by (auto split: ThinLvContentsType.split intro!: emits_intros)
  qed
  have expand: "emits ?P (expandThinLv p l)"
    using assms(1) unfolding expandThinLv_def pool_statusUpdate_def
    by (intro emits_intros) (auto simp: status_distinct_def modify_thin_status_names)
  show ?thesis
    unfolding create_thin_lv_at_def assms(2)
    by (auto intro!: emits_intros create expand split: option.split)
qed

text \<open>An LV is created only for a spec that is not removed and has no status yet; a thin LV is
  extended only to a larger size, and never a read-only one.\<close>

definition creates_lv :: "string \<Rightarrow> call \<Rightarrow> bool" where
  "creates_lv b c \<longleftrightarrow> (\<exists>args. c = lvm_call (lvcreate_args b args))"

lemma create_thin_lv_at_guarded:
  assumes "at (ps_ThinLvs (p_Spec p)) i = Some l"
  shows "emits (\<lambda>E c. (\<forall>b. creates_lv b c \<longrightarrow> ls_State l \<noteq> SpecRemoved \<and>
        Status_FindThinLv (p_Status p) (ls_Name l) = None) \<and>
      (\<forall>args. c = lvm_call (''lvextend'' # args) \<longrightarrow> \<not> ls_ReadOnly l \<and>
        (\<exists>st. Status_FindThinLv (p_Status p) (ls_Name l) = Some st \<and> lst_SizeBytes st < ls_SizeBytes l)))
    (create_thin_lv_at i p)"
proof -
  have [simp]: "lvcreate_args b a \<noteq> ''lvextend'' # x" "''lvextend'' # x \<noteq> lvcreate_args b a"
    "lvcreate_args b a \<noteq> ''lvs'' # x" "''lvs'' # x \<noteq> lvcreate_args b a"
    "lvcreate_args b a \<noteq> lvchange_n q n" "lvchange_n q n \<noteq> lvcreate_args b a"
    "lvchange_n q n \<noteq> ''lvextend'' # x" for a b x q n
    by (auto simp: lvcreate_args_def lvchange_n_def)
  show ?thesis
    unfolding create_thin_lv_at_def assms option.case node_createThinLv_def expandThinLv_def
      record_thin_lv_def
    by (auto simp: creates_lv_def split: ThinLvContentsType.split option.split intro!: emits_intros)
qed

section \<open>Nodes that are not concerned\<close>

text \<open>A node that is not named in the spec, does not hold the pool and is not recorded as its
  holder only looks whether the pool is active.\<close>

lemma node_pool_bystander:
  assumes "cl_Get (pools E) (trace w) name = Inr p"
    and "IsStatusConditionTrue (pst_Conditions (p_Status p)) Available"
    and "IsLvmActive (ps_VgName (p_Spec p)) (om_Name (p_Meta p)) E (after w (PoolCall (ApiGet name))) =
      (Inr False, w1)"
    and "ps_ActiveOnNode (p_Spec p) \<noteq> LocalNodeName E"
    and "pst_ActiveOnNode (p_Status p) \<noteq> LocalNodeName E"
  shows "node_pool_Reconcile name E w = (Inr (), w1)"
proof -
  have "reconcileThinPoolLvActivation p E (after w (PoolCall (ApiGet name))) = (Inr (p, False), w1)"
    using assms unfolding reconcileThinPoolLvActivation_def
    by (simp add: bindE_def [of "IsLvmActive _ _"] should_be_active_def pool_inCharge_def)
  with assms show ?thesis
    by (simp add: node_pool_Reconcile_def attempt_get bindE_def [of "reconcileThinPoolLvActivation _"])
qed

end
