(* ===== verification/Io_Logic.thy ===== *)
theory Io_Logic
  imports Commands
begin

text \<open>
  A weakest precondition for procedures: from one environment and one world, every call of the
  run satisfies S, and its result and the world it leaves satisfy Q, whether it succeeds or
  fails.  The rules go backwards through a procedure, so a property of a long handler becomes
  the conditions of its branches, each with what was learnt on the way.
\<close>

named_theorems wp_intros "backward rules for procedures"

definition wp :: "(call \<Rightarrow> bool) \<Rightarrow> 'a io \<Rightarrow> (goerr + 'a \<Rightarrow> world \<Rightarrow> bool) \<Rightarrow> env \<Rightarrow> world \<Rightarrow> bool" where
  "wp S m Q E w \<longleftrightarrow>
     (\<exists>cs. trace (snd (m E w)) = trace w @ cs \<and> (\<forall>c\<in>set cs. S c)) \<and> Q (fst (m E w)) (snd (m E w))"

text \<open>What holds of the outcome of a part: on success the rest has to be shown, a failure
  is the outcome of the whole.\<close>

definition on_success ::
  "('a \<Rightarrow> world \<Rightarrow> bool) \<Rightarrow> (goerr \<Rightarrow> world \<Rightarrow> bool) \<Rightarrow> goerr + 'a \<Rightarrow> world \<Rightarrow> bool" where
  "on_success K F r w \<longleftrightarrow> (case r of Inl e \<Rightarrow> F e w | Inr x \<Rightarrow> K x w)"

lemma on_success_simps [simp]:
  "on_success K F (Inl e) w = F e w" "on_success K F (Inr x) w = K x w"
  by (simp_all add: on_success_def)

lemma on_successI:
  "(\<And>e. r = Inl e \<Longrightarrow> F e w) \<Longrightarrow> (\<And>x. r = Inr x \<Longrightarrow> K x w) \<Longrightarrow> on_success K F r w"
  by (cases r) auto

lemma on_success_known [wp_intros]:
  "K x w \<Longrightarrow> on_success K F (Inr x) w" "F e w \<Longrightarrow> on_success K F (Inl e) w"
  by simp_all

declare on_successI [wp_intros]

lemma wp_bindE [wp_intros]:
  assumes "wp S m (on_success (\<lambda>x. wp S (k x) Q E) (\<lambda>e. Q (Inl e))) E w"
  shows "wp S (bindE m k) Q E w"
proof -
  obtain r w1 where m: "m E w = (r, w1)" by (cases "m E w")
  from assms m obtain cs where cs: "trace w1 = trace w @ cs" "\<forall>c\<in>set cs. S c"
    and k: "on_success (\<lambda>x. wp S (k x) Q E) (\<lambda>e. Q (Inl e)) r w1"
    unfolding wp_def by auto
  show ?thesis
  proof (cases r)
    case (Inl e)
    with m cs k show ?thesis by (auto simp: wp_def bindE_def)
  next
    case (Inr x)
    with k obtain ds where "trace (snd (k x E w1)) = trace w1 @ ds" "\<forall>c\<in>set ds. S c"
      "Q (fst (k x E w1)) (snd (k x E w1))"
      by (auto simp: wp_def)
    with m cs Inr show ?thesis by (auto simp: wp_def bindE_def)
  qed
qed

lemma wp_thenE [wp_intros]:
  "wp S m (on_success (\<lambda>x. wp S k Q E) (\<lambda>e. Q (Inl e))) E w \<Longrightarrow> wp S (thenE m k) Q E w"
  unfolding thenE_def by (rule wp_bindE)

lemma wp_basic [wp_intros]:
  "Q (Inr x) w \<Longrightarrow> wp S (ret x) Q E w"
  "Q1 (Inl e) w \<Longrightarrow> wp S (fail e) Q1 E w"
  "Q2 (Inr (f E)) w \<Longrightarrow> wp S (askEnv f) Q2 E w"
  "Q3 (Inr (g w)) w \<Longrightarrow> wp S (getW g) Q3 E w"
  "Q4 (Inr ()) ((h w)\<lparr>trace := trace w\<rparr>) \<Longrightarrow> wp S (modifyW h) Q4 E w"
  "Q5 (Inr (env_now E (trace w))) w \<Longrightarrow> wp S timeNow Q5 E w"
  by (simp_all add: wp_def io_defs)

lemma wp_invoke [wp_intros]:
  "S c \<Longrightarrow> Q (a E (trace w)) (after w c) \<Longrightarrow> wp S (invoke a c) Q E w"
  by (simp add: wp_def invoke_def after_def)

lemma wp_attempt [wp_intros]:
  "wp S m (\<lambda>r. Q (Inr r)) E w \<Longrightarrow> wp S (attempt m) Q E w"
  by (simp add: wp_def attempt_def split_beta)

lemma wp_ignoreErr [wp_intros]:
  "wp S m (\<lambda>r. Q (Inr ())) E w \<Longrightarrow> wp S (ignoreErr m) Q E w"
  by (simp add: wp_def ignoreErr_def attempt_def bindE_def ret_def split_beta)

lemma wp_if [wp_intros]:
  "(b \<Longrightarrow> wp S m Q E w) \<Longrightarrow> (\<not> b \<Longrightarrow> wp S k Q E w) \<Longrightarrow> wp S (if b then m else k) Q E w"
  "(b \<Longrightarrow> wp S m1 Q1 E w) \<Longrightarrow> (\<not> b \<Longrightarrow> Q1 (Inr ()) w) \<Longrightarrow> wp S (whenE b m1) Q1 E w"
  by (auto simp: whenE_def intro: wp_basic)

lemma wp_lift [wp_intros]:
  "Q r w \<Longrightarrow> wp S (liftE r) Q E w"
  "Q1 (case e of None \<Rightarrow> Inr () | Some x \<Rightarrow> Inl x) w \<Longrightarrow> wp S (returnErr e) Q1 E w"
  by (auto simp: liftE_def returnErr_def intro: wp_basic split: sum.split option.split)

lemma wp_case [wp_intros]:
  "(o1 = None \<Longrightarrow> wp S m Q E w) \<Longrightarrow> (\<And>x. o1 = Some x \<Longrightarrow> wp S (k x) Q E w) \<Longrightarrow>
    wp S (case o1 of None \<Rightarrow> m | Some x \<Rightarrow> k x) Q E w"
  "(\<And>e. s1 = Inl e \<Longrightarrow> wp S (f e) Q E w) \<Longrightarrow> (\<And>x. s1 = Inr x \<Longrightarrow> wp S (g x) Q E w) \<Longrightarrow>
    wp S (case s1 of Inl e \<Rightarrow> f e | Inr x \<Rightarrow> g x) Q E w"
  "(\<And>a b. p1 = (a, b) \<Longrightarrow> wp S (h a b) Q E w) \<Longrightarrow> wp S (case p1 of (a, b) \<Rightarrow> h a b) Q E w"
  by (auto split: option.split sum.split prod.split)

lemma wp_Let [wp_intros]: "wp S (k x) Q E w \<Longrightarrow> wp S (let y = x in k y) Q E w"
  by simp

lemma wp_api [wp_intros]:
  "S (wrap (ApiGet n)) \<Longrightarrow> Q (cl_Get (sel E) (trace w) n) (after w (wrap (ApiGet n))) \<Longrightarrow>
    wp S (api_get sel wrap n) Q E w"
  "S (wrap ApiList) \<Longrightarrow> Q1 (cl_List (sel E) (trace w)) (after w (wrap ApiList)) \<Longrightarrow>
    wp S (api_list sel wrap) Q1 E w"
  "S (wrap (ApiCreate x)) \<Longrightarrow> Q (cl_Create (sel E) (trace w) x) (after w (wrap (ApiCreate x))) \<Longrightarrow>
    wp S (api_create sel wrap x) Q E w"
  "S (wrap (ApiUpdate x)) \<Longrightarrow> Q (cl_Update (sel E) (trace w) x) (after w (wrap (ApiUpdate x))) \<Longrightarrow>
    wp S (api_update sel wrap x) Q E w"
  "S (wrap (ApiUpdateStatus x)) \<Longrightarrow>
    Q (cl_UpdateStatus (sel E) (trace w) x) (after w (wrap (ApiUpdateStatus x))) \<Longrightarrow>
    wp S (api_update_status sel wrap x) Q E w"
  "S (wrap (ApiDelete x p)) \<Longrightarrow>
    Q2 (from_err (cl_Delete (sel E) (trace w) x)) (after w (wrap (ApiDelete x p))) \<Longrightarrow>
    wp S (api_delete sel wrap x p) Q2 E w"
  by (simp_all add: api_defs wp_invoke)

lemma wp_os_do [wp_intros]:
  "S (OsCall c) \<Longrightarrow> Q (env_os E (trace w) c) (after w (OsCall c)) \<Longrightarrow> wp S (os_do c) Q E w"
  unfolding os_do_def by (rule wp_invoke)

text \<open>A procedure whose calls and results are known otherwise.\<close>

lemma wp_emits:
  assumes "emits P m" and "\<And>c. P E c \<Longrightarrow> S c" and "\<And>r w1. m E w = (r, w1) \<Longrightarrow> Q r w1"
  shows "wp S m Q E w"
  using assms unfolding wp_def emits_def by (metis prod.collapse)

lemma wp_mono:
  "wp S m Q E w \<Longrightarrow> (\<And>c. S c \<Longrightarrow> T c) \<Longrightarrow> (\<And>r w1. m E w = (r, w1) \<Longrightarrow> Q r w1 \<Longrightarrow> R r w1) \<Longrightarrow> wp T m R E w"
  unfolding wp_def by (metis prod.collapse)

lemma wp_calls: "wp S m Q E w \<Longrightarrow> m E w = (r, w2) \<Longrightarrow> c \<in> set (new_calls w w2) \<Longrightarrow> S c"
  by (auto simp: wp_def new_calls_def)

lemma wp_result: "wp S m Q E w \<Longrightarrow> m E w = (r, w2) \<Longrightarrow> Q r w2"
  by (simp add: wp_def)

lemma wp_issues: "(\<And>E w. wp (P E w) m (\<lambda>r w2. True) E w) \<Longrightarrow> issues m P"
  by (rule issuesI) (rule wp_calls)

lemma wp_emitsI: "(\<And>E w. wp (P E) m (\<lambda>r w2. True) E w) \<Longrightarrow> emits P m"
  by (simp add: wp_def emits_def)

lemma wp_yields:
  "(\<And>E w. wp (\<lambda>c. True) m (on_success (Q E w) (\<lambda>e w2. True)) E w) \<Longrightarrow> yields m Q"
  by (rule yieldsI) (metis wp_result on_success_simps(2))

text \<open>A relation between the world in which a procedure starts, its result and the world it
  leaves, for every run, successful or not.\<close>

definition behaves :: "'a io \<Rightarrow> (env \<Rightarrow> world \<Rightarrow> goerr + 'a \<Rightarrow> world \<Rightarrow> bool) \<Rightarrow> bool" where
  "behaves m Q \<longleftrightarrow> (\<forall>E w. Q E w (fst (m E w)) (snd (m E w)))"

lemma behavesI: "(\<And>E w r w2. m E w = (r, w2) \<Longrightarrow> Q E w r w2) \<Longrightarrow> behaves m Q"
  unfolding behaves_def by (metis prod.collapse)

lemma behavesD: "behaves m Q \<Longrightarrow> m E w = (r, w2) \<Longrightarrow> Q E w r w2"
  unfolding behaves_def by (metis fst_conv snd_conv)

lemma wp_behaves: "(\<And>E w. wp (\<lambda>c. True) m (Q E w) E w) \<Longrightarrow> behaves m Q"
  by (rule behavesI) (rule wp_result)

section \<open>Loops\<close>

lemma wp_foldE:
  assumes "I s w"
    and "\<And>x t v. x \<in> set xs \<Longrightarrow> I t v \<Longrightarrow> wp S (f x t) (on_success I (\<lambda>e. Q (Inl e))) E v"
    and "\<And>t v. I t v \<Longrightarrow> Q (Inr t) v"
  shows "wp S (foldE f xs s) Q E w"
  using assms
proof (induction xs arbitrary: s w)
  case Nil
  then show ?case by (simp add: wp_basic)
next
  case (Cons x xs)
  have step: "wp S (f x s) (on_success I (\<lambda>e. Q (Inl e))) E w"
    using Cons.prems(1,2) by simp
  have "wp S (bindE (f x s) (foldE f xs)) Q E w"
  proof (rule wp_bindE, rule wp_mono [OF step])
    fix r w1
    assume "on_success I (\<lambda>e. Q (Inl e)) r w1"
    then show "on_success (\<lambda>t. wp S (foldE f xs t) Q E) (\<lambda>e. Q (Inl e)) r w1"
      using Cons.IH Cons.prems(2,3) by (cases r) auto
  qed
  then show ?case by simp
qed

section \<open>Commands\<close>

text \<open>A command on the host is recorded; a checked one gives its outcome as an error.\<close>

definition host_result :: "env \<Rightarrow> world \<Rightarrow> string list \<Rightarrow> goerr + Output" where
  "host_result E w command =
     (case outcome_result ([''nsenter'', ''--target'', ''1'', ''--all''] @ command)
             (host_outcome E w command) of
        (out, None) \<Rightarrow> Inr out | (out, Some e) \<Rightarrow> Inl e)"

lemma host_result_Inr:
  "host_result E w command = Inr out \<longleftrightarrow>
    is_ok (host_outcome E w command) \<and>
    out = \<lparr>ExitCode = 0, Combined = outcome_text (host_outcome E w command)\<rparr>"
  by (cases "host_outcome E w command") (auto simp: host_result_def)

lemma wp_RunInContainer:
  "S (Exec command) \<Longrightarrow>
    Q (Inr (outcome_result command (env_exec E (trace w) command))) (after w (Exec command)) \<Longrightarrow>
    wp S (RunInContainer command) Q E w"
  by (simp add: wp_def RunInContainer_eq after_def)

lemma wp_RunOnHost:
  "S (host_call command) \<Longrightarrow>
    Q (Inr (outcome_result ([''nsenter'', ''--target'', ''1'', ''--all''] @ command)
       (host_outcome E w command))) (after w (host_call command)) \<Longrightarrow>
    wp S (RunOnHost command) Q E w"
  by (simp add: wp_def RunOnHost_eq)

lemma wp_checkErr:
  assumes "wp S m (on_success (\<lambda>(out, err). Q (case err of None \<Rightarrow> Inr out | Some e \<Rightarrow> Inl e)) (\<lambda>e. Q (Inl e))) E w"
  shows "wp S (checkErr m) Q E w"
  unfolding checkErr_def
  by (rule wp_bindE, rule wp_mono [OF assms]) (auto simp: on_success_def intro: wp_basic split: sum.splits option.split)

lemma wp_checkErr_RunOnHost [wp_intros]:
  assumes "S (host_call command)" and "Q (host_result E w command) (after w (host_call command))"
  shows "wp S (checkErr (RunOnHost command)) Q E w"
  using assms by (intro wp_checkErr wp_RunOnHost)
    (auto simp: host_result_def on_success_def split: prod.splits option.splits)

lemma wp_checkErr_Lvm [wp_intros]:
  assumes "S (lvm_call args)" and "Q (host_result E w (''lvm'' # args)) (after w (lvm_call args))"
  shows "wp S (checkErr (Lvm args)) Q E w"
  using assms unfolding Lvm_def lvm_call_def by (rule wp_checkErr_RunOnHost)

lemma wp_PathExistsOnHost [wp_intros]:
  assumes "S (StatHost p)"
    and "Q (case env_stat E (trace w) p of StatExists \<Rightarrow> Inr True | StatNotExist \<Rightarrow> Inr False
            | StatFailed err \<Rightarrow> Inl (OtherError err)) (after w (StatHost p))"
  shows "wp S (PathExistsOnHost p) Q E w"
  using assms unfolding PathExistsOnHost_def
  by (intro wp_intros) (auto intro: wp_basic split: stat_outcome.splits)

end
