(* ===== verification/Node_Pool_Settled.thy ===== *)
theory Node_Pool_Settled
  imports Node_ThinPool Io_Logic
begin

text \<open>
  What the thin pool controller of a node achieves as a whole.  Reconciling a pool that the node is
  in charge of leads from the pool that was read to a status that agrees with its spec, or fails;
  and it fails only if something outside failed or the status lists an LV without a spec.

  The handler passes the pool along from step to step.  What is shown of each step is that the pool
  it passes on is the one the API server answered last, and what its status lists then.
\<close>

section \<open>The pool as the server answered it last\<close>

definition pool_answered :: "env \<Rightarrow> call list \<Rightarrow> call \<Rightarrow> ThinPoolLv \<Rightarrow> ThinPoolLv" where
  "pool_answered E h c p =
     (case c of
        PoolCall (ApiUpdateStatus x) \<Rightarrow>
          (case cl_UpdateStatus (pools E) h x of Inl err \<Rightarrow> p | Inr q \<Rightarrow> q)
      | _ \<Rightarrow> p)"

fun pool_after :: "env \<Rightarrow> call list \<Rightarrow> call list \<Rightarrow> ThinPoolLv \<Rightarrow> ThinPoolLv" where
  "pool_after E h [] p = p"
| "pool_after E h (c # cs) p = pool_after E (h @ [c]) cs (pool_answered E h c p)"

lemma pool_after_append: "pool_after E h (cs @ ds) p = pool_after E (h @ cs) ds (pool_after E h cs p)"
  by (induction cs arbitrary: h p) simp_all

text \<open>The status is a subresource: an update that is accepted answers with the pool that was sent.\<close>

definition answers_pool :: "ThinPoolLv \<Rightarrow> ThinPoolLv \<Rightarrow> bool" where
  "answers_pool x q \<longleftrightarrow> p_Spec q = p_Spec x \<and> p_Status q = p_Status x \<and>
     om_Name (p_Meta q) = om_Name (p_Meta x) \<and>
     om_DeletionTimestamp (p_Meta q) = om_DeletionTimestamp (p_Meta x)"

definition pools_echoed :: "env \<Rightarrow> bool" where
  "pools_echoed E \<longleftrightarrow> (\<forall>h x q. cl_UpdateStatus (pools E) h x = Inr q \<longrightarrow> answers_pool x q)"

text \<open>What a step may change is the status alone, and of it the names of the LVs, whether they are
  active, and the active node matter here.\<close>

definition same_request :: "ThinPoolLv \<Rightarrow> ThinPoolLv \<Rightarrow> bool" where
  "same_request p q \<longleftrightarrow> p_Spec q = p_Spec p \<and> om_Name (p_Meta q) = om_Name (p_Meta p) \<and>
     om_DeletionTimestamp (p_Meta q) = om_DeletionTimestamp (p_Meta p)"

definition lv_active :: "ThinLvStatus \<Rightarrow> bool" where
  "lv_active st \<longleftrightarrow> st_Name (lst_State st) = StatusActive"

definition lv_view :: "ThinPoolLv \<Rightarrow> (string \<times> bool) list" where
  "lv_view p = map (\<lambda>st. (lst_Name st, lv_active st)) (pst_ThinLvs (p_Status p))"

definition matches :: "ThinPoolLv \<Rightarrow> ThinPoolLv \<Rightarrow> bool" where
  "matches p q \<longleftrightarrow> same_request p q \<and> lv_view q = lv_view p \<and>
     pst_ActiveOnNode (p_Status q) = pst_ActiveOnNode (p_Status p)"

lemma same_request_refl [simp]: "same_request p p"
  by (simp add: same_request_def)

lemma same_request_trans: "same_request p q \<Longrightarrow> same_request q r \<Longrightarrow> same_request p r"
  by (simp add: same_request_def)

lemma matches_refl [simp]: "matches p p"
  by (simp add: matches_def)

lemma matches_trans: "matches p q \<Longrightarrow> matches q r \<Longrightarrow> matches p r"
  by (auto simp: matches_def intro: same_request_trans)

text \<open>The state of a run: since the world w0 its calls made of the pool p one that matches q.\<close>

definition tracked :: "env \<Rightarrow> ThinPoolLv \<Rightarrow> world \<Rightarrow> world \<Rightarrow> ThinPoolLv \<Rightarrow> bool" where
  "tracked E p w0 w q \<longleftrightarrow>
     (\<exists>cs. trace w = trace w0 @ cs \<and> matches (pool_after E (trace w0) cs p) q)"

definition pool_quiet :: "env \<Rightarrow> call \<Rightarrow> bool" where
  "pool_quiet E c \<longleftrightarrow> (\<forall>x. c \<noteq> PoolCall (ApiUpdateStatus x))"

lemma pool_quiet_simps [simp]:
  "pool_quiet E (lvm_call a)" "pool_quiet E (dmsetup_call a)" "pool_quiet E (StatHost f)"
  "pool_quiet E (PoolCall (ApiGet n))"
  by (simp_all add: pool_quiet_def)

lemma pool_answered_quiet: "pool_quiet E c \<Longrightarrow> pool_answered E h c p = p"
  by (auto simp: pool_answered_def pool_quiet_def split: call.split api_call.split)

lemma pool_after_quiet: "\<forall>c\<in>set cs. pool_quiet E c \<Longrightarrow> pool_after E h cs p = p"
  by (induction cs arbitrary: h) (simp_all add: pool_answered_quiet)

lemma tracked_refl: "tracked E p w w p"
  by (simp add: tracked_def)

lemma tracked_quiet:
  "tracked E p w0 w q \<Longrightarrow> trace w2 = trace w @ cs \<Longrightarrow> \<forall>c\<in>set cs. pool_quiet E c \<Longrightarrow> tracked E p w0 w2 q"
  by (auto simp: tracked_def pool_after_append pool_after_quiet)

lemma tracked_matches: "tracked E p w0 w q \<Longrightarrow> matches q r \<Longrightarrow> tracked E p w0 w r"
  unfolding tracked_def using matches_trans by blast

lemma tracked_posted:
  assumes "tracked E p w0 w q" and "cl_UpdateStatus (pools E) (trace w) x = Inr r"
  shows "tracked E p w0 (after w (PoolCall (ApiUpdateStatus x))) r"
  using assms by (auto simp: tracked_def pool_after_append pool_answered_def)

section \<open>When the outside answers\<close>

definition responsive :: "env \<Rightarrow> bool" where
  "responsive E \<longleftrightarrow>
     (\<forall>h x. \<exists>q. cl_UpdateStatus (pools E) h x = Inr q) \<and>
     (\<forall>h command. \<exists>out. env_exec E h command = ExecOk out \<and>
        (''lv_size'' \<in> set command \<longrightarrow> parse_int 64 (trim_space out) \<noteq> None)) \<and>
     (\<forall>h f err. env_stat E h f \<noteq> StatFailed err)"

text \<open>Procedures that fail only when the outside does.\<close>

definition answered :: "'a io \<Rightarrow> bool" where
  "answered m \<longleftrightarrow> (\<forall>E w err w2. m E w = (Inl err, w2) \<longrightarrow> \<not> responsive E)"

named_theorems answered_intros "procedures that fail only when the outside does"

lemma answered_basic [answered_intros]: "answered (ret x)" "answered timeNow" "answered (askEnv f)"
  by (simp_all add: answered_def io_defs)

lemma answered_bindE [answered_intros]:
  "answered m \<Longrightarrow> (\<And>x. answered (k x)) \<Longrightarrow> answered (bindE m k)"
  unfolding answered_def bindE_def by (force split: prod.splits sum.splits)

lemma answered_thenE [answered_intros]: "answered m \<Longrightarrow> answered k \<Longrightarrow> answered (thenE m k)"
  unfolding thenE_def by (rule answered_bindE)

lemma answered_whenE [answered_intros]: "answered m \<Longrightarrow> answered (whenE b m)"
  by (simp add: whenE_def answered_basic)

text \<open>A command that succeeds on such a host, and its checked form.\<close>

definition succeeds :: "(Output \<times> goerr option) io \<Rightarrow> bool" where
  "succeeds m \<longleftrightarrow> (\<forall>E w. responsive E \<longrightarrow> (\<exists>out. fst (m E w) = Inr (out, None)))"

lemma succeeds_RunOnHost: "succeeds (RunOnHost command)"
  unfolding succeeds_def
proof (intro allI impI)
  fix E w
  assume "responsive E"
  then obtain out where "host_outcome E w command = ExecOk out"
    unfolding responsive_def host_outcome_def by blast
  then show "\<exists>out. fst (RunOnHost command E w) = Inr (out, None)" by (simp add: RunOnHost_eq)
qed

lemma succeeds_suppress: "succeeds m \<Longrightarrow> succeeds (suppress texts m)"
  unfolding succeeds_def
proof (intro allI impI)
  fix E w
  assume "\<forall>E w. responsive E \<longrightarrow> (\<exists>out. fst (m E w) = Inr (out, None))" and "responsive E"
  then obtain out w2 where "m E w = (Inr (out, None), w2)" by (metis prod.collapse)
  then show "\<exists>out. fst (suppress texts m E w) = Inr (out, None)" by (simp add: suppress_def bindE_def ret_def)
qed

lemma succeeds_commands:
  "succeeds (Lvm args)" "succeeds (Dmsetup args)" "succeeds (LvmLvCreateIdempotent b args)"
  "succeeds (LvmLvRemoveIdempotent args)" "succeeds (LvmLvExtendIdempotent args)"
  by (simp_all add: Lvm_def Dmsetup_def LvmLvCreateIdempotent_def LvmLvRemoveIdempotent_def
      LvmLvExtendIdempotent_def succeeds_RunOnHost succeeds_suppress)

lemma succeedsD: "succeeds m \<Longrightarrow> responsive E \<Longrightarrow> \<exists>out w2. m E w = (Inr (out, None), w2)"
  unfolding succeeds_def by (metis prod.collapse)

lemma answered_checkErr [answered_intros]: "succeeds m \<Longrightarrow> answered (checkErr m)"
  unfolding answered_def checkErr_def
proof (intro allI impI notI)
  fix E w err w2
  assume "succeeds m" "responsive E"
    and run: "bindE m (\<lambda>(output, e). case e of None \<Rightarrow> ret output | Some x \<Rightarrow> fail x) E w = (Inl err, w2)"
  then obtain out w3 where "m E w = (Inr (out, None), w3)" using succeedsD by blast
  with run show False by (simp add: bindE_def ret_def)
qed

declare succeeds_commands [answered_intros]

lemma answered_IsLvmActive [answered_intros]: "answered (IsLvmActive vg lv)"
  unfolding IsLvmActive_def by (intro answered_intros)

lemma answered_PathExistsOnHost [answered_intros]: "answered (PathExistsOnHost f)"
  unfolding answered_def
proof (intro allI impI notI)
  fix E w err w2
  assume "PathExistsOnHost f E w = (Inl err, w2)" and "responsive E"
  then show False
    by (cases "env_stat E (trace w) f") (auto simp: PathExistsOnHost_def bindE_def invoke_def ret_def responsive_def)
qed

lemma answered_LvmSize [answered_intros]: "answered (LvmSize vg lv)"
  unfolding answered_def
proof (intro allI impI notI)
  fix E w err w2
  assume run: "LvmSize vg lv E w = (Inl err, w2)" and E: "responsive E"
  define c where "c = [''lvm'', ''lvs'', ''--devicesfile'', vg, ''--options'', ''lv_size'', ''--units'', ''b'',
    ''--no-headings'', ''--no-suffix'', vg @ ''/'' @ lv]"
  have "''lv_size'' \<in> set ([''nsenter'', ''--target'', ''1'', ''--all''] @ c)" by (simp add: c_def)
  with E obtain out where "host_outcome E w c = ExecOk out" "parse_int 64 (trim_space out) \<noteq> None"
    unfolding responsive_def host_outcome_def by blast
  with run show False
    by (auto simp: LvmSize_def checkErr_def Lvm_def RunOnHost_eq bindE_def ret_def c_def split: option.splits)
qed

section \<open>Steps of a run\<close>

text \<open>The triples of the steps.  F is what is left to show when a step fails.\<close>

lemma on_success_Inl: "on_success K G (Inl e) = G e"
  by (rule ext) simp

lemma wp_seq:
  assumes "wp S m (on_success (\<lambda>x. wp S (k x) (on_success K (\<lambda>e w. F)) E) (\<lambda>e w. F)) E w"
  shows "wp S (bindE m k) (on_success K (\<lambda>e w. F)) E w"
  by (rule wp_bindE) (use assms in \<open>simp add: on_success_Inl\<close>)

lemma wp_then:
  assumes "wp S m (on_success (\<lambda>x. wp S k (on_success K (\<lambda>e w. F)) E) (\<lambda>e w. F)) E w"
  shows "wp S (thenE m k) (on_success K (\<lambda>e w. F)) E w"
  using assms unfolding thenE_def by (rule wp_seq)

lemma wp_give: "K x w \<Longrightarrow> wp S (ret x) (on_success K F) E w"
  by (simp add: wp_basic)

lemma wp_outside:
  assumes "emits pool_quiet m" and "answered m" and "tracked E p w0 w q" and "\<not> responsive E \<Longrightarrow> F"
    and "\<And>x w2. tracked E p w0 w2 q \<Longrightarrow> m E w = (Inr x, w2) \<Longrightarrow> K x w2"
  shows "wp (\<lambda>c. True) m (on_success K (\<lambda>e w. F)) E w"
proof (rule wp_emits [OF assms(1)])
  fix r w2
  assume run: "m E w = (r, w2)"
  with assms(1) obtain cs where "trace w2 = trace w @ cs" "\<forall>c\<in>set cs. pool_quiet E c"
    unfolding emits_def by (metis snd_conv)
  with assms(3) have "tracked E p w0 w2 q" by (rule tracked_quiet)
  with run assms(2,4,5) show "on_success K (\<lambda>e w. F) r w2" by (cases r) (auto simp: answered_def)
qed simp

lemma wp_status:
  assumes "pools_echoed E" and "tracked E p w0 w q" and "\<not> responsive E \<Longrightarrow> F"
    and "\<And>r w2. tracked E p w0 w2 r \<Longrightarrow> matches x r \<Longrightarrow> K r w2"
  shows "wp (\<lambda>c. True) (pool_statusUpdate x) (on_success K (\<lambda>e w. F)) E w"
  unfolding pool_statusUpdate_def
proof (rule wp_api, rule TrueI)
  let ?x = "x\<lparr>p_Status := (p_Status x)\<lparr>pst_ObservedGeneration := om_Generation (p_Meta x)\<rparr>\<rparr>"
  show "on_success K (\<lambda>e w. F) (cl_UpdateStatus (pools E) (trace w) ?x) (after w (PoolCall (ApiUpdateStatus ?x)))"
  proof (cases "cl_UpdateStatus (pools E) (trace w) ?x")
    case (Inl e)
    then have "\<not> responsive E" unfolding responsive_def by (metis Inl_Inr_False)
    with Inl assms(3) show ?thesis by simp
  next
    case (Inr r)
    with assms(1) have "answers_pool ?x r" unfolding pools_echoed_def by blast
    then have "matches x r" by (simp add: answers_pool_def matches_def same_request_def lv_view_def)
    moreover have "tracked E p w0 (after w (PoolCall (ApiUpdateStatus ?x))) r"
      using assms(2) Inr by (rule tracked_posted)
    ultimately show ?thesis using Inr assms(4) by simp
  qed
qed

text \<open>A loop, with an invariant that knows what is done.\<close>

lemma wp_foldE_done:
  assumes "I [] s w"
    and "\<And>pre x post t v. xs = pre @ x # post \<Longrightarrow> I pre t v \<Longrightarrow>
      wp S (f x t) (on_success (I (pre @ [x])) (\<lambda>e w. F)) E v"
    and "\<And>t v. I xs t v \<Longrightarrow> K t v"
  shows "wp S (foldE f xs s) (on_success K (\<lambda>e w. F)) E w"
proof -
  have "wp S (foldE f post s) (on_success K (\<lambda>e w. F)) E w" if "xs = pre @ post" "I pre s w" for pre post s w
    using that
  proof (induction post arbitrary: pre s w)
    case Nil
    with assms(3) show ?case by (simp add: wp_give)
  next
    case (Cons x post)
    have "wp S (bindE (f x s) (foldE f post)) (on_success K (\<lambda>e w. F)) E w"
    proof (rule wp_seq, rule wp_mono [OF assms(2) [OF Cons.prems]])
      fix r w1
      assume "on_success (I (pre @ [x])) (\<lambda>e w. F) r w1"
      then show "on_success (\<lambda>t. wp S (foldE f post t) (on_success K (\<lambda>e w. F)) E) (\<lambda>e w. F) r w1"
        using Cons.IH [of "pre @ [x]"] Cons.prems(1) by (cases r) auto
    qed
    then show ?case by simp
  qed
  with assms(1) show ?thesis by simp
qed

lemma wp_foldE_upt:
  assumes "I 0 s w"
    and "\<And>i t v. i < n \<Longrightarrow> I i t v \<Longrightarrow> wp S (f i t) (on_success (I (Suc i)) (\<lambda>e w. F)) E v"
    and "\<And>t v. I n t v \<Longrightarrow> K t v"
  shows "wp S (foldE f [0..<n] s) (on_success K (\<lambda>e w. F)) E w"
proof (rule wp_foldE_done [where I = "\<lambda>pre. I (length pre)"])
  fix pre i post t v
  assume split: "[0..<n] = pre @ i # post" and I: "I (length pre) t v"
  from arg_cong [OF split, of length] have len: "length pre < n" by simp
  from arg_cong [OF split, of "\<lambda>xs. xs ! length pre"] len have "i = length pre" by (simp add: nth_append)
  with assms(2) [OF len I] show "wp S (f i t) (on_success (I (length (pre @ [i]))) (\<lambda>e w. F)) E v" by simp
qed (use assms(1,3) in simp_all)

section \<open>Activation of the pool\<close>

lemma set_pool_condition_frame [simp]:
  "p_Spec (set_pool_condition now c p) = p_Spec p" "p_Meta (set_pool_condition now c p) = p_Meta p"
  "pst_ThinLvs (p_Status (set_pool_condition now c p)) = pst_ThinLvs (p_Status p)"
  by (simp_all add: set_pool_condition_def)

lemma set_status_ActiveOnNode_frame [simp]:
  "p_Spec (set_status_ActiveOnNode node p) = p_Spec p" "p_Meta (set_status_ActiveOnNode node p) = p_Meta p"
  "pst_ThinLvs (p_Status (set_status_ActiveOnNode node p)) = pst_ThinLvs (p_Status p)"
  "pst_ActiveOnNode (p_Status (set_status_ActiveOnNode node p)) = node"
  by (simp_all add: set_status_ActiveOnNode_def)

lemma set_pool_condition_matches: "matches q r \<Longrightarrow> matches q (set_pool_condition now c r)"
  by (simp add: matches_def same_request_def lv_view_def set_pool_condition_def)

lemma wp_post_active_node:
  assumes "pools_echoed E" and "tracked E p w0 w q0" and "\<not> responsive E \<Longrightarrow> F"
    and "pst_ActiveOnNode (p_Status q) = node \<Longrightarrow> tracked E p w0 w q"
    and "\<And>r w2. tracked E p w0 w2 r \<Longrightarrow> matches (set_status_ActiveOnNode node q) r \<Longrightarrow> K r w2"
  shows "wp (\<lambda>c. True) (post_active_node c node q) (on_success K (\<lambda>e w. F)) E w"
  unfolding post_active_node_def Let_def
proof (rule wp_bindE, rule wp_basic, rule on_success_known, rule wp_if, goal_cases)
  case 1
  show ?case
  proof (rule wp_status [OF assms(1,2,3)], assumption)
    fix r w2
    assume "tracked E p w0 w2 r"
      and "matches (set_status_ActiveOnNode node (set_pool_condition (env_now E (trace w)) c q)) r"
    moreover have "matches (set_status_ActiveOnNode node q)
        (set_status_ActiveOnNode node (set_pool_condition (env_now E (trace w)) c q))"
      by (simp add: matches_def same_request_def lv_view_def)
    ultimately show "K r w2" using assms(5) matches_trans by blast
  qed
next
  case 2
  let ?r = "set_pool_condition (env_now E (trace w)) c q"
  from 2 have node: "pst_ActiveOnNode (p_Status q) = node" by (simp add: set_pool_condition_def)
  have "matches q ?r" by (simp add: set_pool_condition_matches)
  moreover from node have "matches (set_status_ActiveOnNode node q) ?r"
    by (simp add: matches_def same_request_def lv_view_def set_pool_condition_def)
  ultimately have "K ?r w" using assms(4) [OF node] assms(5) tracked_matches by blast
  then show ?case by (rule wp_give)
qed

text \<open>A pool that no node has activated has no active LV.\<close>

definition status_consistent :: "ThinPoolLv \<Rightarrow> bool" where
  "status_consistent p \<longleftrightarrow>
     (pst_ActiveOnNode (p_Status p) = [] \<longrightarrow> list_all (\<lambda>st. \<not> lv_active st) (pst_ThinLvs (p_Status p)))"

text \<open>The loop that deactivates the LVs works on the pool in memory only.\<close>

definition deactivated_upto :: "ThinPoolLv \<Rightarrow> nat \<Rightarrow> ThinPoolLv \<Rightarrow> bool" where
  "deactivated_upto p i q \<longleftrightarrow> same_request p q \<and>
     map lst_Name (pst_ThinLvs (p_Status q)) = map lst_Name (pst_ThinLvs (p_Status p)) \<and>
     pst_ActiveOnNode (p_Status q) = pst_ActiveOnNode (p_Status p) \<and>
     (\<forall>j<i. \<not> lv_active (pst_ThinLvs (p_Status q) ! j))"

lemma lv_active_inactive [simp]: "\<not> lv_active (st\<lparr>lst_State := inactive_state\<rparr>)"
  by (simp add: lv_active_def inactive_state_def)

lemma deactivated_upto_Suc:
  assumes "deactivated_upto p i q" and "i < length (pst_ThinLvs (p_Status p))"
  shows "deactivated_upto p (Suc i) (modify_status_at i (\<lambda>st. st\<lparr>lst_State := inactive_state\<rparr>) q)"
proof -
  from assms(1) have "length (pst_ThinLvs (p_Status q)) = length (pst_ThinLvs (p_Status p))"
    unfolding deactivated_upto_def using map_eq_imp_length_eq by blast
  with assms show ?thesis
    by (auto simp: deactivated_upto_def modify_status_at_names same_request_def less_Suc_eq)
      (auto simp: modify_status_at_def nth_list_update)
qed

lemma emits_deactivate_quiet: "emits pool_quiet (deactivate_thin_lv_at i p)"
  by (intro emits_deactivate_at) simp

lemma deactivate_at_result:
  assumes "i < length (pst_ThinLvs (p_Status q))"
  shows "(\<exists>err. fst (deactivate_thin_lv_at i q E w) = Inl err) \<and> \<not> responsive E \<or>
    fst (deactivate_thin_lv_at i q E w) = Inr (modify_status_at i (\<lambda>st. st\<lparr>lst_State := inactive_state\<rparr>) q)"
proof -
  let ?m = "Lvm (lvchange_n q (lst_Name (pst_ThinLvs (p_Status q) ! i)))"
  obtain out err w2 where m: "?m E w = (Inr (out, err), w2)"
    by (metis Lvm_def RunOnHost_eq prod.collapse)
  have "\<not> responsive E" if "err \<noteq> None"
    using that m succeedsD [OF succeeds_commands(1)] by (metis Inr_inject prod.inject)
  with m assms show ?thesis
    by (auto simp: deactivate_thin_lv_at_def at_def bindE_def ret_def fail_def split: option.split)
qed

lemma wp_deactivate_loop:
  assumes "tracked E p0 w0 w p" and "\<not> responsive E \<Longrightarrow> F"
    and "\<And>q w2. tracked E p0 w0 w2 p \<Longrightarrow> deactivated_upto p (length (pst_ThinLvs (p_Status p))) q \<Longrightarrow> K q w2"
  shows "wp (\<lambda>c. True) (foldE deactivate_thin_lv_at [0..<length (pst_ThinLvs (p_Status p))] p)
    (on_success K (\<lambda>e w. F)) E w"
proof (rule wp_foldE_upt [where I = "\<lambda>i q v. tracked E p0 w0 v p \<and> deactivated_upto p i q"])
  show "tracked E p0 w0 w p \<and> deactivated_upto p 0 p" using assms(1) by (simp add: deactivated_upto_def)
  fix i q v
  assume i: "i < length (pst_ThinLvs (p_Status p))" and I: "tracked E p0 w0 v p \<and> deactivated_upto p i q"
  then have "i < length (pst_ThinLvs (p_Status q))"
    unfolding deactivated_upto_def using map_eq_imp_length_eq by metis
  note result = deactivate_at_result [OF this, of E v]
  show "wp (\<lambda>c. True) (deactivate_thin_lv_at i q)
      (on_success (\<lambda>q v. tracked E p0 w0 v p \<and> deactivated_upto p (Suc i) q) (\<lambda>e w. F)) E v"
  proof (rule wp_emits [OF emits_deactivate_quiet])
    fix r w2
    assume run: "deactivate_thin_lv_at i q E v = (r, w2)"
    with emits_deactivate_quiet obtain cs where "trace w2 = trace v @ cs" "\<forall>c\<in>set cs. pool_quiet E c"
      unfolding emits_def by (metis snd_conv)
    with I have "tracked E p0 w0 w2 p" using tracked_quiet by blast
    with result run I assms(2) deactivated_upto_Suc [OF _ i]
    show "on_success (\<lambda>q v. tracked E p0 w0 v p \<and> deactivated_upto p (Suc i) q) (\<lambda>e w. F) r w2" by auto
  qed simp
qed (use assms(3) in blast)

lemma deactivated_view:
  assumes "deactivated_upto p (length (pst_ThinLvs (p_Status p))) q"
  shows "lv_view q = map (\<lambda>st. (lst_Name st, False)) (pst_ThinLvs (p_Status p))"
proof -
  from assms have names: "map lst_Name (pst_ThinLvs (p_Status q)) = map lst_Name (pst_ThinLvs (p_Status p))"
    by (simp add: deactivated_upto_def)
  then have len: "length (pst_ThinLvs (p_Status q)) = length (pst_ThinLvs (p_Status p))"
    by (rule map_eq_imp_length_eq)
  with assms have "\<forall>st\<in>set (pst_ThinLvs (p_Status q)). \<not> lv_active st"
    by (auto simp: deactivated_upto_def in_set_conv_nth)
  then have "lv_view q = map (\<lambda>n. (n, False)) (map lst_Name (pst_ThinLvs (p_Status q)))"
    by (simp add: lv_view_def)
  then show ?thesis unfolding names by simp
qed

text \<open>The first part as a whole, on a node that is in charge.  If it leaves the pool to no node, no LV
  is wanted active.\<close>

definition held_if_wanted :: "ThinPoolLv \<Rightarrow> bool" where
  "held_if_wanted q \<longleftrightarrow> (pst_ActiveOnNode (p_Status q) = [] \<longrightarrow>
     (\<forall>l\<in>set (ps_ThinLvs (p_Spec q)). ls_State l \<noteq> SpecActive))"

definition same_lvs :: "ThinPoolLv \<Rightarrow> ThinPoolLv \<Rightarrow> bool" where
  "same_lvs p q \<longleftrightarrow> same_request p q \<and>
     map lst_Name (pst_ThinLvs (p_Status q)) = map lst_Name (pst_ThinLvs (p_Status p))"

lemma lv_view_names: "lv_view q = lv_view p \<Longrightarrow>
    map lst_Name (pst_ThinLvs (p_Status q)) = map lst_Name (pst_ThinLvs (p_Status p))"
proof -
  assume "lv_view q = lv_view p"
  then have "map fst (lv_view q) = map fst (lv_view p)" by simp
  then show ?thesis by (simp add: lv_view_def comp_def)
qed

lemma matches_same_lvs: "matches p q \<Longrightarrow> same_lvs p q"
  unfolding matches_def same_lvs_def using lv_view_names by blast

lemma same_lvs_trans: "same_lvs p q \<Longrightarrow> same_lvs q r \<Longrightarrow> same_lvs p r"
  by (auto simp: same_lvs_def intro: same_request_trans)

lemma set_status_ActiveOnNode_done: "same_lvs p q \<Longrightarrow> same_lvs p (set_status_ActiveOnNode node q)"
  by (simp add: same_lvs_def same_request_def)

lemma same_request_inCharge:
  "same_request p q \<Longrightarrow> pool_inCharge node p \<Longrightarrow>
    pst_ActiveOnNode (p_Status q) = [] \<or> pst_ActiveOnNode (p_Status q) = node \<Longrightarrow> pool_inCharge node q"
  by (auto simp: pool_inCharge_def same_request_def)

lemma wp_pool_activation:
  assumes echo: "pools_echoed E" and tr: "tracked E p0 w0 w p" and F: "\<not> responsive E \<Longrightarrow> F"
    and charge: "pool_inCharge (LocalNodeName E) p" "LocalNodeName E \<noteq> []" and consistent: "status_consistent p"
    and K: "\<And>q w2. tracked E p0 w0 w2 q \<Longrightarrow> same_lvs p q \<Longrightarrow> held_if_wanted q \<Longrightarrow> K (q, True) w2"
  shows "wp (\<lambda>c. True) (reconcileThinPoolLvActivation p) (on_success K (\<lambda>e w. F)) E w"
proof -
  let ?node = "LocalNodeName E"
  define G where "G = (\<lambda>q w2. tracked E p0 w0 w2 q \<and> same_lvs p q \<and> pool_inCharge ?node q \<and> held_if_wanted q)"
  have unwanted: "\<forall>l\<in>set (ps_ThinLvs (p_Spec p)). ls_State l \<noteq> SpecActive" if "\<not> should_be_active ?node p"
    using that charge by (auto simp: should_be_active_def pool_inCharge_def list_ex_iff)
  have posted: "G r w2" if "tracked E p0 w0 w2 r" "matches (set_status_ActiveOnNode n q) r"
    "same_lvs p q" "n = [] \<and> \<not> should_be_active ?node p \<or> n = ?node" for n q r w2
  proof -
    from that(2,3) have d: "same_lvs p r"
      using matches_same_lvs same_lvs_trans set_status_ActiveOnNode_done by blast
    then have "same_request p r" by (simp add: same_lvs_def)
    moreover have "pst_ActiveOnNode (p_Status r) = n" using that(2) by (simp add: matches_def)
    ultimately have "pool_inCharge ?node r" "held_if_wanted r"
      using that(4) charge(2) unwanted same_request_inCharge [OF _ charge(1), of r]
      by (auto simp: held_if_wanted_def same_request_def)
    with d that(1) show ?thesis by (simp add: G_def)
  qed
  have up: "wp (\<lambda>c. True) (thenE (whenE (\<not> is_active) (thenE (checkErr (Lvm (lvchange_pool_ey p))) (ret ())))
      (post_active_node pool_activated ?node p)) (on_success G (\<lambda>e w. F)) E w1"
    if "tracked E p0 w0 w1 p" "should_be_active ?node p" for w1 is_active
  proof (rule wp_then, rule wp_outside [OF _ _ that(1) F])
    fix x w2
    assume t: "tracked E p0 w0 w2 p"
    have "same_lvs p p" by (simp add: same_lvs_def)
    with t show "wp (\<lambda>c. True) (post_active_node pool_activated ?node p) (on_success G (\<lambda>e w. F)) E w2"
      using posted by (intro wp_post_active_node [OF echo t F]) auto
  qed (intro emits_intros answered_intros; simp)+
  have down: "wp (\<lambda>c. True) (bindE (foldE deactivate_thin_lv_at [0..<length (pst_ThinLvs (p_Status p))] p) (\<lambda>q.
        thenE (checkErr (Lvm (lvchange_n q (om_Name (p_Meta q))))) (post_active_node pool_deactivated [] q)))
      (on_success G (\<lambda>e w. F)) E w1"
    if "tracked E p0 w0 w1 p" "\<not> should_be_active ?node p" for w1
  proof (rule wp_seq, rule wp_deactivate_loop [OF that(1) F], assumption)
    fix q w2
    assume t: "tracked E p0 w0 w2 p" and d: "deactivated_upto p (length (pst_ThinLvs (p_Status p))) q"
    have kept: "same_lvs p q" using d by (simp add: deactivated_upto_def same_lvs_def)
    have idle: "matches p q" if "pst_ActiveOnNode (p_Status q) = []"
    proof -
      from d that have "pst_ActiveOnNode (p_Status p) = []" by (simp add: deactivated_upto_def)
      with consistent have "lv_view p = map (\<lambda>st. (lst_Name st, False)) (pst_ThinLvs (p_Status p))"
        by (auto simp: status_consistent_def lv_view_def list_all_iff)
      with deactivated_view [OF d] d show ?thesis by (simp add: matches_def deactivated_upto_def)
    qed
    show "wp (\<lambda>c. True) (thenE (checkErr (Lvm (lvchange_n q (om_Name (p_Meta q)))))
        (post_active_node pool_deactivated [] q)) (on_success G (\<lambda>e w. F)) E w2"
    proof (rule wp_then, rule wp_outside [OF _ _ t F])
      fix x w3
      assume t3: "tracked E p0 w0 w3 p"
      then show "wp (\<lambda>c. True) (post_active_node pool_deactivated [] q) (on_success G (\<lambda>e w. F)) E w3"
        using posted kept idle tracked_matches that(2) by (intro wp_post_active_node [OF echo t3 F]) blast+
    qed (intro emits_intros answered_intros; simp)+
  qed
  have finish: "wp (\<lambda>c. True) (ret (q, pool_inCharge ?node q)) (on_success K (\<lambda>e w. F)) E w1" if "G q w1" for q w1
    using that K by (intro wp_give) (simp add: G_def)
  have idle: "G p w1" if "tracked E p0 w0 w1 p" "\<not> should_be_active ?node p" for w1
    using that charge unwanted by (simp add: G_def same_lvs_def held_if_wanted_def)
  have free: "pst_ActiveOnNode (p_Status p) = [] \<or> pst_ActiveOnNode (p_Status p) = ?node"
    using charge(1) by (simp add: pool_inCharge_def)
  show ?thesis
    unfolding reconcileThinPoolLvActivation_def
  proof (rule wp_seq, rule wp_basic, rule on_success_known, rule wp_seq, rule wp_outside [OF _ _ tr F])
    fix is_active w1
    assume t1: "tracked E p0 w0 w1 p"
    have "wp (\<lambda>c. True) (if should_be_active ?node p then
          thenE (whenE (\<not> is_active) (thenE (checkErr (Lvm (lvchange_pool_ey p))) (ret ())))
            (post_active_node pool_activated ?node p)
        else if is_active \<or> pst_ActiveOnNode (p_Status p) = ?node then
          bindE (foldE deactivate_thin_lv_at [0..<length (pst_ThinLvs (p_Status p))] p) (\<lambda>q.
          thenE (checkErr (Lvm (lvchange_n q (om_Name (p_Meta q))))) (post_active_node pool_deactivated [] q))
        else ret p) (on_success G (\<lambda>e w. F)) E w1"
      using up [OF t1] down [OF t1] idle [OF t1] by (auto intro: wp_give)
    then have "wp (\<lambda>c. True) (bindE (if should_be_active ?node p then
          thenE (whenE (\<not> is_active) (thenE (checkErr (Lvm (lvchange_pool_ey p))) (ret ())))
            (post_active_node pool_activated ?node p)
        else if is_active \<or> pst_ActiveOnNode (p_Status p) = ?node then
          bindE (foldE deactivate_thin_lv_at [0..<length (pst_ThinLvs (p_Status p))] p) (\<lambda>q.
          thenE (checkErr (Lvm (lvchange_n q (om_Name (p_Meta q))))) (post_active_node pool_deactivated [] q))
        else ret p) (\<lambda>q. ret (q, pool_inCharge ?node q))) (on_success K (\<lambda>e w. F)) E w1"
      by (intro wp_seq) (erule wp_mono, auto intro: finish simp: on_success_def split: sum.splits)
    with free show "wp (\<lambda>c. True) (if should_be_active ?node p \<and> pst_ActiveOnNode (p_Status p) \<noteq> [] \<and>
          pst_ActiveOnNode (p_Status p) \<noteq> ?node then ret (p, False)
        else bindE (if should_be_active ?node p then
          thenE (whenE (\<not> is_active) (thenE (checkErr (Lvm (lvchange_pool_ey p))) (ret ())))
            (post_active_node pool_activated ?node p)
        else if is_active \<or> pst_ActiveOnNode (p_Status p) = ?node then
          bindE (foldE deactivate_thin_lv_at [0..<length (pst_ThinLvs (p_Status p))] p) (\<lambda>q.
          thenE (checkErr (Lvm (lvchange_n q (om_Name (p_Meta q))))) (post_active_node pool_deactivated [] q))
        else ret p) (\<lambda>q. ret (q, pool_inCharge ?node q))) (on_success K (\<lambda>e w. F)) E w1"
      by (auto simp del: split_paired_All)
  qed (intro emits_intros answered_intros; simp)+
qed

section \<open>Creation\<close>

definition lv_names :: "ThinPoolLv \<Rightarrow> string set" where
  "lv_names p = lst_Name ` set (pst_ThinLvs (p_Status p))"

text \<open>An LV that the controller creates: an empty one, or a snapshot of one that exists.\<close>

definition creatable :: "ThinPoolLv \<Rightarrow> ThinLvSpec \<Rightarrow> bool" where
  "creatable p l \<longleftrightarrow> ls_State l \<noteq> SpecRemoved \<and>
     (tc_ContentsType (ls_Contents l) = ThinLvContentsTypeEmpty \<or>
      tc_ContentsType (ls_Contents l) = ThinLvContentsTypeSnapshot \<and>
      (case tc_Snapshot (ls_Contents l) of None \<Rightarrow> False | Some s \<Rightarrow> s \<in> lv_names p))"

definition same_holder :: "ThinPoolLv \<Rightarrow> ThinPoolLv \<Rightarrow> bool" where
  "same_holder p q \<longleftrightarrow> same_request p q \<and> pst_ActiveOnNode (p_Status q) = pst_ActiveOnNode (p_Status p)"

lemma same_holder_refl [simp]: "same_holder p p"
  by (simp add: same_holder_def)

lemma same_holder_trans: "same_holder p q \<Longrightarrow> same_holder q r \<Longrightarrow> same_holder p r"
  by (auto simp: same_holder_def intro: same_request_trans)

definition grown :: "ThinLvSpec \<Rightarrow> ThinPoolLv \<Rightarrow> ThinPoolLv \<Rightarrow> bool" where
  "grown l p q \<longleftrightarrow> same_holder p q \<and> lv_names p \<subseteq> lv_names q \<and>
     lv_names q \<subseteq> insert (ls_Name l) (lv_names p) \<and> (creatable p l \<longrightarrow> ls_Name l \<in> lv_names q)"

lemma lv_view_set: "fst ` set (lv_view p) = lv_names p"
  by (simp add: lv_view_def lv_names_def image_image)

lemma matches_names: "matches p q \<Longrightarrow> lv_names q = lv_names p"
  unfolding matches_def by (metis lv_view_set)

lemma Status_Find_names: "Status_FindThinLv (p_Status p) n = None \<longleftrightarrow> n \<notin> lv_names p"
  by (auto simp: Status_FindThinLv_def find_thin_status_None lv_names_def)

lemma wp_record_thin_lv:
  assumes "pools_echoed E" and "tracked E p0 w0 w q" and "\<not> responsive E \<Longrightarrow> F"
    and "\<And>r w2. tracked E p0 w0 w2 r \<Longrightarrow> grown l q r \<Longrightarrow> K r w2"
  shows "wp (\<lambda>c. True) (record_thin_lv q l) (on_success K (\<lambda>e w. F)) E w"
  unfolding record_thin_lv_def
proof (rule wp_seq, rule wp_outside [OF _ _ assms(2,3)], goal_cases)
  case (4 sz w2)
  show ?case
  proof (rule wp_status [OF assms(1) 4(1) assms(3)], assumption)
    fix r w3
    let ?new = "\<lparr>lst_Name = ls_Name l, lst_State = inactive_state, lst_SizeBytes = sz\<rparr>"
    assume t: "tracked E p0 w0 w3 r" and m: "matches (set_ThinLvs_status (pst_ThinLvs (p_Status q) @ [?new]) q) r"
    from matches_names [OF m] have "lv_names r = insert (ls_Name l) (lv_names q)" by (auto simp: lv_names_def)
    with m have "grown l q r" by (auto simp: grown_def matches_def same_holder_def same_request_def)
    with t show "K r w3" by (rule assms(4))
  qed
qed (auto intro!: emits_intros answered_intros)

lemma grown_skip: "\<not> creatable q l \<or> ls_Name l \<in> lv_names q \<Longrightarrow> grown l q q"
  by (auto simp: grown_def)

lemma wp_node_createThinLv:
  assumes "pools_echoed E" and "tracked E p0 w0 w q" and "\<not> responsive E \<Longrightarrow> F"
    and "\<And>r w2. tracked E p0 w0 w2 r \<Longrightarrow> grown l q r \<Longrightarrow> K r w2"
  shows "wp (\<lambda>c. True) (node_createThinLv q l) (on_success K (\<lambda>e w. F)) E w"
proof -
  note recorded = wp_record_thin_lv [OF assms(1) _ assms(3,4)]
  have command: "wp (\<lambda>c. True) (thenE (checkErr m) k) (on_success K (\<lambda>e w. F)) E w1"
    if "tracked E p0 w0 w1 q" "emits pool_quiet m" "succeeds m"
      "\<And>w2. tracked E p0 w0 w2 q \<Longrightarrow> wp (\<lambda>c. True) k (on_success K (\<lambda>e w. F)) E w2" for m w1 and k :: "ThinPoolLv io"
    using that assms(3) by (intro wp_then wp_outside [OF _ _ that(1)] emits_intros answered_intros) blast+
  have skip: "wp (\<lambda>c. True) (ret q) (on_success K (\<lambda>e w. F)) E w" if "\<not> creatable q l"
    using that assms(2,4) grown_skip by (intro wp_give) blast
  show ?thesis
  proof (cases "tc_ContentsType (ls_Contents l)")
    case ThinLvContentsTypeEmpty
    then show ?thesis
      unfolding node_createThinLv_def
      by (auto intro!: command assms(2) recorded emits_intros succeeds_commands)
  next
    case ThinLvContentsTypeSnapshot
    then show ?thesis
      unfolding node_createThinLv_def
      by (auto intro!: command assms(2) recorded skip emits_intros succeeds_commands
          simp: creatable_def Status_Find_names split: option.split)
  next
    case (OtherThinLvContents s)
    then show ?thesis
      unfolding node_createThinLv_def by (auto intro!: skip simp: creatable_def)
  qed
qed

lemma wp_expandThinLv:
  assumes "pools_echoed E" and "tracked E p0 w0 w q" and "\<not> responsive E \<Longrightarrow> F"
    and "ls_Name l \<in> lv_names q"
    and "\<And>r w2. tracked E p0 w0 w2 r \<Longrightarrow> grown l q r \<Longrightarrow> K r w2"
  shows "wp (\<lambda>c. True) (expandThinLv q l) (on_success K (\<lambda>e w. F)) E w"
  unfolding expandThinLv_def
proof (rule wp_then, rule wp_outside [OF _ _ assms(2,3)], goal_cases)
  case (4 out w1)
  show ?case
  proof (rule wp_seq, rule wp_outside [OF _ _ 4(1) assms(3)], goal_cases)
    case (4 sz w2)
    show ?case
    proof (rule wp_status [OF assms(1) 4(1) assms(3)], assumption)
      fix r w3
      let ?x = "modify_thin_status (ls_Name l) (\<lambda>st. st\<lparr>lst_SizeBytes := sz\<rparr>) q"
      assume t: "tracked E p0 w0 w3 r" and m: "matches ?x r"
      have "map lst_Name (pst_ThinLvs (p_Status ?x)) = map lst_Name (pst_ThinLvs (p_Status q))"
        by (rule modify_thin_status_names) simp
      then have "lv_names ?x = lv_names q" unfolding lv_names_def by (metis set_map)
      with matches_names [OF m] m assms(4) have "grown l q r"
        by (auto simp: grown_def matches_def same_holder_def same_request_def)
      with t show "K r w3" by (rule assms(5))
    qed
  qed (auto intro!: emits_intros answered_intros)
qed (auto intro!: emits_intros answered_intros)

text \<open>The loop over the spec.  The source of a snapshot counts only if the status listed it at the
  start of the loop, since the spec may name it later than the snapshot.\<close>

definition created_upto :: "ThinPoolLv \<Rightarrow> nat \<Rightarrow> ThinPoolLv \<Rightarrow> bool" where
  "created_upto p i q \<longleftrightarrow> same_holder p q \<and> lv_names p \<subseteq> lv_names q \<and>
     lv_names q \<subseteq> lv_names p \<union> ls_Name ` set (ps_ThinLvs (p_Spec p)) \<and>
     (\<forall>j<i. creatable p (ps_ThinLvs (p_Spec p) ! j) \<longrightarrow> ls_Name (ps_ThinLvs (p_Spec p) ! j) \<in> lv_names q)"

lemma creatable_mono: "creatable p l \<Longrightarrow> lv_names p \<subseteq> lv_names q \<Longrightarrow> creatable q l"
  by (auto simp: creatable_def split: option.splits)

lemma created_upto_Suc:
  assumes "created_upto p i q" and "i < length (ps_ThinLvs (p_Spec p))"
    and "grown (ps_ThinLvs (p_Spec p) ! i) q r"
  shows "created_upto p (Suc i) r"
proof -
  let ?l = "ps_ThinLvs (p_Spec p) ! i"
  have "ls_Name ?l \<in> ls_Name ` set (ps_ThinLvs (p_Spec p))" using assms(2) by simp
  moreover have "ls_Name ?l \<in> lv_names r" if "creatable p ?l"
    using creatable_mono [OF that, of q] assms(1,3) by (simp add: created_upto_def grown_def)
  ultimately show ?thesis
    using assms(1,3) same_holder_trans [of p q r] unfolding created_upto_def grown_def by (auto simp: less_Suc_eq)
qed

lemma wp_create_thin_lv_at:
  assumes "pools_echoed E" and "tracked E p0 w0 w q" and "\<not> responsive E \<Longrightarrow> F"
    and "at (ps_ThinLvs (p_Spec q)) i = Some l"
    and "\<And>r w2. tracked E p0 w0 w2 r \<Longrightarrow> grown l q r \<Longrightarrow> K r w2"
  shows "wp (\<lambda>c. True) (create_thin_lv_at i q) (on_success K (\<lambda>e w. F)) E w"
proof -
  have skip: "wp (\<lambda>c. True) (ret q) (on_success K (\<lambda>e w. F)) E w" if "\<not> creatable q l \<or> ls_Name l \<in> lv_names q"
    using assms(2,5) grown_skip [OF that] by (intro wp_give) blast
  have listed: "ls_Name l \<in> lv_names q" if "Status_FindThinLv (p_Status q) (ls_Name l) = Some st" for st
    using that Status_Find_names [of q "ls_Name l"] by auto
  note create = wp_node_createThinLv [OF assms(1,2,3,5)]
  note expand = wp_expandThinLv [OF assms(1,2,3) _ assms(5)]
  show ?thesis
    unfolding create_thin_lv_at_def assms(4) option.case
    by (intro wp_if wp_case skip create expand) (auto simp: creatable_def dest: listed)
qed

lemma wp_creation:
  assumes "pools_echoed E" and "tracked E p0 w0 w p" and "\<not> responsive E \<Longrightarrow> F"
    and "\<And>q w2. tracked E p0 w0 w2 q \<Longrightarrow> created_upto p (length (ps_ThinLvs (p_Spec p))) q \<Longrightarrow> K q w2"
  shows "wp (\<lambda>c. True) (reconcileThinLvCreation p) (on_success K (\<lambda>e w. F)) E w"
  unfolding reconcileThinLvCreation_def
proof (rule wp_foldE_upt [where I = "\<lambda>i q v. tracked E p0 w0 v q \<and> created_upto p i q"])
  fix i q v
  assume i: "i < length (ps_ThinLvs (p_Spec p))" and I: "tracked E p0 w0 v q \<and> created_upto p i q"
  then have "at (ps_ThinLvs (p_Spec q)) i = Some (ps_ThinLvs (p_Spec p) ! i)"
    by (simp add: created_upto_def same_holder_def same_request_def at_def)
  with I i created_upto_Suc show "wp (\<lambda>c. True) (create_thin_lv_at i q)
      (on_success (\<lambda>q v. tracked E p0 w0 v q \<and> created_upto p (Suc i) q) (\<lambda>e w. F)) E v"
    by (intro wp_create_thin_lv_at [OF assms(1) _ assms(3)]) blast+
qed (use assms(2,4) in \<open>auto simp: created_upto_def\<close>)

section \<open>Activation of the thin LVs\<close>

definition lv_wanted :: "ThinPoolLvSpec \<Rightarrow> string \<Rightarrow> bool" where
  "lv_wanted spec name \<longleftrightarrow>
     (case Spec_FindThinLv spec name of None \<Rightarrow> False | Some l \<Rightarrow> ls_State l = SpecActive)"

definition as_wanted_upto :: "ThinPoolLv \<Rightarrow> nat \<Rightarrow> ThinPoolLv \<Rightarrow> bool" where
  "as_wanted_upto p i q \<longleftrightarrow> same_lvs p q \<and> same_holder p q \<and>
     (\<forall>j<i. snd (lv_view q ! j) = lv_wanted (p_Spec p) (fst (lv_view q ! j)))"

lemma lv_view_nth: "j < length (pst_ThinLvs (p_Status q)) \<Longrightarrow>
    lv_view q ! j = (lst_Name (pst_ThinLvs (p_Status q) ! j), lv_active (pst_ThinLvs (p_Status q) ! j))"
  by (simp add: lv_view_def)

lemma lv_view_modify_at:
  assumes "i < length (pst_ThinLvs (p_Status q))" and "lst_Name st = lst_Name (pst_ThinLvs (p_Status q) ! i)"
  shows "lv_view (modify_status_at i (\<lambda>x. st) q) = (lv_view q)[i := (fst (lv_view q ! i), lv_active st)]"
  using assms by (simp add: lv_view_def modify_status_at_def map_update)

lemma as_wanted_upto_Suc:
  assumes "as_wanted_upto p i q" and "i < length (pst_ThinLvs (p_Status p))"
    and "same_holder q r" and "lv_view r = (lv_view q)[i := (fst (lv_view q ! i), lv_wanted (p_Spec p) (fst (lv_view q ! i)))]"
  shows "as_wanted_upto p (Suc i) r"
proof -
  have fst_view: "map fst (lv_view x) = map lst_Name (pst_ThinLvs (p_Status x))" for x
    by (simp add: lv_view_def comp_def)
  from assms(1) have "map lst_Name (pst_ThinLvs (p_Status q)) = map lst_Name (pst_ThinLvs (p_Status p))"
    by (simp add: as_wanted_upto_def same_lvs_def)
  then have len: "length (lv_view q) = length (pst_ThinLvs (p_Status p))"
    unfolding lv_view_def length_map by (rule map_eq_imp_length_eq)
  have "map fst (lv_view r) = map fst (lv_view q)"
  proof -
    from assms(2) len have "map fst (lv_view q) ! i = fst (lv_view q ! i)" by (simp add: nth_map)
    then have "(map fst (lv_view q))[i := fst (lv_view q ! i)] = map fst (lv_view q)" by (metis list_update_id)
    then show ?thesis unfolding assms(4) by (simp add: map_update)
  qed
  then have "map lst_Name (pst_ThinLvs (p_Status r)) = map lst_Name (pst_ThinLvs (p_Status q))"
    by (simp only: fst_view)
  with assms(3) have "same_lvs q r" by (simp add: same_lvs_def same_holder_def)
  then have "same_lvs p r" "same_holder p r"
    using assms(1,3) same_lvs_trans same_holder_trans unfolding as_wanted_upto_def by blast+
  with assms(1,2) show ?thesis unfolding as_wanted_upto_def assms(4) by (auto simp: nth_list_update len less_Suc_eq)
qed

lemma wp_activate_thin_lv_at:
  assumes "pools_echoed E" and "tracked E p0 w0 w q" and "\<not> responsive E \<Longrightarrow> F"
    and "i < length (pst_ThinLvs (p_Status q))"
    and "\<And>r w2. tracked E p0 w0 w2 r \<Longrightarrow> same_holder q r \<Longrightarrow>
      lv_view r = (lv_view q)[i := (fst (lv_view q ! i), lv_wanted (p_Spec q) (fst (lv_view q ! i)))] \<Longrightarrow> K r w2"
  shows "wp (\<lambda>c. True) (activate_thin_lv_at i q) (on_success K (\<lambda>e w. F)) E w"
proof -
  define st where "st = pst_ThinLvs (p_Status q) ! i"
  let ?wanted = "lv_wanted (p_Spec q) (lst_Name st)"
  let ?view = "(lv_view q)[i := (lst_Name st, ?wanted)]"
  have nth: "lv_view q ! i = (lst_Name st, lv_active st)" using lv_view_nth [OF assms(4)] by (simp add: st_def)
  have finish: "K r w2" if "tracked E p0 w0 w2 r" "same_holder q r" "lv_view r = ?view" for r w2
    using assms(5) [OF that(1,2)] that(3) nth by simp
  have unchanged: "wp (\<lambda>c. True) (ret q) (on_success K (\<lambda>e w. F)) E w2"
    if "tracked E p0 w0 w2 q" "lv_active st = ?wanted" for w2
    using that nth by (intro wp_give finish) (simp_all, metis list_update_id)
  have update: "wp (\<lambda>c. True) (pool_statusUpdate (modify_status_at i (\<lambda>st. st\<lparr>lst_State := s\<rparr>) q))
      (on_success K (\<lambda>e w. F)) E w2"
    if t: "tracked E p0 w0 w2 q" and s: "(st_Name s = StatusActive) = ?wanted" for w2 s
  proof (rule wp_status [OF assms(1) t assms(3)], assumption)
    fix r w3
    assume tr: "tracked E p0 w0 w3 r" and m: "matches (modify_status_at i (\<lambda>st. st\<lparr>lst_State := s\<rparr>) q) r"
    have "modify_status_at i (\<lambda>st. st\<lparr>lst_State := s\<rparr>) q = modify_status_at i (\<lambda>x. st\<lparr>lst_State := s\<rparr>) q"
      by (simp add: modify_status_at_def st_def)
    with lv_view_modify_at [OF assms(4), of "st\<lparr>lst_State := s\<rparr>"] nth
    have "lv_view (modify_status_at i (\<lambda>st. st\<lparr>lst_State := s\<rparr>) q) = (lv_view q)[i := (lst_Name st, st_Name s = StatusActive)]"
      by (simp add: st_def lv_active_def)
    moreover have "pst_ActiveOnNode (p_Status (modify_status_at i f q)) = pst_ActiveOnNode (p_Status q)" for f
      by (simp add: modify_status_at_def)
    ultimately have "lv_view r = ?view" "same_holder q r"
      using m s by (simp_all add: matches_def same_holder_def same_request_def)
    with tr show "K r w3" using finish by blast
  qed
  have "wp (\<lambda>c. True) (thenE (whenE b (thenE (checkErr (Lvm args)) (ret ()))) k) (on_success K (\<lambda>e w. F)) E w1"
    if "tracked E p0 w0 w1 q" "\<And>w2. tracked E p0 w0 w2 q \<Longrightarrow> wp (\<lambda>c. True) k (on_success K (\<lambda>e w. F)) E w2"
    for b args w1 and k :: "ThinPoolLv io"
    using that assms(3) by (intro wp_then wp_outside [OF _ _ that(1)] emits_intros answered_intros) simp_all
  note command = this
  have "at (pst_ThinLvs (p_Status q)) i = Some st" using assms(4) by (simp add: at_def st_def)
  then have eq: "activate_thin_lv_at i q =
      bindE (PathExistsOnHost (''/dev/'' @ pool_path q (lst_Name st))) (\<lambda>isActuallyActive.
        if ?wanted then
          thenE (whenE (\<not> isActuallyActive) (thenE (checkErr (Lvm (lvchange_ey q (lst_Name st)))) (ret ())))
            (if \<not> lv_active st then pool_statusUpdate (modify_status_at i (\<lambda>x. x\<lparr>lst_State :=
               \<lparr>st_Name = StatusActive, st_Active = Some (''/dev/'' @ pool_path q (lst_Name st))\<rparr>\<rparr>) q) else ret q)
        else
          thenE (whenE isActuallyActive (thenE (checkErr (Lvm (lvchange_n q (lst_Name st)))) (ret ())))
            (if lv_active st then pool_statusUpdate (modify_status_at i (\<lambda>st. st\<lparr>lst_State := inactive_state\<rparr>) q)
             else ret q))"
    by (simp only: activate_thin_lv_at_def Let_def lv_wanted_def lv_active_def option.case)
  show ?thesis
    unfolding eq
  proof (rule wp_seq, rule wp_outside [OF _ _ assms(2,3)], goal_cases)
    case (4 is_active w1)
    then show ?case
      by (intro wp_if command unchanged update) (simp_all add: inactive_state_def)
  qed (auto intro!: emits_intros answered_intros)
qed

lemma wp_activations:
  assumes "pools_echoed E" and "tracked E p0 w0 w p" and "\<not> responsive E \<Longrightarrow> F"
    and "\<And>q w2. tracked E p0 w0 w2 q \<Longrightarrow> as_wanted_upto p (length (pst_ThinLvs (p_Status p))) q \<Longrightarrow> K q w2"
  shows "wp (\<lambda>c. True) (reconcileThinLvActivations p) (on_success K (\<lambda>e w. F)) E w"
  unfolding reconcileThinLvActivations_def
proof (rule wp_foldE_upt [where I = "\<lambda>i q v. tracked E p0 w0 v q \<and> as_wanted_upto p i q"])
  fix i q v
  assume i: "i < length (pst_ThinLvs (p_Status p))" and I: "tracked E p0 w0 v q \<and> as_wanted_upto p i q"
  then have q: "same_lvs p q" by (simp add: as_wanted_upto_def)
  then have "length (pst_ThinLvs (p_Status q)) = length (pst_ThinLvs (p_Status p))"
    unfolding same_lvs_def using map_eq_imp_length_eq by blast
  with i have iq: "i < length (pst_ThinLvs (p_Status q))" by simp
  from q have spec: "p_Spec q = p_Spec p" by (simp add: same_lvs_def same_request_def)
  show "wp (\<lambda>c. True) (activate_thin_lv_at i q)
      (on_success (\<lambda>q v. tracked E p0 w0 v q \<and> as_wanted_upto p (Suc i) q) (\<lambda>e w. F)) E v"
    by (rule wp_activate_thin_lv_at [OF assms(1) conjunct1 [OF I] assms(3) iq])
      (use as_wanted_upto_Suc [OF conjunct2 [OF I] i] spec in simp_all)
qed (use assms(2,4) in \<open>auto simp: as_wanted_upto_def same_lvs_def\<close>)

lemma as_wanted_all:
  assumes "as_wanted_upto p (length (pst_ThinLvs (p_Status p))) q"
  shows "\<forall>(n, a)\<in>set (lv_view q). a = lv_wanted (p_Spec p) n"
proof -
  from assms have "map lst_Name (pst_ThinLvs (p_Status q)) = map lst_Name (pst_ThinLvs (p_Status p))"
    by (simp add: as_wanted_upto_def same_lvs_def)
  then have "length (lv_view q) = length (pst_ThinLvs (p_Status p))"
    unfolding lv_view_def length_map by (rule map_eq_imp_length_eq)
  with assms show ?thesis by (auto simp: as_wanted_upto_def in_set_conv_nth) (metis fst_conv snd_conv)+
qed

section \<open>Removal of what is not wanted\<close>

definition lv_removed :: "ThinPoolLvSpec \<Rightarrow> string \<Rightarrow> bool" where
  "lv_removed spec name \<longleftrightarrow>
     (case Spec_FindThinLv spec name of None \<Rightarrow> False | Some l \<Rightarrow> ls_State l = SpecRemoved)"

text \<open>Every LV in the status has a spec.\<close>

definition covered :: "ThinPoolLv \<Rightarrow> bool" where
  "covered p \<longleftrightarrow> lv_names p \<subseteq> ls_Name ` set (ps_ThinLvs (p_Spec p))"

lemma Spec_Find_names: "Spec_FindThinLv s n = None \<longleftrightarrow> n \<notin> ls_Name ` set (ps_ThinLvs s)"
  by (auto simp: Spec_FindThinLv_def find_thin_spec_None)

lemma staying_view:
  assumes "covered p"
  shows "map (\<lambda>st. (lst_Name st, lv_active st)) (staying p) =
    filter (\<lambda>(n, a). \<not> lv_removed (p_Spec p) n) (lv_view p)"
proof -
  have "(\<exists>l. Spec_FindThinLv (p_Spec p) (lst_Name st) = Some l \<and> ls_State l \<noteq> SpecRemoved) \<longleftrightarrow>
      \<not> lv_removed (p_Spec p) (lst_Name st)" if "st \<in> set (pst_ThinLvs (p_Status p))" for st
  proof -
    from that assms have "Spec_FindThinLv (p_Spec p) (lst_Name st) \<noteq> None"
      unfolding Spec_Find_names covered_def lv_names_def by blast
    then show ?thesis by (auto simp: lv_removed_def)
  qed
  then have "staying p = filter (\<lambda>st. \<not> lv_removed (p_Spec p) (lst_Name st)) (pst_ThinLvs (p_Status p))"
    unfolding staying_def by (intro filter_cong) simp_all
  then show ?thesis by (simp add: lv_view_def filter_map comp_def)
qed

definition purged :: "ThinPoolLv \<Rightarrow> ThinPoolLv \<Rightarrow> bool" where
  "purged p q \<longleftrightarrow> same_holder p q \<and> lv_view q = filter (\<lambda>(n, a). \<not> lv_removed (p_Spec p) n) (lv_view p)"

lemma purged_none:
  assumes "\<forall>l\<in>set (ps_ThinLvs (p_Spec p)). ls_State l \<noteq> SpecRemoved"
  shows "purged p p"
proof -
  have "\<not> lv_removed (p_Spec p) n" for n
    using assms by (auto simp: lv_removed_def Spec_FindThinLv_def dest: find_thin_spec_Some split: option.split)
  then show ?thesis by (auto simp: purged_def intro!: filter_True [symmetric])
qed

lemma wp_deletion:
  assumes "pools_echoed E" and "tracked E p0 w0 w p" and "\<not> responsive E \<Longrightarrow> F" and "\<not> covered p \<Longrightarrow> F"
    and "\<And>q w2. tracked E p0 w0 w2 q \<Longrightarrow> covered p \<Longrightarrow> purged p q \<Longrightarrow> K q w2"
    and "\<And>w2. tracked E p0 w0 w2 p \<Longrightarrow> purged p p \<Longrightarrow> K p w2"
  shows "wp (\<lambda>c. True) (reconcileThinLvDeletion p) (on_success K (\<lambda>e w. F)) E w"
  unfolding reconcileThinLvDeletion_def
proof (rule wp_seq, rule wp_foldE_done
    [where I = "\<lambda>pre need v. tracked E p0 w0 v p \<and> need = (\<exists>l\<in>set pre. ls_State l = SpecRemoved)"])
  show "tracked E p0 w0 w p \<and> False = (\<exists>l\<in>set []. ls_State l = SpecRemoved)" using assms(2) by simp
next
  fix pre post :: "ThinLvSpec list" and l :: ThinLvSpec and need v
  assume I: "tracked E p0 w0 v p \<and> need = (\<exists>l\<in>set pre. ls_State l = SpecRemoved)"
  then have t: "tracked E p0 w0 v p" by blast
  have "emits pool_quiet (removeThinLv p (ls_Name l))" and "answered (removeThinLv p (ls_Name l))"
    unfolding removeThinLv_def by (intro emits_intros answered_intros; simp)+
  then show "wp (\<lambda>c. True) (if ls_State l \<noteq> SpecRemoved then ret need
        else thenE (removeThinLv p (ls_Name l)) (ret True))
      (on_success (\<lambda>need v. tracked E p0 w0 v p \<and> need = (\<exists>l\<in>set (pre @ [l]). ls_State l = SpecRemoved))
        (\<lambda>e w. F)) E v"
    using I assms(3) by (intro wp_if wp_then wp_outside [OF _ _ t] wp_give) auto
next
  fix need v
  assume "tracked E p0 w0 v p \<and> need = (\<exists>l\<in>set (ps_ThinLvs (p_Spec p)). ls_State l = SpecRemoved)"
  then have t: "tracked E p0 w0 v p" and need: "need = (\<exists>l\<in>set (ps_ThinLvs (p_Spec p)). ls_State l = SpecRemoved)"
    by blast+
  show "wp (\<lambda>c. True) (if \<not> need then ret p
      else bindE (liftE (remaining_statuses p (pst_ThinLvs (p_Status p)) [])) (\<lambda>sts.
        pool_statusUpdate (set_ThinLvs_status sts p))) (on_success K (\<lambda>e w. F)) E v"
  proof (rule wp_if)
    assume "\<not> need"
    with need t show "wp (\<lambda>c. True) (ret p) (on_success K (\<lambda>e w. F)) E v"
      by (intro wp_give assms(6) purged_none) auto
  next
    show "wp (\<lambda>c. True) (bindE (liftE (remaining_statuses p (pst_ThinLvs (p_Status p)) [])) (\<lambda>sts.
        pool_statusUpdate (set_ThinLvs_status sts p))) (on_success K (\<lambda>e w. F)) E v"
    proof (cases "covered p")
      case False
      then have "\<exists>st\<in>set (pst_ThinLvs (p_Status p)). Spec_FindThinLv (p_Spec p) (lst_Name st) = None"
        by (auto simp: covered_def lv_names_def Spec_Find_names)
      with assms(4) [OF False] show ?thesis
        by (intro wp_seq wp_lift) (simp add: remaining_statuses_eq)
    next
      case True
      then have "\<not> (\<exists>st\<in>set (pst_ThinLvs (p_Status p)). Spec_FindThinLv (p_Spec p) (lst_Name st) = None)"
        unfolding covered_def lv_names_def Spec_Find_names by blast
      then have "remaining_statuses p (pst_ThinLvs (p_Status p)) [] = Inr (staying p)"
        by (simp add: remaining_statuses_eq staying_def)
      moreover have "wp (\<lambda>c. True) (pool_statusUpdate (set_ThinLvs_status (staying p) p)) (on_success K (\<lambda>e w. F)) E v"
      proof (rule wp_status [OF assms(1) t assms(3)], assumption)
        fix r w2
        assume tr: "tracked E p0 w0 w2 r" and m: "matches (set_ThinLvs_status (staying p) p) r"
        have "lv_view (set_ThinLvs_status (staying p) p) = filter (\<lambda>(n, a). \<not> lv_removed (p_Spec p) n) (lv_view p)"
          using staying_view [OF True] by (simp add: lv_view_def)
        with m have "purged p r" by (simp add: purged_def matches_def same_holder_def same_request_def)
        with tr True show "K r w2" by (intro assms(5))
      qed
      ultimately show ?thesis by (intro wp_seq wp_lift) simp
    qed
  qed
qed

section \<open>The whole reconcile\<close>

text \<open>The pool that the controller is to bring to its spec, and what it is then.\<close>

definition in_hand :: "env \<Rightarrow> ThinPoolLv \<Rightarrow> bool" where
  "in_hand E p \<longleftrightarrow> LocalNodeName E \<noteq> [] \<and>
     IsStatusConditionTrue (pst_Conditions (p_Status p)) Available \<and>
     pool_inCharge (LocalNodeName E) p \<and> status_consistent p \<and>
     distinct (map ls_Name (ps_ThinLvs (p_Spec p)))"

definition settled :: "ThinPoolLv \<Rightarrow> ThinPoolLv \<Rightarrow> bool" where
  "settled p q \<longleftrightarrow> same_request p q \<and>
     (\<forall>st\<in>set (pst_ThinLvs (p_Status q)).
        lv_active st = lv_wanted (p_Spec p) (lst_Name st) \<and> \<not> lv_removed (p_Spec p) (lst_Name st)) \<and>
     (om_DeletionTimestamp (p_Meta p) = None \<longrightarrow>
        (\<forall>l\<in>set (ps_ThinLvs (p_Spec p)). creatable p l \<longrightarrow> ls_Name l \<in> lv_names q))"

text \<open>What is known of the pool when all steps are done.\<close>

definition finished :: "ThinPoolLv \<Rightarrow> ThinPoolLv \<Rightarrow> bool" where
  "finished p q \<longleftrightarrow> settled p q \<and> status_consistent q"

lemma view_all: "(\<forall>(n, a)\<in>set (lv_view q). P n a) \<longleftrightarrow> (\<forall>st\<in>set (pst_ThinLvs (p_Status q)). P (lst_Name st) (lv_active st))"
  by (auto simp: lv_view_def)

lemma matches_finished: "matches q r \<Longrightarrow> finished p r \<Longrightarrow> finished p q"
proof -
  assume m: "matches q r" and r: "finished p r"
  then have view: "lv_view r = lv_view q" "lv_names r = lv_names q" "p_Spec r = p_Spec q"
    "pst_ActiveOnNode (p_Status r) = pst_ActiveOnNode (p_Status q)"
    by (auto simp: matches_names) (auto simp: matches_def same_request_def)
  have same: "(\<forall>st\<in>set (pst_ThinLvs (p_Status q)). P (lst_Name st) (lv_active st)) \<longleftrightarrow>
      (\<forall>st\<in>set (pst_ThinLvs (p_Status r)). P (lst_Name st) (lv_active st))" for P
    using view_all [of r P] view_all [of q P] view(1) by simp
  have "status_consistent q"
    using r same [of "\<lambda>n a. \<not> a"] view(4) by (simp add: finished_def status_consistent_def list_all_iff)
  moreover have "same_request p q" using r m by (simp add: finished_def settled_def matches_def same_request_def)
  then have "settled p q"
    using r same [of "\<lambda>n a. a = lv_wanted (p_Spec p) n \<and> \<not> lv_removed (p_Spec p) n"] view(2)
    by (simp add: finished_def settled_def)
  ultimately show ?thesis by (simp add: finished_def)
qed

lemma find_distinct_spec:
  "distinct (map ls_Name ls) \<Longrightarrow> l \<in> set ls \<Longrightarrow> find_thin_spec ls (ls_Name l) = Some l"
  by (induction ls) (auto simp: rev_image_eqI)

lemma purged_finished:
  assumes "same_request p q" and "held_if_wanted q" and "distinct (map ls_Name (ps_ThinLvs (p_Spec p)))"
    and "om_DeletionTimestamp (p_Meta p) = None \<Longrightarrow>
      \<forall>l\<in>set (ps_ThinLvs (p_Spec p)). creatable p l \<longrightarrow> ls_Name l \<in> lv_names q"
    and "\<forall>(n, a)\<in>set (lv_view q). a = lv_wanted (p_Spec p) n" and "purged q r"
  shows "finished p r"
proof -
  have spec: "p_Spec q = p_Spec p" "p_Spec r = p_Spec p"
    and holder: "pst_ActiveOnNode (p_Status r) = pst_ActiveOnNode (p_Status q)"
    using assms(1,6) by (auto simp: purged_def same_holder_def same_request_def)
  have view: "lv_view r = filter (\<lambda>(n, a). \<not> lv_removed (p_Spec p) n) (lv_view q)"
    using assms(6) spec by (simp add: purged_def)
  have "\<forall>(n, a)\<in>set (lv_view r). a = lv_wanted (p_Spec p) n \<and> \<not> lv_removed (p_Spec p) n"
    using assms(5) unfolding view by auto
  then have states: "\<forall>st\<in>set (pst_ThinLvs (p_Status r)).
      lv_active st = lv_wanted (p_Spec p) (lst_Name st) \<and> \<not> lv_removed (p_Spec p) (lst_Name st)"
    unfolding view_all .
  have "ls_Name l \<in> lv_names r"
    if "om_DeletionTimestamp (p_Meta p) = None" "l \<in> set (ps_ThinLvs (p_Spec p))" "creatable p l" for l
  proof -
    have "\<not> lv_removed (p_Spec p) (ls_Name l)"
      using find_distinct_spec [OF assms(3) that(2)] that(3)
      by (simp add: lv_removed_def Spec_FindThinLv_def creatable_def)
    moreover have "ls_Name l \<in> lv_names q" using assms(4) [OF that(1)] that(2,3) by blast
    ultimately show ?thesis unfolding lv_view_set [symmetric] view by force
  qed
  moreover have "status_consistent r"
  proof -
    have "\<not> lv_wanted (p_Spec p) n" if "pst_ActiveOnNode (p_Status r) = []" for n
      using that assms(2) holder spec
      by (auto simp: held_if_wanted_def lv_wanted_def Spec_FindThinLv_def dest: find_thin_spec_Some split: option.split)
    with states show ?thesis by (auto simp: status_consistent_def list_all_iff)
  qed
  moreover have "same_request p r" using assms(1,6) same_request_trans by (auto simp: purged_def same_holder_def)
  ultimately show ?thesis using states by (simp add: finished_def settled_def)
qed

text \<open>The handler after the activation of the pool, from the last part to the first.\<close>

definition release_pool :: "ThinPoolLv \<Rightarrow> unit io" where
  "release_pool thinPoolLv =
     (if pst_ActiveOnNode (p_Status thinPoolLv) = []
      then thenE (checkErr (Lvm (lvchange_n thinPoolLv (om_Name (p_Meta thinPoolLv))))) (ret ())
      else ret ())"

definition removal_part :: "ThinPoolLv \<Rightarrow> unit io" where
  "removal_part thinPoolLv = bindE (reconcileThinLvDeletion thinPoolLv) release_pool"

definition activation_part :: "ThinPoolLv \<Rightarrow> unit io" where
  "activation_part thinPoolLv = bindE (reconcileThinLvActivations thinPoolLv) removal_part"

definition creation_part :: "ThinPoolLv \<Rightarrow> unit io" where
  "creation_part thinPoolLv =
     bindE (if om_DeletionTimestamp (p_Meta thinPoolLv) = None
            then reconcileThinLvCreation thinPoolLv else ret thinPoolLv) activation_part"

lemma node_pool_Reconcile_parts:
  "node_pool_Reconcile name =
     bindE (attempt (api_get pools PoolCall name)) (\<lambda>got.
       case got of
         Inl err \<Rightarrow> returnErr (IgnoreNotFound (Some err))
       | Inr thinPoolLv \<Rightarrow>
           if \<not> IsStatusConditionTrue (pst_Conditions (p_Status thinPoolLv)) Available then ret ()
           else bindE (reconcileThinPoolLvActivation thinPoolLv) (\<lambda>(thinPoolLv, inCharge).
             if \<not> inCharge then ret () else creation_part thinPoolLv))"
  by (simp only: node_pool_Reconcile_def creation_part_def activation_part_def [abs_def]
      removal_part_def [abs_def] release_pool_def [abs_def])

text \<open>What holds of the pool between the parts.\<close>

definition on_course :: "ThinPoolLv \<Rightarrow> ThinPoolLv \<Rightarrow> bool" where
  "on_course p q \<longleftrightarrow> same_request p q \<and> held_if_wanted q \<and>
     lv_names q \<subseteq> lv_names p \<union> ls_Name ` set (ps_ThinLvs (p_Spec p)) \<and>
     (om_DeletionTimestamp (p_Meta p) = None \<longrightarrow>
        (\<forall>l\<in>set (ps_ThinLvs (p_Spec p)). creatable p l \<longrightarrow> ls_Name l \<in> lv_names q))"

lemma same_lvs_names: "same_lvs p q \<Longrightarrow> lv_names q = lv_names p"
  unfolding same_lvs_def lv_names_def by (metis set_map)

lemma on_course_same:
  assumes "on_course p q" and "same_lvs q r" and "same_holder q r"
  shows "on_course p r"
  using assms same_lvs_names [OF assms(2)] same_request_trans [of p q r]
  unfolding on_course_def same_holder_def held_if_wanted_def by (auto simp: same_request_def)

lemma wp_release_pool:
  assumes "tracked E p0 w0 w q" and "\<not> responsive E \<Longrightarrow> F" and "\<And>w2. tracked E p0 w0 w2 q \<Longrightarrow> K () w2"
  shows "wp (\<lambda>c. True) (release_pool q) (on_success K (\<lambda>e w. F)) E w"
  unfolding release_pool_def using assms(2,3)
  by (intro wp_if wp_then wp_outside [OF _ _ assms(1)] wp_give emits_intros answered_intros) (auto intro: assms(1))

lemma wp_removal_part:
  assumes "pools_echoed E" and "tracked E p0 w0 w q" and "\<not> responsive E \<Longrightarrow> F" and "\<not> covered p \<Longrightarrow> F"
    and "on_course p q" and "distinct (map ls_Name (ps_ThinLvs (p_Spec p)))"
    and "\<forall>(n, a)\<in>set (lv_view q). a = lv_wanted (p_Spec p) n"
    and "\<And>r w2. tracked E p0 w0 w2 r \<Longrightarrow> finished p r \<Longrightarrow> K () w2"
  shows "wp (\<lambda>c. True) (removal_part q) (on_success K (\<lambda>e w. F)) E w"
proof -
  have finished: "finished p r" if "purged q r" for r
    using assms(5-7) that by (intro purged_finished [of p q]) (auto simp: on_course_def)
  have F: F if "\<not> covered q"
    using that assms(4,5) by (fastforce simp: on_course_def covered_def same_request_def)
  show ?thesis
    unfolding removal_part_def
  proof (rule wp_seq, rule wp_deletion [OF assms(1,2,3) F], assumption, assumption, goal_cases)
    case (1 r w2)
    then show ?case using assms(3,8) finished by (intro wp_release_pool) blast+
  next
    case (2 w2)
    then show ?case using assms(3,8) finished by (intro wp_release_pool) blast+
  qed
qed

lemma wp_activation_part:
  assumes "pools_echoed E" and "tracked E p0 w0 w q" and "\<not> responsive E \<Longrightarrow> F" and "\<not> covered p \<Longrightarrow> F"
    and "on_course p q" and "distinct (map ls_Name (ps_ThinLvs (p_Spec p)))"
    and "\<And>r w2. tracked E p0 w0 w2 r \<Longrightarrow> finished p r \<Longrightarrow> K () w2"
  shows "wp (\<lambda>c. True) (activation_part q) (on_success K (\<lambda>e w. F)) E w"
  unfolding activation_part_def
proof (rule wp_seq, rule wp_activations [OF assms(1,2,3)], assumption)
  fix r w2
  assume t: "tracked E p0 w0 w2 r" and r: "as_wanted_upto q (length (pst_ThinLvs (p_Status q))) r"
  have "on_course p r" using r on_course_same [OF assms(5)] by (simp add: as_wanted_upto_def)
  moreover have "p_Spec q = p_Spec p" using assms(5) by (simp add: on_course_def same_request_def)
  ultimately show "wp (\<lambda>c. True) (removal_part r) (on_success K (\<lambda>e w. F)) E w2"
    using as_wanted_all [OF r] by (intro wp_removal_part [where p = p and K = K, OF assms(1) t assms(3,4) _ assms(6) _ assms(7)]) simp_all
qed

lemma wp_creation_part:
  assumes "pools_echoed E" and "tracked E p0 w0 w q" and "\<not> responsive E \<Longrightarrow> F" and "\<not> covered p \<Longrightarrow> F"
    and "same_lvs p q" and "held_if_wanted q" and "distinct (map ls_Name (ps_ThinLvs (p_Spec p)))"
    and "\<And>r w2. tracked E p0 w0 w2 r \<Longrightarrow> finished p r \<Longrightarrow> K () w2"
  shows "wp (\<lambda>c. True) (creation_part q) (on_success K (\<lambda>e w. F)) E w"
proof -
  note names = same_lvs_names [OF assms(5)]
  have request: "same_request p q" "p_Spec q = p_Spec p"
    "om_DeletionTimestamp (p_Meta q) = om_DeletionTimestamp (p_Meta p)"
    using assms(5) by (simp_all add: same_lvs_def same_request_def)
  note activation = wp_activation_part [where p = p and K = K, OF assms(1) _ assms(3,4) _ assms(7,8)]
  show ?thesis
    unfolding creation_part_def request(3)
  proof (rule wp_seq, rule wp_if)
    show "wp (\<lambda>c. True) (reconcileThinLvCreation q)
        (on_success (\<lambda>x. wp (\<lambda>c. True) (activation_part x) (on_success K (\<lambda>e w. F)) E) (\<lambda>e w. F)) E w"
    proof (rule wp_creation [OF assms(1,2,3)], assumption, rule activation)
      fix r w2
      assume "created_upto q (length (ps_ThinLvs (p_Spec q))) r"
      moreover have "creatable q l = creatable p l" for l unfolding creatable_def names ..
      ultimately show "on_course p r"
        using assms(6) request names same_request_trans [of p q r]
        unfolding on_course_def created_upto_def same_holder_def held_if_wanted_def
        by (auto simp: same_request_def in_set_conv_nth)
    qed
  next
    assume "om_DeletionTimestamp (p_Meta p) \<noteq> None"
    then have dead: "(om_DeletionTimestamp (p_Meta p) = None) = False" by simp
    have "on_course p q" unfolding on_course_def dead using assms(6) request(1) names by simp
    then show "wp (\<lambda>c. True) (ret q)
        (on_success (\<lambda>x. wp (\<lambda>c. True) (activation_part x) (on_success K (\<lambda>e w. F)) E) (\<lambda>e w. F)) E w"
      using assms(2) by (intro wp_give activation)
  qed
qed

lemma node_pool_settles:
  assumes echo: "pools_echoed E" and got: "cl_Get (pools E) (trace w) name = Inr p" and hand: "in_hand E p"
    and run: "node_pool_Reconcile name E w = (r, w2)"
  defines "q \<equiv> pool_after E (trace w) (new_calls w w2) p"
  shows "r = Inr () \<Longrightarrow> finished p q" and "responsive E \<Longrightarrow> covered p \<Longrightarrow> r = Inr ()"
proof -
  let ?w1 = "after w (PoolCall (ApiGet name))"
  let ?F = "\<not> (responsive E \<and> covered p)"
  have t1: "tracked E p w ?w1 p"
    by (rule tracked_quiet [OF tracked_refl, of _ _ "[PoolCall (ApiGet name)]"]) simp_all
  have charge: "pool_inCharge (LocalNodeName E) p" "LocalNodeName E \<noteq> []" "status_consistent p"
    "distinct (map ls_Name (ps_ThinLvs (p_Spec p)))"
    using hand by (simp_all add: in_hand_def)
  have "wp (\<lambda>c. True) (bindE (reconcileThinPoolLvActivation p) (\<lambda>(thinPoolLv, inCharge).
      if \<not> inCharge then ret () else creation_part thinPoolLv))
    (on_success (\<lambda>u w2. \<exists>q. tracked E p w w2 q \<and> finished p q) (\<lambda>e w. ?F)) E ?w1"
  proof (rule wp_seq, rule wp_pool_activation [OF echo t1 _ charge(1,2,3)], blast)
    fix q w2
    assume "tracked E p w w2 q" "same_lvs p q" "held_if_wanted q"
    then show "wp (\<lambda>c. True) (case (q, True) of (thinPoolLv, inCharge) \<Rightarrow>
        if \<not> inCharge then ret () else creation_part thinPoolLv)
      (on_success (\<lambda>u w2. \<exists>q. tracked E p w w2 q \<and> finished p q) (\<lambda>e w. ?F)) E w2"
      using charge(4) by (auto intro: wp_creation_part [OF echo])
  qed
  moreover have "bindE (reconcileThinPoolLvActivation p) (\<lambda>(thinPoolLv, inCharge).
      if \<not> inCharge then ret () else creation_part thinPoolLv) E ?w1 = (r, w2)"
    using run got hand unfolding node_pool_Reconcile_parts attempt_get by (simp add: in_hand_def)
  ultimately have outcome: "on_success (\<lambda>u w2. \<exists>q. tracked E p w w2 q \<and> finished p q) (\<lambda>e w. ?F) r w2"
    by (rule wp_result)
  show "r = Inr () \<Longrightarrow> finished p q"
    using outcome matches_finished by (auto simp: tracked_def q_def new_calls_def)
  show "responsive E \<Longrightarrow> covered p \<Longrightarrow> r = Inr ()"
    using outcome by (cases r) auto
qed

end
