(* ===== verification/Thin_Pool_Common.thy ===== *)
theory Thin_Pool_Common
  imports Commands
begin

text \<open>
  internal/manager/common/thinpoollv/thinpoollv.go: when a thin pool has to be active and
  where, the one place where the spec of a pool is written back, and the requests to
  activate and deactivate a thin LV.  The pool is a value that each function takes and
  returns; a successful Update replaces it by the object the API server returned.
\<close>

section \<open>The functions\<close>

definition VolumeToThinLvName :: "string \<Rightarrow> string" where
  "VolumeToThinLvName volumeName = ''thin-'' @ volumeName"

text \<open>The state names of the two sides are different types here, so the empty string of the
  default branch is the status name that is none of the constants.\<close>

fun specStateToStatusState :: "ThinLvSpecStateName \<Rightarrow> ThinLvStatusStateName" where
  "specStateToStatusState SpecInactive = StatusInactive"
| "specStateToStatusState SpecActive = StatusActive"
| "specStateToStatusState _ = OtherStatusState []"

fun NeedsActivation_loop :: "ThinPoolLv \<Rightarrow> ThinLvSpec list \<Rightarrow> goerr + bool" where
  "NeedsActivation_loop thinPoolLv [] = Inr False"
| "NeedsActivation_loop thinPoolLv (thinLvSpec # specs) =
     (case Status_FindThinLv (p_Status thinPoolLv) (ls_Name thinLvSpec) of
        None \<Rightarrow>
          if ls_State thinLvSpec = SpecRemoved then NeedsActivation_loop thinPoolLv specs
          else if om_DeletionTimestamp (p_Meta thinPoolLv) \<noteq> None
            then Inl (BadRequest ''cannot create a new ThinLV in a pool marked for deletion'')
          else Inr True
      | Some thinLvStatus \<Rightarrow>
          if specStateToStatusState (ls_State thinLvSpec) \<noteq> st_Name (lst_State thinLvStatus)
            then Inr True
          else if ls_State thinLvSpec = SpecActive then Inr True
          else if ls_SizeBytes thinLvSpec > lst_SizeBytes thinLvStatus \<and> \<not> ls_ReadOnly thinLvSpec
            then Inr True
          else NeedsActivation_loop thinPoolLv specs)"

definition thinPoolLvNeedsActivation :: "ThinPoolLv \<Rightarrow> goerr + bool" where
  "thinPoolLvNeedsActivation thinPoolLv =
     NeedsActivation_loop thinPoolLv (ps_ThinLvs (p_Spec thinPoolLv))"

definition set_ActiveOnNode :: "string \<Rightarrow> ThinPoolLv \<Rightarrow> ThinPoolLv" where
  "set_ActiveOnNode node p = p\<lparr>p_Spec := (p_Spec p)\<lparr>ps_ActiveOnNode := node\<rparr>\<rparr>"

definition recalcActiveOnNode :: "string \<Rightarrow> ThinPoolLv \<Rightarrow> goerr + ThinPoolLv" where
  "recalcActiveOnNode localNode thinPoolLv =
     (case thinPoolLvNeedsActivation thinPoolLv of
        Inl err \<Rightarrow> Inl err
      | Inr needsActivation \<Rightarrow>
          (let p1 = (if needsActivation \<and> ps_ActiveOnNode (p_Spec thinPoolLv) = []
                     then set_ActiveOnNode localNode thinPoolLv else thinPoolLv);
               p2 = (if \<not> needsActivation \<and> ps_ActiveOnNode (p_Spec p1) \<noteq> []
                     then set_ActiveOnNode [] p1 else p1)
           in Inr p2))"

definition UpdateThinPoolLv ::
  "ThinPoolLv option \<Rightarrow> ThinPoolLv \<Rightarrow> (ThinPoolLv option \<times> ThinPoolLv) io" where
  "UpdateThinPoolLv oldThinPoolLv thinPoolLv =
     bindE (askEnv LocalNodeName) (\<lambda>node.
     bindE (liftE (recalcActiveOnNode node thinPoolLv)) (\<lambda>thinPoolLv.
       if oldThinPoolLv = Some thinPoolLv then ret (oldThinPoolLv, thinPoolLv)
       else bindE (api_update pools PoolCall thinPoolLv) (\<lambda>updated.
              ret (map_option (\<lambda>old. updated) oldThinPoolLv, updated))))"

definition set_thin_state :: "ThinLvSpecStateName \<Rightarrow> ThinLvSpec \<Rightarrow> ThinLvSpec" where
  "set_thin_state state l = l\<lparr>ls_State := state\<rparr>"

definition ActivateThinLv ::
  "ThinPoolLv option \<Rightarrow> ThinPoolLv \<Rightarrow> string \<Rightarrow> (ThinPoolLv option \<times> ThinPoolLv) io" where
  "ActivateThinLv oldThinPoolLv thinPoolLv name =
     (let thinLvName = VolumeToThinLvName name
      in case Spec_FindThinLv (p_Spec thinPoolLv) thinLvName of
           None \<Rightarrow> fail (BadRequest ''thinLv not found'')
         | Some thinLvSpec \<Rightarrow>
             bindE (case ls_State thinLvSpec of
                      SpecInactive \<Rightarrow>
                        ret (modify_thin_spec thinLvName (set_thin_state SpecActive) thinPoolLv)
                    | SpecActive \<Rightarrow> ret thinPoolLv
                    | SpecRemoved \<Rightarrow> fail (BadRequest ''unexpected state for thinLv'')
                    | OtherSpecState s \<Rightarrow> fail (BadRequest ''unexpected state for thinLv''))
               (\<lambda>thinPoolLv.
             bindE (UpdateThinPoolLv oldThinPoolLv thinPoolLv) (\<lambda>(old, thinPoolLv).
               case Status_FindThinLv (p_Status thinPoolLv) thinLvName of
                 None \<Rightarrow> fail (WatchPending ''waiting for ThinLv activation'')
               | Some thinLvStatus \<Rightarrow>
                   if st_Name (lst_State thinLvStatus) \<noteq> StatusActive
                   then fail (WatchPending ''waiting for ThinLv activation'')
                   else ret (old, thinPoolLv))))"

definition DeactivateThinLv ::
  "ThinPoolLv option \<Rightarrow> ThinPoolLv \<Rightarrow> string \<Rightarrow> (ThinPoolLv option \<times> ThinPoolLv) io" where
  "DeactivateThinLv oldThinPoolLv thinPoolLv name =
     (let thinLvName = VolumeToThinLvName name
      in case Spec_FindThinLv (p_Spec thinPoolLv) thinLvName of
           None \<Rightarrow> fail (BadRequest ''thinLv not found'')
         | Some thinLvSpec \<Rightarrow>
             bindE (case ls_State thinLvSpec of
                      SpecInactive \<Rightarrow> ret thinPoolLv
                    | SpecActive \<Rightarrow>
                        ret (modify_thin_spec thinLvName (set_thin_state SpecInactive) thinPoolLv)
                    | SpecRemoved \<Rightarrow> ret thinPoolLv
                    | OtherSpecState s \<Rightarrow> fail (BadRequest ''unexpected state for thinLv''))
               (\<lambda>thinPoolLv.
             bindE (UpdateThinPoolLv oldThinPoolLv thinPoolLv) (\<lambda>(old, thinPoolLv).
               case Status_FindThinLv (p_Status thinPoolLv) thinLvName of
                 None \<Rightarrow> ret (old, thinPoolLv)
               | Some thinLvStatus \<Rightarrow>
                   if st_Name (lst_State thinLvStatus) = StatusActive
                   then fail (WatchPending ''waiting for ThinLv deactivation'')
                   else ret (old, thinPoolLv))))"

text \<open>
  InterestedNodes deletes from the slice it is given, in place.  The result is the list of
  nodes, with what the caller's own slice reads afterwards.
\<close>

definition InterestedNodes :: "ThinPoolLv \<Rightarrow> string list \<Rightarrow> string list \<times> string list" where
  "InterestedNodes thinPoolLv attachList =
     (if ps_ActiveOnNode (p_Spec thinPoolLv) \<noteq> [] \<and>
         list_ex (\<lambda>thinLvSpec. str_contains (ls_Name thinLvSpec) ''clone-'' \<and>
                    ls_State thinLvSpec = SpecActive) (ps_ThinLvs (p_Spec thinPoolLv))
      then (let (kept, attachList') = slices_DeleteFunc [] attachList
                  (\<lambda>node. node = ps_ActiveOnNode (p_Spec thinPoolLv))
            in (ps_ActiveOnNode (p_Spec thinPoolLv) # kept, attachList'))
      else (attachList, attachList))"

section \<open>When a pool needs activation\<close>

text \<open>
  The cases the source lists, as a predicate on one thin LV spec: creation, a state
  transition (deletion included), explicit activation, extension.
\<close>

definition needs_pool :: "ThinPoolLv \<Rightarrow> ThinLvSpec \<Rightarrow> bool" where
  "needs_pool p spec \<longleftrightarrow>
     (case Status_FindThinLv (p_Status p) (ls_Name spec) of
        None \<Rightarrow> ls_State spec \<noteq> SpecRemoved
      | Some status \<Rightarrow>
          st_Name (lst_State status) \<noteq> specStateToStatusState (ls_State spec) \<or>
          ls_State spec = SpecActive \<or>
          lst_SizeBytes status < ls_SizeBytes spec \<and> \<not> ls_ReadOnly spec)"

text \<open>A thin LV that is requested but does not exist yet.\<close>

definition to_create :: "ThinPoolLv \<Rightarrow> ThinLvSpec \<Rightarrow> bool" where
  "to_create p spec \<longleftrightarrow>
     Status_FindThinLv (p_Status p) (ls_Name spec) = None \<and> ls_State spec \<noteq> SpecRemoved"

lemma to_create_needs_pool: "to_create p spec \<Longrightarrow> needs_pool p spec"
  by (simp add: to_create_def needs_pool_def)

lemma NeedsActivation_loop_False:
  "NeedsActivation_loop p specs = Inr False \<longleftrightarrow> (\<forall>spec\<in>set specs. \<not> needs_pool p spec)"
  by (induction specs) (auto simp: needs_pool_def split: option.splits)

text \<open>The scan stops at the first LV that needs the pool, and fails exactly when that LV is
  still to be created in a pool being deleted.\<close>

lemma NeedsActivation_loop_find:
  "NeedsActivation_loop p specs =
    (case find (needs_pool p) specs of
       None \<Rightarrow> Inr False
     | Some spec \<Rightarrow>
         if om_DeletionTimestamp (p_Meta p) \<noteq> None \<and> to_create p spec
         then Inl (BadRequest ''cannot create a new ThinLV in a pool marked for deletion'')
         else Inr True)"
proof (induction specs)
  case Nil
  then show ?case by simp
next
  case (Cons spec specs)
  then show ?case
    by (cases "Status_FindThinLv (p_Status p) (ls_Name spec)")
      (simp_all add: needs_pool_def to_create_def)
qed

lemma thinPoolLvNeedsActivation_alive:
  "om_DeletionTimestamp (p_Meta p) = None \<Longrightarrow>
    thinPoolLvNeedsActivation p = Inr (\<exists>spec\<in>set (ps_ThinLvs (p_Spec p)). needs_pool p spec)"
  by (auto simp: thinPoolLvNeedsActivation_def NeedsActivation_loop_find find_None_iff
      split: option.split dest: find_SomeD)

section \<open>Where it is activated\<close>

lemma set_ActiveOnNode_simps [simp]:
  "ps_ActiveOnNode (p_Spec (set_ActiveOnNode node p)) = node"
  "ps_ThinLvs (p_Spec (set_ActiveOnNode node p)) = ps_ThinLvs (p_Spec p)"
  "ps_VgName (p_Spec (set_ActiveOnNode node p)) = ps_VgName (p_Spec p)"
  "ps_SizeBytes (p_Spec (set_ActiveOnNode node p)) = ps_SizeBytes (p_Spec p)"
  "p_Meta (set_ActiveOnNode node p) = p_Meta p"
  "p_Status (set_ActiveOnNode node p) = p_Status p"
  "set_ActiveOnNode a (set_ActiveOnNode b p) = set_ActiveOnNode a p"
  by (simp_all add: set_ActiveOnNode_def)

lemma set_ActiveOnNode_self: "ps_ActiveOnNode (p_Spec p) = node \<Longrightarrow> set_ActiveOnNode node p = p"
  by (auto simp: set_ActiveOnNode_def)

lemma needs_pool_set_ActiveOnNode [simp]:
  "needs_pool (set_ActiveOnNode node p) = needs_pool p"
  by (rule ext) (simp add: needs_pool_def)

lemma to_create_set_ActiveOnNode [simp]:
  "to_create (set_ActiveOnNode node p) = to_create p"
  by (rule ext) (simp add: to_create_def)

lemma NeedsActivation_set_ActiveOnNode [simp]:
  "thinPoolLvNeedsActivation (set_ActiveOnNode node p) = thinPoolLvNeedsActivation p"
proof -
  have "NeedsActivation_loop (set_ActiveOnNode node p) specs = NeedsActivation_loop p specs" for specs
    by (simp add: NeedsActivation_loop_find split: option.split)
  then show ?thesis by (simp add: thinPoolLvNeedsActivation_def)
qed

text \<open>The node recalcActiveOnNode assigns.\<close>

definition target_node :: "string \<Rightarrow> ThinPoolLv \<Rightarrow> bool \<Rightarrow> string" where
  "target_node localNode p needs =
     (if \<not> needs then []
      else if ps_ActiveOnNode (p_Spec p) = [] then localNode else ps_ActiveOnNode (p_Spec p))"

lemma recalcActiveOnNode_eq:
  "recalcActiveOnNode localNode p =
    map_sum id (\<lambda>needs. set_ActiveOnNode (target_node localNode p needs) p)
      (thinPoolLvNeedsActivation p)"
  by (cases "thinPoolLvNeedsActivation p")
    (auto simp: recalcActiveOnNode_def Let_def target_node_def set_ActiveOnNode_self)

lemma recalcActiveOnNode_idem:
  "recalcActiveOnNode localNode p = Inr q \<Longrightarrow> recalcActiveOnNode localNode q = Inr q"
  by (cases "thinPoolLvNeedsActivation p")
    (auto simp: recalcActiveOnNode_eq target_node_def split: if_splits)

section \<open>Writing the pool back\<close>

lemma UpdateThinPoolLv_Inr:
  "UpdateThinPoolLv old p E w = (Inr (old', p'), w2) \<longleftrightarrow>
    (\<exists>q. recalcActiveOnNode (LocalNodeName E) p = Inr q \<and>
      (if old = Some q then old' = old \<and> p' = q \<and> w2 = w
       else cl_Update (pools E) (trace w) q = Inr p' \<and> old' = map_option (\<lambda>x. p') old \<and>
            w2 = after w (PoolCall (ApiUpdate q))))"
  by (cases "recalcActiveOnNode (LocalNodeName E) p")
    (auto simp: UpdateThinPoolLv_def io_result liftE_def api_update_def invoke_iff after_def)

text \<open>The pool objects that are written: their active node was recalculated.\<close>

definition recalculated :: "env \<Rightarrow> ThinPoolLv \<Rightarrow> bool" where
  "recalculated E q \<longleftrightarrow>
     (\<exists>needs. thinPoolLvNeedsActivation q = Inr needs \<and> (needs \<or> ps_ActiveOnNode (p_Spec q) = []))"

lemma recalculatedI: "recalcActiveOnNode localNode p = Inr q \<Longrightarrow> recalculated E q"
  by (cases "thinPoolLvNeedsActivation p")
    (auto simp: recalcActiveOnNode_eq target_node_def recalculated_def)

lemma emits_UpdateThinPoolLv:
  assumes "\<And>E q. recalculated E q \<Longrightarrow> P E (PoolCall (ApiUpdate q))"
  shows "emits P (UpdateThinPoolLv old p)"
  unfolding UpdateThinPoolLv_def
  by (intro emits_bindE [OF emits_askEnv] emits_bind_liftE emits_intros assms)
    (auto intro: recalculatedI)

section \<open>Requests to activate and deactivate\<close>

lemma recalcActiveOnNode_Inr:
  "recalcActiveOnNode localNode p = Inr q \<longleftrightarrow>
    (\<exists>needs. thinPoolLvNeedsActivation p = Inr needs \<and>
      q = set_ActiveOnNode (target_node localNode p needs) p)"
  by (cases "thinPoolLvNeedsActivation p") (auto simp: recalcActiveOnNode_eq)

lemma Spec_FindThinLv_modify:
  assumes "\<And>l. ls_Name (f l) = ls_Name l"
  shows "Spec_FindThinLv (p_Spec (modify_thin_spec n f p)) m =
    (if m = n then map_option f (Spec_FindThinLv (p_Spec p) n) else Spec_FindThinLv (p_Spec p) m)"
  using assms
  by (simp add: Spec_FindThinLv_def modify_thin_spec_def find_thin_spec_update_same
      find_thin_spec_update_other)

lemma set_thin_state_simps [simp]:
  "ls_Name (set_thin_state st l) = ls_Name l" "ls_State (set_thin_state st l) = st"
  "ls_SizeBytes (set_thin_state st l) = ls_SizeBytes l"
  "ls_ReadOnly (set_thin_state st l) = ls_ReadOnly l"
  "ls_Contents (set_thin_state st l) = ls_Contents l" "ls_Binding (set_thin_state st l) = ls_Binding l"
  by (simp_all add: set_thin_state_def)

lemma Spec_FindThinLv_set_ActiveOnNode [simp]:
  "Spec_FindThinLv (p_Spec (set_ActiveOnNode node p)) n = Spec_FindThinLv (p_Spec p) n"
  by (simp add: Spec_FindThinLv_def)

text \<open>What an update of the pool may write, relative to the pool it is given.\<close>

definition placed_from :: "env \<Rightarrow> ThinPoolLv \<Rightarrow> ThinPoolLv \<Rightarrow> bool" where
  "placed_from E p q \<longleftrightarrow>
     (\<exists>needs. thinPoolLvNeedsActivation p = Inr needs \<and>
        q = set_ActiveOnNode (target_node (LocalNodeName E) p needs) p)"

lemma emits_UpdateThinPoolLv_placed:
  assumes "\<And>E q. placed_from E p q \<Longrightarrow> P E (PoolCall (ApiUpdate q))"
  shows "emits P (UpdateThinPoolLv old p)"
  unfolding emits_def
proof (intro allI)
  fix E w
  show "\<exists>cs. trace (snd (UpdateThinPoolLv old p E w)) = trace w @ cs \<and> (\<forall>c\<in>set cs. P E c)"
  proof (cases "recalcActiveOnNode (LocalNodeName E) p")
    case (Inl e)
    then show ?thesis
      by (auto simp: UpdateThinPoolLv_def liftE_def bindE_def askEnv_def fail_def)
  next
    case (Inr q)
    with assms have "P E (PoolCall (ApiUpdate q))"
      by (auto simp: placed_from_def recalcActiveOnNode_Inr)
    with Inr show ?thesis
      by (auto simp: UpdateThinPoolLv_def liftE_def bindE_def askEnv_def ret_def api_update_def
          invoke_def split: sum.split)
  qed
qed

lemma emits_ActivateThinLv:
  assumes "\<And>E q l p'. Spec_FindThinLv (p_Spec q) (VolumeToThinLvName name) = Some l \<Longrightarrow>
      ls_State l = SpecActive \<Longrightarrow> placed_from E p' q \<Longrightarrow>
      p' = p \<or> p' = modify_thin_spec (VolumeToThinLvName name) (set_thin_state SpecActive) p \<Longrightarrow>
      P E (PoolCall (ApiUpdate q))"
  shows "emits P (ActivateThinLv old p name)"
proof (cases "Spec_FindThinLv (p_Spec p) (VolumeToThinLvName name)")
  case None
  then show ?thesis by (simp add: ActivateThinLv_def emits_intros)
next
  case (Some l)
  let ?n = "VolumeToThinLvName name"
  have rest: "emits P (bindE (UpdateThinPoolLv old p') (\<lambda>(old, thinPoolLv).
      case Status_FindThinLv (p_Status thinPoolLv) ?n of
        None \<Rightarrow> fail (WatchPending ''waiting for ThinLv activation'')
      | Some thinLvStatus \<Rightarrow>
          if st_Name (lst_State thinLvStatus) \<noteq> StatusActive
          then fail (WatchPending ''waiting for ThinLv activation'') else ret (old, thinPoolLv)))"
    if "\<exists>l'. Spec_FindThinLv (p_Spec p') ?n = Some l' \<and> ls_State l' = SpecActive"
      and "p' = p \<or> p' = modify_thin_spec ?n (set_thin_state SpecActive) p" for p'
    using that
    by (intro emits_intros emits_UpdateThinPoolLv_placed) (auto simp: placed_from_def intro!: assms)
  from Some rest show ?thesis
    by (auto simp: ActivateThinLv_def Let_def Spec_FindThinLv_modify emits_fail
        split: ThinLvSpecStateName.split)
qed

lemma emits_DeactivateThinLv:
  assumes "\<And>E q l p'. Spec_FindThinLv (p_Spec q) (VolumeToThinLvName name) = Some l \<Longrightarrow>
      ls_State l \<noteq> SpecActive \<Longrightarrow> placed_from E p' q \<Longrightarrow>
      p' = p \<or> p' = modify_thin_spec (VolumeToThinLvName name) (set_thin_state SpecInactive) p \<Longrightarrow>
      P E (PoolCall (ApiUpdate q))"
  shows "emits P (DeactivateThinLv old p name)"
proof (cases "Spec_FindThinLv (p_Spec p) (VolumeToThinLvName name)")
  case None
  then show ?thesis by (simp add: DeactivateThinLv_def emits_intros)
next
  case (Some l)
  let ?n = "VolumeToThinLvName name"
  have rest: "emits P (bindE (UpdateThinPoolLv old p') (\<lambda>(old, thinPoolLv).
      case Status_FindThinLv (p_Status thinPoolLv) ?n of
        None \<Rightarrow> ret (old, thinPoolLv)
      | Some thinLvStatus \<Rightarrow>
          if st_Name (lst_State thinLvStatus) = StatusActive
          then fail (WatchPending ''waiting for ThinLv deactivation'') else ret (old, thinPoolLv)))"
    if "\<exists>l'. Spec_FindThinLv (p_Spec p') ?n = Some l' \<and> ls_State l' \<noteq> SpecActive"
      and "p' = p \<or> p' = modify_thin_spec ?n (set_thin_state SpecInactive) p" for p'
    using that
    by (intro emits_intros emits_UpdateThinPoolLv_placed) (auto simp: placed_from_def intro!: assms)
  from Some rest show ?thesis
    by (auto simp: DeactivateThinLv_def Let_def Spec_FindThinLv_modify emits_fail
        split: ThinLvSpecStateName.split)
qed

lemma ActivateThinLv_Inr_status:
  "ActivateThinLv old p name E w = (Inr (old', p'), w2) \<Longrightarrow>
    \<exists>status. Status_FindThinLv (p_Status p') (VolumeToThinLvName name) = Some status \<and>
      st_Name (lst_State status) = StatusActive"
  by (auto simp: ActivateThinLv_def Let_def io_result split: option.splits if_splits prod.splits)

lemma DeactivateThinLv_Inr_status:
  "DeactivateThinLv old p name E w = (Inr (old', p'), w2) \<Longrightarrow>
    Status_FindThinLv (p_Status p') (VolumeToThinLvName name) = Some status \<Longrightarrow>
    st_Name (lst_State status) \<noteq> StatusActive"
  by (auto simp: DeactivateThinLv_def Let_def io_result split: option.splits if_splits prod.splits)

section \<open>Interested nodes\<close>

text \<open>A clone source that is active pins the pool to its node.\<close>

definition clone_pins :: "ThinPoolLv \<Rightarrow> bool" where
  "clone_pins p \<longleftrightarrow> ps_ActiveOnNode (p_Spec p) \<noteq> [] \<and>
     (\<exists>l\<in>set (ps_ThinLvs (p_Spec p)). str_contains (ls_Name l) ''clone-'' \<and> ls_State l = SpecActive)"

lemma InterestedNodes_free: "\<not> clone_pins p \<Longrightarrow> InterestedNodes p nodes = (nodes, nodes)"
  by (auto simp: InterestedNodes_def clone_pins_def list_ex_iff)

lemma InterestedNodes_pinned:
  "clone_pins p \<Longrightarrow> fst (InterestedNodes p nodes) =
    ps_ActiveOnNode (p_Spec p) # filter (\<lambda>n. n \<noteq> ps_ActiveOnNode (p_Spec p)) nodes"
  by (auto simp: InterestedNodes_def clone_pins_def list_ex_iff Let_def split_beta)

lemma set_InterestedNodes:
  "set (fst (InterestedNodes p nodes)) =
    (if clone_pins p then insert (ps_ActiveOnNode (p_Spec p)) (set nodes) else set nodes)"
  by (auto simp: InterestedNodes_pinned InterestedNodes_free)

lemma distinct_InterestedNodes: "distinct nodes \<Longrightarrow> distinct (fst (InterestedNodes p nodes))"
  by (cases "clone_pins p") (auto simp: InterestedNodes_pinned InterestedNodes_free)

text \<open>The caller's slice survives unless the pinned node is in it; then that node is lost and
  an empty name takes the tail.\<close>

lemma InterestedNodes_caller:
  "snd (InterestedNodes p nodes) =
    (if clone_pins p
     then filter (\<lambda>n. n \<noteq> ps_ActiveOnNode (p_Spec p)) nodes @
          replicate (length nodes - length (filter (\<lambda>n. n \<noteq> ps_ActiveOnNode (p_Spec p)) nodes)) []
     else nodes)"
  by (auto simp: InterestedNodes_def clone_pins_def list_ex_iff Let_def slices_DeleteFunc_def split_beta)

lemma InterestedNodes_caller_loses:
  "clone_pins p \<Longrightarrow> ps_ActiveOnNode (p_Spec p) \<notin> set (snd (InterestedNodes p nodes))"
  by (auto simp: InterestedNodes_caller clone_pins_def)

lemma emits_PoolUpdates:
  assumes "\<And>E q. P E (PoolCall (ApiUpdate q))"
  shows "emits P (UpdateThinPoolLv old p)" and "emits P (ActivateThinLv old p name)"
    and "emits P (DeactivateThinLv old p name)"
  by (intro emits_UpdateThinPoolLv emits_ActivateThinLv emits_DeactivateThinLv assms)+

end
