(* ===== verification/Blobs.thy ===== *)
theory Blobs
  imports Thin_Pool_Common Dm
begin

text \<open>
  internal/manager/common/blobs: the BlobManager interface and its two implementations, for
  linear logical volumes and for thin volumes in a pool.  A manager is a value; a method
  call dispatches on it.  The owner of a blob is a Volume or a Snapshot.
\<close>

definition GroupVersion :: string where
  "GroupVersion = Domain @ ''/v1alpha1''"

definition CommonLabels :: "(string \<times> string) list" where
  "CommonLabels = [(''app.kubernetes.io/name'', ''kubesan''), (''app.kubernetes.io/version'', ''v0.10.3'')]"

definition volume_object :: "Volume \<Rightarrow> owner_object" where
  "volume_object v = \<lparr>ow_APIVersion = GroupVersion, ow_Kind = ''Volume'', ow_Meta = v_Meta v\<rparr>"

definition snapshot_object :: "Snapshot \<Rightarrow> owner_object" where
  "snapshot_object s = \<lparr>ow_APIVersion = GroupVersion, ow_Kind = ''Snapshot'', ow_Meta = s_Meta s\<rparr>"

datatype BlobManager =
    LinearBlobManager string
  | ThinBlobManager string string

section \<open>Linear volumes\<close>

definition Linear_CreateBlob :: "string \<Rightarrow> string \<Rightarrow> string \<Rightarrow> int \<Rightarrow> unit io" where
  "Linear_CreateBlob vgName name binding sizeBytes =
     thenE (checkErr (LvmLvCreateIdempotent binding
              [''--devicesfile'', vgName, ''--activate'', ''ey'', ''--zero'', ''y'',
               ''--wipesignatures'', ''n'', ''--type'', ''linear'',
               ''--metadataprofile'', ''kubesan'', ''--name'', name,
               ''--size'', show_int sizeBytes @ ''b'', vgName]))
     (thenE (checkErr (LvmLvExtendIdempotent
              [''--devicesfile'', vgName, ''--size'', show_int sizeBytes @ ''b'',
               vgName @ ''/'' @ name])) (ret ()))"

definition Linear_RemoveBlob :: "string \<Rightarrow> string \<Rightarrow> unit io" where
  "Linear_RemoveBlob vgName name =
     thenE (checkErr (LvmLvRemoveIdempotent [''--devicesfile'', vgName, vgName @ ''/'' @ name]))
       (ret ())"

definition Linear_GetPath :: "string \<Rightarrow> string \<Rightarrow> string" where
  "Linear_GetPath vgName name = ''/dev/'' @ vgName @ ''/'' @ name"

section \<open>Thin volumes\<close>

definition getThinPoolLv :: "string \<Rightarrow> ThinPoolLv io" where
  "getThinPoolLv name = api_get pools PoolCall name"

definition new_ThinPoolLv :: "string \<Rightarrow> string \<Rightarrow> string \<Rightarrow> int \<Rightarrow> ThinPoolLv" where
  "new_ThinPoolLv namespace vgName name sizeBytes =
     \<lparr>p_Meta = fst (AddFinalizer (new_meta name namespace (Some CommonLabels)) Finalizer),
      p_Spec = \<lparr>ps_VgName = vgName, ps_SizeBytes = min sizeBytes (1024 * 1024 * 1024),
                ps_ThinLvs = [], ps_ActiveOnNode = ''''\<rparr>,
      p_Status = \<lparr>pst_ObservedGeneration = 0, pst_Conditions = [], pst_ActiveOnNode = '''',
                  pst_ThinLvs = []\<rparr>\<rparr>"

definition createThinPoolLv :: "string \<Rightarrow> string \<Rightarrow> int \<Rightarrow> owner_object \<Rightarrow> ThinPoolLv io" where
  "createThinPoolLv vgName name sizeBytes owner =
     bindE (askEnv Namespace) (\<lambda>namespace.
     let thinPoolLv = new_ThinPoolLv namespace vgName name sizeBytes
     in bindE (liftE (SetOwnerReference owner (p_Meta thinPoolLv) (Some True))) (\<lambda>metadata.
        bindE (attempt (api_create pools PoolCall (thinPoolLv\<lparr>p_Meta := metadata\<rparr>))) (\<lambda>created.
          case created of
            Inr thinPoolLv \<Rightarrow> ret thinPoolLv
          | Inl err \<Rightarrow> if err = ErrAlreadyExists then getThinPoolLv name else fail err)))"

text \<open>The change of the spec that createThinLv writes back.\<close>

definition add_thin_lv ::
  "ThinPoolLv \<Rightarrow> string \<Rightarrow> string \<Rightarrow> int \<Rightarrow> ThinLvContents \<Rightarrow> ThinPoolLv" where
  "add_thin_lv thinPoolLv name binding sizeBytes contents =
     (let readOnly = (tc_ContentsType contents = ThinLvContentsTypeSnapshot);
          thinLvSpec = Spec_FindThinLv (p_Spec thinPoolLv) name;
          thinLvStatus = Status_FindThinLv (p_Status thinPoolLv) name
      in if thinLvSpec = None then
           thinPoolLv\<lparr>p_Spec := (p_Spec thinPoolLv)\<lparr>ps_ThinLvs :=
             ps_ThinLvs (p_Spec thinPoolLv) @
               [\<lparr>ls_Name = name, ls_Binding = binding, ls_Contents = contents,
                 ls_ReadOnly = readOnly, ls_SizeBytes = sizeBytes, ls_State = SpecInactive\<rparr>]\<rparr>\<rparr>
         else if (case thinLvStatus of None \<Rightarrow> True | Some st \<Rightarrow> sizeBytes > lst_SizeBytes st) then
           modify_thin_spec name (\<lambda>l. l\<lparr>ls_SizeBytes := sizeBytes\<rparr>) thinPoolLv
         else thinPoolLv)"

definition createThinLv ::
  "ThinPoolLv option \<Rightarrow> ThinPoolLv \<Rightarrow> string \<Rightarrow> string \<Rightarrow> int \<Rightarrow> ThinLvContents \<Rightarrow>
    (ThinPoolLv option \<times> ThinPoolLv) io" where
  "createThinLv oldThinPoolLv thinPoolLv name binding sizeBytes contents =
     UpdateThinPoolLv oldThinPoolLv (add_thin_lv thinPoolLv name binding sizeBytes contents)"

definition checkThinLvExists :: "ThinPoolLv \<Rightarrow> string \<Rightarrow> int \<Rightarrow> bool" where
  "checkThinLvExists thinPoolLv name sizeBytes =
     (case Status_FindThinLv (p_Status thinPoolLv) name of
        None \<Rightarrow> False
      | Some thinLvStatus \<Rightarrow> lst_SizeBytes thinLvStatus \<ge> sizeBytes)"

definition checkThinLvRemoved :: "ThinPoolLv \<Rightarrow> string \<Rightarrow> bool" where
  "checkThinLvRemoved thinPoolLv name =
     (case Status_FindThinLv (p_Status thinPoolLv) name of
        None \<Rightarrow> True
      | Some thinLvStatus \<Rightarrow> st_Name (lst_State thinLvStatus) = StatusRemoved)"

definition requestThinLvRemoval ::
  "ThinPoolLv option \<Rightarrow> ThinPoolLv \<Rightarrow> string \<Rightarrow> (ThinPoolLv option \<times> ThinPoolLv) io" where
  "requestThinLvRemoval oldThinPoolLv thinPoolLv name =
     (case Spec_FindThinLv (p_Spec thinPoolLv) name of
        None \<Rightarrow> ret (oldThinPoolLv, thinPoolLv)
      | Some thinLvSpec \<Rightarrow>
          UpdateThinPoolLv oldThinPoolLv
            (if ls_State thinLvSpec \<noteq> SpecRemoved
             then modify_thin_spec name (set_thin_state SpecRemoved) thinPoolLv
             else thinPoolLv))"

text \<open>The first spec of the name is deleted; the update has no old pool to compare with.\<close>

definition forgetRemovedThinLv :: "ThinPoolLv \<Rightarrow> string \<Rightarrow> ThinPoolLv io" where
  "forgetRemovedThinLv thinPoolLv name =
     (case find_index (\<lambda>l. ls_Name l = name) (ps_ThinLvs (p_Spec thinPoolLv)) of
        None \<Rightarrow> ret thinPoolLv
      | Some i \<Rightarrow>
          bindE (UpdateThinPoolLv None
                   (thinPoolLv\<lparr>p_Spec := (p_Spec thinPoolLv)\<lparr>ps_ThinLvs :=
                      slices_Delete1 (ps_ThinLvs (p_Spec thinPoolLv)) i\<rparr>\<rparr>))
            (\<lambda>(old, thinPoolLv). ret thinPoolLv))"

definition Thin_CreateBlob ::
  "string \<Rightarrow> string \<Rightarrow> string \<Rightarrow> int \<Rightarrow> owner_object \<Rightarrow> unit io" where
  "Thin_CreateBlob vgName name binding sizeBytes owner =
     bindE (createThinPoolLv vgName name sizeBytes owner) (\<lambda>thinPoolLv.
     let thinLvName = VolumeToThinLvName name;
         contents = \<lparr>tc_ContentsType = ThinLvContentsTypeEmpty, tc_Snapshot = None\<rparr>
     in bindE (createThinLv (Some thinPoolLv) thinPoolLv thinLvName binding sizeBytes contents)
          (\<lambda>(old, thinPoolLv).
        if \<not> checkThinLvExists thinPoolLv thinLvName sizeBytes
        then fail (WatchPending ''waiting for thin pool creation'')
        else thenE (UpdateThinPoolLv old thinPoolLv) (ret ())))"

definition Thin_GetSize :: "string \<Rightarrow> string \<Rightarrow> int io" where
  "Thin_GetSize poolName name =
     bindE (getThinPoolLv poolName) (\<lambda>thinPoolLv.
       case Status_FindThinLv (p_Status thinPoolLv) (VolumeToThinLvName name) of
         None \<Rightarrow> fail (BadRequest ''thinLv not found'')
       | Some thinLvStatus \<Rightarrow> ret (lst_SizeBytes thinLvStatus))"

definition Thin_SnapshotBlob ::
  "string \<Rightarrow> string \<Rightarrow> string \<Rightarrow> string \<Rightarrow> owner_object \<Rightarrow> unit io" where
  "Thin_SnapshotBlob poolName name binding sourceName owner =
     bindE (getThinPoolLv poolName) (\<lambda>oldThinPoolLv.
       case Spec_FindThinLv (p_Spec oldThinPoolLv) (VolumeToThinLvName sourceName) of
         None \<Rightarrow> fail (BadRequest ''sourceThinLv not found'')
       | Some sourceThinLv \<Rightarrow>
           if ls_State sourceThinLv = SpecRemoved then fail (BadRequest ''sourceThinLv not found'')
           else
             bindE (liftE (SetOwnerReference owner (p_Meta oldThinPoolLv) (Some True))) (\<lambda>metadata.
             let thinPoolLv = oldThinPoolLv\<lparr>p_Meta := metadata\<rparr>;
                 thinLvName = VolumeToThinLvName name;
                 contents = \<lparr>tc_ContentsType = ThinLvContentsTypeSnapshot,
                             tc_Snapshot = Some (ls_Name sourceThinLv)\<rparr>
             in bindE (createThinLv (Some oldThinPoolLv) thinPoolLv thinLvName binding 0 contents)
                  (\<lambda>(old, thinPoolLv).
                if \<not> checkThinLvExists thinPoolLv thinLvName 0
                then fail (WatchPending ''waiting for blob creation'')
                else thenE (UpdateThinPoolLv old thinPoolLv) (ret ()))))"

text \<open>The object is fetched; a missing one ends the operation with success.\<close>

definition pool_or_done :: "string \<Rightarrow> (ThinPoolLv \<Rightarrow> unit io) \<Rightarrow> unit io" where
  "pool_or_done poolName k =
     bindE (attempt (getThinPoolLv poolName)) (\<lambda>got.
       case got of
         Inl err \<Rightarrow> if err = ErrNotFound then ret () else fail err
       | Inr thinPoolLv \<Rightarrow> k thinPoolLv)"

definition drop_owner :: "owner_object \<Rightarrow> ThinPoolLv \<Rightarrow> ThinPoolLv" where
  "drop_owner owner p =
     (case RemoveOwnerReference owner (p_Meta p) of
        Inl err \<Rightarrow> p
      | Inr metadata \<Rightarrow> p\<lparr>p_Meta := metadata\<rparr>)"

definition Thin_RemoveBlob :: "string \<Rightarrow> string \<Rightarrow> owner_object \<Rightarrow> unit io" where
  "Thin_RemoveBlob poolName name owner =
     pool_or_done poolName (\<lambda>thinPoolLv.
       let thinLvName = VolumeToThinLvName name
       in bindE (requestThinLvRemoval (Some thinPoolLv) thinPoolLv thinLvName) (\<lambda>(old, thinPoolLv).
          if \<not> checkThinLvRemoved thinPoolLv thinLvName
          then fail (WatchPending ''waiting for blob removal'')
          else
            bindE (forgetRemovedThinLv thinPoolLv thinLvName) (\<lambda>thinPoolLv.
              if Status_FindThinLv (p_Status thinPoolLv) thinLvName \<noteq> None
              then fail (WatchPending ''waiting for thinlv cleanup'')
              else
                let thinPoolLv = drop_owner owner thinPoolLv
                in bindE (if ps_ThinLvs (p_Spec thinPoolLv) = [] \<and>
                             om_DeletionTimestamp (p_Meta thinPoolLv) = None
                          then attempt (api_delete pools PoolCall thinPoolLv None)
                          else ret (Inr ())) (\<lambda>deleted.
                     case deleted of
                       Inl err \<Rightarrow> returnErr (IgnoreNotFound (Some err))
                     | Inr u \<Rightarrow> thenE (UpdateThinPoolLv old thinPoolLv) (ret ())))))"

definition Thin_ActivateBlobForCloneSource :: "string \<Rightarrow> string \<Rightarrow> owner_object \<Rightarrow> unit io" where
  "Thin_ActivateBlobForCloneSource poolName name owner =
     bindE (getThinPoolLv poolName) (\<lambda>oldThinPoolLv.
     bindE (liftE (SetOwnerReference owner (p_Meta oldThinPoolLv) (Some True))) (\<lambda>metadata.
       thenE (ActivateThinLv (Some oldThinPoolLv) (oldThinPoolLv\<lparr>p_Meta := metadata\<rparr>) name) (ret ())))"

text \<open>
  The node returned is read from the pool together with a call that changes the pool, and
  the language leaves the order of the two open.  The model reads it after the call, as the gc
  compiler does; the orders differ only where the source pool has no active node.
\<close>

definition Thin_ActivateBlobForCloneTarget ::
  "string \<Rightarrow> string \<Rightarrow> BlobManager option \<Rightarrow> string io" where
  "Thin_ActivateBlobForCloneTarget poolName name dataSrcBlobMgr =
     (case dataSrcBlobMgr of
        None \<Rightarrow> ret []
      | Some src \<Rightarrow>
          bindE (getThinPoolLv poolName) (\<lambda>oldThinPoolLv.
            case src of
              LinearBlobManager vgName \<Rightarrow> fail (BadRequest ''Data source is not a thin-pool!'')
            | ThinBlobManager srcVgName srcPoolName \<Rightarrow>
                bindE (getThinPoolLv srcPoolName) (\<lambda>dataSrcThinPoolLv.
                  let thinPoolLv = set_ActiveOnNode
                        (pst_ActiveOnNode (p_Status dataSrcThinPoolLv)) oldThinPoolLv
                  in bindE (ActivateThinLv (Some oldThinPoolLv) thinPoolLv name)
                       (\<lambda>(old, thinPoolLv). ret (ps_ActiveOnNode (p_Spec thinPoolLv))))))"

definition Thin_Deactivate :: "string \<Rightarrow> string \<Rightarrow> unit io" where
  "Thin_Deactivate poolName name =
     pool_or_done poolName (\<lambda>thinPoolLv.
       if Spec_FindThinLv (p_Spec thinPoolLv) (VolumeToThinLvName name) = None then ret ()
       else thenE (DeactivateThinLv (Some thinPoolLv) thinPoolLv name) (ret ()))"

section \<open>The interface\<close>

fun CreateBlob :: "BlobManager \<Rightarrow> string \<Rightarrow> string \<Rightarrow> int \<Rightarrow> owner_object \<Rightarrow> unit io" where
  "CreateBlob (LinearBlobManager vgName) name binding sizeBytes owner =
     Linear_CreateBlob vgName name binding sizeBytes"
| "CreateBlob (ThinBlobManager vgName poolName) name binding sizeBytes owner =
     Thin_CreateBlob vgName name binding sizeBytes owner"

fun RemoveBlob :: "BlobManager \<Rightarrow> string \<Rightarrow> owner_object \<Rightarrow> unit io" where
  "RemoveBlob (LinearBlobManager vgName) name owner = Linear_RemoveBlob vgName name"
| "RemoveBlob (ThinBlobManager vgName poolName) name owner = Thin_RemoveBlob poolName name owner"

fun SnapshotBlob :: "BlobManager \<Rightarrow> string \<Rightarrow> string \<Rightarrow> string \<Rightarrow> owner_object \<Rightarrow> unit io" where
  "SnapshotBlob (LinearBlobManager vgName) name binding sourceName owner =
     fail (BadRequest ''linear volumes do not support snapshots'')"
| "SnapshotBlob (ThinBlobManager vgName poolName) name binding sourceName owner =
     Thin_SnapshotBlob poolName name binding sourceName owner"

fun ActivateBlobForCloneSource :: "BlobManager \<Rightarrow> string \<Rightarrow> owner_object \<Rightarrow> unit io" where
  "ActivateBlobForCloneSource (LinearBlobManager vgName) name owner =
     fail (BadRequest ''linear volumes do not support cloning'')"
| "ActivateBlobForCloneSource (ThinBlobManager vgName poolName) name owner =
     Thin_ActivateBlobForCloneSource poolName name owner"

fun ActivateBlobForCloneTarget :: "BlobManager \<Rightarrow> string \<Rightarrow> BlobManager option \<Rightarrow> string io" where
  "ActivateBlobForCloneTarget (LinearBlobManager vgName) name dataSrcBlobMgr = askEnv LocalNodeName"
| "ActivateBlobForCloneTarget (ThinBlobManager vgName poolName) name dataSrcBlobMgr =
     Thin_ActivateBlobForCloneTarget poolName name dataSrcBlobMgr"

fun DeactivateBlobForCloneSource :: "BlobManager \<Rightarrow> string \<Rightarrow> owner_object \<Rightarrow> unit io" where
  "DeactivateBlobForCloneSource (LinearBlobManager vgName) name owner =
     fail (BadRequest ''linear volumes do not support cloning'')"
| "DeactivateBlobForCloneSource (ThinBlobManager vgName poolName) name owner =
     Thin_Deactivate poolName name"

fun DeactivateBlobForCloneTarget :: "BlobManager \<Rightarrow> string \<Rightarrow> unit io" where
  "DeactivateBlobForCloneTarget (LinearBlobManager vgName) name = ret ()"
| "DeactivateBlobForCloneTarget (ThinBlobManager vgName poolName) name = Thin_Deactivate poolName name"

fun Blob_GetSize :: "BlobManager \<Rightarrow> string \<Rightarrow> int io" where
  "Blob_GetSize (LinearBlobManager vgName) name = LvmSize vgName name"
| "Blob_GetSize (ThinBlobManager vgName poolName) name = Thin_GetSize poolName name"

fun GetPath :: "BlobManager \<Rightarrow> string \<Rightarrow> string" where
  "GetPath (LinearBlobManager vgName) name = Linear_GetPath vgName name"
| "GetPath (ThinBlobManager vgName poolName) name = GetDevicePath name"

fun ExpansionMustBeOffline :: "BlobManager \<Rightarrow> bool" where
  "ExpansionMustBeOffline (LinearBlobManager vgName) = True"
| "ExpansionMustBeOffline (ThinBlobManager vgName poolName) = False"

fun SizeNeedsCheck :: "BlobManager \<Rightarrow> bool \<Rightarrow> bool" where
  "SizeNeedsCheck (LinearBlobManager vgName) staged = True"
| "SizeNeedsCheck (ThinBlobManager vgName poolName) staged = (\<not> staged)"

section \<open>The contract of the interface\<close>

text \<open>A manager acts through commands and pool objects only, and creating, copying or
  activating a blob destroys nothing.\<close>

fun is_blob_call :: "call \<Rightarrow> bool" where
  "is_blob_call (PoolCall x) = True"
| "is_blob_call (Exec command) = True"
| "is_blob_call _ = False"

definition destroys :: "call \<Rightarrow> bool" where
  "destroys c \<longleftrightarrow> (\<exists>args. c = lvm_call (''lvremove'' # args)) \<or> (\<exists>q p. c = PoolCall (ApiDelete q p))"

definition keeps_data :: "env \<Rightarrow> call \<Rightarrow> bool" where
  "keeps_data E c \<longleftrightarrow> is_blob_call c \<and> \<not> destroys c"

text \<open>
  What the controllers rely on, whichever manager they were given: the two frame conditions,
  and the agreement between the two questions on expansion, by which the size of an expanded
  volume is always picked up by someone.
\<close>

locale blob_manager =
  fixes create :: "'m \<Rightarrow> string \<Rightarrow> string \<Rightarrow> int \<Rightarrow> owner_object \<Rightarrow> unit io"
    and remove :: "'m \<Rightarrow> string \<Rightarrow> owner_object \<Rightarrow> unit io"
    and snapshot :: "'m \<Rightarrow> string \<Rightarrow> string \<Rightarrow> string \<Rightarrow> owner_object \<Rightarrow> unit io"
    and act_source :: "'m \<Rightarrow> string \<Rightarrow> owner_object \<Rightarrow> unit io"
    and act_target :: "'m \<Rightarrow> string \<Rightarrow> BlobManager option \<Rightarrow> string io"
    and deact_source :: "'m \<Rightarrow> string \<Rightarrow> owner_object \<Rightarrow> unit io"
    and deact_target :: "'m \<Rightarrow> string \<Rightarrow> unit io"
    and get_size :: "'m \<Rightarrow> string \<Rightarrow> int io"
    and offline_only :: "'m \<Rightarrow> bool"
    and needs_check :: "'m \<Rightarrow> bool \<Rightarrow> bool"
  assumes create_keeps: "emits keeps_data (create m name binding sizeBytes owner)"
    and snapshot_keeps: "emits keeps_data (snapshot m name binding src owner)"
    and act_source_keeps: "emits keeps_data (act_source m name owner)"
    and act_target_keeps: "emits keeps_data (act_target m name data_src)"
    and deact_source_keeps: "emits keeps_data (deact_source m name owner)"
    and deact_target_keeps: "emits keeps_data (deact_target m name)"
    and get_size_keeps: "emits keeps_data (get_size m name)"
    and remove_frame: "emits (\<lambda>E. is_blob_call) (remove m name owner)"
    and offline_check: "offline_only m \<Longrightarrow> needs_check m staged"
    and unstaged_check: "needs_check m False"
begin

lemmas keeps = create_keeps snapshot_keeps act_source_keeps act_target_keeps deact_source_keeps
  deact_target_keeps get_size_keeps

lemma emits_keeps:
  assumes "\<And>E c. keeps_data E c \<Longrightarrow> P E c"
  shows "emits P (create m name binding sizeBytes owner)" "emits P (snapshot m name binding src owner)"
    "emits P (act_source m name owner)" "emits P (act_target m name data_src)"
    "emits P (deact_source m name owner)" "emits P (deact_target m name)" "emits P (get_size m name)"
  by (rule emits_mono [OF _ assms], rule keeps, assumption)+

lemma emits_remove:
  "(\<And>E c. is_blob_call c \<Longrightarrow> P E c) \<Longrightarrow> emits P (remove m name owner)"
  by (rule emits_mono [OF remove_frame])

text \<open>A whole clone set-up keeps the data of both sides.\<close>

lemma clone_setup_keeps:
  "emits keeps_data (thenE (snapshot m tmp [] src owner)
     (thenE (act_source m tmp owner) (act_target m' name data_src)))"
  by (intro emits_thenE keeps)

end

lemma keeps_data_simps [simp]:
  "keeps_data E (PoolCall (ApiGet n))" "keeps_data E (PoolCall (ApiCreate q))"
  "keeps_data E (PoolCall (ApiUpdate q))" "keeps_data E (PoolCall (ApiUpdateStatus q))"
  "keeps_data E (lvm_call (lvcreate_args b args))" "keeps_data E (lvm_call (''lvextend'' # args))"
  "keeps_data E (lvm_call (''lvs'' # args))"
  by (auto simp: keeps_data_def destroys_def lvm_call_def host_call_def lvcreate_args_def)

lemma is_blob_call_lvm [simp]: "is_blob_call (lvm_call args)"
  by (simp add: lvm_call_def host_call_def)

lemma emits_pool_or_done [emits_intros]:
  "(\<And>E. P E (PoolCall (ApiGet n))) \<Longrightarrow> (\<And>p. emits P (k p)) \<Longrightarrow> emits P (pool_or_done n k)"
  unfolding pool_or_done_def getThinPoolLv_def by (intro emits_intros)

lemma emits_getThinPoolLv [emits_intros]:
  "(\<And>E. P E (PoolCall (ApiGet n))) \<Longrightarrow> emits P (getThinPoolLv n)"
  unfolding getThinPoolLv_def by (intro emits_intros)

lemma emits_createThinLv [emits_intros]:
  "(\<And>E q. P E (PoolCall (ApiUpdate q))) \<Longrightarrow> emits P (createThinLv old p name binding sizeBytes contents)"
  unfolding createThinLv_def by (rule emits_PoolUpdates)

lemma Linear_keeps: "emits keeps_data (Linear_CreateBlob vg name binding sizeBytes)"
  unfolding Linear_CreateBlob_def by (intro emits_intros keeps_data_simps)

lemma Thin_CreateBlob_keeps: "emits keeps_data (Thin_CreateBlob vg name binding sizeBytes owner)"
  unfolding Thin_CreateBlob_def createThinPoolLv_def
  by (intro emits_intros emits_PoolUpdates keeps_data_simps)

lemma Thin_SnapshotBlob_keeps: "emits keeps_data (Thin_SnapshotBlob pool name binding src owner)"
  unfolding Thin_SnapshotBlob_def by (intro emits_intros emits_PoolUpdates keeps_data_simps)

lemma Thin_ActivateSource_keeps: "emits keeps_data (Thin_ActivateBlobForCloneSource pool name owner)"
  unfolding Thin_ActivateBlobForCloneSource_def
  by (intro emits_intros emits_PoolUpdates keeps_data_simps)

lemma Thin_ActivateTarget_keeps: "emits keeps_data (Thin_ActivateBlobForCloneTarget pool name src)"
proof (cases src)
  case None
  then show ?thesis by (simp add: Thin_ActivateBlobForCloneTarget_def emits_intros)
next
  case (Some m)
  then show ?thesis
    by (cases m) (auto simp: Thin_ActivateBlobForCloneTarget_def Let_def
        intro!: emits_intros emits_PoolUpdates)
qed

lemma Thin_Deactivate_keeps: "emits keeps_data (Thin_Deactivate pool name)"
  unfolding Thin_Deactivate_def by (intro emits_intros emits_PoolUpdates keeps_data_simps)

lemma Thin_RemoveBlob_frame: "emits (\<lambda>E. is_blob_call) (Thin_RemoveBlob pool name owner)"
  unfolding Thin_RemoveBlob_def requestThinLvRemoval_def forgetRemovedThinLv_def
  by (intro emits_intros emits_PoolUpdates) simp_all

lemma LvmSize_keeps: "emits keeps_data (LvmSize vg name)"
  by (intro emits_intros keeps_data_simps)

lemma Thin_GetSize_keeps: "emits keeps_data (Thin_GetSize pool name)"
  unfolding Thin_GetSize_def by (intro emits_intros keeps_data_simps)

interpretation linear_blobs: blob_manager
    "\<lambda>vg name binding sizeBytes owner. CreateBlob (LinearBlobManager vg) name binding sizeBytes owner"
    "\<lambda>vg. RemoveBlob (LinearBlobManager vg)" "\<lambda>vg. SnapshotBlob (LinearBlobManager vg)"
    "\<lambda>vg. ActivateBlobForCloneSource (LinearBlobManager vg)"
    "\<lambda>vg. ActivateBlobForCloneTarget (LinearBlobManager vg)"
    "\<lambda>vg. DeactivateBlobForCloneSource (LinearBlobManager vg)"
    "\<lambda>vg. DeactivateBlobForCloneTarget (LinearBlobManager vg)"
    "\<lambda>vg. Blob_GetSize (LinearBlobManager vg)"
    "\<lambda>vg. ExpansionMustBeOffline (LinearBlobManager vg)"
    "\<lambda>vg. SizeNeedsCheck (LinearBlobManager vg)"
  by unfold_locales
    (auto simp: Linear_keeps LvmSize_keeps Linear_RemoveBlob_def intro!: emits_intros)

interpretation thin_blobs: blob_manager
    "\<lambda>(vg, pool). CreateBlob (ThinBlobManager vg pool)"
    "\<lambda>(vg, pool). RemoveBlob (ThinBlobManager vg pool)"
    "\<lambda>(vg, pool). SnapshotBlob (ThinBlobManager vg pool)"
    "\<lambda>(vg, pool). ActivateBlobForCloneSource (ThinBlobManager vg pool)"
    "\<lambda>(vg, pool). ActivateBlobForCloneTarget (ThinBlobManager vg pool)"
    "\<lambda>(vg, pool). DeactivateBlobForCloneSource (ThinBlobManager vg pool)"
    "\<lambda>(vg, pool). DeactivateBlobForCloneTarget (ThinBlobManager vg pool)"
    "\<lambda>(vg, pool). Blob_GetSize (ThinBlobManager vg pool)"
    "\<lambda>(vg, pool). ExpansionMustBeOffline (ThinBlobManager vg pool)"
    "\<lambda>(vg, pool). SizeNeedsCheck (ThinBlobManager vg pool)"
  by unfold_locales
    (auto simp: Thin_CreateBlob_keeps Thin_SnapshotBlob_keeps Thin_ActivateSource_keeps
      Thin_ActivateTarget_keeps Thin_Deactivate_keeps Thin_RemoveBlob_frame Thin_GetSize_keeps)

text \<open>The dispatching methods keep the contract because both implementations do.\<close>

interpretation bm: blob_manager CreateBlob RemoveBlob SnapshotBlob ActivateBlobForCloneSource
    ActivateBlobForCloneTarget DeactivateBlobForCloneSource DeactivateBlobForCloneTarget
    Blob_GetSize ExpansionMustBeOffline SizeNeedsCheck
proof unfold_locales
  fix m :: BlobManager and name binding src owner sizeBytes data_src and staged :: bool
  show "emits keeps_data (CreateBlob m name binding sizeBytes owner)"
    by (cases m) (use linear_blobs.create_keeps thin_blobs.create_keeps in auto)
  show "emits keeps_data (SnapshotBlob m name binding src owner)"
    by (cases m) (use linear_blobs.snapshot_keeps thin_blobs.snapshot_keeps in auto)
  show "emits keeps_data (ActivateBlobForCloneSource m name owner)"
    by (cases m) (use linear_blobs.act_source_keeps thin_blobs.act_source_keeps in auto)
  show "emits keeps_data (ActivateBlobForCloneTarget m name data_src)"
    by (cases m) (use linear_blobs.act_target_keeps thin_blobs.act_target_keeps in auto)
  show "emits keeps_data (DeactivateBlobForCloneSource m name owner)"
    by (cases m) (use linear_blobs.deact_source_keeps thin_blobs.deact_source_keeps in auto)
  show "emits keeps_data (DeactivateBlobForCloneTarget m name)"
    by (cases m) (use linear_blobs.deact_target_keeps thin_blobs.deact_target_keeps in auto)
  show "emits keeps_data (Blob_GetSize m name)"
    by (cases m) (use linear_blobs.get_size_keeps thin_blobs.get_size_keeps in auto)
  show "emits (\<lambda>E. is_blob_call) (RemoveBlob m name owner)"
    by (cases m) (use linear_blobs.remove_frame thin_blobs.remove_frame in auto)
  show "ExpansionMustBeOffline m \<Longrightarrow> SizeNeedsCheck m staged" by (cases m) auto
  show "SizeNeedsCheck m False" by (cases m) auto
qed

section \<open>Adding a thin LV to a pool\<close>

lemma Spec_FindThinLv_append:
  "Spec_FindThinLv (sp\<lparr>ps_ThinLvs := ps_ThinLvs sp @ [l]\<rparr>) m =
    (case Spec_FindThinLv sp m of Some l' \<Rightarrow> Some l' | None \<Rightarrow> if ls_Name l = m then Some l else None)"
  by (auto simp: Spec_FindThinLv_def find_thin_spec_append split: option.split)

lemma add_thin_lv_frame [simp]:
  "p_Meta (add_thin_lv p n b s c) = p_Meta p" "p_Status (add_thin_lv p n b s c) = p_Status p"
  "ps_ActiveOnNode (p_Spec (add_thin_lv p n b s c)) = ps_ActiveOnNode (p_Spec p)"
  "ps_VgName (p_Spec (add_thin_lv p n b s c)) = ps_VgName (p_Spec p)"
  by (auto simp: add_thin_lv_def Let_def)

text \<open>The LV of the name is there afterwards, with the size asked for unless the LV has at
  least that size already; its state, contents and binding change only when it is new.\<close>

lemma add_thin_lv_find:
  "Spec_FindThinLv (p_Spec (add_thin_lv p n b s c)) n =
    Some (case Spec_FindThinLv (p_Spec p) n of
       None \<Rightarrow> \<lparr>ls_Name = n, ls_Binding = b, ls_Contents = c,
                ls_ReadOnly = (tc_ContentsType c = ThinLvContentsTypeSnapshot),
                ls_SizeBytes = s, ls_State = SpecInactive\<rparr>
     | Some l \<Rightarrow> if (case Status_FindThinLv (p_Status p) n of None \<Rightarrow> True | Some st \<Rightarrow> s > lst_SizeBytes st)
                 then l\<lparr>ls_SizeBytes := s\<rparr> else l)"
  by (auto simp: add_thin_lv_def Let_def Spec_FindThinLv_modify Spec_FindThinLv_append
      split: option.splits)

lemma add_thin_lv_other:
  "m \<noteq> n \<Longrightarrow> Spec_FindThinLv (p_Spec (add_thin_lv p n b s c)) m = Spec_FindThinLv (p_Spec p) m"
  by (auto simp: add_thin_lv_def Let_def Spec_FindThinLv_modify Spec_FindThinLv_append
      split: option.splits)

lemma add_thin_lv_distinct:
  assumes "distinct (map ls_Name (ps_ThinLvs (p_Spec p)))"
  shows "distinct (map ls_Name (ps_ThinLvs (p_Spec (add_thin_lv p n b s c))))"
proof -
  have "map ls_Name (update_first P (\<lambda>l. l\<lparr>ls_SizeBytes := s\<rparr>) ls) = map ls_Name ls" for P and ls :: "ThinLvSpec list"
    by (rule map_update_first) simp
  with assms show ?thesis
    by (auto simp: add_thin_lv_def Let_def modify_thin_spec_def Spec_FindThinLv_def
        find_thin_spec_None split: option.splits)
qed

section \<open>What a manager has seen when it succeeds\<close>

text \<open>The pool was returned by the API server at some point of the trace.\<close>

definition seen_pool :: "env \<Rightarrow> call list \<Rightarrow> ThinPoolLv \<Rightarrow> bool" where
  "seen_pool E h p \<longleftrightarrow>
     (\<exists>h'. prefix h' h \<and>
        ((\<exists>n. cl_Get (pools E) h' n = Inr p) \<or> (\<exists>q. cl_Create (pools E) h' q = Inr p) \<or>
         (\<exists>q. cl_Update (pools E) h' q = Inr p)))"

lemma seen_pool_append: "seen_pool E h p \<Longrightarrow> seen_pool E (h @ cs) p"
  unfolding seen_pool_def by (meson prefix_append prefix_order.trans)

lemma getThinPoolLv_Inr:
  "getThinPoolLv n E w = (Inr p, w2) \<longleftrightarrow>
    cl_Get (pools E) (trace w) n = Inr p \<and> w2 = after w (PoolCall (ApiGet n))"
  by (auto simp: getThinPoolLv_def api_get_def invoke_iff after_def)

lemma getThinPoolLv_seen: "getThinPoolLv n E w = (Inr p, w2) \<Longrightarrow> seen_pool E (trace w2) p"
  by (auto simp: getThinPoolLv_Inr seen_pool_def)

lemma api_seen:
  "cl_Get (pools E) (trace w) n = Inr p \<Longrightarrow> seen_pool E (trace w @ cs) p"
  "cl_Create (pools E) (trace w) q = Inr p \<Longrightarrow> seen_pool E (trace w @ cs) p"
  "cl_Update (pools E) (trace w) q = Inr p \<Longrightarrow> seen_pool E (trace w @ cs) p"
  unfolding seen_pool_def by (meson prefixI)+

lemma createThinPoolLv_seen:
  "createThinPoolLv vg n s owner E w = (Inr p, w2) \<Longrightarrow> seen_pool E (trace w2) p"
  by (auto simp: createThinPoolLv_def io_run Let_def api_create_def invoke_iff intro: api_seen
      getThinPoolLv_seen)

lemma UpdateThinPoolLv_seen:
  assumes "UpdateThinPoolLv (Some p0) p E w = (Inr (old, p'), w2)" and "seen_pool E (trace w) p0"
  shows "old = Some p' \<and> seen_pool E (trace w2) p'"
proof -
  from assms(1) obtain q where q: "if Some p0 = Some q then old = Some p0 \<and> p' = q \<and> w2 = w
      else cl_Update (pools E) (trace w) q = Inr p' \<and> old = map_option (\<lambda>x. p') (Some p0) \<and>
           w2 = after w (PoolCall (ApiUpdate q))"
    unfolding UpdateThinPoolLv_Inr by blast
  show ?thesis
  proof (cases "p0 = q")
    case True
    with q assms(2) show ?thesis by simp
  next
    case False
    with q have "cl_Update (pools E) (trace w) q = Inr p'" and "old = Some p'"
      and "trace w2 = trace w @ [PoolCall (ApiUpdate q)]" by simp_all
    then show ?thesis by (simp add: api_seen)
  qed
qed

lemma UpdateThinPoolLv_None_seen:
  "UpdateThinPoolLv None p E w = (Inr (old, p'), w2) \<Longrightarrow> seen_pool E (trace w2) p'"
  by (auto simp: UpdateThinPoolLv_Inr api_seen)

lemma UpdateThinPoolLv_trace:
  "UpdateThinPoolLv o1 p E w = (Inr r, w2) \<Longrightarrow> \<exists>cs. trace w2 = trace w @ cs"
  by (cases r) (auto simp: UpdateThinPoolLv_Inr split: if_splits)

lemma Thin_CreateBlob_seen:
  assumes "Thin_CreateBlob vg name binding sizeBytes owner E w = (Inr (), w2)"
  shows "\<exists>p status. seen_pool E (trace w2) p \<and>
    Status_FindThinLv (p_Status p) (VolumeToThinLvName name) = Some status \<and>
    sizeBytes \<le> lst_SizeBytes status"
proof -
  from assms obtain p0 w1 old p w3 r where
      1: "createThinPoolLv vg name sizeBytes owner E w = (Inr p0, w1)"
    and 2: "UpdateThinPoolLv (Some p0) (add_thin_lv p0 (VolumeToThinLvName name) binding sizeBytes
          \<lparr>tc_ContentsType = ThinLvContentsTypeEmpty, tc_Snapshot = None\<rparr>) E w1 = (Inr (old, p), w3)"
    and 3: "checkThinLvExists p (VolumeToThinLvName name) sizeBytes"
    and 4: "UpdateThinPoolLv old p E w3 = (Inr r, w2)"
    by (auto simp: Thin_CreateBlob_def createThinLv_def io_run Let_def)
  from UpdateThinPoolLv_seen [OF 2 createThinPoolLv_seen [OF 1]] UpdateThinPoolLv_trace [OF 4]
  have "seen_pool E (trace w2) p" by (auto intro: seen_pool_append)
  with 3 show ?thesis by (auto simp: checkThinLvExists_def split: option.splits)
qed

lemma Thin_RemoveBlob_seen:
  assumes "Thin_RemoveBlob pool name owner E w = (Inr (), w2)"
  shows "cl_Get (pools E) (trace w) pool = Inl ErrNotFound \<or>
    (\<exists>p. seen_pool E (trace w2) p \<and> Status_FindThinLv (p_Status p) (VolumeToThinLvName name) = None)"
proof -
  let ?n = "VolumeToThinLvName name"
  from assms consider "cl_Get (pools E) (trace w) pool = Inl ErrNotFound"
    | p0 w1 old p1 w3 p2 w4 where "getThinPoolLv pool E w = (Inr p0, w1)"
      "requestThinLvRemoval (Some p0) p0 ?n E w1 = (Inr (old, p1), w3)"
      "forgetRemovedThinLv p1 ?n E w3 = (Inr p2, w4)"
      "Status_FindThinLv (p_Status p2) ?n = None" "\<exists>cs. trace w2 = trace w4 @ cs"
    by (auto simp: Thin_RemoveBlob_def pool_or_done_def io_run Let_def api_delete_def invoke_iff
        getThinPoolLv_def api_get_def dest: UpdateThinPoolLv_trace)
  then show ?thesis
  proof cases
    case 1
    then show ?thesis by simp
  next
    case 2
    note s0 = getThinPoolLv_seen [OF 2(1)]
    from 2(2) consider "p1 = p0 \<and> w3 = w1"
      | q where "UpdateThinPoolLv (Some p0) q E w1 = (Inr (old, p1), w3)"
      by (auto simp: requestThinLvRemoval_def io_run)
    then have s1: "seen_pool E (trace w3) p1"
      using s0 UpdateThinPoolLv_seen by cases blast+
    from 2(3) consider "p2 = p1 \<and> w4 = w3"
      | q old2 where "UpdateThinPoolLv None q E w3 = (Inr (old2, p2), w4)"
      by (auto simp: forgetRemovedThinLv_def io_run)
    then have "seen_pool E (trace w4) p2"
      using s1 by cases (simp_all add: UpdateThinPoolLv_None_seen)
    with 2(5) have "seen_pool E (trace w2) p2" by (auto intro: seen_pool_append)
    with 2(4) show ?thesis by blast
  qed
qed

text \<open>A pool object is deleted only when no thin LV is requested in it any more.\<close>

lemma Thin_RemoveBlob_delete:
  "emits (\<lambda>E c. \<forall>q pr. c = PoolCall (ApiDelete q pr) \<longrightarrow>
      ps_ThinLvs (p_Spec q) = [] \<and> om_DeletionTimestamp (p_Meta q) = None)
    (Thin_RemoveBlob pool name owner)"
  unfolding Thin_RemoveBlob_def requestThinLvRemoval_def forgetRemovedThinLv_def
  by (intro emits_intros emits_PoolUpdates) simp_all

end
