(* ===== verification/Thin_Lifecycle.thy ===== *)
theory Thin_Lifecycle
  imports Node_Pool_Settled Blobs
begin

text \<open>
  How a thin LV goes away: the blob manager of the cluster marks it Removed in the spec of its pool
  and waits, the node in charge of the pool removes it and drops it from the status, and the blob
  manager then forgets it.  The two sides share only the pool object; what one leaves in it is what
  the other needs to go on.
\<close>

section \<open>Writing the pool back\<close>

text \<open>An API server that accepts the updates of the pool, and keeps the status it has.\<close>

definition same_content :: "ThinPoolLv \<Rightarrow> ThinPoolLv \<Rightarrow> bool" where
  "same_content x q \<longleftrightarrow> p_Status q = p_Status x \<and> ps_ThinLvs (p_Spec q) = ps_ThinLvs (p_Spec x) \<and>
     om_DeletionTimestamp (p_Meta q) = om_DeletionTimestamp (p_Meta x)"

definition pool_updates_accepted :: "env \<Rightarrow> bool" where
  "pool_updates_accepted E \<longleftrightarrow>
     (\<forall>h x. \<exists>q. cl_Update (pools E) h x = Inr q \<and> same_content x q) \<and> (\<forall>h x. cl_Delete (pools E) h x = None)"

lemma UpdateThinPoolLv_accepted:
  assumes "pool_updates_accepted E" and "om_DeletionTimestamp (p_Meta p) = None"
  shows "\<exists>old' q w2. UpdateThinPoolLv old p E w = (Inr (old', q), w2) \<and> same_content p q"
proof -
  obtain needs where "thinPoolLvNeedsActivation p = Inr needs"
    using thinPoolLvNeedsActivation_alive [OF assms(2)] by blast
  then obtain x where x: "recalcActiveOnNode (LocalNodeName E) p = Inr x"
    and px: "same_content p x" by (auto simp: recalcActiveOnNode_Inr same_content_def)
  show ?thesis
  proof (cases "old = Some x")
    case True
    with x px show ?thesis by (auto simp: UpdateThinPoolLv_Inr)
  next
    case False
    from assms(1) obtain q where "cl_Update (pools E) (trace w) x = Inr q" "same_content x q"
      unfolding pool_updates_accepted_def by blast
    with x px False show ?thesis
      by (intro exI [of _ "map_option (\<lambda>_. q) old"] exI [of _ q]) (auto simp: UpdateThinPoolLv_Inr same_content_def)
  qed
qed

section \<open>Removal\<close>

text \<open>The LV is not listed any more, so nothing is waited for.\<close>

lemma bindE_done: "m E w = (Inr x, w2) \<Longrightarrow> bindE m k E w = k x E w2"
  by (simp add: bindE_def)

lemma Thin_RemoveBlob_finishes:
  assumes api: "pool_updates_accepted E" and got: "cl_Get (pools E) (trace w) poolName = Inr q"
    and alive: "om_DeletionTimestamp (p_Meta q) = None" and gone: "VolumeToThinLvName name \<notin> lv_names q"
  shows "\<exists>w2. Thin_RemoveBlob poolName name owner E w = (Inr (), w2)"
proof -
  let ?lv = "VolumeToThinLvName name"
  let ?w1 = "after w (PoolCall (ApiGet poolName))"
  have none: "Status_FindThinLv (p_Status q) ?lv = None" using gone by (simp add: Status_Find_names)
  have request: "\<exists>old q1 w2. requestThinLvRemoval (Some q) q ?lv E ?w1 = (Inr (old, q1), w2) \<and>
      p_Status q1 = p_Status q \<and> om_DeletionTimestamp (p_Meta q1) = None"
  proof (cases "Spec_FindThinLv (p_Spec q) ?lv")
    case None
    with alive show ?thesis by (auto simp: requestThinLvRemoval_def ret_def)
  next
    case (Some l)
    let ?x = "if ls_State l \<noteq> SpecRemoved then modify_thin_spec ?lv (set_thin_state SpecRemoved) q else q"
    have "p_Status ?x = p_Status q" "om_DeletionTimestamp (p_Meta ?x) = None"
      using alive by (simp_all add: modify_thin_spec_def)
    with UpdateThinPoolLv_accepted [OF api, of ?x "Some q" ?w1] Some show ?thesis
      by (auto simp: requestThinLvRemoval_def same_content_def)
  qed
  then obtain old q1 w2 where q1: "requestThinLvRemoval (Some q) q ?lv E ?w1 = (Inr (old, q1), w2)"
    "p_Status q1 = p_Status q" "om_DeletionTimestamp (p_Meta q1) = None" by blast
  have "\<exists>q2 w3. forgetRemovedThinLv q1 ?lv E w2 = (Inr q2, w3) \<and> p_Status q2 = p_Status q \<and>
      om_DeletionTimestamp (p_Meta q2) = None"
  proof (cases "find_index (\<lambda>l. ls_Name l = ?lv) (ps_ThinLvs (p_Spec q1))")
    case None
    with q1 show ?thesis by (auto simp: forgetRemovedThinLv_def ret_def)
  next
    case (Some i)
    let ?x = "q1\<lparr>p_Spec := (p_Spec q1)\<lparr>ps_ThinLvs := slices_Delete1 (ps_ThinLvs (p_Spec q1)) i\<rparr>\<rparr>"
    from UpdateThinPoolLv_accepted [OF api, of ?x None w2] q1(3)
    obtain old' q2 w3 where "UpdateThinPoolLv None ?x E w2 = (Inr (old', q2), w3)" "same_content ?x q2" by auto
    with Some q1 show ?thesis
      by (auto simp: forgetRemovedThinLv_def bindE_def ret_def same_content_def)
  qed
  then obtain q2 w3 where q2: "forgetRemovedThinLv q1 ?lv E w2 = (Inr q2, w3)" "p_Status q2 = p_Status q"
    "om_DeletionTimestamp (p_Meta q2) = None" by blast
  define q3 where "q3 = drop_owner owner q2"
  have alive3: "om_DeletionTimestamp (p_Meta q3) = None"
    using q2(3) by (auto simp: q3_def drop_owner_def RemoveOwnerReference_def Let_def split: option.split)
  let ?delete = "if ps_ThinLvs (p_Spec q3) = [] \<and> om_DeletionTimestamp (p_Meta q3) = None
      then attempt (api_delete pools PoolCall q3 None) else ret (Inr ())"
  have "\<exists>w4. ?delete E w3 = (Inr (Inr ()), w4)"
    using api by (simp add: attempt_def api_delete_def invoke_def ret_def pool_updates_accepted_def from_err_def)
  then obtain w4 where w4: "?delete E w3 = (Inr (Inr ()), w4)" by blast
  obtain old2 q4 w5 where w5: "UpdateThinPoolLv old q3 E w4 = (Inr (old2, q4), w5)"
    using UpdateThinPoolLv_accepted [OF api alive3, of old w4] by blast
  have "checkThinLvRemoved q1 ?lv" using q1(2) none by (simp add: checkThinLvRemoved_def)
  then have "Thin_RemoveBlob poolName name owner E w =
      bindE ?delete (\<lambda>deleted. case deleted of
        Inl err \<Rightarrow> returnErr (IgnoreNotFound (Some err))
      | Inr u \<Rightarrow> thenE (UpdateThinPoolLv old q3) (ret ())) E w3"
    unfolding Thin_RemoveBlob_def pool_or_done_def getThinPoolLv_def attempt_get got Let_def sum.case
    using q2 none by (simp only: bindE_done [where m = "requestThinLvRemoval (Some q) q ?lv" and E = E and w = ?w1, OF q1(1)]
        bindE_done [where m = "forgetRemovedThinLv q1 ?lv" and E = E and w = w2, OF q2(1)] q3_def [symmetric] prod.case
        not_True_eq_False if_False simp_thms)
  also have "\<dots> = (Inr (), w5)"
    unfolding bindE_done [where m = ?delete and E = E and w = w3, OF w4] thenE_def sum.case
      bindE_done [where m = "UpdateThinPoolLv old q3" and E = E and w = w4, OF w5] by (simp add: ret_def)
  finally show ?thesis by blast
qed

text \<open>The node and the cluster together: what the node leaves of a pool lets the removal finish.\<close>

lemma removal_handed_over:
  assumes "settled p q" and "lv_removed (p_Spec p) (VolumeToThinLvName name)"
  shows "VolumeToThinLvName name \<notin> lv_names q"
  using assms by (auto simp: settled_def lv_names_def)

end
