(* ===== verification/Cluster_Volume.thy ===== *)
theory Cluster_Volume
  imports Blobs
begin

text \<open>
  internal/manager/cluster/volume_controller.go: the cluster-wide life cycle of a volume.  The
  reconciler creates or expands the blob, sets up and tears down the copy from a data source,
  maintains the conditions, and removes the blob before it lets a deleted volume go.
\<close>

section \<open>Helpers\<close>

definition volume_get :: "string \<Rightarrow> Volume io" where
  "volume_get name = api_get volumes VolumeCall name"

definition volume_update :: "Volume \<Rightarrow> Volume io" where
  "volume_update volume = api_update volumes VolumeCall volume"

text \<open>The list of nodes is assigned in place by the node controller and the CSI services.\<close>

definition set_AttachToNodes :: "string list \<Rightarrow> Volume \<Rightarrow> Volume" where
  "set_AttachToNodes nodes v = v\<lparr>v_Spec := (v_Spec v)\<lparr>vs_AttachToNodes := nodes\<rparr>\<rparr>"

definition volume_statusUpdate :: "Volume \<Rightarrow> Volume io" where
  "volume_statusUpdate volume =
     api_update_status volumes VolumeCall
       (volume\<lparr>v_Status := (v_Status volume)\<lparr>vst_ObservedGeneration :=
          om_Generation (v_Meta volume)\<rparr>\<rparr>)"

text \<open>Setting one condition in the status, with the answer whether it changed.\<close>

definition set_volume_condition :: "nat \<Rightarrow> Condition \<Rightarrow> Volume \<Rightarrow> Volume \<times> bool" where
  "set_volume_condition now condition volume =
     (let (conditions, changed) = SetStatusCondition now (vst_Conditions (v_Status volume)) condition
      in (volume\<lparr>v_Status := (v_Status volume)\<lparr>vst_Conditions := conditions\<rparr>\<rparr>, changed))"

definition volume_is :: "Volume \<Rightarrow> condition_type \<Rightarrow> bool" where
  "volume_is volume t = IsStatusConditionTrue (vst_Conditions (v_Status volume)) t"

definition newBlobManager :: "Volume \<Rightarrow> goerr + BlobManager" where
  "newBlobManager volume =
     (case vs_Mode (v_Spec volume) of
        VolumeModeThin \<Rightarrow> Inr (ThinBlobManager (vs_VgName (v_Spec volume)) (om_Name (v_Meta volume)))
      | VolumeModeLinear \<Rightarrow> Inr (LinearBlobManager (vs_VgName (v_Spec volume)))
      | OtherVolumeMode s \<Rightarrow> Inl (BadRequest ''invalid volume mode''))"

definition cloneVolumeSnapshotName :: "string \<Rightarrow> string" where
  "cloneVolumeSnapshotName volumeName = ''clone-'' @ volumeName"

section \<open>Data sources\<close>

text \<open>The manager, the blob and the pool to clone from; no manager for an empty volume.\<close>

definition getDataSourceBlob :: "Volume \<Rightarrow> (BlobManager option \<times> string \<times> string) io" where
  "getDataSourceBlob volume =
     (case vc_ContentsType (vs_Contents (v_Spec volume)) of
        VolumeContentsTypeCloneVolume \<Rightarrow>
          (case vc_CloneVolume (vs_Contents (v_Spec volume)) of
             None \<Rightarrow> fail (Panic ''nil pointer dereference'')
           | Some name \<Rightarrow>
               bindE (volume_get name) (\<lambda>dataSrcVolume.
               bindE (liftE (newBlobManager dataSrcVolume)) (\<lambda>blobMgr.
                 ret (Some blobMgr, name, name))))
      | VolumeContentsTypeCloneSnapshot \<Rightarrow>
          (case vc_CloneSnapshot (vs_Contents (v_Spec volume)) of
             None \<Rightarrow> fail (Panic ''nil pointer dereference'')
           | Some name \<Rightarrow>
               bindE (api_get snapshots SnapshotCall name) (\<lambda>dataSrcSnapshot.
                 ret (Some (ThinBlobManager (ss_VgName (s_Spec dataSrcSnapshot))
                              (ss_SourceVolume (s_Spec dataSrcSnapshot))),
                      name, ss_SourceVolume (s_Spec dataSrcSnapshot))))
      | VolumeContentsTypeEmpty \<Rightarrow> ret (None, [], [])
      | OtherVolumeContents s \<Rightarrow> ret (None, [], []))"

definition labels_of :: "Volume \<Rightarrow> (string \<times> string) list" where
  "labels_of volume = (case om_Labels (v_Meta volume) of None \<Rightarrow> [] | Some labels \<Rightarrow> labels)"

definition set_labels :: "(string \<times> string) list \<Rightarrow> Volume \<Rightarrow> Volume" where
  "set_labels labels volume = volume\<lparr>v_Meta := (v_Meta volume)\<lparr>om_Labels := Some labels\<rparr>\<rparr>"

definition activateDataSource :: "BlobManager \<Rightarrow> Volume \<Rightarrow> Volume io" where
  "activateDataSource blobMgr volume =
     bindE (getDataSourceBlob volume) (\<lambda>(dataSrcBlobMgr, dataSrcBlobName, dataSrcPool).
     thenE (case dataSrcBlobMgr of
              None \<Rightarrow> ret ()
            | Some src \<Rightarrow>
                let tmpBlobName = cloneVolumeSnapshotName (om_Name (v_Meta volume))
                in thenE (SnapshotBlob src tmpBlobName [] dataSrcBlobName (volume_object volume))
                     (ActivateBlobForCloneSource src tmpBlobName (volume_object volume)))
     (bindE (ActivateBlobForCloneTarget blobMgr (om_Name (v_Meta volume)) dataSrcBlobMgr) (\<lambda>node.
        if node = [] then ret volume
        else
          let labels = labels_of volume
          in if map_of labels PopulationNodeLabel = None then
               let labels = AList.update PopulationNodeLabel node labels;
                   labels = (if dataSrcPool \<noteq> [] then AList.update CloneSourceLabel dataSrcPool labels
                             else labels)
               in volume_update (set_labels labels volume)
             else ret volume)))"

definition deactivateDataSource :: "BlobManager \<Rightarrow> Volume \<Rightarrow> Volume io" where
  "deactivateDataSource blobMgr volume =
     thenE (DeactivateBlobForCloneTarget blobMgr (om_Name (v_Meta volume)))
     (case om_Labels (v_Meta volume) of
        None \<Rightarrow> ret volume
      | Some labels \<Rightarrow>
          thenE (case map_of labels CloneSourceLabel of
                   None \<Rightarrow> ret ()
                 | Some pool \<Rightarrow>
                     let tmpBlobName = cloneVolumeSnapshotName (om_Name (v_Meta volume));
                         dataSrcBlobMgr = ThinBlobManager (vs_VgName (v_Spec volume)) pool
                     in thenE (DeactivateBlobForCloneSource dataSrcBlobMgr tmpBlobName
                                 (volume_object volume))
                          (RemoveBlob dataSrcBlobMgr tmpBlobName (volume_object volume)))
          (if map_of labels PopulationNodeLabel \<noteq> None then
             volume_update (set_labels
               (AList.delete CloneSourceLabel (AList.delete PopulationNodeLabel labels)) volume)
           else ret volume))"

section \<open>The reconciler\<close>

definition volume_reconcileDeleting :: "BlobManager \<Rightarrow> Volume \<Rightarrow> unit io" where
  "volume_reconcileDeleting blobMgr volume =
     (if length (vst_AttachedToNodes (v_Status volume)) > 0 then ret ()
      else
        bindE (deactivateDataSource blobMgr volume) (\<lambda>volume.
        thenE (RemoveBlob blobMgr (om_Name (v_Meta volume)) (volume_object volume))
        (let (metadata, removed) = RemoveFinalizer (v_Meta volume) Finalizer
         in if removed then thenE (volume_update (volume\<lparr>v_Meta := metadata\<rparr>)) (ret ())
            else ret ())))"

text \<open>The operator || stops at the first condition that changes.\<close>

definition set_first_changed :: "nat \<Rightarrow> Condition \<Rightarrow> Condition \<Rightarrow> Condition \<Rightarrow> Volume \<Rightarrow> Volume \<times> bool" where
  "set_first_changed now condition1 condition2 condition3 volume =
     (let (volume, changed1) = set_volume_condition now condition1 volume
      in if changed1 then (volume, True)
         else
           let (volume, changed2) = set_volume_condition now condition2 volume
           in if changed2 then (volume, True)
              else set_volume_condition now condition3 volume)"

definition resize_condition1 :: Condition where
  "resize_condition1 = new_condition DataSourceCompleted ConditionFalse ''Resizing''
     ''volume is unavailable while resizing''"

definition resize_condition2 :: Condition where
  "resize_condition2 = new_condition Available ConditionFalse ''Resizing''
     ''volume is unavailable while resizing''"

definition resize_condition3 :: Condition where
  "resize_condition3 = new_condition Abnormal ConditionTrue ''Resizing''
     ''volume unavailable during expansion''"

definition reconcilePrepareForResize :: "BlobManager \<Rightarrow> Volume \<Rightarrow> bool \<Rightarrow> Volume io" where
  "reconcilePrepareForResize blobMgr volume online =
     bindE timeNow (\<lambda>now.
     bindE (if vt_Filesystem (vs_Type (v_Spec volume)) \<noteq> None then
              ret (set_volume_condition now
                     (new_condition Abnormal ConditionTrue ''ResizeUnsupported''
                        ''filesystem resize not implemented yet'') volume)
            else if ExpansionMustBeOffline blobMgr then
              if online then fail (WatchPending ''waiting for volume to be offline'')
              else ret (set_first_changed now resize_condition1 resize_condition2 resize_condition3 volume)
            else ret (volume, False))
       (\<lambda>(volume, needsUpdate).
          if needsUpdate then volume_statusUpdate volume else ret volume))"

definition lv_created :: Condition where
  "lv_created = new_condition LvCreated ConditionTrue ''Created'' ''lvm logical volume created''"

definition population_completed :: Condition where
  "population_completed = new_condition DataSourceCompleted ConditionTrue ''Completed''
     ''population from data source completed''"

definition volume_ready :: "condition_type \<Rightarrow> ConditionStatus \<Rightarrow> Condition" where
  "volume_ready t status = new_condition t status ''Available'' ''volume ready for use''"

text \<open>Creating or expanding the blob, and the status that records it.\<close>

definition volume_ensure_blob :: "BlobManager \<Rightarrow> Volume \<Rightarrow> bool \<Rightarrow> Volume io" where
  "volume_ensure_blob blobMgr volume online =
     thenE (CreateBlob blobMgr (om_Name (v_Meta volume)) (vs_Binding (v_Spec volume))
              (vs_SizeBytes (v_Spec volume)) (volume_object volume))
     (let volume = volume\<lparr>v_Status := (v_Status volume)\<lparr>vst_Path :=
                      GetPath blobMgr (om_Name (v_Meta volume))\<rparr>\<rparr>
      in bindE (if SizeNeedsCheck blobMgr online then
                  bindE (Blob_GetSize blobMgr (om_Name (v_Meta volume))) (\<lambda>sizeBytes.
                    if sizeBytes > vst_SizeBytes (v_Status volume)
                    then ret (volume\<lparr>v_Status := (v_Status volume)\<lparr>vst_SizeBytes := sizeBytes\<rparr>\<rparr>, True)
                    else ret (volume, False))
                else ret (volume, False))
         (\<lambda>(volume, needsUpdate).
         bindE timeNow (\<lambda>now.
           let (volume, changed) = set_volume_condition now lv_created volume
           in if needsUpdate \<or> changed then volume_statusUpdate volume else ret volume)))"

definition volume_reconcileNotDeleting :: "BlobManager \<Rightarrow> Volume \<Rightarrow> unit io" where
  "volume_reconcileNotDeleting blobMgr volume =
     (let needsResize = (vst_SizeBytes (v_Status volume) > 0 \<and>
                         vs_SizeBytes (v_Spec volume) > vst_SizeBytes (v_Status volume));
          online = (length (vs_AttachToNodes (v_Spec volume)) +
                    length (vst_AttachedToNodes (v_Status volume)) > 0);
          (metadata, added) = AddFinalizer (v_Meta volume) Finalizer
      in bindE (if added then volume_update (volume\<lparr>v_Meta := metadata\<rparr>) else ret volume) (\<lambda>volume.
         bindE (if needsResize then reconcilePrepareForResize blobMgr volume online
                else ret volume) (\<lambda>volume.
         bindE (if \<not> volume_is volume LvCreated \<or> needsResize
                then volume_ensure_blob blobMgr volume online else ret volume) (\<lambda>volume.
         bindE (if \<not> volume_is volume DataSourceCompleted then
                  bindE (activateDataSource blobMgr volume) (\<lambda>volume.
                  bindE timeNow (\<lambda>now.
                    if vc_ContentsType (vs_Contents (v_Spec volume)) = VolumeContentsTypeEmpty \<and>
                       \<not> ExpansionMustBeOffline blobMgr
                    then ret (set_volume_condition now population_completed volume)
                    else ret (volume, False)))
                else ret (volume, False)) (\<lambda>(volume, needsUpdate).
         bindE (if \<not> volume_is volume Available \<and> volume_is volume DataSourceCompleted then
                  bindE (deactivateDataSource blobMgr volume) (\<lambda>volume.
                  bindE timeNow (\<lambda>now.
                    let (volume, c1) = set_volume_condition now (volume_ready Available ConditionTrue) volume;
                        (volume, c2) = set_volume_condition now (volume_ready Abnormal ConditionFalse) volume
                    in ret (volume, True)))
                else ret (volume, needsUpdate)) (\<lambda>(volume, needsUpdate).
           if needsUpdate then thenE (volume_statusUpdate volume) (ret ()) else ret ()))))))"

text \<open>The checks that the API server's validation leaves to the controller.\<close>

definition validate_contents :: "VolumeContents \<Rightarrow> goerr option" where
  "validate_contents contents =
     (case vc_ContentsType contents of
        VolumeContentsTypeEmpty \<Rightarrow>
          if CountNonNil [vc_CloneVolume contents \<noteq> None, vc_CloneSnapshot contents \<noteq> None] \<noteq> 0
          then Some (BadRequest ''invalid volume contents'') else None
      | VolumeContentsTypeCloneVolume \<Rightarrow>
          if vc_CloneVolume contents = None \<or> vc_CloneSnapshot contents \<noteq> None
          then Some (BadRequest ''invalid volume contents'') else None
      | VolumeContentsTypeCloneSnapshot \<Rightarrow>
          if vc_CloneSnapshot contents = None \<or> vc_CloneVolume contents \<noteq> None
          then Some (BadRequest ''invalid volume contents'') else None
      | OtherVolumeContents s \<Rightarrow> None)"

definition volume_Reconcile :: "string \<Rightarrow> unit io" where
  "volume_Reconcile name =
     bindE (attempt (volume_get name)) (\<lambda>got.
       case got of
         Inl err \<Rightarrow> returnErr (IgnoreNotFound (Some err))
       | Inr volume \<Rightarrow>
           bindE (liftE (newBlobManager volume)) (\<lambda>blobMgr.
             if om_DeletionTimestamp (v_Meta volume) \<noteq> None
             then volume_reconcileDeleting blobMgr volume
             else if CountNonNil [vt_Block (vs_Type (v_Spec volume)) \<noteq> None,
                                  vt_Filesystem (vs_Type (v_Spec volume)) \<noteq> None] \<noteq> 1
             then fail (BadRequest ''invalid volume type'')
             else
               thenE (returnErr (validate_contents (vs_Contents (v_Spec volume))))
               (bindE (attempt (volume_reconcileNotDeleting blobMgr volume)) (\<lambda>result.
                  case result of
                    Inl err \<Rightarrow> if is_WatchPending err then ret () else fail err
                  | Inr u \<Rightarrow> ret ()))))"

section \<open>Deletion\<close>

lemma emits_volume_ops [emits_intros]:
  "(\<And>E. P E (VolumeCall (ApiGet n))) \<Longrightarrow> emits P (volume_get n)"
  "(\<And>E. P E (VolumeCall (ApiUpdate v))) \<Longrightarrow> emits P (volume_update v)"
  "(\<And>E. P E (VolumeCall (ApiUpdateStatus (v\<lparr>v_Status := (v_Status v)\<lparr>vst_ObservedGeneration :=
      om_Generation (v_Meta v)\<rparr>\<rparr>)))) \<Longrightarrow> emits P (volume_statusUpdate v)"
  unfolding volume_get_def volume_update_def volume_statusUpdate_def by (intro emits_intros; simp)+

text \<open>Calls that keep the finalizer of the volume, if the volume had it.\<close>

definition guards_volume :: "call \<Rightarrow> bool" where
  "guards_volume c \<longleftrightarrow> (\<forall>v. c = VolumeCall (ApiUpdate v) \<longrightarrow> has_finalizer Finalizer (v_Meta v))"

lemma guards_volume_simps [simp]:
  "guards_volume (VolumeCall (ApiGet n))" "guards_volume (VolumeCall (ApiUpdateStatus v))"
  "guards_volume (VolumeCall (ApiUpdate v)) \<longleftrightarrow> has_finalizer Finalizer (v_Meta v)"
  "guards_volume (SnapshotCall s)"
  by (auto simp: guards_volume_def)

lemma blob_call_guards: "is_blob_call c \<Longrightarrow> guards_volume c"
  by (cases c) (auto simp: guards_volume_def)

lemma keeps_data_guards: "keeps_data E c \<Longrightarrow> guards_volume c"
  by (auto simp: keeps_data_def blob_call_guards)

lemmas guards_intros = emits_intros bm.emits_keeps [OF keeps_data_guards]
  bm.emits_remove [OF blob_call_guards]

lemma set_labels_frame [simp]:
  "has_finalizer f (v_Meta (set_labels labels v)) = has_finalizer f (v_Meta v)"
  "v_Spec (set_labels labels v) = v_Spec v" "v_Status (set_labels labels v) = v_Status v"
  "om_Name (v_Meta (set_labels labels v)) = om_Name (v_Meta v)"
  by (simp_all add: set_labels_def has_finalizer_def)

lemma deactivateDataSource_guards:
  assumes "has_finalizer Finalizer (v_Meta v)"
  shows "emits (\<lambda>E. guards_volume) (deactivateDataSource m v)"
  unfolding deactivateDataSource_def
  by (intro guards_intros) (simp_all add: assms)

lemma volume_reconcileDeleting_finalizer:
  assumes run: "volume_reconcileDeleting m v E w = (r, w2)"
    and fin: "has_finalizer Finalizer (v_Meta v)"
    and dropped: "c \<in> set (new_calls w w2)" "\<not> guards_volume c"
  shows "vst_AttachedToNodes (v_Status v) = [] \<and>
    (\<exists>v1 w1 w3. deactivateDataSource m v E w = (Inr v1, w1) \<and>
      RemoveBlob m (om_Name (v_Meta v1)) (volume_object v1) E w1 = (Inr (), w3))"
proof -
  have "\<not> length (vst_AttachedToNodes (v_Status v)) > 0"
  proof
    assume "length (vst_AttachedToNodes (v_Status v)) > 0"
    with run dropped show False by (simp add: volume_reconcileDeleting_def)
  qed
  then have att: "vst_AttachedToNodes (v_Status v) = []" by simp
  obtain r1 w1 where d: "deactivateDataSource m v E w = (r1, w1)"
    by (cases "deactivateDataSource m v E w")
  obtain cs where cs: "trace w1 = trace w @ cs" "\<forall>c\<in>set cs. guards_volume c"
    using deactivateDataSource_guards [OF fin, of m] d unfolding emits_def by (metis snd_conv)
  show ?thesis
  proof (cases r1)
    case (Inl e)
    with run d att have "w2 = w1" by (simp add: volume_reconcileDeleting_def bindE_def)
    with cs dropped show ?thesis by (auto simp: new_calls_def)
  next
    case (Inr v1)
    obtain r3 w3 where rm: "RemoveBlob m (om_Name (v_Meta v1)) (volume_object v1) E w1 = (r3, w3)"
      by (cases "RemoveBlob m (om_Name (v_Meta v1)) (volume_object v1) E w1")
    have "emits (\<lambda>E. guards_volume) (RemoveBlob m (om_Name (v_Meta v1)) (volume_object v1))"
      by (intro bm.emits_remove blob_call_guards)
    then obtain ds where ds: "trace w3 = trace w1 @ ds" "\<forall>c\<in>set ds. guards_volume c"
      using rm unfolding emits_def by (metis snd_conv)
    show ?thesis
    proof (cases r3)
      case (Inl e)
      with run d att Inr rm have "w2 = w3"
        by (simp add: volume_reconcileDeleting_def bindE_def thenE_def)
      with cs ds dropped show ?thesis by (auto simp: new_calls_def)
    next
      case (Inr u)
      with att d rm \<open>r1 = Inr v1\<close> show ?thesis by auto
    qed
  qed
qed

section \<open>Expansion\<close>

lemma set_volume_condition_is:
  "volume_is (fst (set_volume_condition now c v)) t \<longleftrightarrow>
    (if t = c_Type c then c_Status c = ConditionTrue else volume_is v t)"
  by (simp add: set_volume_condition_def volume_is_def split_beta conds.holds_put)

lemma set_volume_condition_changed:
  "volume_is v (c_Type c) \<noteq> (c_Status c = ConditionTrue) \<Longrightarrow> snd (set_volume_condition now c v)"
  by (simp add: set_volume_condition_def volume_is_def split_beta conds.put_changes_test)

lemma set_volume_condition_frame [simp]:
  "v_Meta (fst (set_volume_condition now c v)) = v_Meta v"
  "v_Spec (fst (set_volume_condition now c v)) = v_Spec v"
  "vst_SizeBytes (v_Status (fst (set_volume_condition now c v))) = vst_SizeBytes (v_Status v)"
  "vst_Path (v_Status (fst (set_volume_condition now c v))) = vst_Path (v_Status v)"
  by (simp_all add: set_volume_condition_def split_beta)

lemma set_volume_condition_unchanged:
  "\<not> snd (set_volume_condition now c v) \<Longrightarrow> fst (set_volume_condition now c v) = v"
  by (simp add: set_volume_condition_def split_beta conds.put_unchanged)

text \<open>Only one condition is changed, the first that differs.\<close>

lemma set_first_changed_eq:
  "set_first_changed now c1 c2 c3 v =
    (if snd (set_volume_condition now c1 v) then set_volume_condition now c1 v
     else if snd (set_volume_condition now c2 v) then set_volume_condition now c2 v
     else set_volume_condition now c3 v)"
  by (auto simp: set_first_changed_def split_beta set_volume_condition_unchanged)
    (metis prod.collapse)+

lemma resize_first_condition:
  assumes "volume_is v DataSourceCompleted"
  shows "set_first_changed now resize_condition1 resize_condition2 resize_condition3 v =
    set_volume_condition now resize_condition1 v"
proof -
  have "snd (set_volume_condition now resize_condition1 v)"
    by (rule set_volume_condition_changed) (simp add: resize_condition1_def assms)
  then show ?thesis by (simp add: set_first_changed_eq)
qed

definition observed_status :: "Volume \<Rightarrow> Volume" where
  "observed_status v =
     v\<lparr>v_Status := (v_Status v)\<lparr>vst_ObservedGeneration := om_Generation (v_Meta v)\<rparr>\<rparr>"

lemma observed_status_simps [simp]:
  "volume_is (observed_status v) t = volume_is v t"
  "vst_SizeBytes (v_Status (observed_status v)) = vst_SizeBytes (v_Status v)"
  "v_Meta (observed_status v) = v_Meta v" "v_Spec (observed_status v) = v_Spec v"
  by (simp_all add: observed_status_def volume_is_def)

lemma volume_statusUpdate_eq:
  "volume_statusUpdate v E w =
    (cl_UpdateStatus (volumes E) (trace w) (observed_status v),
     after w (VolumeCall (ApiUpdateStatus (observed_status v))))"
  by (simp add: volume_statusUpdate_def observed_status_def api_update_status_def invoke_def after_def)

lemma reconcilePrepareForResize_offline:
  assumes "vt_Filesystem (vs_Type (v_Spec v)) = None" and "ExpansionMustBeOffline m"
    and "volume_is v DataSourceCompleted"
  shows "reconcilePrepareForResize m v False E w =
    volume_statusUpdate (fst (set_volume_condition (env_now E (trace w)) resize_condition1 v)) E w"
proof -
  have "snd (set_volume_condition (env_now E (trace w)) resize_condition1 v)"
    by (rule set_volume_condition_changed) (simp add: resize_condition1_def assms)
  with assms show ?thesis
    by (simp add: reconcilePrepareForResize_def resize_first_condition split_beta)
qed

section \<open>A volume that is not being deleted\<close>

definition is_lvremove :: "call \<Rightarrow> bool" where
  "is_lvremove c \<longleftrightarrow> (\<exists>args. c = lvm_call (''lvremove'' # args))"

lemma is_lvremove_simps [simp]:
  "\<not> is_lvremove (PoolCall x)" "\<not> is_lvremove (VolumeCall v)" "\<not> is_lvremove (SnapshotCall s)"
  "is_lvremove (lvm_call (''lvremove'' # args))"
  by (auto simp: is_lvremove_def)

lemma keeps_data_no_lvremove: "keeps_data E c \<Longrightarrow> \<not> is_lvremove c"
  by (auto simp: keeps_data_def destroys_def is_lvremove_def)

text \<open>A thin manager never runs lvremove: it asks the node that has the pool.\<close>

lemma Thin_RemoveBlob_no_lvremove:
  "emits (\<lambda>E c. \<not> is_lvremove c) (RemoveBlob (ThinBlobManager vg pool) name owner)"
  unfolding RemoveBlob.simps Thin_RemoveBlob_def requestThinLvRemoval_def forgetRemovedThinLv_def
  by (intro emits_intros emits_PoolUpdates) simp_all

lemmas no_lvremove_intros = emits_intros bm.emits_keeps [OF keeps_data_no_lvremove]
  Thin_RemoveBlob_no_lvremove

lemma deactivateDataSource_no_lvremove:
  "emits (\<lambda>E c. \<not> is_lvremove c) (deactivateDataSource m v)"
  unfolding deactivateDataSource_def Let_def by (intro no_lvremove_intros) simp_all

lemma emits_getDataSourceBlob:
  assumes "\<And>E n. P E (VolumeCall (ApiGet n))" "\<And>E n. P E (SnapshotCall (ApiGet n))"
  shows "emits P (getDataSourceBlob v)"
  using assms by (auto simp: getDataSourceBlob_def split: VolumeContentsType.split
      intro!: emits_intros)

lemma activateDataSource_no_lvremove: "emits (\<lambda>E c. \<not> is_lvremove c) (activateDataSource m v)"
  unfolding activateDataSource_def
  by (intro no_lvremove_intros emits_getDataSourceBlob) simp_all

lemma volume_ensure_blob_no_lvremove: "emits (\<lambda>E c. \<not> is_lvremove c) (volume_ensure_blob m v online)"
  unfolding volume_ensure_blob_def by (intro no_lvremove_intros) simp_all

lemma reconcilePrepareForResize_no_lvremove:
  "emits (\<lambda>E c. \<not> is_lvremove c) (reconcilePrepareForResize m v online)"
  unfolding reconcilePrepareForResize_def by (intro no_lvremove_intros) simp_all

lemma volume_reconcileNotDeleting_no_lvremove:
  "emits (\<lambda>E c. \<not> is_lvremove c) (volume_reconcileNotDeleting m v)"
  unfolding volume_reconcileNotDeleting_def
  by (intro no_lvremove_intros deactivateDataSource_no_lvremove activateDataSource_no_lvremove
      volume_ensure_blob_no_lvremove reconcilePrepareForResize_no_lvremove) simp_all

text \<open>The recorded size never shrinks.\<close>

lemma volume_ensure_blob_size:
  "emits (\<lambda>E c. \<forall>v'. c = VolumeCall (ApiUpdateStatus v') \<longrightarrow>
      vst_SizeBytes (v_Status v) \<le> vst_SizeBytes (v_Status v') \<and> volume_is v' LvCreated)
    (volume_ensure_blob m v online)"
proof -
  define P where "P = (\<lambda>(E :: env) c. \<forall>v'. c = VolumeCall (ApiUpdateStatus v') \<longrightarrow>
      vst_SizeBytes (v_Status v) \<le> vst_SizeBytes (v_Status v') \<and> volume_is v' LvCreated)"
  define record_status where "record_status = (\<lambda>(v1, b). bindE timeNow (\<lambda>now.
      let (v1, changed) = set_volume_condition now lv_created v1
      in if b \<or> changed then volume_statusUpdate v1 else ret v1))"
  have step: "emits P (record_status (v0, b))"
    if "vst_SizeBytes (v_Status v) \<le> vst_SizeBytes (v_Status v0)" for v0 b
  proof -
    have "vst_SizeBytes (v_Status v1) = vst_SizeBytes (v_Status v0) \<and> volume_is v1 LvCreated"
      if "(v1, changed) = set_volume_condition now lv_created v0" for v1 changed now
      using arg_cong [OF that, of fst] set_volume_condition_is [of now lv_created v0 LvCreated]
      by (simp add: lv_created_def)
    with that show ?thesis
      unfolding record_status_def prod.case
      by (intro emits_intros) (auto simp: P_def simp flip: observed_status_def)
  qed
  have blob: "is_blob_call c \<Longrightarrow> P E c" for E c by (cases c) (auto simp: P_def)
  have keeps: "keeps_data E c \<Longrightarrow> P E c" for E c by (auto simp: keeps_data_def blob)
  have size: "emits P (bindE (if SizeNeedsCheck m online then bindE (Blob_GetSize m n) (\<lambda>sizeBytes.
       if sizeBytes > vst_SizeBytes (v_Status v0)
       then ret (v0\<lparr>v_Status := (v_Status v0)\<lparr>vst_SizeBytes := sizeBytes\<rparr>\<rparr>, True)
       else ret (v0, False)) else ret (v0, False)) record_status)"
    if "vst_SizeBytes (v_Status v0) = vst_SizeBytes (v_Status v)" for n v0
    using that by (auto simp: bindE_assoc intro!: emits_bindE [OF bm.emits_keeps(7)] keeps step)
  have "emits P (volume_ensure_blob m v online)"
    unfolding volume_ensure_blob_def Let_def
    by (intro emits_thenE bm.emits_keeps keeps)
      (assumption, rule size [unfolded record_status_def Let_def], simp)
  then show ?thesis by (simp add: P_def)
qed

text \<open>A settled volume needs nothing: the reconciler leaves it alone.\<close>

definition volume_settled :: "Volume \<Rightarrow> bool" where
  "volume_settled v \<longleftrightarrow> has_finalizer Finalizer (v_Meta v) \<and> volume_is v LvCreated \<and>
     volume_is v DataSourceCompleted \<and> volume_is v Available \<and>
     \<not> (0 < vst_SizeBytes (v_Status v) \<and> vst_SizeBytes (v_Status v) < vs_SizeBytes (v_Spec v))"

lemma settled_metadata:
  "has_finalizer f (v_Meta v) \<Longrightarrow> AddFinalizer (v_Meta v) f = (v_Meta v, False)"
  by (rule AddFinalizer_unchanged)

lemma volume_settled_idle:
  "volume_settled v \<Longrightarrow> volume_reconcileNotDeleting m v E w = (Inr (), w)"
  unfolding volume_settled_def volume_reconcileNotDeleting_def
  by (auto simp: settled_metadata)

text \<open>Once the data source is complete, the volume is reported available and no longer
  abnormal, after the temporary copies are gone.\<close>

lemma volume_becomes_available:
  assumes "has_finalizer Finalizer (v_Meta v)" and "volume_is v LvCreated"
    and "volume_is v DataSourceCompleted" and "\<not> volume_is v Available"
    and "\<not> (0 < vst_SizeBytes (v_Status v) \<and> vst_SizeBytes (v_Status v) < vs_SizeBytes (v_Spec v))"
    and "deactivateDataSource m v E w = (Inr v1, w1)"
  shows "\<exists>v2. volume_is v2 Available \<and> \<not> volume_is v2 Abnormal \<and> v_Spec v2 = v_Spec v1 \<and>
    volume_reconcileNotDeleting m v E w =
      (map_sum id (\<lambda>x. ()) (cl_UpdateStatus (volumes E) (trace w1) v2),
       after w1 (VolumeCall (ApiUpdateStatus v2)))"
proof -
  define v2 where "v2 = fst (set_volume_condition (env_now E (trace w1)) (volume_ready Abnormal ConditionFalse)
    (fst (set_volume_condition (env_now E (trace w1)) (volume_ready Available ConditionTrue) v1)))"
  have "volume_reconcileNotDeleting m v E w = thenE (volume_statusUpdate v2) (ret ()) E w1"
    using assms unfolding volume_reconcileNotDeleting_def v2_def
    by (auto simp: settled_metadata bindE_assoc split_beta Let_def bindE_def [of "deactivateDataSource m v"])
  moreover have "volume_is (observed_status v2) Available" "\<not> volume_is (observed_status v2) Abnormal"
    "v_Spec (observed_status v2) = v_Spec v1"
    by (simp_all add: v2_def set_volume_condition_is volume_ready_def)
  ultimately show ?thesis
    by (intro exI [of _ "observed_status v2"])
      (auto simp: thenE_def bindE_def volume_statusUpdate_eq ret_def split: sum.split)
qed

section \<open>The whole reconciler\<close>

text \<open>A malformed volume is only read; a pending watch is no error.\<close>

definition volume_valid :: "Volume \<Rightarrow> bool" where
  "volume_valid v \<longleftrightarrow>
     ((vt_Block (vs_Type (v_Spec v)) = None) \<noteq> (vt_Filesystem (vs_Type (v_Spec v)) = None)) \<and>
     validate_contents (vs_Contents (v_Spec v)) = None"

lemma volume_Reconcile_invalid:
  assumes "cl_Get (volumes E) (trace w) name = Inr v" and "om_DeletionTimestamp (v_Meta v) = None"
    and "\<not> volume_valid v"
  shows "\<exists>msg. volume_Reconcile name E w =
    (Inl (BadRequest msg), after w (VolumeCall (ApiGet name)))"
proof -
  have count: "CountNonNil [a, b] = 1 \<longleftrightarrow> a \<noteq> b" for a b by auto
  have contents: "validate_contents c = Some e \<Longrightarrow> \<exists>msg. e = BadRequest msg" for c e
    by (auto simp: validate_contents_def split: VolumeContentsType.splits if_splits)
  let ?rest = "\<lambda>blobMgr. if CountNonNil [vt_Block (vs_Type (v_Spec v)) \<noteq> None,
        vt_Filesystem (vs_Type (v_Spec v)) \<noteq> None] \<noteq> 1
      then fail (BadRequest ''invalid volume type'')
      else thenE (returnErr (validate_contents (vs_Contents (v_Spec v))))
        (bindE (attempt (volume_reconcileNotDeleting blobMgr v)) (\<lambda>result. case result of
            Inl err \<Rightarrow> if is_WatchPending err then ret () else fail err | Inr u \<Rightarrow> ret ()))"
  have run: "volume_Reconcile name E w =
      bindE (liftE (newBlobManager v)) ?rest E (after w (VolumeCall (ApiGet name)))"
    using assms(1,2) by (simp add: volume_Reconcile_def volume_get_def api_get_def invoke_def
        attempt_def bindE_def after_def)
  show ?thesis
  proof (cases "newBlobManager v")
    case (Inl e)
    with run show ?thesis
      by (cases "vs_Mode (v_Spec v)") (auto simp: newBlobManager_def liftE_def fail_def)
  next
    case (Inr m)
    with run have "volume_Reconcile name E w = ?rest m E (after w (VolumeCall (ApiGet name)))"
      by (simp add: liftE_def)
    then show ?thesis
      using assms(3) contents unfolding volume_valid_def count
      by (cases "validate_contents (vs_Contents (v_Spec v))")
        (auto simp: fail_def returnErr_def thenE_def bindE_def)
  qed
qed

lemma volume_Reconcile_not_pending:
  assumes "volume_Reconcile name E w = (Inl (WatchPending why), w2)"
    and "cl_Get (volumes E) (trace w) name = Inr v"
  shows "om_DeletionTimestamp (v_Meta v) \<noteq> None"
proof
  assume "om_DeletionTimestamp (v_Meta v) = None"
  moreover have "validate_contents c \<noteq> Some (WatchPending why)" for c
    by (auto simp: validate_contents_def split: VolumeContentsType.splits if_splits)
  moreover have "newBlobManager v \<noteq> Inl (WatchPending why)"
    by (auto simp: newBlobManager_def split: VolumeMode.splits)
  ultimately show False using assms
    by (auto simp: volume_Reconcile_def volume_get_def api_get_def bindE_Inl_iff thenE_Inl_iff
        attempt_iff invoke_iff case_sum_run if_run liftE_run returnErr_run split: option.splits)
qed

text \<open>The reconciler runs lvremove only for a deleted linear volume that is nowhere attached.\<close>

lemma volume_Reconcile_lvremove:
  assumes run: "volume_Reconcile name E w = (r, w2)"
    and c: "c \<in> set (new_calls w w2)" "is_lvremove c"
  shows "\<exists>v. cl_Get (volumes E) (trace w) name = Inr v \<and> om_DeletionTimestamp (v_Meta v) \<noteq> None \<and>
    vst_AttachedToNodes (v_Status v) = [] \<and> vs_Mode (v_Spec v) = VolumeModeLinear"
proof -
  let ?w1 = "after w (VolumeCall (ApiGet name))"
  have safe: False if "emits (\<lambda>E c. \<not> is_lvremove c) m" and "m E ?w1 = (r, w2)" for m :: "unit io"
    using emits_run [OF that, of w "[VolumeCall (ApiGet name)]"] c by auto
  show ?thesis
  proof (cases "cl_Get (volumes E) (trace w) name")
    case (Inl e)
    with run safe [of "returnErr (IgnoreNotFound (Some e))"] show ?thesis
      by (simp add: volume_Reconcile_def volume_get_def attempt_get emits_intros)
  next
    case (Inr v)
    show ?thesis
    proof (cases "om_DeletionTimestamp (v_Meta v) \<noteq> None \<and> newBlobManager v \<noteq>
        Inr (ThinBlobManager (vs_VgName (v_Spec v)) (om_Name (v_Meta v))) \<and>
        vst_AttachedToNodes (v_Status v) = [] \<and> vs_Mode (v_Spec v) = VolumeModeLinear")
      case True
      with Inr show ?thesis by auto
    next
      case False
      have del: "emits (\<lambda>E c. \<not> is_lvremove c) (volume_reconcileDeleting m v)"
        if "newBlobManager v = Inr m" and "om_DeletionTimestamp (v_Meta v) \<noteq> None" for m
      proof (cases "vst_AttachedToNodes (v_Status v) = []")
        case True
        with False that have "vs_Mode (v_Spec v) = VolumeModeThin"
          by (auto simp: newBlobManager_def split: VolumeMode.splits)
        with that have m: "m = ThinBlobManager (vs_VgName (v_Spec v)) (om_Name (v_Meta v))"
          by (simp add: newBlobManager_def)
        show ?thesis
          unfolding volume_reconcileDeleting_def m
          by (intro no_lvremove_intros deactivateDataSource_no_lvremove) simp_all
      qed (simp add: volume_reconcileDeleting_def emits_intros)
      define rest :: "unit io" where "rest = (bindE (liftE (newBlobManager v)) (\<lambda>blobMgr.
             if om_DeletionTimestamp (v_Meta v) \<noteq> None then volume_reconcileDeleting blobMgr v
             else if CountNonNil [vt_Block (vs_Type (v_Spec v)) \<noteq> None,
                                  vt_Filesystem (vs_Type (v_Spec v)) \<noteq> None] \<noteq> 1
             then fail (BadRequest ''invalid volume type'')
             else thenE (returnErr (validate_contents (vs_Contents (v_Spec v))))
               (bindE (attempt (volume_reconcileNotDeleting blobMgr v)) (\<lambda>result.
                  case result of Inl err \<Rightarrow> if is_WatchPending err then ret () else fail err
                  | Inr u \<Rightarrow> ret ()))))"
      have "emits (\<lambda>E c. \<not> is_lvremove c) rest"
        unfolding rest_def
        by (intro emits_bind_liftE emits_if emits_intros del volume_reconcileNotDeleting_no_lvremove)
      moreover have "rest E ?w1 = (r, w2)"
        using run Inr by (simp add: volume_Reconcile_def volume_get_def attempt_get rest_def)
      ultimately show ?thesis using safe by blast
    qed
  qed
qed

end
