(* ===== verification/Cluster_Snapshot.thy ===== *)
theory Cluster_Snapshot
  imports Cluster_Volume
begin

text \<open>
  internal/manager/cluster/snapshot_controller.go: snapshots are thin LVs of the pool of
  their source volume.  The reconciler tests the deletion timestamp of the object it has read;
  no step of it changes that timestamp.
\<close>

definition snapshot_update :: "Snapshot \<Rightarrow> Snapshot io" where
  "snapshot_update snapshot = api_update snapshots SnapshotCall snapshot"

definition snapshot_statusUpdate :: "Snapshot \<Rightarrow> Snapshot io" where
  "snapshot_statusUpdate snapshot =
     api_update_status snapshots SnapshotCall
       (snapshot\<lparr>s_Status := (s_Status snapshot)\<lparr>sst_ObservedGeneration :=
          om_Generation (s_Meta snapshot)\<rparr>\<rparr>)"

definition snapshot_reconcileDeleting :: "BlobManager \<Rightarrow> Snapshot \<Rightarrow> unit io" where
  "snapshot_reconcileDeleting blobMgr snapshot =
     thenE (RemoveBlob blobMgr (om_Name (s_Meta snapshot)) (snapshot_object snapshot))
     (let (metadata, removed) = RemoveFinalizer (s_Meta snapshot) Finalizer
      in if removed then thenE (snapshot_update (snapshot\<lparr>s_Meta := metadata\<rparr>)) (ret ())
         else ret ())"

definition snapshot_created :: Condition where
  "snapshot_created = new_condition Available ConditionTrue ''Created'' ''lvm logical snapshot created''"

definition snapshot_reconcileNotDeleting :: "BlobManager \<Rightarrow> Snapshot \<Rightarrow> unit io" where
  "snapshot_reconcileNotDeleting blobMgr snapshot =
     (let (metadata, added) = AddFinalizer (s_Meta snapshot) Finalizer
      in bindE (if added then snapshot_update (snapshot\<lparr>s_Meta := metadata\<rparr>) else ret snapshot)
           (\<lambda>snapshot.
         if \<not> IsStatusConditionTrue (sst_Conditions (s_Status snapshot)) Available then
           bindE (volume_get (ss_SourceVolume (s_Spec snapshot))) (\<lambda>volume.
             if om_DeletionTimestamp (v_Meta volume) \<noteq> None then fail (BadRequest ''source not found'')
             else if \<not> volume_is volume Available
               then fail (WatchPending ''waiting for volume to become available'')
             else
               thenE (SnapshotBlob blobMgr (om_Name (s_Meta snapshot)) (ss_Binding (s_Spec snapshot))
                        (ss_SourceVolume (s_Spec snapshot)) (snapshot_object snapshot))
               (bindE timeNow (\<lambda>now.
                  let conditions = fst (SetStatusCondition now (sst_Conditions (s_Status snapshot))
                                          snapshot_created);
                      snapshot = snapshot\<lparr>s_Status := (s_Status snapshot)\<lparr>sst_Conditions := conditions\<rparr>\<rparr>
                  in bindE (Blob_GetSize blobMgr (om_Name (s_Meta snapshot))) (\<lambda>sizeBytes.
                     thenE (snapshot_statusUpdate
                              (snapshot\<lparr>s_Status := (s_Status snapshot)\<lparr>sst_SizeBytes := sizeBytes\<rparr>\<rparr>))
                       (ret ())))))
         else ret ()))"

definition snapshot_Reconcile :: "string \<Rightarrow> unit io" where
  "snapshot_Reconcile name =
     bindE (attempt (api_get snapshots SnapshotCall name)) (\<lambda>got.
       case got of
         Inl err \<Rightarrow> returnErr (IgnoreNotFound (Some err))
       | Inr snapshot \<Rightarrow>
           let vgName = [];
               blobMgr = ThinBlobManager vgName (ss_SourceVolume (s_Spec snapshot))
           in bindE (attempt (if om_DeletionTimestamp (s_Meta snapshot) \<noteq> None
                              then snapshot_reconcileDeleting blobMgr snapshot
                              else snapshot_reconcileNotDeleting blobMgr snapshot)) (\<lambda>result.
                case result of
                  Inl err \<Rightarrow>
                    if is_WatchPending err \<and> om_DeletionTimestamp (s_Meta snapshot) = None
                    then ret () else fail err
                | Inr u \<Rightarrow> ret ()))"

section \<open>What the reconciler guarantees\<close>

definition guards_snapshot :: "call \<Rightarrow> bool" where
  "guards_snapshot c \<longleftrightarrow> (\<forall>s. c = SnapshotCall (ApiUpdate s) \<longrightarrow> has_finalizer Finalizer (s_Meta s))"

lemma guards_snapshot_simps [simp]:
  "guards_snapshot (SnapshotCall (ApiGet n))" "guards_snapshot (SnapshotCall (ApiUpdateStatus s))"
  "guards_snapshot (SnapshotCall (ApiUpdate s)) \<longleftrightarrow> has_finalizer Finalizer (s_Meta s)"
  "guards_snapshot (VolumeCall v)"
  by (auto simp: guards_snapshot_def)

lemma blob_call_guards_snapshot: "is_blob_call c \<Longrightarrow> guards_snapshot c"
  by (cases c) (auto simp: guards_snapshot_def)

lemma snapshot_reconcileNotDeleting_guards:
  "emits (\<lambda>E. guards_snapshot) (snapshot_reconcileNotDeleting m s)"
  unfolding snapshot_reconcileNotDeleting_def snapshot_update_def snapshot_statusUpdate_def
  by (intro emits_intros bm.emits_keeps)
    (auto simp: keeps_data_def blob_call_guards_snapshot dest: arg_cong [of _ _ fst])

text \<open>The finalizer goes only after the blob is removed.\<close>

lemma snapshot_reconcileDeleting_finalizer:
  assumes run: "snapshot_reconcileDeleting m s E w = (r, w2)"
    and dropped: "c \<in> set (new_calls w w2)" "\<not> guards_snapshot c"
  shows "\<exists>w1. RemoveBlob m (om_Name (s_Meta s)) (snapshot_object s) E w = (Inr (), w1)"
proof -
  obtain r1 w1 where rm: "RemoveBlob m (om_Name (s_Meta s)) (snapshot_object s) E w = (r1, w1)"
    by (cases "RemoveBlob m (om_Name (s_Meta s)) (snapshot_object s) E w")
  show ?thesis
  proof (cases r1)
    case (Inl e)
    with run rm have "w2 = w1" by (simp add: snapshot_reconcileDeleting_def thenE_def bindE_def)
    have "emits (\<lambda>E. guards_snapshot) (RemoveBlob m (om_Name (s_Meta s)) (snapshot_object s))"
      by (intro bm.emits_remove blob_call_guards_snapshot)
    from emits_run [OF this rm, of w "[]"] \<open>w2 = w1\<close> dropped show ?thesis by auto
  next
    case (Inr u)
    with rm show ?thesis by simp
  qed
qed

text \<open>The status of a snapshot is posted only when the source volume was seen available and not
  being deleted, and after the snapshot LV was made.\<close>

definition snapshot_steps ::
  "BlobManager \<Rightarrow> Snapshot \<Rightarrow> env \<Rightarrow> world \<Rightarrow> Volume \<Rightarrow> world \<Rightarrow> bool" where
  "snapshot_steps m s1 E w1 v w3 \<longleftrightarrow>
     cl_Get (volumes E) (trace w1) (ss_SourceVolume (s_Spec s1)) = Inr v \<and>
     om_DeletionTimestamp (v_Meta v) = None \<and> volume_is v Available \<and>
     SnapshotBlob m (om_Name (s_Meta s1)) (ss_Binding (s_Spec s1)) (ss_SourceVolume (s_Spec s1))
       (snapshot_object s1) E
       (after w1 (VolumeCall (ApiGet (ss_SourceVolume (s_Spec s1))))) = (Inr (), w3)"

definition posts_snapshot :: "call \<Rightarrow> bool" where
  "posts_snapshot c \<longleftrightarrow> (\<exists>s. c = SnapshotCall (ApiUpdateStatus s))"

lemma posts_snapshot_simps [simp]:
  "posts_snapshot (SnapshotCall (ApiUpdateStatus s))" "\<not> posts_snapshot (SnapshotCall (ApiUpdate s))"
  "\<not> posts_snapshot (VolumeCall v)" "is_blob_call c \<Longrightarrow> \<not> posts_snapshot c"
  by (auto simp: posts_snapshot_def)

lemma snapshot_available:
  assumes "has_finalizer Finalizer (s_Meta s)"
    and "snapshot_reconcileNotDeleting m s E w = (r, w2)"
    and "SnapshotCall (ApiUpdateStatus s') \<in> set (new_calls w w2)"
  shows "\<exists>v w3. snapshot_steps m s E w v w3 \<and>
    IsStatusConditionTrue (sst_Conditions (s_Status s')) Available"
proof -
  let ?src = "ss_SourceVolume (s_Spec s)"
  let ?w1 = "after w (VolumeCall (ApiGet ?src))"
  let ?snap = "SnapshotBlob m (om_Name (s_Meta s)) (ss_Binding (s_Spec s)) ?src (snapshot_object s)"
  define finish where "finish = bindE timeNow (\<lambda>now.
      let conditions = fst (SetStatusCondition now (sst_Conditions (s_Status s)) snapshot_created);
          snapshot = s\<lparr>s_Status := (s_Status s)\<lparr>sst_Conditions := conditions\<rparr>\<rparr>
      in bindE (Blob_GetSize m (om_Name (s_Meta snapshot))) (\<lambda>sizeBytes.
         thenE (snapshot_statusUpdate
                  (snapshot\<lparr>s_Status := (s_Status snapshot)\<lparr>sst_SizeBytes := sizeBytes\<rparr>\<rparr>)) (ret ())))"
  have pending: "\<not> IsStatusConditionTrue (sst_Conditions (s_Status s)) Available"
    using assms by (auto simp: snapshot_reconcileNotDeleting_def AddFinalizer_unchanged)
  have run: "bindE (volume_get ?src) (\<lambda>volume.
      if om_DeletionTimestamp (v_Meta volume) \<noteq> None then fail (BadRequest ''source not found'')
      else if \<not> volume_is volume Available
        then fail (WatchPending ''waiting for volume to become available'')
      else thenE ?snap finish) E w = (r, w2)"
    using assms(2) pending unfolding snapshot_reconcileNotDeleting_def finish_def Let_def
    by (simp add: AddFinalizer_unchanged assms(1))
  obtain g where g: "volume_get ?src E w = (g, ?w1)" "g = cl_Get (volumes E) (trace w) ?src"
    by (simp add: volume_get_def api_get_def invoke_def after_def)
  show ?thesis
  proof (cases g)
    case (Inl e)
    with g(1) have "volume_get ?src E w = (Inl e, ?w1)" by simp
    with run have "w2 = ?w1" by (simp add: bindE_def)
    with assms(3) show ?thesis by simp
  next
    case (Inr v)
    with g(1) have got: "volume_get ?src E w = (Inr v, ?w1)" by simp
    then have run2: "(if om_DeletionTimestamp (v_Meta v) \<noteq> None
        then fail (BadRequest ''source not found'')
        else if \<not> volume_is v Available
        then fail (WatchPending ''waiting for volume to become available'')
        else thenE ?snap finish) E ?w1 = (r, w2)"
      using run by (simp add: bindE_def)
    have ok: "om_DeletionTimestamp (v_Meta v) = None \<and> volume_is v Available"
      using run2 assms(3) by (auto split: if_splits)
    obtain rs w3 where snap: "?snap E ?w1 = (rs, w3)" by (cases "?snap E ?w1")
    have quiet: "emits (\<lambda>E c. \<not> posts_snapshot c) ?snap"
      by (rule bm.emits_keeps) (auto simp: keeps_data_def)
    from emits_run [OF quiet snap, of w "[VolumeCall (ApiGet ?src)]"]
    have nosnap: "SnapshotCall (ApiUpdateStatus s') \<notin> set (new_calls w w3)" by auto
    show ?thesis
    proof (cases rs)
      case (Inl e)
      with run2 ok snap have "w2 = w3" by (simp add: thenE_def bindE_def)
      with nosnap assms(3) show ?thesis by simp
    next
      case (Inr u)
      with run2 ok snap have fin: "finish E w3 = (r, w2)" by (simp add: thenE_def bindE_def)
      have "emits (\<lambda>E c. \<forall>s'. c = SnapshotCall (ApiUpdateStatus s') \<longrightarrow>
          IsStatusConditionTrue (sst_Conditions (s_Status s')) Available) finish"
        unfolding finish_def Let_def snapshot_statusUpdate_def
        by (intro emits_intros bm.emits_keeps)
          (auto simp: keeps_data_def conds.holds_put snapshot_created_def posts_snapshot_def
            dest!: posts_snapshot_simps(4))
      then obtain cs where cs: "trace w2 = trace w3 @ cs"
          "\<forall>c\<in>set cs. \<forall>s'. c = SnapshotCall (ApiUpdateStatus s') \<longrightarrow>
            IsStatusConditionTrue (sst_Conditions (s_Status s')) Available"
        using fin unfolding emits_def by (metis snd_conv)
      have "\<exists>ds. trace w3 = trace ?w1 @ ds"
        using quiet snap unfolding emits_def by (metis snd_conv)
      with cs nosnap assms(3)
      have "IsStatusConditionTrue (sst_Conditions (s_Status s')) Available"
        by (auto simp: new_calls_def)
      moreover from \<open>g = Inr v\<close> g(2) have "cl_Get (volumes E) (trace w) ?src = Inr v" by simp
      ultimately show ?thesis
        using ok snap Inr unfolding snapshot_steps_def by auto
    qed
  qed
qed

end
