(* ===== verification/Storage_Properties.thy ===== *)
theory Storage_Properties
  imports Sample Lvm_Counter Thin_Lifecycle Cluster_Snapshot
begin

text \<open>
  The properties of the host layer and of the controllers of pools, volumes and snapshots, over
  the lemmas of the component theories.
\<close>

section \<open>Activation and removal\<close>

definition activation_allowed :: "string \<Rightarrow> env \<Rightarrow> world \<Rightarrow> call \<Rightarrow> bool" where
  "activation_allowed name E w c \<longleftrightarrow> activates_pool c \<longrightarrow>
     (\<exists>p. cl_Get (pools E) (trace w) name = Inr p \<and> may_activate (LocalNodeName E) p)"

text \<open>C5: A node activates the LV of a thin pool only when the pool object it has just read
  assigns the pool to this node, no other node is recorded as having it active, and some thin
  LV is wanted active.\<close>

theorem pool_activated_where_placed:
  "issues (node_pool_Reconcile name) (activation_allowed name)"
  unfolding activation_allowed_def by (intro issuesI) (use node_pool_Reconcile_activates in blast)

definition removal_ordered :: "env \<Rightarrow> string \<Rightarrow> world \<Rightarrow> world \<Rightarrow> bool" where
  "removal_ordered E name w w2 \<longleftrightarrow>
     (\<forall>c\<in>set (new_calls w w2). safe_pool_call c) \<or> (\<exists>p. removal_run E w w2 name p)"









text \<open>C8: The cluster controller removes the LV of a pool, or drops the pool's finalizer, only in
  a run of one form: the pool it read is being deleted, is not active and has no thin LV left;
  the lvremove comes first, and the finalizer is dropped only after it succeeded.\<close>

theorem pool_removed_when_unused:
  "removal_ordered E name w (snd (pool_Reconcile name E w))"
  using pool_Reconcile_run [of name E w] unfolding removal_ordered_def by (metis prod.collapse)

definition linear_removal_allowed :: "string \<Rightarrow> env \<Rightarrow> world \<Rightarrow> call \<Rightarrow> bool" where
  "linear_removal_allowed name E w c \<longleftrightarrow> is_lvremove c \<longrightarrow>
     (\<exists>v. cl_Get (volumes E) (trace w) name = Inr v \<and> om_DeletionTimestamp (v_Meta v) \<noteq> None \<and>
       vst_AttachedToNodes (v_Status v) = [] \<and> vs_Mode (v_Spec v) = VolumeModeLinear)"

text \<open>C9: Reconciling a volume removes a logical volume only if the volume is linear, is being
  deleted and is attached to no node.\<close>

theorem volume_data_removed_when_deleted:
  "issues (volume_Reconcile name) (linear_removal_allowed name)"
  unfolding linear_removal_allowed_def by (intro issuesI) (use volume_Reconcile_lvremove in blast)

definition volume_release :: "BlobManager \<Rightarrow> Volume \<Rightarrow> env \<Rightarrow> world \<Rightarrow> call \<Rightarrow> bool" where
  "volume_release m v E w c \<longleftrightarrow> has_finalizer Finalizer (v_Meta v) \<and> \<not> guards_volume c \<longrightarrow>
     vst_AttachedToNodes (v_Status v) = [] \<and>
     (\<exists>v1 w1 w3. deactivateDataSource m v E w = (Inr v1, w1) \<and>
        RemoveBlob m (om_Name (v_Meta v1)) (volume_object v1) E w1 = (Inr (), w3))"

text \<open>C10: The finalizer of a volume is dropped only after the data source was deactivated and the
  blob was removed, both successfully, and only when no node has the volume attached.\<close>

theorem volume_finalizer_last:
  "issues (volume_reconcileDeleting m v) (volume_release m v)"
  unfolding volume_release_def
  by (intro issuesI impI) (use volume_reconcileDeleting_finalizer in blast)

definition snapshot_release :: "BlobManager \<Rightarrow> Snapshot \<Rightarrow> env \<Rightarrow> world \<Rightarrow> call \<Rightarrow> bool" where
  "snapshot_release m s E w c \<longleftrightarrow> \<not> guards_snapshot c \<longrightarrow>
     (\<exists>w1. RemoveBlob m (om_Name (s_Meta s)) (snapshot_object s) E w = (Inr (), w1))"

text \<open>The finalizer of a snapshot is dropped only after its blob was removed.\<close>

theorem snapshot_finalizer_last:
  "issues (snapshot_reconcileDeleting m s) (snapshot_release m s)"
  unfolding snapshot_release_def
  by (intro issuesI impI) (use snapshot_reconcileDeleting_finalizer in blast)

definition removed_lv_only :: "ThinPoolLv \<Rightarrow> env \<Rightarrow> call \<Rightarrow> bool" where
  "removed_lv_only p E c \<longleftrightarrow> (\<exists>args. c = lvm_call (''lvremove'' # args)) \<longrightarrow>
     (\<exists>l\<in>set (ps_ThinLvs (p_Spec p)). ls_State l = SpecRemoved \<and>
        c = lvm_call (''lvremove'' # [''--devicesfile'', ps_VgName (p_Spec p), pool_path p (ls_Name l)]))"

text \<open>The node controller removes exactly such thin LVs as the spec of the pool lists in
  state Removed.\<close>

theorem thin_lvs_removed_on_request: "emits (removed_lv_only p) (reconcileThinLvDeletion p)"
  unfolding removed_lv_only_def [abs_def] by (rule deletion_only_removed)

definition creation_allowed :: "ThinPoolLv \<Rightarrow> nat \<Rightarrow> env \<Rightarrow> call \<Rightarrow> bool" where
  "creation_allowed p i E c \<longleftrightarrow>
     (\<exists>l. at (ps_ThinLvs (p_Spec p)) i = Some l \<and>
       (\<forall>b. creates_lv b c \<longrightarrow> ls_State l \<noteq> SpecRemoved \<and>
          Status_FindThinLv (p_Status p) (ls_Name l) = None) \<and>
       (\<forall>args. c = lvm_call (''lvextend'' # args) \<longrightarrow> \<not> ls_ReadOnly l \<and>
          (\<exists>st. Status_FindThinLv (p_Status p) (ls_Name l) = Some st \<and>
             lst_SizeBytes st < ls_SizeBytes l)))"

text \<open>C25: The step for one thin LV spec creates an LV only if the spec does not ask for its
  removal and the status does not list it yet, and extends one only if it is writable and
  smaller than wanted.\<close>

theorem thin_lv_creation_guarded: "emits (creation_allowed p i) (create_thin_lv_at i p)"
proof (cases "at (ps_ThinLvs (p_Spec p)) i")
  case None
  then show ?thesis by (simp add: create_thin_lv_at_def emits_index_panic)
next
  case (Some l)
  show ?thesis
    by (rule emits_mono [OF create_thin_lv_at_guarded [OF Some]]) (use Some in \<open>simp add: creation_allowed_def\<close>)
qed






section \<open>Progress\<close>

text \<open>Once its data source is complete and can be let go, a volume is reported available and
  not abnormal by one status update, its specification unchanged.\<close>

theorem volume_reported_available:
  assumes "has_finalizer Finalizer (v_Meta v)" and "volume_is v LvCreated"
    and "volume_is v DataSourceCompleted" and "\<not> volume_is v Available"
    and "vs_SizeBytes (v_Spec v) \<le> vst_SizeBytes (v_Status v)"
    and "deactivateDataSource m v E w = (Inr v1, w1)"
  shows "\<exists>v2. volume_is v2 Available \<and> \<not> volume_is v2 Abnormal \<and> v_Spec v2 = v_Spec v1 \<and>
    volume_reconcileNotDeleting m v E w =
      (map_sum id (\<lambda>x. ()) (cl_UpdateStatus (volumes E) (trace w1) v2),
       after w1 (VolumeCall (ApiUpdateStatus v2)))"
  using assms by (intro volume_becomes_available) auto

theorem volume_reported_available_witness:
  "\<exists>v2. volume_is v2 Available \<and> \<not> volume_is v2 Abnormal \<and> v_Spec v2 = sample_spec \<and>
    volume_reconcileNotDeleting (LinearBlobManager ''vg'')
        (sample_volume ''vol'' [LvCreated, DataSourceCompleted]) (sample_env [] [] [] []) init_world =
      (map_sum id (\<lambda>x. ()) (cl_UpdateStatus (volumes (sample_env [] [] [] [])) [] v2),
       after init_world (VolumeCall (ApiUpdateStatus v2)))"
proof -
  let ?v = "sample_volume ''vol'' [LvCreated, DataSourceCompleted]"
  have v: "has_finalizer Finalizer (v_Meta ?v)" "om_Labels (v_Meta ?v) = None" "v_Spec ?v = sample_spec"
    "volume_is ?v LvCreated" "volume_is ?v DataSourceCompleted" "\<not> volume_is ?v Available"
    "vs_SizeBytes (v_Spec ?v) \<le> vst_SizeBytes (v_Status ?v)"
    by (simp_all add: sample_volume_def sample_spec_def sample_meta_def new_meta_def has_finalizer_def
        volume_is_def FindStatusCondition_def IsStatusConditionTrue_find)
  have "deactivateDataSource (LinearBlobManager ''vg'') ?v (sample_env [] [] [] []) init_world =
      (Inr ?v, init_world)"
    by (simp add: deactivateDataSource_def v(2) thenE_def)
  from volume_reported_available [OF v(1,4-7) this] show ?thesis
    by (simp add: v(3) init_world_def)
qed

text \<open>A volume that is created, populated, available and of the size wanted is left alone:
  reconciling it issues no call.\<close>

theorem volume_settled_no_calls:
  assumes "volume_settled v"
  shows "volume_reconcileNotDeleting m v E w = (Inr (), w)"
  using assms by (rule volume_settled_idle)

theorem volume_settled_no_calls_witness:
  "volume_reconcileNotDeleting (ThinBlobManager ''vg'' ''vol'')
     (sample_volume ''vol'' [LvCreated, DataSourceCompleted, Available]) (sample_env [] [] [] []) init_world =
   (Inr (), init_world)"
  by (rule volume_settled_no_calls)
    (simp add: volume_settled_def sample_volume_def sample_spec_def volume_is_def
      FindStatusCondition_def IsStatusConditionTrue_find)

definition snapshot_report_allowed :: "BlobManager \<Rightarrow> Snapshot \<Rightarrow> env \<Rightarrow> world \<Rightarrow> call \<Rightarrow> bool" where
  "snapshot_report_allowed m s E w c \<longleftrightarrow>
     (\<forall>s'. has_finalizer Finalizer (s_Meta s) \<and> c = SnapshotCall (ApiUpdateStatus s') \<longrightarrow>
        (\<exists>v w3. snapshot_steps m s E w v w3 \<and>
           IsStatusConditionTrue (sst_Conditions (s_Status s')) Available))"

text \<open>A snapshot is reported available only after its source volume was read as available and
  not being deleted and the snapshot of the blob succeeded.\<close>

theorem snapshot_reported_after_blob:
  "issues (snapshot_reconcileNotDeleting m s) (snapshot_report_allowed m s)"
  unfolding snapshot_report_allowed_def by (intro issuesI) (use snapshot_available in blast)

text \<open>Creating a thin blob succeeds only when the server's object of the pool lists the thin
  LV with at least the size asked for.\<close>

theorem thin_blob_created:
  "yields (Thin_CreateBlob vg name binding sizeBytes owner) (\<lambda>E w u w2.
     \<exists>p status. seen_pool E (trace w2) p \<and>
       Status_FindThinLv (p_Status p) (VolumeToThinLvName name) = Some status \<and>
       sizeBytes \<le> lst_SizeBytes status)"
proof (rule yieldsI)
  fix E w and x :: unit and w2
  assume "Thin_CreateBlob vg name binding sizeBytes owner E w = (Inr x, w2)"
  then have "Thin_CreateBlob vg name binding sizeBytes owner E w = (Inr (), w2)" by simp
  from Thin_CreateBlob_seen [OF this] show "\<exists>p status. seen_pool E (trace w2) p \<and>
      Status_FindThinLv (p_Status p) (VolumeToThinLvName name) = Some status \<and>
      sizeBytes \<le> lst_SizeBytes status" .
qed

text \<open>Removing a thin blob succeeds only when its pool is gone or the server's object of the
  pool no longer lists the thin LV.\<close>

theorem thin_blob_removed:
  "yields (Thin_RemoveBlob pool name owner) (\<lambda>E w u w2.
     cl_Get (pools E) (trace w) pool = Inl ErrNotFound \<or>
     (\<exists>p. seen_pool E (trace w2) p \<and>
        Status_FindThinLv (p_Status p) (VolumeToThinLvName name) = None))"
  by (intro yieldsI) (auto dest: Thin_RemoveBlob_seen)

text \<open>Setting up a clone, whichever managers the source and the target have, removes no
  logical volume and deletes no pool.\<close>

theorem clone_setup_keeps_data:
  "emits keeps_data (thenE (SnapshotBlob m tmp [] src owner)
     (thenE (ActivateBlobForCloneSource m tmp owner) (ActivateBlobForCloneTarget m2 name source)))"
  by (rule bm.clone_setup_keeps)

section \<open>Placement\<close>

text \<open>Placing a pool is idempotent: placing the result again on the same node changes
  nothing.\<close>

theorem placement_idempotent:
  "case recalcActiveOnNode localNode p of Inl err \<Rightarrow> True
   | Inr q \<Rightarrow> recalcActiveOnNode localNode q = Inr q"
  using recalcActiveOnNode_idem [of localNode p] by (auto split: sum.split)

text \<open>The nodes that may use a volume are those asked for, with the node of the pool put
  first while a clone pins the pool to it.\<close>

theorem interested_nodes_set:
  "set (fst (InterestedNodes p nodes)) =
    (if clone_pins p then insert (ps_ActiveOnNode (p_Spec p)) (set nodes) else set nodes)"
  by (rule set_InterestedNodes)

text \<open>The same function also changes the list it is given: while a clone pins the pool, the
  caller's list loses the node of the pool, as slices.DeleteFunc works in place.\<close>

theorem interested_nodes_clobbers:
  assumes "clone_pins p"
  shows "ps_ActiveOnNode (p_Spec p) \<notin> set (snd (InterestedNodes p nodes))"
  using assms by (rule InterestedNodes_caller_loses)

theorem interested_nodes_clobbers_witness:
  "''node1'' \<notin> set (snd (InterestedNodes (sample_pool ''node1'') [''node1'', ''node2'']))"
proof -
  have "clone_pins (sample_pool ''node1'')"
    by (simp add: clone_pins_def sample_pool_def str_contains_def sublist_code prefix_code)
  from interested_nodes_clobbers [OF this, of "[''node1'', ''node2'']"] show ?thesis
    by (simp add: sample_pool_def)
qed


section \<open>The host layer\<close>

text \<open>C28: The encoding of a binding as an LVM tag loses nothing: decoding gives it back.\<close>

theorem munge_roundtrip: "unmunge (munge s) = s"
  by (rule unmunge_munge_eq)

text \<open>C27: Updating a counter kept in LVM tags returns the largest value recorded after the new one
  was added, and the tags it deletes hold smaller values or none.\<close>

theorem counter_update_max:
  "yields (LvmLvUpdateCounterIfLower vg lv key cur) (\<lambda>E w r w2.
     let w1 = after w (addtag_call vg lv (counter_tag key cur))
     in r = Max (insert 0 (counter_values key (tags_at E w1 vg lv))) \<and>
        (\<exists>cs. new_calls w w2 = [addtag_call vg lv (counter_tag key cur),
             lvm_call (gettags_args vg lv)] @ cs \<and>
           set cs \<subseteq> deltag_call vg lv ` {t. stale_tag key r t}))"
proof (rule yieldsI)
  fix E w r w2
  assume "LvmLvUpdateCounterIfLower vg lv key cur E w = (Inr r, w2)"
  note run = LvmLvUpdateCounterIfLower_Inr [OF this]
  then show "let w1 = after w (addtag_call vg lv (counter_tag key cur))
     in r = Max (insert 0 (counter_values key (tags_at E w1 vg lv))) \<and>
        (\<exists>cs. new_calls w w2 = [addtag_call vg lv (counter_tag key cur),
             lvm_call (gettags_args vg lv)] @ cs \<and>
           set cs \<subseteq> deltag_call vg lv ` {t. stale_tag key r t})"
    unfolding Let_def by blast
qed

definition dm_created :: "string \<Rightarrow> int \<Rightarrow> world \<Rightarrow> goerr + unit \<Rightarrow> world \<Rightarrow> bool" where
  "dm_created name sizeBytes w r w2 =
     (case r of
        Inr u \<Rightarrow> new_calls w w2 =
          [dmsetup_call [''create'', ''--uuid'', lowerName name, ''--table'', zeroTable sizeBytes,
             ''--addnodeoncreate'', lowerName name],
           dmsetup_call [''create'', ''--uuid'', upperName name, ''--table'',
             upperTable sizeBytes name, ''--noudevsync'', upperName name],
           dmsetup_call [''mknodes'', upperName name],
           StatHost (GetDevicePath name)]
      | Inl e \<Rightarrow> cleaned_up w w2 \<or>
          new_calls w w2 = [dmsetup_call [''create'', ''--uuid'', lowerName name, ''--table'',
            zeroTable sizeBytes, ''--addnodeoncreate'', lowerName name]])"

text \<open>Creating the device mapper wrapper of a volume stacks the upper device on the lower one,
  makes its node and checks it; a failure after the first device exists ends with a removal.\<close>

theorem dm_create_all_or_nothing:
  "dm_created name sizeBytes w (fst (dm_Create name sizeBytes E w)) (snd (dm_Create name sizeBytes E w))"
proof (cases "fst (dm_Create name sizeBytes E w)")
  case (Inl e)
  then have "dm_Create name sizeBytes E w = (Inl e, snd (dm_Create name sizeBytes E w))"
    by (metis prod.collapse)
  from dm_Create_Inl [OF this] Inl show ?thesis by (simp add: dm_created_def)
next
  case (Inr u)
  then have "dm_Create name sizeBytes E w = (Inr u, snd (dm_Create name sizeBytes E w))"
    by (metis prod.collapse)
  from dm_Create_Inr [OF this] Inr show ?thesis by (simp add: dm_created_def)
qed

text \<open>The size read from the table of a wrapper is the size its table was built from, for
  sizes in whole sectors within the int64 range.\<close>

theorem dm_size_roundtrip:
  assumes "host_outcome E w [''dmsetup'', ''table'', upperName name] =
      ExecOk (upperTable (512 * n) name @ rest)"
    and "- (2 ^ 54) \<le> n" and "n < 2 ^ 54"
  shows "dm_GetSize name E w = (Inr (512 * n), after w (dmsetup_call [''table'', upperName name]))"
  using assms by (rule dm_GetSize_table)

theorem dm_size_roundtrip_witness:
  "dm_GetSize ''vol'' (sample_env [] [] [] (upperTable (512 * 16384) ''vol'' @ [CHR 0x0A])) init_world =
    (Inr 8388608, after init_world (dmsetup_call [''table'', upperName ''vol'']))"
  using dm_size_roundtrip [of "sample_env [] [] [] (upperTable (512 * 16384) ''vol'' @ [CHR 0x0A])"
      init_world "''vol''" 16384 "[CHR 0x0A]"]
  by (simp add: host_outcome_def)

section \<open>Conditions during a resize\<close>

text \<open>Of the three conditions that a resize means to set, only the first is set when it
  changes: an available volume is still reported available, and not abnormal, while it is resized.\<close>

theorem resize_sets_one_condition:
  assumes "volume_is v DataSourceCompleted"
  shows "let v2 = fst (set_first_changed now resize_condition1 resize_condition2 resize_condition3 v)
    in \<not> volume_is v2 DataSourceCompleted \<and> volume_is v2 Available = volume_is v Available \<and>
      volume_is v2 Abnormal = volume_is v Abnormal"
  unfolding Let_def resize_first_condition [OF assms] set_volume_condition_is
  by (simp add: resize_condition1_def)

theorem resize_sets_one_condition_witness:
  "volume_is (fst (set_first_changed 0 resize_condition1 resize_condition2 resize_condition3
     (sample_volume ''vol'' [LvCreated, DataSourceCompleted, Available]))) Available"
proof -
  have v: "volume_is (sample_volume ''vol'' [LvCreated, DataSourceCompleted, Available]) DataSourceCompleted"
    "volume_is (sample_volume ''vol'' [LvCreated, DataSourceCompleted, Available]) Available"
    by (simp_all add: sample_volume_def volume_is_def FindStatusCondition_def IsStatusConditionTrue_find)
  from resize_sets_one_condition [OF v(1), of 0] v(2) show ?thesis by (simp add: Let_def)
qed

end
