(* ===== verification/Csi_Validate.thy ===== *)
theory Csi_Validate
  imports Go_IO
begin

text \<open>
  internal/csi/common/validate/validate.go, and the messages of the CSI specification that the
  services read.  A map from strings to strings is an association list with distinct keys; a
  missing key reads as the empty string.  The access type of a capability is a union of which
  at most one member is set.  The hash of SafeName is FNV-1a on 128 bits, from Go's standard
  library.
\<close>

unbundle bit_operations_syntax

section \<open>Messages\<close>

datatype csi_access_mode =
    MODE_UNKNOWN
  | SINGLE_NODE_WRITER
  | SINGLE_NODE_READER_ONLY
  | MULTI_NODE_READER_ONLY
  | MULTI_NODE_SINGLE_WRITER
  | MULTI_NODE_MULTI_WRITER
  | SINGLE_NODE_SINGLE_WRITER
  | SINGLE_NODE_MULTI_WRITER
  | MODE_OTHER int

datatype access_type =
    AccessBlock
  | AccessMount string "string list"
  | AccessUnset

record VolumeCapability =
  cap_AccessType :: access_type
  cap_AccessMode :: "csi_access_mode option"

type_synonym params = "(string \<times> string) list"

definition param :: "params \<Rightarrow> string \<Rightarrow> string" where
  "param parameters key = (case map_of parameters key of None \<Rightarrow> [] | Some v \<Rightarrow> v)"

definition InvalidArgument :: "string \<Rightarrow> goerr" where
  "InvalidArgument msg = GrpcStatus ''InvalidArgument'' msg"

section \<open>Safe names\<close>

definition lower :: "char \<Rightarrow> bool" where
  "lower c = (97 \<le> (of_char c :: nat) \<and> (of_char c :: nat) \<le> 122)"

definition lower_hex :: "char \<Rightarrow> bool" where
  "lower_hex c = (is_digit c \<or> (97 \<le> (of_char c :: nat) \<and> (of_char c :: nat) \<le> 102))"

text \<open>The pattern: letters, then five groups of hexadecimal digits, each after a dash.\<close>

fun hex_groups :: "nat list \<Rightarrow> string \<Rightarrow> bool" where
  "hex_groups [] s = (s = [])"
| "hex_groups (n # ns) s =
     (case s of [] \<Rightarrow> False
      | c # s' \<Rightarrow> c = CHR ''-'' \<and> n \<le> length s' \<and> list_all lower_hex (take n s') \<and>
          hex_groups ns (drop n s'))"

definition safeNamePattern :: "string \<Rightarrow> string option" where
  "safeNamePattern name =
     (if hex_groups [8, 4, 4, 4, 12] (dropWhile lower name) then Some (takeWhile lower name) else None)"

definition fnv_offset :: "128 word" where
  "fnv_offset = push_bit 64 0x6c62272e07bb0142 OR 0x62b821756295c58d"

definition fnv_prime :: "128 word" where
  "fnv_prime = push_bit 88 1 + 0x13b"

fun fnv128a :: "string \<Rightarrow> 128 word \<Rightarrow> 128 word" where
  "fnv128a [] h = h"
| "fnv128a (c # s) h = fnv128a s ((h XOR of_char c) * fnv_prime)"

definition lower_hex_digit :: "nat \<Rightarrow> char" where
  "lower_hex_digit n = (if n < 10 then char_of (48 + n) else char_of (87 + n))"

text \<open>The sixteen bytes of the sum, most significant first, two digits each.\<close>

definition hex_sum :: "128 word \<Rightarrow> string" where
  "hex_sum h = map (\<lambda>i. lower_hex_digit (unat (drop_bit (4 * (31 - i)) h AND 15))) [0..<32]"

definition SafeName :: "string \<Rightarrow> string \<Rightarrow> string" where
  "SafeName name pfx =
     (if safeNamePattern name = Some pfx then name
      else ''kubesan-'' @ pfx @ ''-'' @ hex_sum (fnv128a name fnv_offset))"

section \<open>Validation\<close>

text \<open>The label format of RFC 1123, from apimachinery's validation package.\<close>

definition label_char :: "char \<Rightarrow> bool" where
  "label_char c = (lower c \<or> is_digit c)"

definition IsDNS1123Label :: "string \<Rightarrow> bool" where
  "IsDNS1123Label ident =
     (length ident \<le> 63 \<and> ident \<noteq> [] \<and> label_char (hd ident) \<and> label_char (last ident) \<and>
      list_all (\<lambda>c. label_char c \<or> c = CHR ''-'') ident)"

text \<open>A valid identifier is the name of the object in the namespace of the configuration.\<close>

definition validateID :: "string \<Rightarrow> string \<Rightarrow> goerr + string" where
  "validateID ident category =
     (if ident = [] then Inl (InvalidArgument (category @ '' id cannot be empty''))
      else if \<not> IsDNS1123Label ident
        then Inl (InvalidArgument (category @ '' id is not a valid RFC 1123 label''))
      else Inr ident)"

definition ValidateVolumeID :: "string \<Rightarrow> goerr + string" where
  "ValidateVolumeID ident = validateID ident ''volume''"

definition ValidateSnapshotID :: "string \<Rightarrow> goerr + string" where
  "ValidateSnapshotID ident = validateID ident ''snapshot''"

definition ValidateVolumeContext :: "params \<Rightarrow> goerr option" where
  "ValidateVolumeContext context =
     (if length context > 0 then Some (InvalidArgument ''unexpected volume context'') else None)"

text \<open>The getters of the message are safe on an unset access mode, which reads as unknown.\<close>

definition GetMode :: "VolumeCapability \<Rightarrow> csi_access_mode" where
  "GetMode capability = (case cap_AccessMode capability of None \<Rightarrow> MODE_UNKNOWN | Some m \<Rightarrow> m)"

definition validateVolumeCapabilityMount :: "VolumeCapability \<Rightarrow> goerr option" where
  "validateVolumeCapabilityMount capability =
     (let accessMode = GetMode capability
      in if accessMode \<noteq> SINGLE_NODE_WRITER \<and> accessMode \<noteq> SINGLE_NODE_READER_ONLY \<and>
            accessMode \<noteq> SINGLE_NODE_SINGLE_WRITER \<and> accessMode \<noteq> SINGLE_NODE_MULTI_WRITER
         then Some (InvalidArgument ''Filesystem volumes only support single-node access modes'')
         else None)"

definition ValidateVolumeCapability :: "VolumeCapability \<Rightarrow> goerr option" where
  "ValidateVolumeCapability capability =
     (case cap_AccessType capability of
        AccessMount fsType flags \<Rightarrow> validateVolumeCapabilityMount capability
      | AccessBlock \<Rightarrow> None
      | AccessUnset \<Rightarrow> Some (InvalidArgument ''expected a block or mount volume''))"

section \<open>Safe names are identifiers\<close>

lemma of_char_char_of_small: "n < 256 \<Longrightarrow> (of_char (char_of n :: char) :: nat) = n"
  by simp

lemma lower_hex_digit_label: "n < 16 \<Longrightarrow> label_char (lower_hex_digit n)"
  by (auto simp: lower_hex_digit_def label_char_def lower_def is_digit_def)

lemma nibble_less: "unat (w AND 15 :: 128 word) < 16"
proof -
  have "w AND 15 = take_bit 4 w" by (simp add: take_bit_eq_mask mask_eq_exp_minus_1)
  then have "unat (w AND 15) = take_bit 4 (unat w)" by (simp add: unsigned_take_bit_eq)
  then show ?thesis by (simp add: take_bit_eq_mod)
qed

lemma hex_sum_label: "list_all label_char (hex_sum h)" and length_hex_sum [simp]: "length (hex_sum h) = 32"
  by (auto simp: hex_sum_def list_all_iff intro!: lower_hex_digit_label nibble_less)

lemma lower_hex_label: "lower_hex c \<Longrightarrow> label_char c"
  by (auto simp: lower_hex_def label_char_def lower_def)

lemma hex_groups_chars:
  "hex_groups ns s \<Longrightarrow> list_all (\<lambda>c. label_char c \<or> c = CHR ''-'') s \<and>
    length s = sum_list (map Suc ns)"
proof (induction ns arbitrary: s)
  case Nil
  then show ?case by simp
next
  case (Cons n ns)
  then obtain s' where s: "s = CHR ''-'' # s'" "n \<le> length s'" "list_all lower_hex (take n s')"
      "hex_groups ns (drop n s')"
    by (auto split: list.splits)
  have "list_all (\<lambda>c. label_char c \<or> c = CHR ''-'') (take n s')"
    using s(3) by (auto simp: list_all_iff lower_hex_label)
  moreover have "list_all (\<lambda>c. label_char c \<or> c = CHR ''-'') (drop n s')"
    and len: "length (drop n s') = sum_list (map Suc ns)"
    using Cons.IH [OF s(4)] by auto
  ultimately have "list_all (\<lambda>c. label_char c \<or> c = CHR ''-'') (take n s' @ drop n s')"
    by (simp only: list_all_append)
  with s len show ?case by simp
qed

lemma hex_groups_last:
  "hex_groups ns s \<Longrightarrow> ns \<noteq> [] \<Longrightarrow> 0 < last ns \<Longrightarrow> s \<noteq> [] \<and> label_char (last s)"
proof (induction ns arbitrary: s)
  case Nil
  then show ?case by simp
next
  case (Cons n ns)
  then obtain s' where s: "s = CHR ''-'' # s'" "n \<le> length s'" "list_all lower_hex (take n s')"
      "hex_groups ns (drop n s')"
    by (auto split: list.splits)
  show ?case
  proof (cases "ns = []")
    case True
    with s Cons.prems have "take n s' = s'" "s' \<noteq> []" by auto
    with s show ?thesis by (auto simp: list_all_iff lower_hex_label)
  next
    case False
    with Cons.IH [OF s(4)] Cons.prems
    have d: "drop n s' \<noteq> []" "label_char (last (drop n s'))" by auto
    from d(1) have "last (drop n s') = last s'" "s' \<noteq> []" by (auto simp: not_le intro: last_drop)
    with d(2) s(1) show ?thesis by simp
  qed
qed

text \<open>The prefix is one that starts a label.\<close>

lemma safe_pattern_label:
  assumes "safeNamePattern name = Some pfx" and "pfx \<noteq> []" and "length pfx \<le> 26"
  shows "IsDNS1123Label name"
proof -
  from assms(1) have g: "hex_groups [8, 4, 4, 4, 12] (dropWhile lower name)"
    and p: "takeWhile lower name = pfx"
    by (auto simp: safeNamePattern_def split: if_splits)
  have pl: "list_all label_char pfx"
    using p by (auto simp: list_all_iff label_char_def dest: set_takeWhileD)
  have name: "name = pfx @ dropWhile lower name" using p by auto
  have tail: "list_all (\<lambda>c. label_char c \<or> c = CHR ''-'') (dropWhile lower name)"
    "length (dropWhile lower name) = 37"
    using hex_groups_chars [OF g] by auto
  have last: "dropWhile lower name \<noteq> []" "label_char (last (dropWhile lower name))"
    using hex_groups_last [OF g] by auto
  show ?thesis
    unfolding IsDNS1123Label_def
  proof (intro conjI)
    show "length name \<le> 63" using arg_cong [OF name, of length] tail(2) assms(3) by simp
    show "name \<noteq> []" using name last(1) by auto
    show "label_char (hd name)"
      using name pl assms(2) by (metis hd_append2 hd_in_set list_all_iff)
    show "label_char (last name)" using name last by (metis last_appendR)
    show "list_all (\<lambda>c. label_char c \<or> c = CHR ''-'') name"
      by (subst name) (use pl tail in \<open>auto simp: list_all_iff\<close>)
  qed
qed

lemma SafeName_label:
  assumes "pfx \<noteq> []" and "list_all lower pfx" and "length pfx \<le> 22"
  shows "IsDNS1123Label (SafeName name pfx)"
proof (cases "safeNamePattern name = Some pfx")
  case True
  with assms show ?thesis by (simp add: SafeName_def safe_pattern_label)
next
  case False
  have "hex_sum h \<noteq> []" for h using length_hex_sum [of h] by (metis list.size(3) zero_neq_numeral)
  moreover have "label_char (last (hex_sum h))" for h
    using hex_sum_label [of h] calculation [of h] by (auto simp: list_all_iff)
  moreover have "list_all label_char pfx" using assms(2) by (auto simp: list_all_iff label_char_def)
  moreover have "list_all (\<lambda>c. label_char c \<or> c = CHR ''-'') ''kubesan-''"
    by (simp add: label_char_def lower_def)
  moreover have "label_char CHR ''k''" by (simp add: label_char_def lower_def)
  ultimately show ?thesis
    using False assms(3) hex_sum_label by (auto simp: SafeName_def IsDNS1123Label_def list_all_iff)
qed

end
