(* ===== verification/Csi_Volume.thy ===== *)
theory Csi_Volume
  imports Cluster_Volume Csi_Validate
begin

text \<open>
  internal/csi/controller/volume.go and internal/csi/common/client/client.go: the volume
  operations of the CSI controller service.  A request is checked completely before anything
  is created; the capacity is rounded on 64-bit words; the waiting of the service for an object
  to reach a state takes, as a bound, the number of polls before the caller's context ends.
\<close>

section \<open>Waiting on objects\<close>

definition context_done :: goerr where
  "context_done = OtherError ''context deadline exceeded''"

text \<open>The polls after the first test of the condition.  A missing object is polled again.\<close>

fun watch_polls ::
  "nat \<Rightarrow> (string \<Rightarrow> 'o io) \<Rightarrow> ('o \<Rightarrow> string) \<Rightarrow> ('o \<Rightarrow> bool) \<Rightarrow> 'o \<Rightarrow> 'o io" where
  "watch_polls 0 get name_of condition object = fail context_done"
| "watch_polls (Suc n) get name_of condition object =
     bindE (attempt (get (name_of object))) (\<lambda>got.
       case got of
         Inl err \<Rightarrow> if err = ErrNotFound then watch_polls n get name_of condition object else fail err
       | Inr object \<Rightarrow>
           if condition object then ret object else watch_polls n get name_of condition object)"

definition volume_name :: "Volume \<Rightarrow> string" where
  "volume_name volume = om_Name (v_Meta volume)"

definition WatchVolumeUntil :: "nat \<Rightarrow> Volume \<Rightarrow> (Volume \<Rightarrow> bool) \<Rightarrow> Volume io" where
  "WatchVolumeUntil polls volume condition =
     (if condition volume then ret volume else watch_polls polls volume_get volume_name condition volume)"

fun confirm_deleted :: "nat \<Rightarrow> 'o io \<Rightarrow> unit io" where
  "confirm_deleted 0 get = fail context_done"
| "confirm_deleted (Suc n) get =
     bindE (attempt get) (\<lambda>got.
       case got of
         Inr object \<Rightarrow> confirm_deleted n get
       | Inl err \<Rightarrow> if err = ErrNotFound then ret () else fail err)"

text \<open>Deletion in the foreground, confirmed by the object's absence.\<close>

definition DeleteAndConfirm ::
  "nat \<Rightarrow> (env \<Rightarrow> 'o api_client) \<Rightarrow> ('o api_call \<Rightarrow> call) \<Rightarrow> ('o \<Rightarrow> string) \<Rightarrow> 'o \<Rightarrow> unit io" where
  "DeleteAndConfirm polls sel wrap name_of object =
     bindE (attempt (api_delete sel wrap object (Some ''Foreground''))) (\<lambda>deleted.
       case deleted of
         Inl err \<Rightarrow> returnErr (IgnoreNotFound (Some err))
       | Inr u \<Rightarrow> confirm_deleted polls (api_get sel wrap (name_of object)))"

section \<open>Parameters and capabilities\<close>

definition getVolumeMode :: "params \<Rightarrow> goerr + VolumeMode" where
  "getVolumeMode parameters =
     (let mode = param parameters ''mode''
      in if mode = [] then Inr VolumeModeThin
         else if mode = ''Thin'' then Inr VolumeModeThin
         else if mode = ''Linear'' then Inr VolumeModeLinear
         else Inl (InvalidArgument ''invalid volume mode''))"

definition getWipePolicy :: "params \<Rightarrow> goerr + VolumeWipePolicy" where
  "getWipePolicy parameters =
     (let policy = param parameters ''wipePolicy''
      in if policy = [] \<or> policy = ''Full'' then Inr VolumeWipePolicyFull
         else if policy = ''UnsafeFast'' then Inr VolumeWipePolicyUnsafeFast
         else Inl (InvalidArgument ''invalid volume wipe policy''))"

text \<open>
  Two capabilities are compared as structs of pointers.  The pointers to two file system types
  differ, since each is a new object; whether the pointers to two objects of size zero, the
  block types, are equal is left open by the language and is a parameter.
\<close>

fun getVolumeType_loop ::
  "bool \<Rightarrow> VolumeCapability list \<Rightarrow> VolumeType option \<Rightarrow> bool \<Rightarrow> bool \<Rightarrow> goerr + VolumeType option" where
  "getVolumeType_loop zeroEq [] volumeType isTypeBlock isTypeMount = Inr volumeType"
| "getVolumeType_loop zeroEq (capability # capabilities) volumeType isTypeBlock isTypeMount =
     (case (case cap_AccessType capability of
              AccessBlock \<Rightarrow> Some (\<lparr>vt_Block = Some (), vt_Filesystem = None\<rparr>, True, isTypeMount)
            | AccessMount fsType flags \<Rightarrow>
                Some (\<lparr>vt_Block = None,
                       vt_Filesystem = Some \<lparr>fs_FsType = fsType, fs_MountOptions = flags\<rparr>\<rparr>,
                      isTypeBlock, True)
            | AccessUnset \<Rightarrow> None) of
        None \<Rightarrow> Inl (InvalidArgument ''invalid volume capabilities'')
      | Some (vt, isTypeBlock, isTypeMount) \<Rightarrow>
          if isTypeBlock \<and> isTypeMount
          then Inl (InvalidArgument ''volume access type cannot be both block and mount'')
          else
            (case volumeType of
               None \<Rightarrow> getVolumeType_loop zeroEq capabilities (Some vt) isTypeBlock isTypeMount
             | Some first \<Rightarrow>
                 if \<not> (vt_Filesystem vt = None \<and> zeroEq)
                 then Inl (InvalidArgument ''inconsistent volume capabilities'')
                 else getVolumeType_loop zeroEq capabilities volumeType isTypeBlock isTypeMount))"

definition getVolumeType :: "bool \<Rightarrow> VolumeCapability list \<Rightarrow> goerr + VolumeType" where
  "getVolumeType zeroEq capabilities =
     (case getVolumeType_loop zeroEq capabilities None False False of
        Inl err \<Rightarrow> Inl err
      | Inr None \<Rightarrow> Inl (InvalidArgument ''missing volume capabilities'')
      | Inr (Some volumeType) \<Rightarrow> Inr volumeType)"

definition getVolumeAccessMode :: "VolumeCapability \<Rightarrow> goerr + VolumeAccessMode" where
  "getVolumeAccessMode capability =
     (case cap_AccessMode capability of
        None \<Rightarrow> Inl (Panic ''nil pointer dereference'')
      | Some mode \<Rightarrow>
          (case mode of
             SINGLE_NODE_WRITER \<Rightarrow> Inr SingleNodeMultiWriter
           | SINGLE_NODE_READER_ONLY \<Rightarrow> Inr SingleNodeReaderOnly
           | MULTI_NODE_READER_ONLY \<Rightarrow> Inr MultiNodeReaderOnly
           | MULTI_NODE_SINGLE_WRITER \<Rightarrow> Inr MultiNodeSingleWriter
           | MULTI_NODE_MULTI_WRITER \<Rightarrow> Inr MultiNodeMultiWriter
           | SINGLE_NODE_SINGLE_WRITER \<Rightarrow> Inr SingleNodeSingleWriter
           | SINGLE_NODE_MULTI_WRITER \<Rightarrow> Inr SingleNodeMultiWriter
           | _ \<Rightarrow> Inl (InvalidArgument ''invalid volume access mode'')))"

definition getVolumeAccessModes :: "VolumeCapability list \<Rightarrow> goerr + VolumeAccessMode list" where
  "getVolumeAccessModes capabilities =
     (case slices_TryMap capabilities getVolumeAccessMode of
        Inl err \<Rightarrow> Inl err
      | Inr modes \<Rightarrow> Inr (Deduplicate modes))"

definition knownParameters :: "string list" where
  "knownParameters = [''lvmVolumeGroup'', ''mode'', ''wipePolicy'', ''csi.storage.k8s.io/pvc/name'',
     ''csi.storage.k8s.io/pvc/namespace'', ''csi.storage.k8s.io/pv/name'']"

definition copyKnownParameters :: "params \<Rightarrow> params" where
  "copyKnownParameters parameters = filter (\<lambda>(key, v). key \<in> set knownParameters) parameters"

section \<open>Capacity\<close>

definition word_div :: "64 word \<Rightarrow> 64 word \<Rightarrow> 64 word" where
  "word_div a b = word_of_int (go_div (sint a) (sint b))"

definition gigabyte :: "64 word" where
  "gigabyte = 1024 * 1024 * 1024"

definition defaultExtentSize :: "64 word" where
  "defaultExtentSize = 4 * 1024 * 1024"

definition OutOfRange :: "string \<Rightarrow> goerr" where
  "OutOfRange msg = GrpcStatus ''OutOfRange'' msg"

text \<open>The required and the limit of the range; the result is the capacity and the limit.\<close>

definition validateCapacity ::
  "(64 word \<times> 64 word) option \<Rightarrow> 64 word \<Rightarrow> goerr + 64 word \<times> 64 word" where
  "validateCapacity capacityRange extentSize =
     (let (minCapacity, maxCapacity) =
            (case capacityRange of None \<Rightarrow> (gigabyte, gigabyte)
             | Some (requiredBytes, limitBytes) \<Rightarrow> (requiredBytes, limitBytes))
      in if minCapacity = 0 \<and> maxCapacity = 0
           then Inl (InvalidArgument ''at least one of minimum and maximum capacity must be given'')
         else if minCapacity <s 0 \<or> maxCapacity <s 0
           then Inl (InvalidArgument ''capacity must be non-negative'')
         else
           (let limit = maxCapacity
            in if maxCapacity \<noteq> 0 \<and> maxCapacity <s minCapacity
                 then Inl (InvalidArgument ''minimum capacity must not exceed maximum capacity'')
               else
                 (let maxCapacity = (if maxCapacity = 0 then minCapacity + extentSize - 1 else maxCapacity)
                  in if minCapacity + extentSize - 1 <s 0
                       then Inl (OutOfRange ''integer overflow when rounding capacity'')
                     else
                       (let minCapacity = word_div (minCapacity + extentSize - 1) extentSize * extentSize;
                            maxCapacity = word_div maxCapacity extentSize * extentSize
                        in if minCapacity = 0 then Inr (maxCapacity, limit)
                           else if maxCapacity <s minCapacity
                             then Inl (OutOfRange ''capacity must allow for a multiple of the extent size'')
                           else Inr (minCapacity, limit)))))"

section \<open>Creation\<close>

datatype content_source =
    SourceVolume string
  | SourceSnapshot string
  | SourceUnsupported

record CreateVolumeRequest =
  cv_Name :: string
  cv_CapacityRange :: "(64 word \<times> 64 word) option"
  cv_VolumeCapabilities :: "VolumeCapability list"
  cv_Parameters :: params
  cv_VolumeContentSource :: "content_source option"
  cv_MutableParameters :: params

record CreateVolumeResponse =
  cr_CapacityBytes :: int
  cr_VolumeId :: string
  cr_ContentSource :: "content_source option"

definition no_contents :: VolumeContents where
  "no_contents = \<lparr>vc_ContentsType = VolumeContentsTypeEmpty, vc_CloneVolume = None, vc_CloneSnapshot = None\<rparr>"

definition NotFound :: "string \<Rightarrow> goerr" where
  "NotFound msg = GrpcStatus ''NotFound'' msg"

text \<open>The checks on a source volume and on a source snapshot, in the order of the source.\<close>

definition check_source_volume :: "goerr + Volume \<Rightarrow> string \<Rightarrow> int \<Rightarrow> VolumeType \<Rightarrow> goerr option" where
  "check_source_volume got vgName limit volumeType =
     (case got of
        Inl err \<Rightarrow> if err = ErrNotFound then Some (NotFound ''source volume does not exist'')
                   else Some (InvalidArgument ''unable to inspect source volume'')
      | Inr volume \<Rightarrow>
          if om_DeletionTimestamp (v_Meta volume) \<noteq> None
            then Some (NotFound ''source volume is marked for deletion'')
          else if vs_VgName (v_Spec volume) \<noteq> vgName
            then Some (InvalidArgument ''source volume does not live in same volume group as destination'')
          else if vt_Filesystem volumeType \<noteq> None
            then Some (InvalidArgument ''cannot create filesystem volume from a block device source'')
          else if vt_Filesystem (vs_Type (v_Spec volume)) \<noteq> None
            then Some (InvalidArgument ''cannot create block device from a filesystem source'')
          else if vs_Mode (v_Spec volume) = VolumeModeLinear
            then Some (InvalidArgument ''cannot clone from a linear volume'')
          else if \<not> volume_is volume Available
            then Some (NotFound ''source volume is not ready yet'')
          else if limit > 0 \<and> vst_SizeBytes (v_Status volume) > limit
            then Some (OutOfRange ''destination capacity is insufficient to accommodate source size'')
          else None)"

definition check_source_snapshot ::
  "goerr + Snapshot \<Rightarrow> string \<Rightarrow> int \<Rightarrow> VolumeType \<Rightarrow> goerr option" where
  "check_source_snapshot got vgName limit volumeType =
     (case got of
        Inl err \<Rightarrow> if err = ErrNotFound then Some (NotFound ''source snapshot does not exist'')
                   else Some (InvalidArgument ''unable to inspect source snapshot'')
      | Inr snapshot \<Rightarrow>
          if om_DeletionTimestamp (s_Meta snapshot) \<noteq> None
            then Some (NotFound ''source snapshot is marked for deletion'')
          else if ss_VgName (s_Spec snapshot) \<noteq> vgName
            then Some (InvalidArgument ''source snapshot does not live in same volume group as destination'')
          else if vt_Filesystem volumeType \<noteq> None
            then Some (InvalidArgument ''cannot create filesystem volume from a block device source'')
          else if \<not> IsStatusConditionTrue (sst_Conditions (s_Status snapshot)) Available
            then Some (NotFound ''source snapshot is not ready yet'')
          else if limit > 0 \<and> sst_SizeBytes (s_Status snapshot) > limit
            then Some (OutOfRange ''destination capacity is insufficient to accommodate source size'')
          else None)"

definition getVolumeContents ::
  "CreateVolumeRequest \<Rightarrow> string \<Rightarrow> int \<Rightarrow> VolumeType \<Rightarrow> VolumeContents io" where
  "getVolumeContents req vgName limit volumeType =
     (case cv_VolumeContentSource req of
        None \<Rightarrow> ret no_contents
      | Some (SourceVolume volumeId) \<Rightarrow>
          bindE (liftE (ValidateVolumeID volumeId)) (\<lambda>name.
          bindE (attempt (volume_get name)) (\<lambda>got.
          thenE (returnErr (check_source_volume got vgName limit volumeType))
            (ret \<lparr>vc_ContentsType = VolumeContentsTypeCloneVolume,
                  vc_CloneVolume = Some volumeId, vc_CloneSnapshot = None\<rparr>)))
      | Some (SourceSnapshot snapshotId) \<Rightarrow>
          bindE (liftE (ValidateSnapshotID snapshotId)) (\<lambda>name.
          bindE (attempt (api_get snapshots SnapshotCall name)) (\<lambda>got.
          thenE (returnErr (check_source_snapshot got vgName limit volumeType))
            (ret \<lparr>vc_ContentsType = VolumeContentsTypeCloneSnapshot,
                  vc_CloneVolume = None, vc_CloneSnapshot = Some snapshotId\<rparr>)))
      | Some SourceUnsupported \<Rightarrow> fail (InvalidArgument ''unsupported volume content source''))"

text \<open>
  Whether an existing volume is compatible with a request; the empty message means yes.  The
  source is None where the caller passes the pointer to the volume's own contents.
\<close>

definition validateCapabilities :: "bool \<Rightarrow> Volume \<Rightarrow> VolumeCapability list \<Rightarrow> string" where
  "validateCapabilities zeroEq volume capabilities =
     (case getVolumeType zeroEq capabilities of
        Inl err \<Rightarrow> ''incompatible volume type''
      | Inr volumeType \<Rightarrow>
          (let fs = vt_Filesystem (vs_Type (v_Spec volume))
           in if vt_Block volumeType \<noteq> None \<and> fs \<noteq> None
                then ''incompatible volume type: cannot change block to filesystem''
              else if vt_Filesystem volumeType \<noteq> None \<and> vt_Block (vs_Type (v_Spec volume)) \<noteq> None
                then ''incompatible volume type: cannot change filesystem to block''
              else if vt_Filesystem volumeType \<noteq> None \<and> fs \<noteq> None \<and> vt_Filesystem volumeType \<noteq> fs
                then ''incompatible volume type: filesystem mismatch''
              else
                (case getVolumeAccessModes capabilities of
                   Inl err \<Rightarrow> ''incomptible access modes''
                 | Inr accessModes \<Rightarrow>
                     if list_ex (\<lambda>mode. \<not> slices_Contains (vs_AccessModes (v_Spec volume)) mode) accessModes
                     then ''incompatible access modes'' else [])))"

definition same_contents :: "VolumeContents \<Rightarrow> VolumeContents \<Rightarrow> bool" where
  "same_contents source existing =
     (if vc_ContentsType source \<noteq> vc_ContentsType existing then False
      else if vc_ContentsType source = VolumeContentsTypeEmpty then True
      else if vc_ContentsType source = VolumeContentsTypeCloneVolume \<and> vc_CloneVolume source \<noteq> None \<and>
              vc_CloneVolume existing \<noteq> None \<and> vc_CloneVolume source = vc_CloneVolume existing then True
      else if vc_ContentsType source = VolumeContentsTypeCloneSnapshot \<and>
              vc_CloneSnapshot source \<noteq> None \<and> vc_CloneSnapshot existing \<noteq> None \<and>
              vc_CloneSnapshot source = vc_CloneSnapshot existing then True
      else False)"

definition validateVolume ::
  "bool \<Rightarrow> Volume \<Rightarrow> int \<Rightarrow> int \<Rightarrow> VolumeContents option \<Rightarrow> VolumeCapability list \<Rightarrow> params \<Rightarrow> string" where
  "validateVolume zeroEq volume sizeBytes limit source capabilities parameters =
     (if om_DeletionTimestamp (v_Meta volume) \<noteq> None then ''volume deletion is already in progress''
      else if sizeBytes > vs_SizeBytes (v_Spec volume) \<or>
              (limit > 0 \<and> limit < vs_SizeBytes (v_Spec volume)) then ''incompatible sizes''
      else if (case source of None \<Rightarrow> False | Some s \<Rightarrow> \<not> same_contents s (vs_Contents (v_Spec volume)))
        then ''incompatible source contents''
      else if param parameters ''lvmVolumeGroup'' \<noteq> vs_VgName (v_Spec volume)
        then ''incompatible parameter \"lvmVolumeGroup\"''
      else if getVolumeMode parameters \<noteq> Inr (vs_Mode (v_Spec volume))
        then ''incompatible parameter \"mode\"''
      else if getWipePolicy parameters \<noteq> Inr (vs_WipePolicy (v_Spec volume))
        then ''incompatible parameter \"wipePolicy\"''
      else validateCapabilities zeroEq volume capabilities)"

text \<open>The object that is created.\<close>

definition new_Volume ::
  "string \<Rightarrow> string \<Rightarrow> VolumeSpec \<Rightarrow> Volume" where
  "new_Volume namespace name spec =
     \<lparr>v_Meta = fst (AddFinalizer (new_meta name namespace (Some CommonLabels)) Finalizer),
      v_Spec = spec,
      v_Status = \<lparr>vst_ObservedGeneration = 0, vst_Conditions = [], vst_SizeBytes = 0,
                  vst_AttachedToNodes = [], vst_Path = '''', vst_NBDExport = ''''\<rparr>\<rparr>"

definition volume_binding :: "CreateVolumeRequest \<Rightarrow> string \<Rightarrow> string" where
  "volume_binding req name =
     (if cv_Name req = name
      then param (cv_Parameters req) ''csi.storage.k8s.io/pvc/namespace'' @ ''/'' @
           param (cv_Parameters req) ''csi.storage.k8s.io/pvc/name''
      else cv_Name req)"

definition CreateVolume :: "bool \<Rightarrow> nat \<Rightarrow> CreateVolumeRequest \<Rightarrow> CreateVolumeResponse io" where
  "CreateVolume zeroEq polls req =
     (let parameters = cv_Parameters req;
          lvmVolumeGroup = param parameters ''lvmVolumeGroup''
      in if length parameters > length (copyKnownParameters parameters)
           then fail (InvalidArgument ''unexpected parameters'')
         else if lvmVolumeGroup = [] then fail (InvalidArgument ''missing/empty parameter \"lvmVolumeGroup\"'')
         else if cv_Name req = [] then fail (InvalidArgument ''must specify volume name'')
         else
           bindE (liftE (getVolumeMode parameters)) (\<lambda>volumeMode.
           bindE (liftE (getWipePolicy parameters)) (\<lambda>wipePolicy.
           bindE (liftE (getVolumeType zeroEq (cv_VolumeCapabilities req))) (\<lambda>volumeType.
           bindE (liftE (getVolumeAccessModes (cv_VolumeCapabilities req))) (\<lambda>accessModes.
           bindE (liftE (validateCapacity (cv_CapacityRange req) defaultExtentSize)) (\<lambda>(capacity, limit).
           bindE (getVolumeContents req lvmVolumeGroup (sint limit) volumeType) (\<lambda>volumeContents.
             if length (cv_MutableParameters req) > 0
             then fail (InvalidArgument ''no mutable parameters supported'')
             else
               bindE (askEnv Namespace) (\<lambda>namespace.
               let name = SafeName (cv_Name req) ''pvc'';
                   volume = new_Volume namespace name
                     \<lparr>vs_VgName = lvmVolumeGroup, vs_Binding = volume_binding req name,
                      vs_Mode = volumeMode, vs_WipePolicy = wipePolicy, vs_Type = volumeType,
                      vs_Contents = volumeContents, vs_AccessModes = accessModes,
                      vs_SizeBytes = sint capacity, vs_AttachToNodes = []\<rparr>
               in bindE (attempt (api_create volumes VolumeCall volume)) (\<lambda>created.
                  bindE (case created of
                           Inr volume \<Rightarrow> ret volume
                         | Inl err \<Rightarrow>
                             if err = ErrAlreadyExists then
                               bindE (volume_get name) (\<lambda>volume.
                                 let msg = validateVolume zeroEq volume (sint capacity) (sint limit)
                                             (Some volumeContents) (cv_VolumeCapabilities req) parameters
                                 in if msg \<noteq> [] then fail (GrpcStatus ''AlreadyExists'' msg) else ret volume)
                             else fail err) (\<lambda>volume.
                  thenE (WatchVolumeUntil polls volume (\<lambda>volume. volume_is volume Available))
                    (ret \<lparr>cr_CapacityBytes = sint capacity, cr_VolumeId = name,
                          cr_ContentSource = cv_VolumeContentSource req\<rparr>))))))))))) "

section \<open>Deletion, validation, expansion\<close>

definition DeleteVolume :: "nat \<Rightarrow> string \<Rightarrow> params \<Rightarrow> unit io" where
  "DeleteVolume polls volumeId secrets =
     bindE (liftE (ValidateVolumeID volumeId)) (\<lambda>name.
       if length secrets > 0 then fail (InvalidArgument ''unexpected secrets'')
       else
         bindE (attempt (volume_get name)) (\<lambda>got.
           case got of
             Inl err \<Rightarrow> if err = ErrNotFound then ret () else fail err
           | Inr volume \<Rightarrow>
               if length (vs_AttachToNodes (v_Spec volume)) > 0
               then fail (GrpcStatus ''FailedPrecondition'' ''volume is still staged'')
               else DeleteAndConfirm polls volumes VolumeCall volume_name volume))"

record ValidateRequest =
  vv_VolumeId :: string
  vv_VolumeContext :: params
  vv_VolumeCapabilities :: "VolumeCapability list"
  vv_Parameters :: params
  vv_Secrets :: params
  vv_MutableParameters :: params

text \<open>The answer is a message, or the capabilities and parameters that were confirmed.\<close>

definition ValidateVolumeCapabilities ::
  "bool \<Rightarrow> ValidateRequest \<Rightarrow> (string + VolumeCapability list \<times> params) io" where
  "ValidateVolumeCapabilities zeroEq req =
     bindE (liftE (ValidateVolumeID (vv_VolumeId req))) (\<lambda>name.
     thenE (returnErr (ValidateVolumeContext (vv_VolumeContext req)))
     (if length (vv_VolumeCapabilities req) = 0 then fail (InvalidArgument ''missing capability to verify'')
      else if length (vv_Secrets req) > 0 then fail (InvalidArgument ''unexpected secrets'')
      else if length (vv_MutableParameters req) > 0
        then fail (InvalidArgument ''no mutable parameters supported'')
      else
        bindE (attempt (volume_get name)) (\<lambda>got.
          case got of
            Inl err \<Rightarrow> if err = ErrNotFound then fail (NotFound ''volume not found'') else fail err
          | Inr volume \<Rightarrow>
              let msg = validateVolume zeroEq volume (vs_SizeBytes (v_Spec volume)) 0 None
                          (vv_VolumeCapabilities req) (vv_Parameters req)
              in ret (if msg \<noteq> [] then Inl msg
                      else Inr (vv_VolumeCapabilities req, copyKnownParameters (vv_Parameters req))))))"

definition expand_once ::
  "bool \<Rightarrow> string \<Rightarrow> int \<Rightarrow> VolumeCapability option \<Rightarrow> Volume io" where
  "expand_once zeroEq name capacity capability =
     bindE (attempt (volume_get name)) (\<lambda>got.
       case got of
         Inl err \<Rightarrow> if err = ErrNotFound then fail (NotFound ''volume does not exist'') else fail err
       | Inr volume \<Rightarrow>
           (let msg = (case capability of None \<Rightarrow> []
                       | Some c \<Rightarrow> validateCapabilities zeroEq volume [c])
            in if msg \<noteq> [] then fail (InvalidArgument msg)
               else if vs_Mode (v_Spec volume) = VolumeModeLinear \<and>
                       length (vs_AttachToNodes (v_Spec volume)) +
                         length (vst_AttachedToNodes (v_Status volume)) > 0
                 then fail (GrpcStatus ''FailedPrecondition'' ''linear volume can only be expanded offline'')
               else if vt_Filesystem (vs_Type (v_Spec volume)) \<noteq> None
                 then fail (GrpcStatus ''Unimplemented'' ''filesystem expansion not implemented yet'')
               else if capacity > vs_SizeBytes (v_Spec volume)
                 then volume_update (volume\<lparr>v_Spec := (v_Spec volume)\<lparr>vs_SizeBytes := capacity\<rparr>\<rparr>)
               else ret volume))"

definition ControllerExpandVolume ::
  "bool \<Rightarrow> nat \<Rightarrow> string \<Rightarrow> (64 word \<times> 64 word) option \<Rightarrow> params \<Rightarrow> VolumeCapability option \<Rightarrow> int io" where
  "ControllerExpandVolume zeroEq polls volumeId capacityRange secrets capability =
     bindE (liftE (ValidateVolumeID volumeId)) (\<lambda>name.
     bindE (liftE (validateCapacity capacityRange defaultExtentSize)) (\<lambda>(capacity, limit).
       if length secrets > 0 then fail (InvalidArgument ''unexpected secrets'')
       else
         thenE (case capability of None \<Rightarrow> ret () | Some c \<Rightarrow> returnErr (ValidateVolumeCapability c))
         (bindE (RetryOnConflict 5 (expand_once zeroEq name (sint capacity) capability)) (\<lambda>volume.
          bindE (WatchVolumeUntil polls volume (\<lambda>volume. sint capacity \<le> vst_SizeBytes (v_Status volume)))
            (\<lambda>volume. ret (vst_SizeBytes (v_Status volume)))))))"

section \<open>Listing\<close>

record volume_entry =
  en_CapacityBytes :: int
  en_VolumeId :: string
  en_Abnormal :: bool
  en_Message :: string
  en_PublishedNodeIds :: "string list"

definition list_volume_entry :: "Volume \<Rightarrow> volume_entry" where
  "list_volume_entry volume =
     (let (abnormal, message) =
            (case FindStatusCondition (vst_Conditions (v_Status volume)) Abnormal of
               None \<Rightarrow> (False, ''Volume is operational'')
             | Some cond \<Rightarrow> if c_Status cond = ConditionTrue then (True, c_Message cond)
                             else (False, ''Volume is operational''))
      in \<lparr>en_CapacityBytes = vst_SizeBytes (v_Status volume), en_VolumeId = volume_name volume,
          en_Abnormal = abnormal, en_Message = message,
          en_PublishedNodeIds = vst_AttachedToNodes (v_Status volume)\<rparr>)"

definition Aborted :: "string \<Rightarrow> goerr" where
  "Aborted msg = GrpcStatus ''Aborted'' msg"

text \<open>The token names a position in a list of the given length.\<close>

definition parse_token :: "nat \<Rightarrow> string \<Rightarrow> string \<Rightarrow> goerr + int" where
  "parse_token len what token =
     (if token = [] then (if len \<noteq> 0 \<and> 0 \<ge> int len then Inl (Aborted what) else Inr 0)
      else
        (case parse_int 64 token of
           None \<Rightarrow> Inl (Aborted ''StartingToken does not match a token returned by an earlier call'')
         | Some n \<Rightarrow>
             if n < 0 then Inl (Aborted ''StartingToken does not match a token returned by an earlier call'')
             else if n \<ge> int len \<and> len \<noteq> 0 then Inl (Aborted what)
             else Inr n))"

definition max_entries :: "nat \<Rightarrow> int \<Rightarrow> goerr + int" where
  "max_entries len requested =
     (if requested < 0 then Inl (InvalidArgument ''MaxEntries cannot be negative'')
      else if requested = 0 then Inr (int len)
      else Inr requested)"

text \<open>Sums and differences of Go's int, and the allocation of a slice of a given capacity.\<close>

definition wrap64 :: "int \<Rightarrow> int" where
  "wrap64 i = sint (word_of_int i :: 64 word)"

definition volume_page :: "'a list \<Rightarrow> string \<Rightarrow> int \<Rightarrow> goerr + 'a list \<times> string" where
  "volume_page items token requested =
     (let len = length items
      in case parse_token len ''No volume at StartingToken'' token of
           Inl err \<Rightarrow> Inl err
         | Inr startingToken \<Rightarrow>
             (case max_entries len requested of
                Inl err \<Rightarrow> Inl err
              | Inr maxEntries \<Rightarrow>
                  (let endToken = (if wrap64 (startingToken + maxEntries) < int len
                                   then wrap64 (startingToken + maxEntries) else int len)
                   in if wrap64 (endToken - startingToken) < 0
                        then Inl (Panic ''makeslice: cap out of range'')
                      else Inr (map (\<lambda>i. items ! nat i) [startingToken..endToken - 1],
                                if endToken = int len then [] else show_int endToken))))"

definition ListVolumes :: "string \<Rightarrow> int \<Rightarrow> (volume_entry list \<times> string) io" where
  "ListVolumes startingToken maxEntries =
     bindE (api_list volumes VolumeCall) (\<lambda>items.
     bindE (liftE (volume_page items startingToken maxEntries)) (\<lambda>(page, nextToken).
       ret (map list_volume_entry page, nextToken)))"

definition ControllerGetVolume :: "string \<Rightarrow> volume_entry io" where
  "ControllerGetVolume volumeId =
     bindE (liftE (ValidateVolumeID volumeId)) (\<lambda>name.
     bindE (attempt (volume_get name)) (\<lambda>got.
       case got of
         Inl err \<Rightarrow> if err = ErrNotFound then fail (NotFound (volumeId @ '' does not exist'')) else fail err
       | Inr volume \<Rightarrow> ret (list_volume_entry volume)))"

section \<open>Capacities\<close>

lemma wrap64_id: "- (2 ^ 63) \<le> i \<Longrightarrow> i < 2 ^ 63 \<Longrightarrow> wrap64 i = i"
  using sint_sbintrunc' [where 'a = 64, of i] by (simp add: wrap64_def signed_take_bit_int_eq_self)

lemma wrap64_period: "wrap64 i = wrap64 (i - 2 ^ 64)"
proof -
  have "word_of_int (i - 2 ^ 64) = (word_of_int i - word_of_int (2 ^ 64) :: 64 word)"
    by (rule wi_hom_sub [symmetric])
  moreover have "word_of_int (2 ^ 64) = (0 :: 64 word)" by simp
  ultimately show ?thesis by (simp only: wrap64_def diff_0_right)
qed

lemma sint_ops:
  "sint (a + b :: 64 word) = wrap64 (sint a + sint b)"
  "sint (a - b :: 64 word) = wrap64 (sint a - sint b)"
  "sint (a * b :: 64 word) = wrap64 (sint a * sint b)"
  "sint (word_div a b) = wrap64 (go_div (sint a) (sint b))"
  by (simp_all add: wrap64_def word_div_def)

lemma sint_bounds: "- (2 ^ 63) \<le> sint (a :: 64 word) \<and> sint a < 2 ^ 63"
  using sint_ge [of a] sint_lt [of a] by simp

lemma sint_extent [simp]: "sint defaultExtentSize = 4194304"
  by (simp add: defaultExtentSize_def)

lemma sint_gigabyte [simp]: "sint gigabyte = 1073741824"
  by (simp add: gigabyte_def)

lemma sint_zero_iff: "a = 0 \<longleftrightarrow> sint (a :: 64 word) = 0"
  by (metis signed_0 signed_word_eqI)

text \<open>Sums and roundings that stay within the width are those of the integers.\<close>

lemma sint_add_extent:
  assumes "0 \<le> sint a"
  shows "sint (a + defaultExtentSize - 1) =
    (if sint a + 4194303 < 2 ^ 63 then sint a + 4194303 else sint a + 4194303 - 2 ^ 64)"
proof -
  have less: "sint a < 2 ^ 63" using sint_bounds [of a] by simp
  have eq: "a + defaultExtentSize - 1 = a + 4194303" by (simp add: defaultExtentSize_def)
  have "wrap64 (sint a + 4194303) = sint a + 4194303 - 2 ^ 64" if "2 ^ 63 \<le> sint a + 4194303"
  proof -
    have "wrap64 (sint a + 4194303) = wrap64 (sint a + 4194303 - 2 ^ 64)"
      by (rule wrap64_period)
    with that less show ?thesis by (simp add: wrap64_id)
  qed
  with assms less show ?thesis
    by (simp add: eq sint_ops(1) wrap64_id)
qed

lemma sint_round_extent:
  assumes "0 \<le> sint a"
  shows "sint (word_div a defaultExtentSize * defaultExtentSize) = sint a div 4194304 * 4194304"
proof -
  have less: "sint a < 2 ^ 63" using sint_bounds [of a] by simp
  have "sint a div 4194304 * 4194304 \<le> sint a" "0 \<le> sint a div 4194304 * 4194304"
       "sint a div 4194304 \<le> sint a" "0 \<le> sint a div 4194304"
    using assms by simp_all
  then show ?thesis using assms less by (simp add: sint_ops wrap64_id)
qed


definition least_extent :: "int \<Rightarrow> int" where
  "least_extent r = (r + 4194303) div 4194304 * 4194304"

lemma validateCapacity_iff:
  "validateCapacity (Some (r, l)) defaultExtentSize = Inr (c, limit) \<longleftrightarrow>
     limit = l \<and> 0 \<le> sint r \<and> 0 \<le> sint l \<and> (sint r \<noteq> 0 \<or> sint l \<noteq> 0) \<and>
     (sint l \<noteq> 0 \<longrightarrow> sint r \<le> sint l) \<and> sint r + 4194303 < 2 ^ 63 \<and>
     sint c = (if sint r = 0 then sint l div 4194304 * 4194304 else least_extent (sint r)) \<and>
     (sint r \<noteq> 0 \<and> sint l \<noteq> 0 \<longrightarrow> least_extent (sint r) \<le> sint l)"
  (is "_ \<longleftrightarrow> ?R")
proof (cases "0 \<le> sint r \<and> 0 \<le> sint l \<and> (sint r \<noteq> 0 \<or> sint l \<noteq> 0) \<and>
    (sint l \<noteq> 0 \<longrightarrow> sint r \<le> sint l) \<and> sint r + 4194303 < 2 ^ 63")
  case False
  then show ?thesis
    using sint_bounds [of r]
    by (auto simp: validateCapacity_def Let_def word_sless_alt sint_zero_iff [of r] sint_zero_iff [of l]
        sint_add_extent split: if_splits)
next
  case True
  let ?r' = "r + defaultExtentSize - 1"
  have r': "sint ?r' = sint r + 4194303" using True by (simp add: sint_add_extent)
  have lo: "sint (word_div ?r' defaultExtentSize * defaultExtentSize) = least_extent (sint r)"
    using True by (simp add: sint_round_extent r' least_extent_def)
  have hi: "sint (word_div (if l = 0 then ?r' else l) defaultExtentSize * defaultExtentSize) =
      (if sint l = 0 then least_extent (sint r) else sint l div 4194304 * 4194304)"
    using True lo by (auto simp: sint_round_extent sint_zero_iff [of l])
  have ge: "sint l div 4194304 * 4194304 < least_extent (sint r) \<longleftrightarrow> sint l < least_extent (sint r)"
    using round_down(2) [of 4194304 "sint l"] round_down(4) [of 4194304 "least_extent (sint r)" "sint l"]
    by (force simp: least_extent_def not_less)
  have z: "least_extent (sint r) = 0 \<longleftrightarrow> sint r = 0"
    using True round_up [of 4194304 "sint r"] by (auto simp: least_extent_def)
  have eq: "x = y \<longleftrightarrow> sint x = sint y" for x y :: "64 word" by (metis signed_word_eqI)
  have "validateCapacity (Some (r, l)) defaultExtentSize =
    (let minCapacity = word_div ?r' defaultExtentSize * defaultExtentSize;
         maxCapacity = word_div (if l = 0 then ?r' else l) defaultExtentSize * defaultExtentSize
     in if minCapacity = 0 then Inr (maxCapacity, l)
        else if maxCapacity <s minCapacity
        then Inl (OutOfRange ''capacity must allow for a multiple of the extent size'')
        else Inr (minCapacity, l))"
    using True r' by (auto simp: validateCapacity_def Let_def word_sless_alt sint_zero_iff)
  also have "\<dots> = Inr (c, limit) \<longleftrightarrow> ?R"
    unfolding Let_def word_sless_alt lo hi sint_zero_iff [of "word_div ?r' defaultExtentSize * defaultExtentSize"]
    using True ge z by (auto simp: eq [of _ c] eq [of c] lo hi not_less)
  finally show ?thesis .
qed

section \<open>Pages\<close>

text \<open>A page from a position of the list; position 0 is also named by the empty token.\<close>

definition token_at :: "nat \<Rightarrow> string" where
  "token_at k = (if k = 0 then '''' else show_int (int k))"

lemma parse_token_at:
  assumes "k < len \<or> k = 0" and "k < 2 ^ 63"
  shows "parse_token len what (token_at k) = Inr (int k)"
proof -
  have "int k < 2 ^ 63" using assms(2) by (metis of_nat_less_iff of_nat_numeral of_nat_power)
  then have "parse_int 64 (show_int (int k)) = Some (int k)" by (intro parse_show_int) auto
  then show ?thesis using assms(1) by (auto simp: parse_token_def token_at_def)
qed

lemma map_nth_upto:
  assumes "k \<le> e" and "e \<le> length items"
  shows "map (\<lambda>i. items ! nat i) [int k..int e - 1] = take (e - k) (drop k items)"
proof (rule nth_equalityI)
  fix i assume "i < length (map (\<lambda>i. items ! nat i) [int k..int e - 1])"
  then have "i < e - k" by simp
  then show "map (\<lambda>i. items ! nat i) [int k..int e - 1] ! i = take (e - k) (drop k items) ! i"
    using assms nth_upto [of "int k" i "int e - 1"] by (simp add: nat_add_distrib)
qed (use assms in simp)

definition page_end :: "nat \<Rightarrow> nat \<Rightarrow> nat \<Rightarrow> nat" where
  "page_end len requested k = (if requested = 0 then len else min (k + requested) len)"

lemma volume_page_at:
  assumes "k < length items \<or> k = 0" and "length items < 2 ^ 62" and "requested < 2 ^ 31"
  shows "volume_page items (token_at k) (int requested) =
    (let e = page_end (length items) requested k
     in Inr (take (e - k) (drop k items), if e = length items then '''' else token_at e))"
proof -
  let ?len = "length items"
  let ?m = "if requested = 0 then ?len else requested"
  let ?e = "page_end ?len requested k"
  have "k \<le> ?len" using assms(1) by auto
  have k: "k < 2 ^ 63" using \<open>k \<le> ?len\<close> assms(2) by simp
  have tok: "parse_token ?len ''No volume at StartingToken'' (token_at k) = Inr (int k)"
    using parse_token_at [OF assms(1) k] .
  have max: "max_entries ?len (int requested) = Inr (int ?m)" by (simp add: max_entries_def)
  have "k + ?m < 2 ^ 63" using assms(2,3) \<open>k \<le> ?len\<close> by auto
  then have "int (k + ?m) < 2 ^ 63" by (metis of_nat_less_iff of_nat_numeral of_nat_power)
  then have w: "wrap64 (int k + int ?m) = int (k + ?m)" by (simp add: wrap64_id)
  have e: "(if int (k + ?m) < int ?len then int (k + ?m) else int ?len) = int ?e"
    by (auto simp: page_end_def min_def)
  have ke: "k \<le> ?e" "?e \<le> ?len" using \<open>k \<le> ?len\<close> by (auto simp: page_end_def)
  have "int ?e < 2 ^ 63" using ke assms(2) by simp
  then have d: "wrap64 (int ?e - int k) = int ?e - int k" using ke by (simp add: wrap64_id)
  have z: "?e \<noteq> 0 \<or> ?e = ?len" using assms(1) by (auto simp: page_end_def)
  show ?thesis
    unfolding volume_page_def Let_def tok max sum.case w e d
    using ke z map_nth_upto [OF ke] by (auto simp: token_at_def)
qed

text \<open>A caller that asks for page after page; at most the given number of pages.\<close>

fun collect_pages :: "nat \<Rightarrow> (string \<Rightarrow> ('a list \<times> string) io) \<Rightarrow> string \<Rightarrow> 'a list io" where
  "collect_pages 0 page token = fail context_done"
| "collect_pages (Suc n) page token =
     bindE (page token) (\<lambda>(entries, nextToken).
       if nextToken = [] then ret entries
       else bindE (collect_pages n page nextToken) (\<lambda>rest. ret (entries @ rest)))"

lemma ListVolumes_at:
  assumes "\<And>h. cl_List (volumes E) h = Inr items"
    and "k < length items \<or> k = 0" and "length items < 2 ^ 62" and "requested < 2 ^ 31"
  shows "\<exists>w'. ListVolumes (token_at k) (int requested) E w =
    (let e = page_end (length items) requested k
     in (Inr (map list_volume_entry (take (e - k) (drop k items)),
              if e = length items then '''' else token_at e), w'))"
  using assms(1)
  by (simp add: ListVolumes_def api_list_def invoke_def bindE_def liftE_def Let_def ret_def
      volume_page_at [OF assms(2-4)])

lemma collect_volume_pages:
  assumes "\<And>h. cl_List (volumes E) h = Inr items"
    and "k < length items \<or> k = 0" and "length items < 2 ^ 62" and "requested < 2 ^ 31"
    and "length items - k < n"
  shows "fst (collect_pages n (\<lambda>token. ListVolumes token (int requested)) (token_at k) E w) =
    Inr (map list_volume_entry (drop k items))"
  using assms(2,5)
proof (induction n arbitrary: k w)
  case 0
  then show ?case by simp
next
  case (Suc n)
  let ?e = "page_end (length items) requested k"
  obtain w' where page: "ListVolumes (token_at k) (int requested) E w =
      (Inr (map list_volume_entry (take (?e - k) (drop k items)),
            if ?e = length items then '''' else token_at ?e), w')"
    using ListVolumes_at [OF assms(1) Suc.prems(1) assms(3,4), of w] by (auto simp: Let_def)
  show ?case
  proof (cases "?e = length items")
    case True
    then show ?thesis using page by (simp add: bindE_def ret_def)
  next
    case False
    then have e: "k < ?e" "?e < length items"
      using Suc.prems(1) by (auto simp: page_end_def min_def split: if_splits)
    then have "fst (collect_pages n (\<lambda>token. ListVolumes token (int requested)) (token_at ?e) E w') =
        Inr (map list_volume_entry (drop ?e items))"
      using Suc.prems(2) by (intro Suc.IH) auto
    moreover have "drop k items = take (?e - k) (drop k items) @ drop ?e items"
      using e by (metis append_take_drop_id drop_drop le_add_diff_inverse2 less_imp_le)
    moreover have "token_at ?e \<noteq> ''''" using e by (simp add: token_at_def)
    ultimately show ?thesis using page False
      by (auto simp: bindE_def ret_def map_append [symmetric] split: sum.splits prod.splits)
  qed
qed

section \<open>Waiting\<close>

lemma watch_polls_Inr:
  "watch_polls n get name_of condition x E w = (Inr y, w2) \<Longrightarrow> condition y"
  by (induction n arbitrary: x w) (auto simp: io_run split: if_splits)

lemma WatchVolumeUntil_Inr:
  "WatchVolumeUntil n v condition E w = (Inr y, w2) \<Longrightarrow> condition y"
  by (auto simp: WatchVolumeUntil_def dest: watch_polls_Inr split: if_splits)

text \<open>The watch returns as soon as one of the polls sees the condition.\<close>

lemma watch_polls_sees:
  assumes "i < n"
    and "cl_Get (sel E) (trace w @ replicate i (wrap (ApiGet name))) name = Inr y" and "condition y"
    and "\<And>j. j < i \<Longrightarrow>
      (case cl_Get (sel E) (trace w @ replicate j (wrap (ApiGet name))) name of
         Inl err \<Rightarrow> err = ErrNotFound | Inr z \<Rightarrow> name_of z = name)"
    and "name_of x = name"
  shows "\<exists>z w2. watch_polls n (api_get sel wrap) name_of condition x E w = (Inr z, w2) \<and> condition z"
  using assms
proof (induction n arbitrary: i w x)
  case 0
  then show ?case by simp
next
  case (Suc n)
  let ?got = "cl_Get (sel E) (trace w) name"
  let ?w = "after w (wrap (ApiGet name))"
  show ?case
  proof (cases i)
    case 0
    with Suc.prems show ?thesis by (auto simp: attempt_get)
  next
    case (Suc j)
    have now: "case ?got of Inl err \<Rightarrow> err = ErrNotFound | Inr z \<Rightarrow> name_of z = name"
      using Suc.prems(4) [of 0] Suc by simp
    have step: "trace ?w @ replicate k (wrap (ApiGet name)) = trace w @ replicate (Suc k) (wrap (ApiGet name))" for k
      by (simp add: after_def)
    have more: "\<exists>z w2. watch_polls n (api_get sel wrap) name_of condition x' E ?w = (Inr z, w2) \<and> condition z"
      if "name_of x' = name" for x'
      using Suc.prems Suc that by (intro Suc.IH [of j]) (auto simp: step simp del: replicate_Suc trace_after)
    show ?thesis
      using now more Suc.prems(5) by (auto simp: attempt_get split: sum.splits)
  qed
qed

section \<open>What creation does\<close>

text \<open>The sizes that answer a range, and the capacity chosen for it.\<close>

definition capacity_ok :: "(64 word \<times> 64 word) option \<Rightarrow> int \<Rightarrow> bool" where
  "capacity_ok capacityRange c =
     (case capacityRange of None \<Rightarrow> c = sint gigabyte
      | Some (r, l) \<Rightarrow> 4194304 dvd c \<and> sint r \<le> c \<and> (sint l \<noteq> 0 \<longrightarrow> c \<le> sint l))"

lemma least_extent:
  "4194304 dvd least_extent r" "r \<le> least_extent r" "least_extent r < r + 4194304"
  "4194304 dvd k \<Longrightarrow> r \<le> k \<Longrightarrow> least_extent r \<le> k"
  using round_up [of 4194304 r] by (auto simp: least_extent_def)

lemma validateCapacity_None:
  "validateCapacity None e = validateCapacity (Some (gigabyte, gigabyte)) e"
  by (simp add: validateCapacity_def)

lemma validateCapacity_sound:
  assumes "validateCapacity capacityRange defaultExtentSize = Inr (c, limit)"
  shows "capacity_ok capacityRange (sint c)"
    and "0 \<le> sint c" and "sint limit > 0 \<Longrightarrow> sint c \<le> sint limit"
proof -
  have *: "capacity_ok (Some (r, l)) (sint c) \<and> 0 \<le> sint c \<and> (sint limit > 0 \<longrightarrow> sint c \<le> sint limit)"
    if "validateCapacity (Some (r, l)) defaultExtentSize = Inr (c, limit)" for r l
    using that round_down [of 4194304 "sint l"] least_extent [of "sint r"]
    unfolding validateCapacity_iff capacity_ok_def by (auto split: if_splits)
  show "capacity_ok capacityRange (sint c)"
  proof (cases capacityRange)
    case None
    then show ?thesis
      using assms unfolding None validateCapacity_None validateCapacity_iff
      by (simp add: capacity_ok_def least_extent_def)
  next
    case (Some p)
    then show ?thesis using * assms by (cases p) simp
  qed
  show "0 \<le> sint c" and "sint limit > 0 \<Longrightarrow> sint c \<le> sint limit"
    using * assms by (cases capacityRange; auto simp: validateCapacity_None)+
qed

definition create_call :: "CreateVolumeRequest \<Rightarrow> env \<Rightarrow> call \<Rightarrow> bool" where
  "create_call req E c =
     (case c of
        VolumeCall (ApiGet n) \<Rightarrow> True
      | SnapshotCall (ApiGet n) \<Rightarrow> True
      | VolumeCall (ApiCreate v) \<Rightarrow>
          om_Name (v_Meta v) = SafeName (cv_Name req) ''pvc'' \<and>
          has_finalizer Finalizer (v_Meta v) \<and>
          vs_VgName (v_Spec v) = param (cv_Parameters req) ''lvmVolumeGroup'' \<and>
          vs_VgName (v_Spec v) \<noteq> [] \<and>
          capacity_ok (cv_CapacityRange req) (vs_SizeBytes (v_Spec v)) \<and>
          vs_AttachToNodes (v_Spec v) = []
      | _ \<Rightarrow> False)"

lemma emits_watch_polls:
  "(\<And>x. emits P (get (name_of x))) \<Longrightarrow> emits P (watch_polls n get name_of condition x)"
  by (induction n arbitrary: x) (auto intro!: emits_intros)

lemma emits_getVolumeContents: "emits (create_call req) (getVolumeContents req vgName limit volumeType)"
  unfolding getVolumeContents_def volume_get_def
  by (auto intro!: emits_intros simp: create_call_def split: option.split content_source.split)

lemma emits_CreateVolume: "emits (create_call req) (CreateVolume zeroEq polls req)"
  unfolding CreateVolume_def WatchVolumeUntil_def Let_def volume_get_def
  apply (intro emits_bind_liftE emits_intros emits_watch_polls emits_getVolumeContents)
  apply (auto simp: create_call_def new_Volume_def new_meta_def dest: validateCapacity_sound(1))
  done

text \<open>A volume the server gave in an answer between two moments.\<close>

definition answered :: "env \<Rightarrow> world \<Rightarrow> world \<Rightarrow> Volume \<Rightarrow> bool" where
  "answered E w w2 v \<longleftrightarrow>
     (\<exists>h c rest. prefix (trace w) h \<and> trace w2 = h @ c # rest \<and>
        ((\<exists>n. c = VolumeCall (ApiGet n) \<and> cl_Get (volumes E) h n = Inr v) \<or>
         (\<exists>x. c = VolumeCall (ApiCreate x) \<and> cl_Create (volumes E) h x = Inr v) \<or>
         (\<exists>x. c = VolumeCall (ApiUpdate x) \<and> cl_Update (volumes E) h x = Inr v)))"

lemma answered_mono:
  "answered E w1 w2 v \<Longrightarrow> prefix (trace w) (trace w1) \<Longrightarrow> prefix (trace w2) (trace w3) \<Longrightarrow> answered E w w3 v"
  unfolding answered_def
proof (elim exE conjE)
  fix h c rest
  assume w: "prefix (trace w) (trace w1)" "prefix (trace w2) (trace w3)"
    and h: "prefix (trace w1) h" "trace w2 = h @ c # rest"
    and c: "(\<exists>n. c = VolumeCall (ApiGet n) \<and> cl_Get (volumes E) h n = Inr v) \<or>
      (\<exists>x. c = VolumeCall (ApiCreate x) \<and> cl_Create (volumes E) h x = Inr v) \<or>
      (\<exists>x. c = VolumeCall (ApiUpdate x) \<and> cl_Update (volumes E) h x = Inr v)"
  from w(2) h(2) obtain more where "trace w3 = h @ c # (rest @ more)" by (auto elim: prefixE)
  moreover have "prefix (trace w) h" using w(1) h(1) by (rule prefix_order.trans)
  ultimately show "\<exists>h c rest. prefix (trace w) h \<and> trace w3 = h @ c # rest \<and>
      ((\<exists>n. c = VolumeCall (ApiGet n) \<and> cl_Get (volumes E) h n = Inr v) \<or>
       (\<exists>x. c = VolumeCall (ApiCreate x) \<and> cl_Create (volumes E) h x = Inr v) \<or>
       (\<exists>x. c = VolumeCall (ApiUpdate x) \<and> cl_Update (volumes E) h x = Inr v))"
    using c by blast
qed

lemma emits_prefix: "emits P m \<Longrightarrow> m E w = (r, w2) \<Longrightarrow> prefix (trace w) (trace w2)"
  unfolding emits_def prefix_def by (metis snd_conv)

lemma answered_get: "volume_get n E w = (Inr v, w2) \<Longrightarrow> answered E w w2 v"
  unfolding answered_def volume_get_def api_get_def
  by (auto simp: invoke_iff intro!: exI [of _ "trace w"])

lemma answered_create: "api_create volumes VolumeCall x E w = (Inr v, w2) \<Longrightarrow> answered E w w2 v"
  unfolding answered_def api_create_def
  by (auto simp: invoke_iff intro!: exI [of _ "trace w"])

lemma emits_volume_get: "emits (\<lambda>E c. True) (volume_get n)"
  by (simp add: volume_get_def emits_intros)

lemma emits_watch_volume: "emits (\<lambda>E c. True) (watch_polls n volume_get name_of condition x)"
  by (intro emits_watch_polls emits_volume_get)

lemma watch_polls_answered:
  "watch_polls n volume_get name_of condition x E w = (Inr y, w2) \<Longrightarrow> answered E w w2 y"
proof (induction n arbitrary: x w)
  case 0
  then show ?case by simp
next
  case (Suc n)
  then obtain got w1 where g: "volume_get (name_of x) E w = (got, w1)"
    and k: "(case got of Inl err \<Rightarrow> if err = ErrNotFound then watch_polls n volume_get name_of condition x else fail err
       | Inr object \<Rightarrow> if condition object then ret object else watch_polls n volume_get name_of condition object) E w1 = (Inr y, w2)"
    by (auto simp: bindE_Inr_iff attempt_iff)
  have p: "prefix (trace w) (trace w1)" using emits_prefix [OF emits_volume_get g] .
  show ?case
  proof (cases "\<exists>z. watch_polls n volume_get name_of condition z E w1 = (Inr y, w2)")
    case True
    then obtain z where "watch_polls n volume_get name_of condition z E w1 = (Inr y, w2)" by blast
    then have "answered E w1 w2 y" by (rule Suc.IH)
    then show ?thesis using p answered_mono by blast
  next
    case False
    with k g show ?thesis by (auto simp: answered_get split: sum.splits if_splits)
  qed
qed

lemma watch_volume_answered:
  assumes "WatchVolumeUntil n v condition E w1 = (Inr y, w2)" and "answered E w w1 v"
    and "prefix (trace w) (trace w1)"
  shows "answered E w w2 y \<and> condition y"
proof -
  have "answered E w w2 y"
  proof (cases "condition v")
    case True
    then show ?thesis using assms by (simp add: WatchVolumeUntil_def)
  next
    case False
    then have "watch_polls n volume_get volume_name condition v E w1 = (Inr y, w2)"
      using assms(1) by (simp add: WatchVolumeUntil_def)
    then show ?thesis using assms(3) watch_polls_answered answered_mono by blast
  qed
  then show ?thesis using assms(1) WatchVolumeUntil_Inr by blast
qed

text \<open>A volume is reported created once an answer showed it available.\<close>

lemma CreateVolume_Inr:
  assumes "CreateVolume zeroEq polls req E w = (Inr resp, w2)"
  shows "cr_VolumeId resp = SafeName (cv_Name req) ''pvc''"
    and "capacity_ok (cv_CapacityRange req) (cr_CapacityBytes resp)"
    and "\<exists>v. answered E w w2 v \<and> volume_is v Available"
proof -
  have created_answered: "\<exists>v. answered E w w2 v \<and> volume_is v Available"
    if "getVolumeContents req vg limit vt E w = (Inr contents, w1)"
      and "api_create volumes VolumeCall x E w1 = (Inr v, w3)"
      and "WatchVolumeUntil polls v (\<lambda>volume. volume_is volume Available) E w3 = (Inr y, w2)"
    for vg limit vt contents w1 x v w3 y
  proof -
    have "prefix (trace w) (trace w1)" using that(1) by (rule emits_prefix [OF emits_getVolumeContents])
    moreover have "prefix (trace w1) (trace w3)"
      using that(2) by (auto simp: api_create_def invoke_iff)
    ultimately show ?thesis
      using watch_volume_answered [OF that(3)] answered_mono [OF answered_create [OF that(2)]]
      by (meson prefix_order.refl prefix_order.trans)
  qed
  have found_answered: "\<exists>v. answered E w w2 v \<and> volume_is v Available"
    if "getVolumeContents req vg limit vt E w = (Inr contents, w1)"
      and "api_create volumes VolumeCall x E w1 = (Inl ErrAlreadyExists, w3)"
      and "volume_get n E w3 = (Inr v, w4)"
      and "WatchVolumeUntil polls v (\<lambda>volume. volume_is volume Available) E w4 = (Inr y, w2)"
    for vg limit vt contents w1 x v w3 y n w4
  proof -
    have "prefix (trace w) (trace w1)" using that(1) by (rule emits_prefix [OF emits_getVolumeContents])
    moreover have "prefix (trace w1) (trace w3)"
      using that(2) by (auto simp: api_create_def invoke_iff)
    moreover have "prefix (trace w3) (trace w4)" using that(3) by (rule emits_prefix [OF emits_volume_get])
    ultimately show ?thesis
      using watch_volume_answered [OF that(4)] answered_mono [OF answered_get [OF that(3)]]
      by (meson prefix_order.refl prefix_order.trans)
  qed
  show "cr_VolumeId resp = SafeName (cv_Name req) ''pvc''"
    using assms unfolding CreateVolume_def Let_def if_run case_prod_run io_run by auto
  show "capacity_ok (cv_CapacityRange req) (cr_CapacityBytes resp)"
    using assms unfolding CreateVolume_def Let_def if_run case_prod_run io_run
    by (auto dest: validateCapacity_sound(1))
  show "\<exists>v. answered E w w2 v \<and> volume_is v Available"
    using assms unfolding CreateVolume_def Let_def if_run case_prod_run io_run
    apply (auto split: sum.splits if_splits)
    apply (erule (3) found_answered)
    apply (erule (2) created_answered)
    done
qed

section \<open>A repeated creation\<close>

lemma getVolumeType_loop_exclusive:
  "getVolumeType_loop zeroEq cs first b m = Inr (Some vt) \<Longrightarrow>
    (\<And>v. first = Some v \<Longrightarrow> (vt_Block v = None) \<noteq> (vt_Filesystem v = None)) \<Longrightarrow>
    (vt_Block vt = None) \<noteq> (vt_Filesystem vt = None)"
  by (induction zeroEq cs first b m rule: getVolumeType_loop.induct)
    (auto split: access_type.splits option.splits if_splits)

lemma getVolumeType_exclusive:
  "getVolumeType zeroEq cs = Inr vt \<Longrightarrow> (vt_Block vt = None) \<noteq> (vt_Filesystem vt = None)"
  by (auto simp: getVolumeType_def dest: getVolumeType_loop_exclusive split: sum.splits option.splits)

lemma getVolumeContents_self:
  "getVolumeContents req vg limit vt E w = (Inr contents, w2) \<Longrightarrow> same_contents contents contents"
  by (cases "cv_VolumeContentSource req"; (cases "the (cv_VolumeContentSource req)")?)
    (auto simp: getVolumeContents_def no_contents_def same_contents_def io_run)

text \<open>A volume that has the specification of the request is compatible with the request.\<close>

lemma validateVolume_own:
  assumes "om_DeletionTimestamp (v_Meta volume) = None"
    and "v_Spec volume = \<lparr>vs_VgName = param parameters ''lvmVolumeGroup'', vs_Binding = binding,
      vs_Mode = mode, vs_WipePolicy = policy, vs_Type = vt, vs_Contents = contents,
      vs_AccessModes = modes, vs_SizeBytes = sint c, vs_AttachToNodes = attached\<rparr>"
    and "getVolumeMode parameters = Inr mode" and "getWipePolicy parameters = Inr policy"
    and "getVolumeType zeroEq capabilities = Inr vt" and "getVolumeAccessModes capabilities = Inr modes"
    and "validateCapacity capacityRange defaultExtentSize = Inr (c, limit)"
    and "same_contents contents contents"
  shows "validateVolume zeroEq volume (sint c) (sint limit) (Some contents) capabilities parameters = []"
proof -
  have "\<not> (sint limit > 0 \<and> sint limit < sint c)"
    using validateCapacity_sound(3) [OF assms(7)] by auto
  then show ?thesis
    using assms(1-6,8) getVolumeType_exclusive [OF assms(5)]
    by (auto simp: validateVolume_def validateCapabilities_def Let_def list_ex_iff)
qed

section \<open>Types of capabilities\<close>

lemma getVolumeType_two_mounts:
  "getVolumeType zeroEq [\<lparr>cap_AccessType = AccessMount fsType flags, cap_AccessMode = m\<rparr>,
     \<lparr>cap_AccessType = AccessMount fsType flags, cap_AccessMode = m2\<rparr>] =
   Inl (InvalidArgument ''inconsistent volume capabilities'')"
  by (simp add: getVolumeType_def)

lemma getVolumeType_single:
  "getVolumeType zeroEq [c] =
    (case cap_AccessType c of
       AccessBlock \<Rightarrow> Inr \<lparr>vt_Block = Some (), vt_Filesystem = None\<rparr>
     | AccessMount fsType flags \<Rightarrow>
         Inr \<lparr>vt_Block = None, vt_Filesystem = Some \<lparr>fs_FsType = fsType, fs_MountOptions = flags\<rparr>\<rparr>
     | AccessUnset \<Rightarrow> Inl (InvalidArgument ''invalid volume capabilities''))"
  by (auto simp: getVolumeType_def split: access_type.split)

section \<open>Deletion\<close>

definition delete_call :: "string \<Rightarrow> env \<Rightarrow> call \<Rightarrow> bool" where
  "delete_call name E c =
     (case c of
        VolumeCall (ApiGet n) \<Rightarrow> True
      | VolumeCall (ApiDelete v policy) \<Rightarrow>
          vs_AttachToNodes (v_Spec v) = [] \<and> policy = Some ''Foreground''
      | _ \<Rightarrow> False)"

lemma emits_confirm_deleted: "emits P get \<Longrightarrow> emits P (confirm_deleted n get)"
  by (induction n) (auto intro!: emits_intros)

lemma emits_DeleteVolume: "emits (delete_call name) (DeleteVolume polls volumeId secrets)"
  unfolding DeleteVolume_def DeleteAndConfirm_def volume_get_def
  by (auto intro!: emits_intros emits_confirm_deleted simp: delete_call_def)

text \<open>Success means that the server answered that the object does not exist.\<close>

definition reported_gone ::
  "(env \<Rightarrow> 'o api_client) \<Rightarrow> ('o api_call \<Rightarrow> call) \<Rightarrow> ('o \<Rightarrow> string) \<Rightarrow>
    env \<Rightarrow> world \<Rightarrow> world \<Rightarrow> string \<Rightarrow> bool" where
  "reported_gone sel wrap name_of E w w2 name \<longleftrightarrow>
     (\<exists>h c. prefix (trace w) h \<and> trace w2 = h @ [c] \<and>
        ((c = wrap (ApiGet name) \<and> cl_Get (sel E) h name = Inl ErrNotFound) \<or>
         (\<exists>x p. c = wrap (ApiDelete x p) \<and> name_of x = name \<and> cl_Delete (sel E) h x = Some ErrNotFound)))"

lemma confirm_deleted_Inr:
  "confirm_deleted n (api_get sel wrap name) E w1 = (Inr u, w2) \<Longrightarrow>
    prefix (trace w) (trace w1) \<Longrightarrow> reported_gone sel wrap name_of E w w2 name"
proof (induction n arbitrary: w1)
  case 0
  then show ?case by simp
next
  case (Suc n)
  then show ?case
    by (auto simp: attempt_get reported_gone_def split: sum.splits if_splits)
qed

lemma DeleteAndConfirm_Inr:
  assumes "DeleteAndConfirm polls sel wrap name_of x E w1 = (Inr u, w2)"
    and "prefix (trace w) (trace w1)"
  shows "reported_gone sel wrap name_of E w w2 (name_of x)"
proof -
  obtain deleted where d: "api_delete sel wrap x (Some ''Foreground'') E w1 = (deleted, after w1 (wrap (ApiDelete x (Some ''Foreground''))))"
    and d2: "deleted = from_err (cl_Delete (sel E) (trace w1) x)"
    by (simp add: api_delete_def invoke_def after_def)
  show ?thesis
  proof (cases deleted)
    case (Inl err)
    then have "err = ErrNotFound" "w2 = after w1 (wrap (ApiDelete x (Some ''Foreground'')))"
      using assms(1) d by (auto simp: DeleteAndConfirm_def bindE_def attempt_def IgnoreNotFound_def
          returnErr_def fail_def ret_def split: if_splits)
    moreover have "cl_Delete (sel E) (trace w1) x = Some err"
      using d2 Inl by (simp add: from_err_def split: option.splits)
    ultimately show ?thesis using assms(2) by (auto simp: reported_gone_def)
  next
    case (Inr v)
    then have "confirm_deleted polls (api_get sel wrap (name_of x)) E
        (after w1 (wrap (ApiDelete x (Some ''Foreground'')))) = (Inr u, w2)"
      using assms(1) d by (simp add: DeleteAndConfirm_def bindE_def attempt_def)
    then show ?thesis using assms(2) by (auto intro: confirm_deleted_Inr)
  qed
qed

lemma validateID_Inr: "validateID ident category = Inr n \<Longrightarrow> n = ident"
  by (auto simp: validateID_def split: if_splits)

lemma DeleteVolume_Inr:
  assumes "DeleteVolume polls volumeId secrets E w = (Inr u, w2)"
    and "\<And>h v. cl_Get (volumes E) h volumeId = Inr v \<Longrightarrow> volume_name v = volumeId"
  shows "reported_gone volumes VolumeCall volume_name E w w2 volumeId"
proof -
  obtain got where got: "got = cl_Get (volumes E) (trace w) volumeId"
    and run: "(case got of Inl err \<Rightarrow> if err = ErrNotFound then ret () else fail err
       | Inr volume \<Rightarrow> if vs_AttachToNodes (v_Spec volume) \<noteq> []
           then fail (GrpcStatus ''FailedPrecondition'' ''volume is still staged'')
           else DeleteAndConfirm polls volumes VolumeCall volume_name volume) E
        (after w (VolumeCall (ApiGet volumeId))) = (Inr u, w2)"
    using assms(1)
    by (auto simp: DeleteVolume_def volume_get_def bindE_Inr_iff [of "liftE r" for r] liftE_run
        ValidateVolumeID_def attempt_get dest!: validateID_Inr split: if_splits)
  show ?thesis
  proof (cases got)
    case (Inl err)
    with run have "err = ErrNotFound" "w2 = after w (VolumeCall (ApiGet volumeId))"
      by (auto split: if_splits)
    then show ?thesis using got Inl by (auto simp: reported_gone_def)
  next
    case (Inr v)
    with assms(2) got have "volume_name v = volumeId" by metis
    with run show ?thesis
      unfolding Inr sum.case using DeleteAndConfirm_Inr [of polls volumes VolumeCall volume_name v E _ u w2 w]
      by (auto split: if_splits)
  qed
qed

section \<open>Expansion\<close>

text \<open>
  An update only raises the size of an object that was read, and never that of a file system
  volume or of a linear volume that is in use.
\<close>

definition expand_call :: "string \<Rightarrow> int \<Rightarrow> env \<Rightarrow> call \<Rightarrow> bool" where
  "expand_call name capacity E c =
     (case c of
        VolumeCall (ApiGet n) \<Rightarrow> True
      | VolumeCall (ApiUpdate v2) \<Rightarrow>
          (\<exists>h v. cl_Get (volumes E) h name = Inr v \<and>
             v2 = v\<lparr>v_Spec := (v_Spec v)\<lparr>vs_SizeBytes := capacity\<rparr>\<rparr> \<and>
             vs_SizeBytes (v_Spec v) < capacity \<and>
             vt_Filesystem (vs_Type (v_Spec v)) = None \<and>
             (vs_Mode (v_Spec v) = VolumeModeLinear \<longrightarrow>
                vs_AttachToNodes (v_Spec v) = [] \<and> vst_AttachedToNodes (v_Status v) = []))
      | _ \<Rightarrow> False)"

lemma emits_expand_once: "emits (expand_call name capacity) (expand_once zeroEq name capacity capability)"
  unfolding emits_def
proof (intro allI)
  fix E :: env and w :: world
  let ?got = "cl_Get (volumes E) (trace w) name"
  let ?get = "VolumeCall (ApiGet name)"
  let ?new = "\<lambda>v. v\<lparr>v_Spec := (v_Spec v)\<lparr>vs_SizeBytes := capacity\<rparr>\<rparr>"
  have get: "expand_call name capacity E ?get" by (simp add: expand_call_def)
  have "trace (snd (expand_once zeroEq name capacity capability E w)) = trace w @ [?get] \<or>
    (\<exists>v. expand_call name capacity E (VolumeCall (ApiUpdate (?new v))) \<and>
      trace (snd (expand_once zeroEq name capacity capability E w)) =
        trace w @ [?get, VolumeCall (ApiUpdate (?new v))])"
  proof (cases ?got)
    case (Inl e)
    then show ?thesis by (simp add: expand_once_def volume_get_def attempt_get fail_def)
  next
    case (Inr v)
    then show ?thesis
      by (auto simp: expand_once_def volume_get_def attempt_get fail_def ret_def Let_def
          volume_update_def api_update_def invoke_def expand_call_def)
  qed
  then show "\<exists>cs. trace (snd (expand_once zeroEq name capacity capability E w)) = trace w @ cs \<and>
      (\<forall>c\<in>set cs. expand_call name capacity E c)"
    using get by (elim disjE exE conjE) auto
qed

lemma emits_ControllerExpandVolume:
  assumes "validateCapacity capacityRange defaultExtentSize = Inr (c, limit)"
  shows "emits (expand_call volumeId (sint c))
    (ControllerExpandVolume zeroEq polls volumeId capacityRange secrets capability)"
proof -
  have name: "ValidateVolumeID volumeId = Inr n \<Longrightarrow> n = volumeId" for n
    by (simp add: ValidateVolumeID_def validateID_Inr)
  have get: "emits (expand_call volumeId (sint c)) (volume_get n)" for n
    by (simp add: volume_get_def expand_call_def emits_intros)
  show ?thesis
    unfolding ControllerExpandVolume_def WatchVolumeUntil_def
    by (intro emits_bind_liftE emits_intros emits_watch_polls get)
      (auto simp: assms emits_expand_once dest!: name intro!: emits_RetryOnConflict)
qed

lemma ControllerExpandVolume_Inr:
  assumes "ControllerExpandVolume zeroEq polls volumeId capacityRange secrets capability E w = (Inr s, w2)"
  shows "\<exists>c. capacity_ok capacityRange c \<and> c \<le> s"
  using assms
  by (auto simp: ControllerExpandVolume_def io_run dest!: WatchVolumeUntil_Inr validateCapacity_sound(1))

end
