(* ===== verification/Csi_Snapshot.thy ===== *)
theory Csi_Snapshot
  imports Csi_Volume "HOL-Library.List_Lexorder" "HOL-Library.Product_Lexorder"
begin

text \<open>
  internal/csi/controller/snapshot.go: the snapshot operations of the CSI controller service.
  Sorting is by the source volume and then the name, compared byte by byte; names are unique,
  so every sorting algorithm gives the same list.
\<close>

section \<open>Creation and deletion\<close>

definition snapshot_name :: "Snapshot \<Rightarrow> string" where
  "snapshot_name snapshot = om_Name (s_Meta snapshot)"

definition snapshot_get :: "string \<Rightarrow> Snapshot io" where
  "snapshot_get name = api_get snapshots SnapshotCall name"

definition snapshot_is_available :: "Snapshot \<Rightarrow> bool" where
  "snapshot_is_available snapshot = IsStatusConditionTrue (sst_Conditions (s_Status snapshot)) Available"

definition WatchSnapshotUntil :: "nat \<Rightarrow> Snapshot \<Rightarrow> (Snapshot \<Rightarrow> bool) \<Rightarrow> Snapshot io" where
  "WatchSnapshotUntil polls snapshot condition =
     (if condition snapshot then ret snapshot
      else watch_polls polls snapshot_get snapshot_name condition snapshot)"

record CreateSnapshotRequest =
  sr_SourceVolumeId :: string
  sr_Name :: string
  sr_Secrets :: params
  sr_Parameters :: params

record snapshot_entry =
  se_SizeBytes :: int
  se_SnapshotId :: string
  se_SourceVolumeId :: string
  se_CreationTime :: "nat option"
  se_ReadyToUse :: bool

definition snapshotParameters :: "string list" where
  "snapshotParameters = [''csi.storage.k8s.io/volumesnapshot/name'',
     ''csi.storage.k8s.io/volumesnapshot/namespace'',
     ''csi.storage.k8s.io/volumesnapshotcontent/name'']"

text \<open>The checks on the request and on the source volume, in the order of the source.\<close>

definition check_snapshot_request :: "CreateSnapshotRequest \<Rightarrow> Volume \<Rightarrow> goerr option" where
  "check_snapshot_request req volume =
     (if om_DeletionTimestamp (v_Meta volume) \<noteq> None
        then Some (NotFound ''volume is marked for deletion'')
      else if vs_Mode (v_Spec volume) \<noteq> VolumeModeThin
        then Some (GrpcStatus ''Unimplemented'' ''snapshots are only supported on thin volumes'')
      else if vt_Filesystem (vs_Type (v_Spec volume)) \<noteq> None
        then Some (GrpcStatus ''Unimplemented'' ''filesystem snapshots not implemented yet'')
      else if \<not> volume_is volume Available
        then Some (NotFound ''source volume is not ready yet'')
      else if sr_Name req = [] then Some (InvalidArgument ''must specify snapshot name'')
      else if length (sr_Secrets req) > 0 then Some (InvalidArgument ''unexpected secrets'')
      else if list_ex (\<lambda>(key, v). key \<notin> set snapshotParameters) (sr_Parameters req)
        then Some (InvalidArgument ''unexpected parameters'')
      else None)"

definition snapshot_binding :: "CreateSnapshotRequest \<Rightarrow> string \<Rightarrow> string" where
  "snapshot_binding req name =
     (if sr_Name req = name
      then param (sr_Parameters req) ''csi.storage.k8s.io/volumesnapshot/namespace'' @ ''/'' @
           param (sr_Parameters req) ''csi.storage.k8s.io/volumesnapshot/name''
      else sr_Name req)"

definition new_Snapshot :: "string \<Rightarrow> string \<Rightarrow> SnapshotSpec \<Rightarrow> Snapshot" where
  "new_Snapshot namespace name spec =
     \<lparr>s_Meta = fst (AddFinalizer (new_meta name namespace (Some CommonLabels)) Finalizer),
      s_Spec = spec,
      s_Status = \<lparr>sst_ObservedGeneration = 0, sst_Conditions = [], sst_SizeBytes = 0\<rparr>\<rparr>"

definition existing_snapshot :: "CreateSnapshotRequest \<Rightarrow> Snapshot \<Rightarrow> goerr option" where
  "existing_snapshot req snapshot =
     (if om_DeletionTimestamp (s_Meta snapshot) \<noteq> None
        then Some (GrpcStatus ''AlreadyExists'' ''snapshot deletion is already in progress'')
      else if sr_SourceVolumeId req \<noteq> ss_SourceVolume (s_Spec snapshot)
        then Some (GrpcStatus ''AlreadyExists'' ''snapshot already exists with different source'')
      else None)"

definition snapshot_response :: "Snapshot \<Rightarrow> Condition \<Rightarrow> snapshot_entry" where
  "snapshot_response snapshot cond =
     \<lparr>se_SizeBytes = sst_SizeBytes (s_Status snapshot), se_SnapshotId = snapshot_name snapshot,
      se_SourceVolumeId = ss_SourceVolume (s_Spec snapshot),
      se_CreationTime = c_LastTransitionTime cond, se_ReadyToUse = True\<rparr>"

text \<open>The creation proper, after the checks: an object of the same name is adopted.\<close>

definition create_snapshot_of :: "nat \<Rightarrow> CreateSnapshotRequest \<Rightarrow> Volume \<Rightarrow> snapshot_entry io" where
  "create_snapshot_of polls req volume =
     bindE (askEnv Namespace) (\<lambda>namespace.
     let name = SafeName (sr_Name req) ''snapshot'';
         snapshot = new_Snapshot namespace name
           \<lparr>ss_VgName = vs_VgName (v_Spec volume), ss_Binding = snapshot_binding req name,
            ss_SourceVolume = sr_SourceVolumeId req\<rparr>
     in bindE (attempt (api_create snapshots SnapshotCall snapshot)) (\<lambda>created.
        bindE (case created of
                 Inr snapshot \<Rightarrow> ret snapshot
               | Inl err \<Rightarrow>
                   if err = ErrAlreadyExists then
                     bindE (snapshot_get name) (\<lambda>snapshot.
                       thenE (returnErr (existing_snapshot req snapshot)) (ret snapshot))
                   else fail err) (\<lambda>snapshot.
        bindE (WatchSnapshotUntil polls snapshot snapshot_is_available) (\<lambda>snapshot.
          case FindStatusCondition (sst_Conditions (s_Status snapshot)) Available of
            None \<Rightarrow> fail (Panic ''nil pointer dereference'')
          | Some condition \<Rightarrow> ret (snapshot_response snapshot condition)))))"

definition CreateSnapshot :: "nat \<Rightarrow> CreateSnapshotRequest \<Rightarrow> snapshot_entry io" where
  "CreateSnapshot polls req =
     bindE (liftE (ValidateVolumeID (sr_SourceVolumeId req))) (\<lambda>namespacedName.
     bindE (attempt (volume_get namespacedName)) (\<lambda>got.
       case got of
         Inl err \<Rightarrow> if err = ErrNotFound then fail (NotFound ''volume not found'') else fail err
       | Inr volume \<Rightarrow>
           (case check_snapshot_request req volume of
              Some err \<Rightarrow> fail err
            | None \<Rightarrow> create_snapshot_of polls req volume)))"

definition DeleteSnapshot :: "nat \<Rightarrow> string \<Rightarrow> params \<Rightarrow> unit io" where
  "DeleteSnapshot polls snapshotId secrets =
     thenE (liftE (ValidateSnapshotID snapshotId))
     (if length secrets > 0 then fail (InvalidArgument ''unexpected secrets'')
      else
        bindE (askEnv Namespace) (\<lambda>namespace.
          DeleteAndConfirm polls snapshots SnapshotCall snapshot_name
            \<lparr>s_Meta = new_meta snapshotId namespace None,
             s_Spec = \<lparr>ss_VgName = '''', ss_Binding = '''', ss_SourceVolume = ''''\<rparr>,
             s_Status = \<lparr>sst_ObservedGeneration = 0, sst_Conditions = [], sst_SizeBytes = 0\<rparr>\<rparr>))"

section \<open>Listing\<close>

definition getListSnapshotEntry :: "Snapshot \<Rightarrow> string \<Rightarrow> snapshot_entry option" where
  "getListSnapshotEntry snapshot sourceVolume =
     (case FindStatusCondition (sst_Conditions (s_Status snapshot)) Available of
        None \<Rightarrow> None
      | Some cond \<Rightarrow>
          if sourceVolume \<noteq> [] \<and> sourceVolume \<noteq> ss_SourceVolume (s_Spec snapshot) then None
          else Some (snapshot_response snapshot cond))"

definition snapshot_key :: "Snapshot \<Rightarrow> string \<times> string" where
  "snapshot_key snapshot = (ss_SourceVolume (s_Spec snapshot), om_Name (s_Meta snapshot))"

text \<open>The loop over the items from the starting token on.\<close>

fun list_entries ::
  "Snapshot list \<Rightarrow> string \<Rightarrow> int \<Rightarrow> int \<Rightarrow> snapshot_entry list \<Rightarrow> snapshot_entry list \<times> string" where
  "list_entries [] sourceVolume maxEntries counter entries = (entries, [])"
| "list_entries (snapshot # rest) sourceVolume maxEntries counter entries =
     (case getListSnapshotEntry snapshot sourceVolume of
        None \<Rightarrow> list_entries rest sourceVolume maxEntries counter entries
      | Some entry \<Rightarrow>
          if counter = maxEntries then (entries, show_int counter)
          else list_entries rest sourceVolume maxEntries (counter + 1) (entries @ [entry]))"

record ListSnapshotsRequest =
  lr_MaxEntries :: int
  lr_StartingToken :: string
  lr_SourceVolumeId :: string
  lr_SnapshotId :: string
  lr_Secrets :: params

definition list_one_snapshot :: "ListSnapshotsRequest \<Rightarrow> (snapshot_entry list \<times> string) io" where
  "list_one_snapshot req =
     (if lr_StartingToken req \<noteq> []
      then fail (Aborted ''StartingToken should be empty if SnapshotId is specified'')
      else
        bindE (liftE (ValidateSnapshotID (lr_SnapshotId req))) (\<lambda>namespacedName.
        bindE (attempt (snapshot_get namespacedName)) (\<lambda>got.
          case got of
            Inl err \<Rightarrow> if err = ErrNotFound then ret ([], []) else fail err
          | Inr snapshot \<Rightarrow>
              (case getListSnapshotEntry snapshot (lr_SourceVolumeId req) of
                 None \<Rightarrow> fail (NotFound ''Snapshot not available'')
               | Some entry \<Rightarrow> ret ([entry], [])))))"

definition list_page :: "Snapshot list \<Rightarrow> string \<Rightarrow> int \<Rightarrow> int \<Rightarrow> goerr + snapshot_entry list \<times> string" where
  "list_page items sourceVolume startingToken maxEntries =
     (if int (length items) - startingToken < 0 then Inl (Panic ''makeslice: cap out of range'')
      else
        (let (entries, nextToken) =
               list_entries (drop (nat startingToken) (sort_key snapshot_key items)) sourceVolume maxEntries 0 []
         in if length entries = 0 \<and> startingToken \<noteq> 0
              then Inl (Aborted ''StartingToken no longer valid'')
            else Inr (entries, nextToken)))"

definition ListSnapshots :: "ListSnapshotsRequest \<Rightarrow> (snapshot_entry list \<times> string) io" where
  "ListSnapshots req =
     bindE (api_list snapshots SnapshotCall) (\<lambda>items.
     bindE (liftE (parse_token (length items) ''No snapshot at StartingToken'' (lr_StartingToken req)))
       (\<lambda>startingToken.
     bindE (liftE (max_entries (length items) (lr_MaxEntries req))) (\<lambda>maxEntries.
       if length (lr_Secrets req) > 0 then fail (InvalidArgument ''unexpected secrets'')
       else if lr_SnapshotId req \<noteq> [] then list_one_snapshot req
       else liftE (list_page items (lr_SourceVolumeId req) startingToken maxEntries))))"

section \<open>What the snapshot operations do\<close>

definition create_snapshot_call :: "CreateSnapshotRequest \<Rightarrow> env \<Rightarrow> call \<Rightarrow> bool" where
  "create_snapshot_call req E c =
     (case c of
        VolumeCall (ApiGet n) \<Rightarrow> n = sr_SourceVolumeId req
      | SnapshotCall (ApiGet n) \<Rightarrow> True
      | SnapshotCall (ApiCreate s) \<Rightarrow>
          om_Name (s_Meta s) = SafeName (sr_Name req) ''snapshot'' \<and>
          has_finalizer Finalizer (s_Meta s) \<and>
          ss_SourceVolume (s_Spec s) = sr_SourceVolumeId req \<and>
          (\<exists>h v. cl_Get (volumes E) h (sr_SourceVolumeId req) = Inr v \<and>
             check_snapshot_request req v = None \<and> ss_VgName (s_Spec s) = vs_VgName (v_Spec v))
      | _ \<Rightarrow> False)"

lemma emits_WatchSnapshotUntil:
  "(\<And>E n. P E (SnapshotCall (ApiGet n))) \<Longrightarrow> emits P (WatchSnapshotUntil polls s condition)"
  unfolding WatchSnapshotUntil_def snapshot_get_def
  by (auto intro!: emits_intros emits_watch_polls)

lemma WatchSnapshotUntil_Inr:
  "WatchSnapshotUntil n s condition E w = (Inr y, w2) \<Longrightarrow> condition y"
  by (auto simp: WatchSnapshotUntil_def dest: watch_polls_Inr split: if_splits)

text \<open>A procedure after a read: its calls may depend on the answer.\<close>

lemma emits_bind_get:
  assumes "\<And>E. P E (wrap (ApiGet name))"
    and "\<And>E (w :: world) x. \<exists>h. cl_Get (sel E) h name = x \<Longrightarrow>
      \<exists>cs. trace (snd (k x E w)) = trace w @ cs \<and> (\<forall>c\<in>set cs. P E c)"
  shows "emits P (bindE (attempt (api_get sel wrap name)) k)"
  unfolding emits_def attempt_get
proof (intro allI)
  fix E and w :: world
  let ?w = "after w (wrap (ApiGet name))"
  obtain cs where "trace (snd (k (cl_Get (sel E) (trace w) name) E ?w)) = trace ?w @ cs"
    "\<forall>c\<in>set cs. P E c"
    using assms(2) [where E = E and w = ?w and x = "cl_Get (sel E) (trace w) name"] by blast
  then have "trace (snd (k (cl_Get (sel E) (trace w) name) E ?w)) = trace w @ (wrap (ApiGet name) # cs)"
    "\<forall>c\<in>set (wrap (ApiGet name) # cs). P E c"
    using assms(1) by auto
  then show "\<exists>cs. trace (snd (k (cl_Get (sel E) (trace w) name) E ?w)) = trace w @ cs \<and>
      (\<forall>c\<in>set cs. P E c)" by blast
qed

lemma emitsD: "emits P m \<Longrightarrow> \<exists>cs. trace (snd (m E w)) = trace w @ cs \<and> (\<forall>c\<in>set cs. P E c)"
  by (simp add: emits_def)

lemma emits_create_snapshot_of:
  assumes "check_snapshot_request req volume = None"
  shows "emits (\<lambda>E c. (\<exists>h. cl_Get (volumes E) h (sr_SourceVolumeId req) = Inr volume) \<longrightarrow>
      create_snapshot_call req E c) (create_snapshot_of polls req volume)"
  using assms unfolding create_snapshot_of_def Let_def snapshot_get_def
  by (auto intro!: emits_intros emits_WatchSnapshotUntil
      simp: create_snapshot_call_def new_Snapshot_def new_meta_def) blast

lemma emits_CreateSnapshot: "emits (create_snapshot_call req) (CreateSnapshot polls req)"
  unfolding CreateSnapshot_def volume_get_def
proof (rule emits_bind_liftE)
  fix n assume "ValidateVolumeID (sr_SourceVolumeId req) = Inr n"
  then have n: "n = sr_SourceVolumeId req" by (simp add: ValidateVolumeID_def validateID_Inr)
  show "emits (create_snapshot_call req) (bindE (attempt (api_get volumes VolumeCall n)) (\<lambda>got.
      case got of
        Inl err \<Rightarrow> if err = ErrNotFound then fail (NotFound ''volume not found'') else fail err
      | Inr volume \<Rightarrow> (case check_snapshot_request req volume of Some err \<Rightarrow> fail err
          | None \<Rightarrow> create_snapshot_of polls req volume)))"
  proof (rule emits_bind_get, goal_cases)
    case 1
    then show ?case by (simp add: create_snapshot_call_def n)
  next
    case (2 E w got)
    then show ?case
      using emitsD [OF emits_create_snapshot_of, of req _ polls E w] n
      by (cases got) (auto simp: fail_def split: option.split)
  qed
qed

section \<open>Pages of snapshots\<close>

text \<open>With every snapshot available and wanted, the entries are those of the items.\<close>

lemma list_entries_all:
  assumes "\<And>s. s \<in> set items \<Longrightarrow> getListSnapshotEntry s source = Some (entry s)"
    and "0 \<le> m" and "c \<le> m"
  shows "list_entries items source m c acc =
    (acc @ map entry (take (nat (m - c)) items),
     if m - c < int (length items) then show_int m else [])"
  using assms
proof (induction items arbitrary: c acc)
  case Nil
  then show ?case by simp
next
  case (Cons s items)
  show ?case
  proof (cases "c = m")
    case True
    with Cons.prems show ?thesis by simp
  next
    case False
    with Cons.prems have "c + 1 \<le> m" by simp
    moreover have "nat (m - c) = Suc (nat (m - (c + 1)))" using False Cons.prems by simp
    ultimately show ?thesis using False Cons.prems Cons.IH [of "c + 1" "acc @ [entry s]"] by auto
  qed
qed

text \<open>Without a bound the list is complete and sorted.\<close>

lemma list_entries_unbounded:
  "int (length items) + c \<le> m \<Longrightarrow>
    list_entries items source m c acc =
      (acc @ List.map_filter (\<lambda>s. getListSnapshotEntry s source) items, [])"
  by (induction items arbitrary: c acc) (auto simp: map_filter_simps split: option.split)

lemma list_page_all:
  "list_page items source 0 (int (length items)) =
    Inr (List.map_filter (\<lambda>s. getListSnapshotEntry s source) (sort_key snapshot_key items), [])"
  by (simp add: list_page_def list_entries_unbounded)


text \<open>
  The token of a page counts the entries of the page, not their place in the list: two pages
  from different places have the same token, and a caller that follows the tokens of a list of
  more than two pages never reaches its end.
\<close>

lemma list_page_token:
  assumes "\<And>s. s \<in> set items \<Longrightarrow> getListSnapshotEntry s source = Some (entry s)"
    and "0 < m" and "0 \<le> k" and "k + m < int (length items)"
  shows "\<exists>entries. list_page items source k m = Inr (entries, show_int m)"
proof -
  let ?rest = "drop (nat k) (sort_key snapshot_key items)"
  have "list_entries ?rest source m 0 [] = (map entry (take (nat m) ?rest), show_int m)"
    using assms by (subst list_entries_all [where entry = entry]) (auto dest: in_set_dropD)
  moreover have "?rest \<noteq> []" "take (nat m) ?rest \<noteq> []" using assms by auto
  ultimately show ?thesis using assms by (simp add: list_page_def)
qed

lemma ListSnapshots_never_ends:
  assumes "\<And>h. cl_List (snapshots E) h = Inr items"
    and "\<And>s. s \<in> set items \<Longrightarrow> getListSnapshotEntry s source = Some (entry s)"
    and "0 < m" and "2 * m < int (length items)" and "length items < 2 ^ 62"
    and "token = [] \<or> token = show_int m"
  shows "fst (collect_pages n (\<lambda>token. ListSnapshots \<lparr>lr_MaxEntries = m, lr_StartingToken = token,
      lr_SourceVolumeId = source, lr_SnapshotId = [], lr_Secrets = []\<rparr>) token E w) = Inl context_done"
  using assms(6)
proof (induction n arbitrary: token w)
  case 0
  then show ?case by (simp add: fail_def)
next
  case (Suc n)
  have "int (length items) < 2 ^ 62" using assms(5) by (metis of_nat_less_iff of_nat_numeral of_nat_power)
  then have m: "m < 2 ^ 63" using assms(3,4) by simp
  define k where "k = (if token = [] then 0 else m)"
  have parse: "parse_token (length items) what token = Inr k" for what
    unfolding k_def using Suc.prems assms(3,4) parse_show_int [of 64 m] m by (auto simp: parse_token_def)
  have k: "0 \<le> k" "k + m < int (length items)" using assms(3,4) by (auto simp: k_def)
  obtain entries where page: "list_page items source k m = Inr (entries, show_int m)"
    using list_page_token [OF assms(2,3) k] by auto
  let ?page = "\<lambda>token. ListSnapshots \<lparr>lr_MaxEntries = m, lr_StartingToken = token,
      lr_SourceVolumeId = source, lr_SnapshotId = [], lr_Secrets = []\<rparr>"
  have run: "?page token E w = (Inr (entries, show_int m), after w (SnapshotCall ApiList))"
    using page parse assms(1,3)
    by (simp add: ListSnapshots_def api_list_def invoke_def bindE_def liftE_def ret_def max_entries_def after_def)
  have "fst (collect_pages n ?page (show_int m) E (after w (SnapshotCall ApiList))) = Inl context_done"
    by (rule Suc.IH) simp
  moreover have "show_int m \<noteq> []" using assms(3) by simp
  ultimately show ?case by (auto simp: bindE_def run simp del: show_int_nonneg split: prod.splits sum.splits)
qed

section \<open>Results of the snapshot operations\<close>

lemma DeleteSnapshot_Inr:
  assumes "DeleteSnapshot polls snapshotId secrets E w = (Inr u, w2)"
  shows "reported_gone snapshots SnapshotCall snapshot_name E w w2 snapshotId"
proof -
  let ?object = "\<lparr>s_Meta = new_meta snapshotId (Namespace E) None,
    s_Spec = \<lparr>ss_VgName = [], ss_Binding = [], ss_SourceVolume = []\<rparr>,
    s_Status = \<lparr>sst_ObservedGeneration = 0, sst_Conditions = [], sst_SizeBytes = 0\<rparr>\<rparr>"
  have "DeleteAndConfirm polls snapshots SnapshotCall snapshot_name ?object E w = (Inr u, w2)"
    using assms by (auto simp: DeleteSnapshot_def thenE_Inr_iff liftE_run split: if_splits)
  then have "reported_gone snapshots SnapshotCall snapshot_name E w w2 (snapshot_name ?object)"
    by (rule DeleteAndConfirm_Inr) simp
  then show ?thesis by (simp add: snapshot_name_def new_meta_def)
qed

lemma create_snapshot_of_Inr:
  assumes "create_snapshot_of polls req volume E w = (Inr resp, w2)"
  shows "\<exists>s cond. snapshot_is_available s \<and> FindStatusCondition (sst_Conditions (s_Status s)) Available = Some cond \<and>
    resp = snapshot_response s cond"
  using assms unfolding create_snapshot_of_def Let_def
  by (auto simp: io_run dest!: WatchSnapshotUntil_Inr)

text \<open>The dereference of the condition after the wait never fails.\<close>

lemma create_snapshot_of_no_panic:
  "WatchSnapshotUntil polls s snapshot_is_available E w = (Inr s2, w2) \<Longrightarrow>
    FindStatusCondition (sst_Conditions (s_Status s2)) Available \<noteq> None"
  by (auto simp: snapshot_is_available_def IsStatusConditionTrue_find dest!: WatchSnapshotUntil_Inr)

end
