(* ===== verification/Csi_Properties.thy ===== *)
theory Csi_Properties
  imports Sample Csi_Snapshot
begin

text \<open>
  The properties of the CSI controller service, over the lemmas of Csi_Validate, Csi_Volume
  and Csi_Snapshot.
\<close>

section \<open>Identifiers and capabilities\<close>

text \<open>The name derived for a volume, whatever name the request has, is a valid volume
  identifier, and it is the name of the object.\<close>

theorem volume_name_valid:
  "ValidateVolumeID (SafeName name ''pvc'') = Inr (SafeName name ''pvc'')"
proof -
  have "IsDNS1123Label (SafeName name ''pvc'')"
    by (rule SafeName_label) (simp_all add: lower_def)
  then show ?thesis
    by (simp add: ValidateVolumeID_def validateID_def IsDNS1123Label_def)
qed

text \<open>Two equal file system capabilities are refused as inconsistent: they are compared as
  structs of pointers to distinct objects.\<close>

theorem equal_mounts_refused:
  "getVolumeType zeroEq [\<lparr>cap_AccessType = AccessMount fsType flags, cap_AccessMode = m1\<rparr>,
     \<lparr>cap_AccessType = AccessMount fsType flags, cap_AccessMode = m2\<rparr>] =
   Inl (InvalidArgument ''inconsistent volume capabilities'')"
  by (rule getVolumeType_two_mounts)

section \<open>Capacity\<close>





text \<open>A range without a required size and with a limit below the extent size is answered with
  capacity zero, not with an error.\<close>

theorem capacity_zero_accepted:
  assumes "0 < sint l" and "sint l < 4194304"
  shows "validateCapacity (Some (0, l)) defaultExtentSize = Inr (0, l)"
  unfolding validateCapacity_iff using assms by simp

theorem capacity_zero_accepted_witness:
  "validateCapacity (Some (0, 1048576)) defaultExtentSize = Inr (0, 1048576)"
  by (rule capacity_zero_accepted) simp_all

section \<open>Volumes\<close>

text \<open>Creating a volume reads volumes and snapshots and creates at most objects that carry the
  finalizer, have the derived name, the volume group of the parameters and a size that answers the
  range of the request, and are attached to no node; it updates and deletes nothing.\<close>

theorem create_volume_calls: "emits (create_call req) (CreateVolume zeroEq polls req)"
  by (rule emits_CreateVolume)


text \<open>C30: The volume that a request creates is compatible with the request: asking again for the
  same name finds it and does not fail with AlreadyExists.\<close>

theorem create_volume_repeatable:
  assumes "om_DeletionTimestamp (v_Meta volume) = None"
    and "v_Spec volume = \<lparr>vs_VgName = param parameters ''lvmVolumeGroup'', vs_Binding = binding,
      vs_Mode = mode, vs_WipePolicy = policy, vs_Type = vt, vs_Contents = contents,
      vs_AccessModes = modes, vs_SizeBytes = sint c, vs_AttachToNodes = attached\<rparr>"
    and "getVolumeMode parameters = Inr mode" and "getWipePolicy parameters = Inr policy"
    and "getVolumeType zeroEq capabilities = Inr vt" and "getVolumeAccessModes capabilities = Inr modes"
    and "validateCapacity capacityRange defaultExtentSize = Inr (c, limit)"
    and "getVolumeContents req vg lim vt E w = (Inr contents, w2)"
  shows "validateVolume zeroEq volume (sint c) (sint limit) (Some contents) capabilities parameters = []"
  using assms by (intro validateVolume_own getVolumeContents_self) auto

theorem create_volume_repeatable_witness:
  "validateVolume True (sample_volume ''vol'' []) 8388608 0 (Some no_contents)
     [\<lparr>cap_AccessType = AccessBlock, cap_AccessMode = Some SINGLE_NODE_WRITER\<rparr>]
     [(''lvmVolumeGroup'', ''vg'')] = []"
proof -
  let ?req = "\<lparr>cv_Name = ''vol'', cv_CapacityRange = None, cv_VolumeCapabilities = [],
    cv_Parameters = [], cv_VolumeContentSource = None, cv_MutableParameters = []\<rparr>"
  have cap: "validateCapacity (Some (8388608, 0)) defaultExtentSize = Inr (8388608, 0)"
    unfolding validateCapacity_iff by (simp add: least_extent_def)
  have "getVolumeContents ?req [] 0 \<lparr>vt_Block = Some (), vt_Filesystem = None\<rparr> E w = (Inr no_contents, w)"
    for E w by (simp add: getVolumeContents_def)
  from create_volume_repeatable [OF _ _ _ _ _ _ cap this, where
      volume = "sample_volume ''vol'' []" and parameters = "[(''lvmVolumeGroup'', ''vg'')]"
      and capabilities = "[\<lparr>cap_AccessType = AccessBlock, cap_AccessMode = Some SINGLE_NODE_WRITER\<rparr>]"
      and mode = VolumeModeThin and policy = VolumeWipePolicyFull and modes = "[SingleNodeMultiWriter]"
      and binding = "''ns/pvc''" and attached = "[]" and zeroEq = True]
  show ?thesis
    by (simp add: sample_volume_def sample_spec_def param_def no_contents_def getVolumeMode_def
        getWipePolicy_def getVolumeType_single getVolumeAccessModes_def slices_TryMap_def
        getVolumeAccessMode_def Deduplicate_def)
qed

text \<open>The server gives objects under the name they were asked for.\<close>

definition volumes_named :: "env \<Rightarrow> bool" where
  "volumes_named E \<longleftrightarrow> (\<forall>h n v. cl_Get (volumes E) h n = Inr v \<longrightarrow> volume_name v = n)"

text \<open>A volume is reported deleted only after the server answered that it does not exist, and
  the deletion was asked for in the foreground and only of a volume attached to no node.\<close>

theorem delete_volume_confirmed:
  assumes "volumes_named E" and "DeleteVolume polls volumeId secrets E w = (Inr u, w2)"
  shows "reported_gone volumes VolumeCall volume_name E w w2 volumeId \<and>
    set (new_calls w w2) \<subseteq> {c. delete_call volumeId E c}"
  using DeleteVolume_Inr [OF assms(2)] assms(1) emits_new_calls [OF emits_DeleteVolume assms(2)]
  unfolding volumes_named_def by blast

theorem delete_volume_confirmed_witness:
  "reported_gone volumes VolumeCall volume_name (sample_env [] [] [] []) init_world
     (after init_world (VolumeCall (ApiGet ''vol''))) ''vol''"
proof -
  have "volumes_named (sample_env [] [] [] [])" by (simp add: volumes_named_def)
  moreover have "DeleteVolume 3 ''vol'' [] (sample_env [] [] [] []) init_world =
      (Inr (), after init_world (VolumeCall (ApiGet ''vol'')))"
    by (simp add: DeleteVolume_def ValidateVolumeID_def validateID_def IsDNS1123Label_def
        label_char_def lower_def is_digit_def liftE_def volume_get_def attempt_get)
  ultimately show ?thesis by (rule delete_volume_confirmed [THEN conjunct1])
qed

text \<open>Expanding a volume updates an object only to raise its size to the capacity chosen for the
  range, and only of a block volume that, if linear, is neither attached nor to be attached.\<close>

theorem expand_volume_calls:
  "emits (\<lambda>E call. \<exists>c limit. validateCapacity capacityRange defaultExtentSize = Inr (c, limit) \<and>
      expand_call volumeId (sint c) E call)
    (ControllerExpandVolume zeroEq polls volumeId capacityRange secrets capability)"
proof (cases "validateCapacity capacityRange defaultExtentSize")
  case (Inl e)
  have "emits P (ControllerExpandVolume zeroEq polls volumeId capacityRange secrets capability)" for P
    unfolding ControllerExpandVolume_def Inl by (intro emits_bind_liftE) simp_all
  then show ?thesis by blast
next
  case (Inr p)
  then obtain c limit where p: "validateCapacity capacityRange defaultExtentSize = Inr (c, limit)"
    by (cases p) auto
  show ?thesis by (rule emits_mono [OF emits_ControllerExpandVolume [OF p]]) (use p in blast)
qed

text \<open>C20: The size of a volume is only ever raised, to the capacity chosen for the range of the
  request, and never for a linear volume in use; an expansion is reported done only with a size that
  covers a capacity which answers the range.\<close>

theorem expand_volume_bounded:
  "emits (\<lambda>E call. \<exists>c limit. validateCapacity capacityRange defaultExtentSize = Inr (c, limit) \<and>
      expand_call volumeId (sint c) E call)
    (ControllerExpandVolume zeroEq polls volumeId capacityRange secrets capability) \<and>
   yields (ControllerExpandVolume zeroEq polls volumeId capacityRange secrets capability)
     (\<lambda>E w s w2. \<exists>c. capacity_ok capacityRange c \<and> c \<le> s)"
  by (intro conjI expand_volume_calls yieldsI) (rule ControllerExpandVolume_Inr)


section \<open>Snapshots\<close>

text \<open>Creating a snapshot creates at most a snapshot of the requested source, with the finalizer
  and the derived name, in the volume group of a source volume that was read and found to be an
  available thin block volume that is not being deleted; it changes nothing else.\<close>

theorem create_snapshot_calls: "emits (create_snapshot_call req) (CreateSnapshot polls req)"
  by (rule emits_CreateSnapshot)

text \<open>A snapshot is reported deleted only after the server answered that it does not exist.\<close>

theorem delete_snapshot_confirmed:
  "yields (DeleteSnapshot polls snapshotId secrets) (\<lambda>E w u w2.
     reported_gone snapshots SnapshotCall snapshot_name E w w2 snapshotId)"
  by (intro yieldsI) (rule DeleteSnapshot_Inr)

section \<open>Listing\<close>



text \<open>A starting token on an empty list makes the listing panic, as it allocates a slice of a
  negative capacity.\<close>

theorem list_token_on_empty_panics:
  assumes "0 < k" and "k < 2 ^ 63"
  shows "volume_page [] (show_int k) 0 = Inl (Panic ''makeslice: cap out of range'')"
proof -
  have "parse_int 64 (show_int k) = Some k" using assms by (intro parse_show_int) simp_all
  moreover have "wrap64 (- k) = - k" and "wrap64 k = k" using assms by (simp_all add: wrap64_id)
  moreover have "show_int k \<noteq> []" using assms by simp
  ultimately show ?thesis
    using assms by (simp add: volume_page_def parse_token_def max_entries_def del: show_int_nonneg)
qed

theorem list_token_on_empty_panics_witness:
  "volume_page ([] :: Volume list) (show_int 5) 0 = Inl (Panic ''makeslice: cap out of range'')"
  by (rule list_token_on_empty_panics) simp_all

text \<open>C32: A caller that asks for more than two pages of snapshots page by page never reaches the end
  of the list: every page after the first has the token of the second page.\<close>

theorem list_snapshots_loops:
  assumes "\<And>h. cl_List (snapshots E) h = Inr items"
    and "\<And>s. s \<in> set items \<Longrightarrow> getListSnapshotEntry s source = Some (entry s)"
    and "0 < m" and "2 * m < int (length items)" and "length items < 2 ^ 62"
  shows "fst (collect_pages n (\<lambda>token. ListSnapshots \<lparr>lr_MaxEntries = m, lr_StartingToken = token,
      lr_SourceVolumeId = source, lr_SnapshotId = [], lr_Secrets = []\<rparr>) [] E w) = Inl context_done"
  using ListSnapshots_never_ends [OF assms] by blast

theorem list_snapshots_loops_witness:
  "fst (collect_pages 100 (\<lambda>token. ListSnapshots \<lparr>lr_MaxEntries = 1, lr_StartingToken = token,
      lr_SourceVolumeId = [], lr_SnapshotId = [], lr_Secrets = []\<rparr>) []
      (sample_env [] [sample_snapshot ''a'', sample_snapshot ''b'', sample_snapshot ''c''] [] [])
      init_world) = Inl context_done"
proof (rule list_snapshots_loops)
  show "getListSnapshotEntry s [] =
      Some (snapshot_response s (new_condition Available ConditionTrue [] []))"
    if "s \<in> set [sample_snapshot ''a'', sample_snapshot ''b'', sample_snapshot ''c'']" for s
    using that by (auto simp: getListSnapshotEntry_def sample_snapshot_def FindStatusCondition_def)
qed simp_all

text \<open>Without a bound on the entries, the snapshots are listed in one page: those with an
  availability condition, of the source asked for, sorted by source and name.\<close>

theorem list_snapshots_unbounded:
  "list_page items source 0 (int (length items)) =
    Inr (List.map_filter (\<lambda>s. getListSnapshotEntry s source) (sort_key snapshot_key items), [])"
  by (rule list_page_all)

end
