(* ===== verification/Workers.thy ===== *)
theory Workers
  imports Io_Logic
begin

text \<open>
  internal/manager/common/workers/workers.go: long operations in the background.  The table
  from names to running work is part of the world; the outcome of a work item is taken from a
  channel, so whether it is there yet, and what it is, is an answer of the environment.
  Completion sends an event that makes the controller reconcile again, which is how the
  framework calls the reconciler at any time.
\<close>

section \<open>Work items\<close>

text \<open>The commands of ddWork and blkdiscardWork, run by their goroutine.\<close>

fun work_command :: "work \<Rightarrow> string list" where
  "work_command (DdWork targetPathOnHost sourcePathOnHost) =
     [''dd'', ''if='' @ sourcePathOnHost, ''of='' @ targetPathOnHost, ''bs=1M'',
      ''conv=fsync,nocreat,sparse'']"
| "work_command (BlkdiscardWork device offset) =
     [''blkdiscard'', ''--zeroout'', ''--offset'', show_int offset, device]"

definition work_Run :: "work \<Rightarrow> unit io" where
  "work_Run w = thenE (checkErr (RunOnHost (work_command w))) (ret ())"

section \<open>The table\<close>

definition worker_start :: "string \<Rightarrow> work \<Rightarrow> unit io" where
  "worker_start name work = invoke (\<lambda>E h. Inr ()) (WorkerStart name work)"

text \<open>None while the work is not done, then its error if it has one.\<close>

definition getResult :: "string \<Rightarrow> goerr option option io" where
  "getResult name = invoke (\<lambda>E h. Inr (env_worker E h name)) (WorkerPoll name)"

definition worker_delete :: "string \<Rightarrow> unit io" where
  "worker_delete name = modifyW (\<lambda>w. w\<lparr>workers_m := AList.delete name (workers_m w)\<rparr>)"

definition Workers_Run :: "string \<Rightarrow> work \<Rightarrow> unit io" where
  "Workers_Run name work =
     bindE (getW workers_m) (\<lambda>workers.
     thenE (case map_of workers name of
              None \<Rightarrow> thenE (modifyW (\<lambda>w. w\<lparr>workers_m := AList.update name work (workers_m w)\<rparr>))
                        (worker_start name work)
            | Some worker \<Rightarrow> ret ())
     (bindE (getResult name) (\<lambda>result.
        case result of
          None \<Rightarrow> fail (WatchPending ''waiting for worker to complete'')
        | Some err \<Rightarrow> thenE (worker_delete name) (returnErr err))))"

definition Workers_Cancel :: "string \<Rightarrow> unit io" where
  "Workers_Cancel name =
     bindE (getW workers_m) (\<lambda>workers.
       if map_of workers name = None then ret ()
       else
         thenE (invoke (\<lambda>E h. Inr ()) (WorkerCancel name))
         (bindE (getResult name) (\<lambda>result.
            case result of
              None \<Rightarrow> fail (WatchPending ''waiting for worker cancellation'')
            | Some err \<Rightarrow> worker_delete name)))"

section \<open>What they do\<close>

lemma wp_worker_start [wp_intros]:
  "S (WorkerStart name work) \<Longrightarrow> Q (Inr ()) (after w (WorkerStart name work)) \<Longrightarrow>
    wp S (worker_start name work) Q E w"
  unfolding worker_start_def by (rule wp_invoke)

lemma wp_getResult [wp_intros]:
  "S (WorkerPoll name) \<Longrightarrow> Q (Inr (env_worker E (trace w) name)) (after w (WorkerPoll name)) \<Longrightarrow>
    wp S (getResult name) Q E w"
  unfolding getResult_def by (rule wp_invoke)

text \<open>Work is started only if none of the name is running, and at most once by a call; the table
  lists a name exactly while its outcome has not been taken.\<close>

lemma Workers_Run_run:
  assumes "Workers_Run name work E w = (r, w2)"
  shows "new_calls w w2 =
      (if map_of (workers_m w) name = None then [WorkerStart name work] else []) @ [WorkerPoll name]"
    and "map_of (workers_m w2) name =
      (if env_worker E (trace w @ butlast (new_calls w w2)) name = None
       then (case map_of (workers_m w) name of None \<Rightarrow> Some work | Some running \<Rightarrow> Some running)
       else None)"
    and "r = (case env_worker E (trace w @ butlast (new_calls w w2)) name of
      None \<Rightarrow> Inl (WatchPending ''waiting for worker to complete'')
    | Some None \<Rightarrow> Inr () | Some (Some err) \<Rightarrow> Inl err)"
  using assms
  by (auto simp: Workers_Run_def bindE_def thenE_def getW_def modifyW_def worker_start_def getResult_def
      worker_delete_def invoke_def ret_def fail_def returnErr_def new_calls_def AList.update_conv'
      AList.delete_conv' split: option.splits)

lemma wp_Workers_Run:
  assumes "map_of (workers_m w) name = None \<Longrightarrow> S (WorkerStart name work)" and "S (WorkerPoll name)"
    and "\<And>r w2. Workers_Run name work E w = (r, w2) \<Longrightarrow> Q r w2"
  shows "wp S (Workers_Run name work) Q E w"
proof -
  obtain r w2 where run: "Workers_Run name work E w = (r, w2)" by (cases "Workers_Run name work E w")
  have "emits (\<lambda>E c. True) (Workers_Run name work)"
    unfolding Workers_Run_def worker_start_def getResult_def worker_delete_def by (intro emits_intros) simp_all
  then obtain cs where cs: "trace w2 = trace w @ cs" unfolding emits_def using run by (metis snd_conv)
  with Workers_Run_run(1) [OF run] have "\<forall>c\<in>set cs. S c"
    using assms(1,2) by (auto simp: new_calls_def)
  with cs run assms(3) show ?thesis by (auto simp: wp_def)
qed

lemma wp_Workers_Cancel:
  assumes "S (WorkerCancel name)" and "S (WorkerPoll name)"
    and "\<And>r w2. Workers_Cancel name E w = (r, w2) \<Longrightarrow> Q r w2"
  shows "wp S (Workers_Cancel name) Q E w"
proof (rule wp_emits [OF _ _ assms(3)])
  show "emits (\<lambda>E c. c = WorkerCancel name \<or> c = WorkerPoll name) (Workers_Cancel name)"
    unfolding Workers_Cancel_def getResult_def worker_delete_def by (intro emits_intros) simp_all
  show "\<And>c. c = WorkerCancel name \<or> c = WorkerPoll name \<Longrightarrow> S c" using assms(1,2) by blast
qed simp

text \<open>A successful cancellation leaves no work of the name behind.\<close>

lemma Workers_Cancel_Inr:
  "Workers_Cancel name E w = (Inr u, w2) \<Longrightarrow> map_of (workers_m w2) name = None"
  by (auto simp: Workers_Cancel_def io_run getResult_def worker_delete_def modifyW_def invoke_iff
      AList.delete_conv' split: if_splits option.splits)

end
