(* ===== verification/Nbd_Server.thy ===== *)
theory Nbd_Server
  imports Commands
begin

text \<open>
  internal/common/nbd/server.go: the NBD server of a node.  The exports are served by a
  qemu-storage-daemon that the node drives over its monitor socket; the daemon's answers are
  those of the environment.  What the process keeps itself, the table from export names to
  node names with its counter and the shutdown channel, is part of the world, and is changed
  only in the sections that hold the lock, each of which is a function on the world here.
  The JSON texts of the commands are the constructors of the command type, and closing the
  connection has no effect on either side.
\<close>

section \<open>The monitor\<close>

definition newQemuStorageDaemonMonitor :: "unit io" where
  "newQemuStorageDaemonMonitor = invoke (\<lambda>E h. from_err (env_qmp_connect E h)) QmpConnect"

text \<open>An error that contains the guard counts as success.\<close>

definition qmp_run :: "qmp_command \<Rightarrow> string \<Rightarrow> unit io" where
  "qmp_run cmd idempotencyGuard =
     bindE (invoke (\<lambda>E h. Inr (env_qmp E h cmd)) (Qmp cmd)) (\<lambda>answer.
       case answer of
         Inl err \<Rightarrow> if \<not> str_contains err idempotencyGuard then fail (OtherError err) else ret ()
       | Inr raw \<Rightarrow> ret ())"

definition BlockdevAdd :: "string \<Rightarrow> string \<Rightarrow> unit io" where
  "BlockdevAdd nodeName devicePathOnHost =
     qmp_run (QmpBlockdevAdd nodeName devicePathOnHost) ''Duplicate nodes with node-name''"

definition BlockdevDel :: "string \<Rightarrow> unit io" where
  "BlockdevDel nodeName = qmp_run (QmpBlockdevDel nodeName) ''Failed to find node with node-name''"

definition BlockExportAdd :: "string \<Rightarrow> string \<Rightarrow> string \<Rightarrow> unit io" where
  "BlockExportAdd ident nodeName export =
     qmp_run (QmpBlockExportAdd ident nodeName export) '' is already in use''"

definition BlockExportDel :: "string \<Rightarrow> unit io" where
  "BlockExportDel ident = qmp_run (QmpBlockExportDel ident) '' is not found''"

text \<open>Of the response the program reads the identifiers of the exports.\<close>

definition QueryBlockExports :: "string list io" where
  "QueryBlockExports =
     bindE (invoke (\<lambda>E h. Inr (env_qmp E h QmpQueryBlockExports)) (Qmp QmpQueryBlockExports)) (\<lambda>answer.
       case answer of Inl err \<Rightarrow> fail (OtherError err) | Inr infos \<Rightarrow> ret infos)"

section \<open>The sections under the lock\<close>

definition blockdev_name :: "64 word \<Rightarrow> string" where
  "blockdev_name count = ''blockdev-'' @ show_nat (unat count)"

definition allocate_name :: "string \<Rightarrow> world \<Rightarrow> string \<times> world" where
  "allocate_name export w =
     (case map_of (blockdevs_m w) export of
        Some blockdev \<Rightarrow> (blockdev, w)
      | None \<Rightarrow>
          (let blockdev = blockdev_name (blockdevs_count w)
           in (blockdev, w\<lparr>blockdevs_count := blockdevs_count w + 1,
                 blockdevs_m := AList.update export blockdev (blockdevs_m w)\<rparr>)))"

text \<open>Closing a channel that is closed already panics.\<close>

definition close_shutdownChannel :: "world \<Rightarrow> goerr + world" where
  "close_shutdownChannel w =
     (if shutdown_closed w then Inl (Panic ''close of closed channel'')
      else Inr (w\<lparr>shutdown_closed := True\<rparr>))"

definition forget_export :: "string \<Rightarrow> world \<Rightarrow> goerr + world" where
  "forget_export export w =
     (let w = w\<lparr>blockdevs_m := AList.delete export (blockdevs_m w)\<rparr>
      in if nbd_Shutdown w \<and> length (blockdevs_m w) = 0 then close_shutdownChannel w else Inr w)"

definition begin_shutdown :: "world \<Rightarrow> goerr + world" where
  "begin_shutdown w =
     (let w = w\<lparr>nbd_Shutdown := True\<rparr>
      in if length (blockdevs_m w) = 0 then close_shutdownChannel w else Inr w)"

text \<open>A section run by a procedure.  A panic ends the process's use of the table, since the lock is
  never released, so the world after one is not looked at and is left as it was.\<close>

definition locked :: "(world \<Rightarrow> goerr + world) \<Rightarrow> unit io" where
  "locked f = bindE (getW f) (\<lambda>r. case r of Inl err \<Rightarrow> fail err | Inr w \<Rightarrow> modifyW (\<lambda>_. w))"

definition nodeName :: "string \<Rightarrow> string io" where
  "nodeName export =
     bindE (getW (allocate_name export)) (\<lambda>(blockdev, w). thenE (modifyW (\<lambda>_. w)) (ret blockdev))"

definition blockExportId :: "string \<Rightarrow> string" where
  "blockExportId export = ''export-'' @ export"

section \<open>URIs\<close>

text \<open>The escaping of package net/url: the bytes kept in every part of a URL, those kept in a
  path besides, and those kept in a host besides.\<close>

definition url_unreserved :: "char \<Rightarrow> bool" where
  "url_unreserved c =
     (let n = (of_char c :: nat)
      in (97 \<le> n \<and> n \<le> 122) \<or> (65 \<le> n \<and> n \<le> 90) \<or> (48 \<le> n \<and> n \<le> 57) \<or> c \<in> set ''-_.~'')"

definition url_path_char :: "char \<Rightarrow> bool" where
  "url_path_char c = (url_unreserved c \<or> c \<in> set ''$&+,/:;=@'')"

definition url_host_char :: "char \<Rightarrow> bool" where
  "url_host_char c = (url_unreserved c \<or> c \<in> set (CHR 0x22 # ''!$&()*+,;=:[]<>'') \<or> c = CHR 0x27)"

definition url_escape :: "(char \<Rightarrow> bool) \<Rightarrow> string \<Rightarrow> string" where
  "url_escape keep s =
     concat (map (\<lambda>c. if keep c then [c]
       else [CHR ''%'', hex_digit (of_char c div 16), hex_digit (of_char c mod 16)]) s)"

text \<open>url.URL.String for a URL of scheme, host and path.\<close>

definition url_String :: "string \<Rightarrow> string \<Rightarrow> string \<Rightarrow> string" where
  "url_String scheme host p =
     (let prefix = scheme @ '':'' @ (if host \<noteq> [] \<or> p \<noteq> [] then ''//'' else []) @
            url_escape url_host_char host;
          p = (if p = ''*'' then ''*'' else url_escape url_path_char p)
      in prefix @ (if p \<noteq> [] \<and> hd p \<noteq> CHR ''/'' \<and> host \<noteq> [] then ''/'' else []) @ p)"

section \<open>Exports\<close>

definition StartExport :: "string \<Rightarrow> string \<Rightarrow> string io" where
  "StartExport export devicePathOnHost =
     thenE newQemuStorageDaemonMonitor
     (bindE (nodeName export) (\<lambda>name.
      thenE (BlockdevAdd name devicePathOnHost)
     (thenE (BlockExportAdd (blockExportId export) name export)
     (bindE (askEnv PodIP) (\<lambda>podIP. ret (url_String ''nbd'' podIP export))))))"

definition CheckExportHealth :: "string \<Rightarrow> unit io" where
  "CheckExportHealth export =
     thenE newQemuStorageDaemonMonitor
     (bindE QueryBlockExports (\<lambda>infos.
        if list_ex (\<lambda>ident. ident = blockExportId export) infos then ret ()
        else fail (ServiceUnavailable ''NBD server unexpectedly gone'')))"

definition StopExport :: "string \<Rightarrow> unit io" where
  "StopExport export =
     thenE newQemuStorageDaemonMonitor
     (thenE (BlockExportDel (blockExportId export))
     (bindE (nodeName export) (\<lambda>name.
      thenE (BlockdevDel name)
        (locked (forget_export export)))))"

definition ExportDegraded :: "NBDExport \<Rightarrow> bool" where
  "ExportDegraded export =
     (est_URI (e_Status export) \<noteq> [] \<and>
      \<not> IsStatusConditionTrue (est_Conditions (e_Status export)) Available)"

definition ShouldStopExport :: "string \<Rightarrow> NBDExport \<Rightarrow> string list \<Rightarrow> int \<Rightarrow> bool" where
  "ShouldStopExport node export nodes sizeBytes =
     (if es_Host (e_Spec export) \<noteq> node then False
      else if ExportDegraded export then True
      else if sizeBytes > es_SizeBytes (e_Spec export) then True
      else \<not> slices_Contains nodes node \<or> length nodes = 1)"

text \<open>StopServer, and the goroutine it starts, which begins once the channel is closed.  The error
  of the last command is only logged.\<close>

definition StopServer :: "unit io" where
  "StopServer = locked begin_shutdown"

definition quit_daemon :: "unit io" where
  "quit_daemon =
     bindE (getW shutdown_closed) (\<lambda>closed. whenE closed
       (ignoreErr (thenE newQemuStorageDaemonMonitor
          (thenE (invoke (\<lambda>E h. Inr (env_qmp E h QmpQuit)) (Qmp QmpQuit)) (ret ())))))"

section \<open>The server as a state machine\<close>

text \<open>
  Concurrent reconciles interleave between the locked sections, so a step of the server is one
  section, or anything that leaves the server's own state alone.
\<close>

definition same_server :: "world \<Rightarrow> world \<Rightarrow> bool" where
  "same_server w w2 \<longleftrightarrow>
     blockdevs_m w2 = blockdevs_m w \<and> blockdevs_count w2 = blockdevs_count w \<and>
     nbd_Shutdown w2 = nbd_Shutdown w \<and> shutdown_closed w2 = shutdown_closed w"

inductive server_step :: "world \<Rightarrow> world \<Rightarrow> bool" where
  allocate: "server_step w (snd (allocate_name export w))"
| forget: "forget_export export w = Inr w2 \<Longrightarrow> server_step w w2"
| shutdown: "begin_shutdown w = Inr w2 \<Longrightarrow> server_step w w2"
| other: "same_server w w2 \<Longrightarrow> server_step w w2"

inductive_cases server_stepE [consumes 1, case_names allocate forget shutdown other]: "server_step w w2"

text \<open>Whatever its result, a procedure moves the world by such steps only.\<close>

definition server_moves :: "'a io \<Rightarrow> bool" where
  "server_moves m \<longleftrightarrow> (\<forall>E w. rtranclp server_step w (snd (m E w)))"

named_theorems moves_intros "rules for procedures that move the server by its steps"

lemma server_moves_same: "(\<And>E w. same_server w (snd (m E w))) \<Longrightarrow> server_moves m"
  unfolding server_moves_def by (blast intro: server_step.other)

lemma server_moves_basic [moves_intros]:
  "server_moves (ret x)" "server_moves (fail e)" "server_moves (invoke f c)"
  "server_moves (askEnv g)" "server_moves (getW h)"
  by (auto intro!: server_moves_same simp: same_server_def io_defs)

lemma server_moves_bindE [moves_intros]:
  assumes "server_moves m" and "\<And>x. server_moves (k x)"
  shows "server_moves (bindE m k)"
  unfolding server_moves_def
proof (intro allI)
  fix E w
  obtain r w1 where m: "m E w = (r, w1)" by (cases "m E w")
  with assms(1) have "rtranclp server_step w w1" unfolding server_moves_def by (metis snd_conv)
  then show "rtranclp server_step w (snd (bindE m k E w))"
    using assms(2) m unfolding server_moves_def bindE_def
    by (auto split: sum.split intro: rtranclp_trans)
qed

lemma server_moves_thenE [moves_intros]: "server_moves m \<Longrightarrow> server_moves k \<Longrightarrow> server_moves (thenE m k)"
  by (simp add: thenE_def server_moves_bindE)

lemma server_moves_cases [moves_intros]:
  "(b \<Longrightarrow> server_moves m) \<Longrightarrow> (\<not> b \<Longrightarrow> server_moves k) \<Longrightarrow> server_moves (if b then m else k)"
  "(\<And>e. server_moves (f e)) \<Longrightarrow> (\<And>x. server_moves (g x)) \<Longrightarrow>
    server_moves (case r of Inl e \<Rightarrow> f e | Inr x \<Rightarrow> g x)"
  by (auto split: sum.split)

lemma server_moves_section:
  assumes "\<And>w. rtranclp server_step w (f w)"
  shows "rtranclp server_step w (snd (modifyW (\<lambda>_. f w) E w))"
proof -
  have "server_step (f w) ((f w)\<lparr>trace := trace w\<rparr>)"
    by (rule server_step.other) (simp add: same_server_def)
  with assms [of w] show ?thesis by (simp add: modifyW_def)
qed

lemma server_moves_nodeName [moves_intros]: "server_moves (nodeName export)"
  unfolding server_moves_def
proof (intro allI)
  fix E w
  have "rtranclp server_step w (snd (modifyW (\<lambda>_. snd (allocate_name export w)) E w))"
    by (rule server_moves_section) (blast intro: server_step.allocate)
  then show "rtranclp server_step w (snd (nodeName export E w))"
    by (simp add: nodeName_def split_beta thenE_def bindE_def [of "modifyW _"] modifyW_def ret_def)
qed

lemma server_moves_locked:
  assumes "\<And>w w2. f w = Inr w2 \<Longrightarrow> server_step w w2"
  shows "server_moves (locked f)"
  unfolding server_moves_def
proof (intro allI)
  fix E w
  show "rtranclp server_step w (snd (locked f E w))"
  proof (cases "f w")
    case (Inl e)
    then show ?thesis by (simp add: locked_def fail_def)
  next
    case (Inr w1)
    then have "server_step w w1" by (rule assms)
    moreover have "server_step w1 (w1\<lparr>trace := trace w\<rparr>)"
      by (rule server_step.other) (simp add: same_server_def)
    ultimately show ?thesis using Inr by (simp add: locked_def modifyW_def)
  qed
qed

lemma server_moves_qmp [moves_intros]:
  "server_moves newQemuStorageDaemonMonitor" "server_moves (qmp_run cmd guard)"
  "server_moves QueryBlockExports"
  unfolding newQemuStorageDaemonMonitor_def qmp_run_def QueryBlockExports_def
  by (intro moves_intros)+

lemma server_moves_operations:
  "server_moves (StartExport export p)" "server_moves (StopExport export)"
  "server_moves (CheckExportHealth export)" "server_moves StopServer"
  unfolding StartExport_def StopExport_def CheckExportHealth_def StopServer_def BlockdevAdd_def
    BlockExportAdd_def BlockdevDel_def BlockExportDel_def
  by (intro moves_intros server_moves_locked server_step.intros; assumption)+

section \<open>Names of block devices\<close>

text \<open>Every name in use was made from a number below the counter, and no two exports share
  one.  The counter wraps after as many allocations as a 64-bit word has values.\<close>

definition names_ok :: "nat \<Rightarrow> world \<Rightarrow> bool" where
  "names_ok n w \<longleftrightarrow>
     unat (blockdevs_count w) \<le> n \<and> distinct (map fst (blockdevs_m w)) \<and>
     distinct (map snd (blockdevs_m w)) \<and>
     (\<forall>b \<in> snd ` set (blockdevs_m w). \<exists>k < unat (blockdevs_count w). b = ''blockdev-'' @ show_nat k) \<and>
     (shutdown_closed w \<longrightarrow> nbd_Shutdown w)"

lemma AList_update_fresh: "map_of al k = None \<Longrightarrow> AList.update k v al = al @ [(k, v)]"
  by (induction al) (auto split: if_splits)

lemma map_of_None_fst: "map_of al k = None \<Longrightarrow> k \<notin> set (map fst al)"
  by (simp add: map_of_eq_None_iff)

lemma unat_Suc_less: "unat (x :: 64 word) < 2 ^ 64 - 1 \<Longrightarrow> unat (x + 1) = Suc (unat x)"
  by (simp add: unat_word_ariths)

lemma names_ok_allocate:
  assumes "names_ok n w" and "n < 2 ^ 64 - 1"
  shows "names_ok (Suc n) (snd (allocate_name export w))"
proof (cases "map_of (blockdevs_m w) export")
  case None
  have count: "unat (blockdevs_count w + 1) = Suc (unat (blockdevs_count w))"
    using assms by (intro unat_Suc_less) (simp add: names_ok_def)
  have "blockdev_name (blockdevs_count w) \<notin> set (map snd (blockdevs_m w))"
    using assms(1) by (fastforce simp: names_ok_def blockdev_name_def dest: show_nat_inject)
  moreover have "export \<notin> set (map fst (blockdevs_m w))" using None by (rule map_of_None_fst)
  ultimately show ?thesis
    using assms(1) None unfolding names_ok_def allocate_name_def
    by (auto simp: Let_def AList_update_fresh count blockdev_name_def less_Suc_eq)
next
  case (Some b)
  with assms(1) show ?thesis by (simp add: allocate_name_def names_ok_def)
qed

lemma names_ok_delete:
  assumes "names_ok n w"
  shows "names_ok n (w\<lparr>blockdevs_m := AList.delete export (blockdevs_m w)\<rparr>)"
  using assms unfolding names_ok_def
  by (auto simp: AList.delete_eq distinct_map_filter)

lemma names_ok_close:
  "names_ok n v \<Longrightarrow> nbd_Shutdown v \<Longrightarrow> close_shutdownChannel v = Inr w \<Longrightarrow> names_ok n w"
  unfolding names_ok_def close_shutdownChannel_def by (force split: if_splits)

lemma names_ok_forget: "names_ok n w \<Longrightarrow> forget_export export w = Inr w2 \<Longrightarrow> names_ok n w2"
  using names_ok_delete [of n w export] names_ok_close
  by (auto simp: forget_export_def Let_def split: if_splits)

lemma names_ok_shutdown:
  assumes "names_ok n w" and "begin_shutdown w = Inr w2"
  shows "names_ok n w2"
proof -
  have "names_ok n (w\<lparr>nbd_Shutdown := True\<rparr>)" using assms(1) by (simp add: names_ok_def)
  with assms(2) names_ok_close show ?thesis by (auto simp: begin_shutdown_def Let_def split: if_splits)
qed

lemma names_ok_step:
  assumes "server_step w w2" and "names_ok n w" and "n < 2 ^ 64 - 1"
  shows "names_ok (Suc n) w2"
proof -
  have mono: "names_ok n v \<Longrightarrow> names_ok (Suc n) v" for v by (simp add: names_ok_def)
  from assms(1) show ?thesis
  proof (cases rule: server_stepE)
    case (allocate export)
    with names_ok_allocate [OF assms(2,3)] show ?thesis by simp
  next
    case (forget export)
    with names_ok_forget assms(2) mono show ?thesis by blast
  next
    case shutdown
    with names_ok_shutdown assms(2) mono show ?thesis by blast
  next
    case other
    with assms(2) show ?thesis by (auto intro!: mono simp: same_server_def names_ok_def)
  qed
qed

lemma names_ok_init: "names_ok 0 init_world"
  by (simp add: names_ok_def init_world_def)

lemma names_ok_steps:
  "(server_step ^^ n) init_world w \<Longrightarrow> n < 2 ^ 64 \<Longrightarrow> names_ok n w"
proof (induction n arbitrary: w)
  case 0
  then show ?case by (simp add: names_ok_init)
next
  case (Suc n)
  from Suc.prems(1) obtain v where "(server_step ^^ n) init_world v" "server_step v w" by auto
  with Suc.IH [of v] Suc.prems(2) show ?case by (intro names_ok_step [of v]) simp_all
qed

text \<open>The daemon takes node names of at most 31 bytes.\<close>

lemma names_ok_short:
  assumes "names_ok n w" and "b \<in> snd ` set (blockdevs_m w)"
  shows "length b \<le> 31"
proof -
  from assms obtain k where k: "k < unat (blockdevs_count w)" "b = ''blockdev-'' @ show_nat k"
    unfolding names_ok_def by blast
  from k(1) have "k < 10 ^ 20" using unsigned_less [of "blockdevs_count w", where 'a = nat] by simp
  then have "length (show_nat k) \<le> 20" by (rule length_show_nat) simp
  with k(2) show ?thesis by simp
qed

section \<open>Starting and stopping\<close>

lemma nodeName_run:
  "nodeName export E w =
    (Inr (fst (allocate_name export w)), (snd (allocate_name export w))\<lparr>trace := trace w\<rparr>)"
  by (simp add: nodeName_def split_beta thenE_def bindE_def [of "modifyW _"] modifyW_def ret_def)

lemma locked_run:
  "locked f E w = (case f w of Inl e \<Rightarrow> (Inl e, w) | Inr w1 \<Rightarrow> (Inr (), w1\<lparr>trace := trace w\<rparr>))"
  by (simp add: locked_def fail_def modifyW_def split: sum.split)

text \<open>A daemon that answers every command.\<close>

definition daemon_answers :: "env \<Rightarrow> bool" where
  "daemon_answers E \<longleftrightarrow>
     (\<forall>h. env_qmp_connect E h = None) \<and> (\<forall>h cmd. \<exists>infos. env_qmp E h cmd = Inr infos)"

lemma daemon_answers_run:
  assumes "daemon_answers E"
  shows "newQemuStorageDaemonMonitor E w = (Inr (), w\<lparr>trace := trace w @ [QmpConnect]\<rparr>)"
    and "qmp_run cmd guard E w = (Inr (), w\<lparr>trace := trace w @ [Qmp cmd]\<rparr>)"
proof -
  from assms obtain infos where "env_qmp E (trace w) cmd = Inr infos"
    unfolding daemon_answers_def by meson
  then show "qmp_run cmd guard E w = (Inr (), w\<lparr>trace := trace w @ [Qmp cmd]\<rparr>)"
    by (simp add: qmp_run_def bindE_def invoke_def ret_def)
  show "newQemuStorageDaemonMonitor E w = (Inr (), w\<lparr>trace := trace w @ [QmpConnect]\<rparr>)"
    using assms by (simp add: newQemuStorageDaemonMonitor_def invoke_def daemon_answers_def from_err_def)
qed

text \<open>With such a daemon, stopping an export comes down to its locked sections.\<close>

lemma StopExport_answered:
  assumes "daemon_answers E"
  shows "\<exists>t. fst (StopExport export E w) =
    map_sum id (\<lambda>_. ()) (forget_export export ((snd (allocate_name export w))\<lparr>trace := t\<rparr>))"
proof -
  define w1 where "w1 = w\<lparr>trace := trace w @ [QmpConnect, Qmp (QmpBlockExportDel (blockExportId export))]\<rparr>"
  define name where "name = fst (allocate_name export w1)"
  define w2 where "w2 = (snd (allocate_name export w1))\<lparr>trace := trace w1 @ [Qmp (QmpBlockdevDel name)]\<rparr>"
  have "StopExport export E w = locked (forget_export export) E w2"
    by (simp add: StopExport_def thenE_def bindE_def daemon_answers_run [OF assms] BlockExportDel_def
        BlockdevDel_def nodeName_run w1_def w2_def name_def)
  moreover have "\<exists>t. w2 = (snd (allocate_name export w))\<lparr>trace := t\<rparr>"
    by (auto simp: w2_def w1_def allocate_name_def Let_def split: option.split)
  ultimately show ?thesis by (auto simp: locked_run split: sum.split) (metis map_sum.simps id_apply)+
qed

lemma delete_only: "fst ` set al \<subseteq> {k} \<Longrightarrow> AList.delete k al = []"
  by (auto simp: AList.delete_eq filter_empty_conv)

lemma allocate_name_keys:
  "fst ` set (blockdevs_m (snd (allocate_name export w))) = insert export (fst ` set (blockdevs_m w))"
  "nbd_Shutdown (snd (allocate_name export w)) = nbd_Shutdown w"
  "shutdown_closed (snd (allocate_name export w)) = shutdown_closed w"
  by (auto simp: allocate_name_def Let_def AList_update_fresh map_of_SomeD rev_image_eqI
      dest: map_of_SomeD split: option.split)

text \<open>Once the channel has been closed, stopping what is the only export, or one that was never
  started, closes it again.\<close>

lemma StopExport_closed_panics:
  assumes "daemon_answers E" and "nbd_Shutdown w" and "shutdown_closed w"
    and "fst ` set (blockdevs_m w) \<subseteq> {export}"
  shows "fst (StopExport export E w) = Inl (Panic ''close of closed channel'')"
proof -
  have "AList.delete export (blockdevs_m (snd (allocate_name export w))) = []"
    using assms(4) by (intro delete_only) (auto simp: allocate_name_keys)
  with StopExport_answered [OF assms(1), of export w] assms(2,3) show ?thesis
    by (auto simp: forget_export_def close_shutdownChannel_def Let_def allocate_name_keys)
qed

lemma StopServer_closes:
  assumes "blockdevs_m w = []" and "StopServer E w = (Inr (), w2)"
  shows "nbd_Shutdown w2 \<and> shutdown_closed w2 \<and> blockdevs_m w2 = []"
  using assms by (auto simp: StopServer_def locked_run begin_shutdown_def close_shutdownChannel_def
      Let_def split: if_splits sum.splits)

text \<open>A successful start makes the daemon serve the export under the name recorded for it.\<close>

lemma StartExport_Inr:
  assumes "StartExport export p E w = (Inr uri, w2)"
  shows "\<exists>name. map_of (blockdevs_m w2) export = Some name \<and> uri = url_String ''nbd'' (PodIP E) export \<and>
    trace w2 = trace w @ [QmpConnect, Qmp (QmpBlockdevAdd name p),
      Qmp (QmpBlockExportAdd (blockExportId export) name export)]"
proof -
  have name: "map_of (blockdevs_m (snd (allocate_name export w))) export =
      Some (fst (allocate_name export w))" for w
    by (auto simp: allocate_name_def Let_def AList.update_conv' split: option.split)
  have run: "qmp_run cmd guard E w = (Inr x, w2) \<Longrightarrow> w2 = w\<lparr>trace := trace w @ [Qmp cmd]\<rparr>"
    for cmd guard x w w2 and E :: env
    by (auto simp: qmp_run_def io_run invoke_iff split: sum.splits if_splits)
  from assms show ?thesis
    by (auto simp: StartExport_def io_result nodeName_run BlockdevAdd_def BlockExportAdd_def
        newQemuStorageDaemonMonitor_def invoke_iff name dest!: run)
qed

section \<open>The URI of an export\<close>

lemma url_escape_kept: "list_all keep s \<Longrightarrow> url_escape keep s = s"
  by (induction s) (auto simp: url_escape_def)

lemma url_char_kept:
  "url_path_char c \<Longrightarrow> \<not> re_space c" "url_host_char c \<Longrightarrow> c \<noteq> CHR ''/''"
  by (auto simp: url_path_char_def url_host_char_def url_unreserved_def re_space_def Let_def)

lemma url_String_plain:
  assumes "list_all url_host_char host" and "list_all url_path_char p"
    and "host \<noteq> []" and "p \<noteq> []" and "hd p \<noteq> CHR ''/''"
  shows "url_String ''nbd'' host p = ''nbd://'' @ host @ ''/'' @ p"
  using assms by (cases "p = ''*''") (simp_all add: url_String_def url_escape_kept Let_def url_path_char_def
      url_unreserved_def)

text \<open>The client reads host and name back from the URI that the server reports.\<close>

lemma nbd_uri_read_back:
  assumes "list_all url_host_char host" and "list_all url_path_char p"
    and "host \<noteq> []" and "p \<noteq> []" and "hd p \<noteq> CHR ''/''"
  shows "nbdClientURIPattern (url_String ''nbd'' host p) = Some (host, p)"
proof -
  have h: "\<forall>c\<in>set host. c \<noteq> CHR ''/''" and q: "\<forall>c\<in>set p. \<not> re_space c"
    using assms(1,2) by (auto simp: list_all_iff dest: url_char_kept)
  have "dropWhile (\<lambda>c. c \<noteq> CHR ''/'') (host @ CHR ''/'' # p) = CHR ''/'' # p"
    "takeWhile (\<lambda>c. c \<noteq> CHR ''/'') (host @ CHR ''/'' # p) = host"
    using h by (simp_all add: dropWhile_append2 takeWhile_append2 flip: append_Cons)
  moreover have "takeWhile (\<lambda>c. \<not> re_space c) p = p" using q by simp
  moreover have "cut_prefix (''nbd://'' @ host @ ''/'' @ p) ''nbd://'' = Some (host @ CHR ''/'' # p)"
    by (simp add: cut_prefix_Some_iff)
  ultimately have "nbd_uri_at (''nbd://'' @ host @ ''/'' @ p) = Some (host, p)"
    unfolding nbd_uri_at_def by (simp only: option.case list.case)
  then show ?thesis by (simp add: url_String_plain [OF assms])
qed

end
