(* ===== verification/Nbd_Client.thy ===== *)
theory Nbd_Client
  imports Nbd_Server Io_Logic
begin

text \<open>
  internal/common/nbd/client.go: the NBD client of a node.  nbd-client allocates a new device
  each time, so the process keeps a table from export URIs to devices, which is part of the
  world.  An export is passed along and replaced by what the API server returns; a missing
  export is the value the controllers hold after a Get that found nothing.
\<close>

definition no_export :: NBDExport where
  "no_export = \<lparr>e_Meta = new_meta [] [] None,
     e_Spec = \<lparr>es_Export = [], es_Path = [], es_Host = [], es_SizeBytes = 0, es_Clients = []\<rparr>,
     e_Status = \<lparr>est_ObservedGeneration = 0, est_Conditions = [], est_URI = []\<rparr>\<rparr>"

definition set_Clients :: "string list \<Rightarrow> NBDExport \<Rightarrow> NBDExport" where
  "set_Clients nodes e = e\<lparr>e_Spec := (e_Spec e)\<lparr>es_Clients := nodes\<rparr>\<rparr>"

section \<open>Operations\<close>

definition export_update :: "NBDExport \<Rightarrow> NBDExport io" where
  "export_update export = api_update exports ExportCall export"

definition record_client :: "string \<Rightarrow> string \<Rightarrow> unit io" where
  "record_client uri dev = modifyW (\<lambda>w. w\<lparr>nbd_clients := AList.update uri dev (nbd_clients w)\<rparr>)"

definition backend_device :: "string \<Rightarrow> string" where
  "backend_device p =
     (let dev = (case cut_prefix p ''/sys/block/'' of None \<Rightarrow> p | Some dev \<Rightarrow> dev)
      in trim_suffix dev ''/backend'')"

text \<open>The table is rebuilt from the devices that are connected when the process starts.\<close>

definition Startup :: "unit io" where
  "Startup =
     bindE (invoke (\<lambda>E h. Inr (env_glob E h)) GlobNbd) (\<lambda>devices.
       foldE (\<lambda>p u.
         bindE (attempt (NBDClientBackend (backend_device p))) (\<lambda>backend.
           case backend of
             Inl err \<Rightarrow> ret ()
           | Inr uri \<Rightarrow> whenE (has_prefix uri ''nbd://'') (record_client uri (backend_device p))))
         devices ())"

definition ConnectClient :: "NBDExport \<Rightarrow> (string \<times> NBDExport) io" where
  "ConnectClient export =
     (if est_URI (e_Status export) = [] \<or> ExportDegraded export
      then fail (WatchPending ''waiting for NBD server to become available'')
      else
        bindE (askEnv LocalNodeName) (\<lambda>node.
        bindE (if \<not> slices_Contains (es_Clients (e_Spec export)) node
               then export_update (set_Clients (es_Clients (e_Spec export) @ [node]) export)
               else ret export) (\<lambda>export.
        let uri = est_URI (e_Status export)
        in bindE (getW nbd_clients) (\<lambda>clients.
             case map_of clients uri of
               Some dev \<Rightarrow> ret (''/dev/'' @ dev, export)
             | None \<Rightarrow>
                 bindE (attempt (NBDClientConnect uri)) (\<lambda>connected.
                   case connected of
                     Inl err \<Rightarrow>
                       thenE (ignoreErr (export_update
                         (set_Clients (RemoveAll (es_Clients (e_Spec export)) node) export))) (fail err)
                   | Inr dev \<Rightarrow> thenE (record_client uri dev) (ret (''/dev/'' @ dev, export)))))))"

text \<open>Whether there is a connection, and whether it has to go.\<close>

definition CheckClient :: "NBDExport \<Rightarrow> (bool \<times> bool) io" where
  "CheckClient export =
     (if est_URI (e_Status export) = [] then ret (False, False)
      else
        bindE (askEnv LocalNodeName) (\<lambda>node.
        bindE (getW nbd_clients) (\<lambda>clients.
          case map_of clients (est_URI (e_Status export)) of
            None \<Rightarrow> ret (False, slices_Contains (es_Clients (e_Spec export)) node)
          | Some dev \<Rightarrow>
              bindE (attempt (NBDClientBackend dev)) (\<lambda>backend.
                ret (True, (case backend of Inl err \<Rightarrow> True
                            | Inr uri \<Rightarrow> uri \<noteq> est_URI (e_Status export)) \<or> ExportDegraded export)))))"

definition DisconnectClient :: "NBDExport \<Rightarrow> NBDExport io" where
  "DisconnectClient export =
     bindE (askEnv LocalNodeName) (\<lambda>node.
       if \<not> slices_Contains (es_Clients (e_Spec export)) node then ret export
       else
         let uri = est_URI (e_Status export)
         in bindE (getW nbd_clients) (\<lambda>clients.
            thenE (case map_of clients uri of
                     Some dev \<Rightarrow> NBDClientDisconnect uri dev
                   | None \<Rightarrow> ret ())
            (thenE (modifyW (\<lambda>w. w\<lparr>nbd_clients := AList.delete uri (nbd_clients w)\<rparr>))
              (export_update (set_Clients (RemoveAll (es_Clients (e_Spec export)) node) export)))))"

section \<open>Which calls the client makes\<close>

definition nbd_client_call :: "string list \<Rightarrow> call" where
  "nbd_client_call args = Exec ([''nsenter'', ''--target'', ''1'', ''--net'', ''nbd-client''] @ args)"

definition backend_call :: "string \<Rightarrow> call" where
  "backend_call dev = host_call [''cat'', ''/sys/block/'' @ dev @ ''/backend'']"

lemma nbd_client_call_simps [simp]:
  "nbd_client_call a = nbd_client_call b \<longleftrightarrow> a = b" "nbd_client_call a \<noteq> backend_call d"
  "backend_call d \<noteq> nbd_client_call a"
  "nbd_client_call a \<noteq> ExportCall x" "backend_call d \<noteq> ExportCall x"
  "ExportCall x \<noteq> backend_call d" "ExportCall x \<noteq> nbd_client_call a"
  by (auto simp: nbd_client_call_def backend_call_def host_call_def)

lemma emits_nbdClient [emits_intros]: "(\<And>E. P E (nbd_client_call args)) \<Longrightarrow> emits P (nbdClient args)"
  by (simp add: nbdClient_def nbd_client_call_def emits_intros)

lemma emits_NBDClientBackend [emits_intros]:
  "(\<And>E. P E (backend_call dev)) \<Longrightarrow> emits P (NBDClientBackend dev)"
  unfolding NBDClientBackend_def backend_call_def by (intro emits_intros)

lemma emits_export_update [emits_intros]:
  "(\<And>E. P E (ExportCall (ApiUpdate x))) \<Longrightarrow> emits P (export_update x)"
  unfolding export_update_def by (rule emits_api)

lemma emits_record_client [emits_intros]: "emits P (record_client uri dev)"
  unfolding record_client_def by (rule emits_modifyW)

lemma emits_Startup:
  "emits (\<lambda>E c. c = GlobNbd \<or> (\<exists>dev. c = backend_call dev)) Startup"
  unfolding Startup_def by (intro emits_intros) auto

text \<open>A device is attached only for a URI that has none yet.\<close>

definition connects :: "string \<Rightarrow> call \<Rightarrow> bool" where
  "connects uri c \<longleftrightarrow> (\<exists>name host. c = nbd_client_call
     [''--identifier'', uri, ''--connections'', ''8'', ''--name'', name, host])"

definition disconnects :: "string \<Rightarrow> call \<Rightarrow> bool" where
  "disconnects dev c \<longleftrightarrow> c = nbd_client_call [''--disconnect'', ''/dev/'' @ dev]"

lemma connects_simps [simp]:
  "\<not> connects uri (backend_call dev)" "\<not> connects uri (ExportCall x)"
  "\<not> disconnects dev (backend_call dev')" "\<not> disconnects dev (ExportCall x)"
  by (auto simp: connects_def disconnects_def)

definition connect_fresh :: "env \<Rightarrow> world \<Rightarrow> call \<Rightarrow> bool" where
  "connect_fresh E w c \<longleftrightarrow> (\<forall>uri. connects uri c \<longrightarrow> map_of (nbd_clients w) uri = None)"

lemma connects_inject: "connects u c \<Longrightarrow> connects v c \<Longrightarrow> u = v"
  by (auto simp: connects_def)

lemma wp_nbdClient:
  assumes "S (nbd_client_call args)" and "\<And>r. Q r (after w (nbd_client_call args))"
  shows "wp S (checkErr (nbdClient args)) Q E w"
  using assms unfolding nbdClient_def nbd_client_call_def
  by (intro wp_checkErr wp_RunInContainer) (auto simp: on_success_def split: prod.split)

lemma wp_NBDClientConnect:
  assumes "\<And>c. connects uri c \<Longrightarrow> S c" and "Q (Inl (BadRequest ''could not parse NBD URI'')) w"
    and "\<And>r c. connects uri c \<Longrightarrow> Q r (after w c)"
  shows "wp S (NBDClientConnect uri) Q E w"
  using assms unfolding NBDClientConnect_def connects_def
  by (intro wp_intros wp_nbdClient) blast+

lemma wp_NBDClientBackend [wp_intros]:
  assumes "S (backend_call dev)" and "Q (fst (NBDClientBackend dev E w)) (after w (backend_call dev))"
  shows "wp S (NBDClientBackend dev) Q E w"
proof -
  have "snd (NBDClientBackend dev E w) = after w (backend_call dev)"
    by (auto simp: NBDClientBackend_def checkErr_def RunOnHost_eq bindE_def ret_def fail_def backend_call_def
        split: option.split prod.split)
  with assms show ?thesis by (simp add: wp_def)
qed

lemma ConnectClient_fresh: "issues (ConnectClient export) connect_fresh"
  unfolding ConnectClient_def export_update_def record_client_def
  by (rule wp_issues, (intro wp_intros wp_NBDClientConnect allI))
    (auto simp: connect_fresh_def dest: connects_inject split: if_splits)

text \<open>A device is detached only if it is the one of the export, and still serves its URI.\<close>

definition disconnect_own :: "NBDExport \<Rightarrow> env \<Rightarrow> world \<Rightarrow> call \<Rightarrow> bool" where
  "disconnect_own export E w c \<longleftrightarrow>
     (\<forall>dev. disconnects dev c \<longrightarrow> map_of (nbd_clients w) (est_URI (e_Status export)) = Some dev \<and>
        fst (NBDClientBackend dev E w) = Inr (est_URI (e_Status export)))"

lemma DisconnectClient_own: "issues (DisconnectClient export) (disconnect_own export)"
  unfolding DisconnectClient_def NBDClientDisconnect_def export_update_def
  by (rule wp_issues, (intro wp_intros wp_nbdClient))
    (auto simp: disconnect_own_def disconnects_def)

text \<open>A successful connection is recorded, so the next one for the same URI finds it.\<close>

lemma ConnectClient_Inr:
  assumes "ConnectClient export E w = (Inr (path, export2), w2)"
  shows "\<exists>dev. path = ''/dev/'' @ dev \<and>
    map_of (nbd_clients w2) (est_URI (e_Status export2)) = Some dev \<and>
    est_URI (e_Status export) \<noteq> [] \<and> \<not> ExportDegraded export"
  using assms
  by (auto simp: ConnectClient_def io_run Let_def export_update_def api_update_def invoke_iff
      record_client_def modifyW_def AList.update_conv' split: if_splits option.splits sum.splits)

lemma ConnectClient_again:
  assumes "est_URI (e_Status export) \<noteq> []" and "\<not> ExportDegraded export"
    and "LocalNodeName E \<in> set (es_Clients (e_Spec export))"
    and "map_of (nbd_clients w) (est_URI (e_Status export)) = Some dev"
  shows "ConnectClient export E w = (Inr (''/dev/'' @ dev, export), w)"
  using assms by (simp add: ConnectClient_def Let_def ret_def)

end
