(* ===== verification/Node_Volume.thy ===== *)
theory Node_Volume
  imports Workers Nbd_Client Cluster_Volume Lvm_Counter
begin

text \<open>
  internal/manager/node/volume_node_controller.go: the node's side of a volume.  A thin volume is
  attached by wrapping the thin LV, where the pool is active here, or an NBD device, where
  another node has the pool, into device-mapper targets; a linear volume is activated with a
  shared lock.  The node chosen for population copies and zeroes the data in the background.

  The volume and the pool are passed along and replaced by what the API server returns.
  InterestedNodes also changes the list of the volume in memory, so every call of it returns the
  volume it leaves.
\<close>

section \<open>Parts of the objects\<close>

definition set_AttachedToNodes :: "string list \<Rightarrow> Volume \<Rightarrow> Volume" where
  "set_AttachedToNodes nodes v = v\<lparr>v_Status := (v_Status v)\<lparr>vst_AttachedToNodes := nodes\<rparr>\<rparr>"

definition set_NBDExport :: "string \<Rightarrow> Volume \<Rightarrow> Volume" where
  "set_NBDExport name v = v\<lparr>v_Status := (v_Status v)\<lparr>vst_NBDExport := name\<rparr>\<rparr>"

definition set_status_SizeBytes :: "int \<Rightarrow> Volume \<Rightarrow> Volume" where
  "set_status_SizeBytes n v = v\<lparr>v_Status := (v_Status v)\<lparr>vst_SizeBytes := n\<rparr>\<rparr>"

definition node_volume_statusUpdate :: "Volume \<Rightarrow> Volume io" where
  "node_volume_statusUpdate volume =
     api_update_status volumes VolumeCall
       (volume\<lparr>v_Status := (v_Status volume)\<lparr>vst_ObservedGeneration :=
          om_Generation (v_Meta volume)\<rparr>\<rparr>)"

text \<open>The nodes of the volume, and the volume whose list the call has changed.\<close>

definition interested :: "ThinPoolLv \<Rightarrow> Volume \<Rightarrow> string list \<times> Volume" where
  "interested thinPoolLv volume =
     (let (nodes, attachList) = InterestedNodes thinPoolLv (vs_AttachToNodes (v_Spec volume))
      in (nodes, set_AttachToNodes attachList volume))"

definition isThinLvActiveOnLocalNode :: "string \<Rightarrow> ThinPoolLv \<Rightarrow> string \<Rightarrow> bool" where
  "isThinLvActiveOnLocalNode node thinPoolLv name =
     (case Status_FindThinLv (p_Status thinPoolLv) name of
        None \<Rightarrow> False
      | Some thinLvStatus \<Rightarrow>
          pst_ActiveOnNode (p_Status thinPoolLv) = node \<and> st_Name (lst_State thinLvStatus) = StatusActive)"

definition devName :: "Volume \<Rightarrow> string" where
  "devName volume =
     ''/dev/'' @ vs_VgName (v_Spec volume) @ ''/'' @ VolumeToThinLvName (om_Name (v_Meta volume))"

section \<open>Thin volumes\<close>

text \<open>The device behind an attached volume, with its size: the LV, or an NBD client.\<close>

definition attach_device ::
  "Volume \<Rightarrow> ThinPoolLv \<Rightarrow> int \<Rightarrow> (int \<times> string) io" where
  "attach_device volume thinPoolLv sizeBytes =
     bindE (askEnv LocalNodeName) (\<lambda>node.
       if ps_ActiveOnNode (p_Spec thinPoolLv) = node then
         (if \<not> isThinLvActiveOnLocalNode node thinPoolLv (VolumeToThinLvName (om_Name (v_Meta volume)))
          then fail (WatchPending ''waiting for thinlv activation'')
          else ret (sizeBytes, devName volume))
       else if vst_NBDExport (v_Status volume) = [] then fail (WatchPending ''waiting for NBD server'')
       else
         bindE (attempt (api_get exports ExportCall (vst_NBDExport (v_Status volume)))) (\<lambda>got.
         bindE (case got of
                  Inr nbdExport \<Rightarrow> ret nbdExport
                | Inl err \<Rightarrow> if IgnoreNotFound (Some err) \<noteq> None then fail err else ret no_export)
           (\<lambda>nbdExport.
         bindE (ConnectClient nbdExport) (\<lambda>(device, nbdExport).
           ret (es_SizeBytes (e_Spec nbdExport), device)))))"

definition reconcileThinAttaching :: "Volume \<Rightarrow> ThinPoolLv \<Rightarrow> (Volume \<times> ThinPoolLv) io" where
  "reconcileThinAttaching volume thinPoolLv =
     (let oldThinPoolLv = thinPoolLv;
          name = om_Name (v_Meta volume);
          thinLvName = VolumeToThinLvName name
      in case (Spec_FindThinLv (p_Spec thinPoolLv) thinLvName,
               Status_FindThinLv (p_Status thinPoolLv) thinLvName) of
           (Some thinLvSpec, Some thinLvStatus) \<Rightarrow>
             if ls_State thinLvSpec = SpecRemoved then fail (BadRequest ''unexpected missing blob'')
             else
               let thinPoolLv = modify_thin_spec thinLvName (set_thin_state SpecActive) thinPoolLv
               in thenE (dm_Create name (lst_SizeBytes thinLvStatus))
                    (let (nodes, volume) = interested thinPoolLv volume
                     in case at nodes 0 of
                          None \<Rightarrow> index_panic
                        | Some node \<Rightarrow>
                            bindE (UpdateThinPoolLv (Some oldThinPoolLv) (set_ActiveOnNode node thinPoolLv))
                              (\<lambda>(old, thinPoolLv).
                            bindE (attach_device volume thinPoolLv (lst_SizeBytes thinLvStatus))
                              (\<lambda>(sizeBytes, device).
                            thenE (dm_Resume name sizeBytes device) (ret (volume, thinPoolLv)))))
         | _ \<Rightarrow> fail (BadRequest ''unexpected missing blob''))"

definition reconcileThinDetaching :: "Volume \<Rightarrow> ThinPoolLv \<Rightarrow> (Volume \<times> ThinPoolLv) io" where
  "reconcileThinDetaching volume thinPoolLv =
     (let oldThinPoolLv = thinPoolLv;
          name = om_Name (v_Meta volume);
          thinLvName = VolumeToThinLvName name
      in thenE (dm_Remove name)
         (bindE (askEnv LocalNodeName) (\<lambda>node.
            if pst_ActiveOnNode (p_Status thinPoolLv) \<noteq> node \<and> ps_ActiveOnNode (p_Spec thinPoolLv) \<noteq> node
            then ret (volume, thinPoolLv)
            else
              let thinPoolLv =
                    (if length (vs_AttachToNodes (v_Spec volume)) = 0 \<and>
                        (case Spec_FindThinLv (p_Spec thinPoolLv) thinLvName of
                           None \<Rightarrow> False | Some thinLvSpec \<Rightarrow> ls_State thinLvSpec = SpecActive)
                     then modify_thin_spec thinLvName (set_thin_state SpecInactive) thinPoolLv
                     else thinPoolLv);
                  (nodes, volume) = interested thinPoolLv volume;
                  active = (case at nodes 0 of None \<Rightarrow> [] | Some n \<Rightarrow> n)
              in bindE (UpdateThinPoolLv (Some oldThinPoolLv) (set_ActiveOnNode active thinPoolLv))
                   (\<lambda>(old, thinPoolLv).
                 if length (vs_AttachToNodes (v_Spec volume)) = 0 \<and>
                    (case Status_FindThinLv (p_Status thinPoolLv) thinLvName of
                       None \<Rightarrow> False
                     | Some thinLvStatus \<Rightarrow> st_Name (lst_State thinLvStatus) = StatusActive)
                 then fail (WatchPending ''waiting for thinlv deactivation'')
                 else ret (volume, thinPoolLv)))))"

text \<open>The client is disconnected when the volume leaves the node or the connection is broken,
  with the device suspended first.\<close>

definition cleanup_client :: "Volume \<Rightarrow> NBDExport \<Rightarrow> NBDExport io" where
  "cleanup_client volume nbdExport =
     bindE (CheckClient nbdExport) (\<lambda>(connected, disconnect).
     bindE (askEnv LocalNodeName) (\<lambda>node.
       if (connected \<and> \<not> slices_Contains (vs_AttachToNodes (v_Spec volume)) node) \<or> disconnect
       then thenE (dm_Suspend (om_Name (v_Meta volume)) (vt_Block (vs_Type (v_Spec volume)) \<noteq> None))
              (DisconnectClient nbdExport)
       else ret nbdExport))"

definition cleanup_server :: "Volume \<Rightarrow> ThinPoolLv \<Rightarrow> int \<Rightarrow> NBDExport \<Rightarrow> Volume io" where
  "cleanup_server volume thinPoolLv sizeBytes nbdExport =
     bindE (askEnv LocalNodeName) (\<lambda>node.
     let (nodes, volume) = interested thinPoolLv volume
     in if \<not> ShouldStopExport node nbdExport nodes sizeBytes then ret volume
        else
          bindE (if es_Path (e_Spec nbdExport) \<noteq> []
                 then export_update (nbdExport\<lparr>e_Spec := (e_Spec nbdExport)\<lparr>es_Path := []\<rparr>\<rparr>)
                 else ret nbdExport) (\<lambda>nbdExport.
          if length (es_Clients (e_Spec nbdExport)) = 0 then
            bindE (attempt (api_delete exports ExportCall nbdExport (Some ''Background''))) (\<lambda>deleted.
            thenE (returnErr (case deleted of Inl err \<Rightarrow> IgnoreNotFound (Some err) | Inr u \<Rightarrow> None))
              (node_volume_statusUpdate (set_NBDExport [] volume)))
          else fail (WatchPending ''waiting for NBD clients to detach'')))"

definition reconcileThinNBDCleanup :: "Volume \<Rightarrow> ThinPoolLv \<Rightarrow> int \<Rightarrow> Volume io" where
  "reconcileThinNBDCleanup volume thinPoolLv sizeBytes =
     (if vst_NBDExport (v_Status volume) = [] then ret volume
      else
        bindE (attempt (api_get exports ExportCall (vst_NBDExport (v_Status volume)))) (\<lambda>got.
        bindE (case got of
                 Inr nbdExport \<Rightarrow> ret (nbdExport, volume)
               | Inl err \<Rightarrow>
                   if err = ErrNotFound
                   then bindE (node_volume_statusUpdate (set_NBDExport [] volume)) (\<lambda>volume.
                          ret (no_export, volume))
                   else fail err) (\<lambda>(nbdExport, volume).
        bindE (cleanup_client volume nbdExport) (\<lambda>nbdExport.
          cleanup_server volume thinPoolLv sizeBytes nbdExport))))"

definition new_NBDExport :: "string \<Rightarrow> string \<Rightarrow> string \<Rightarrow> Volume \<Rightarrow> int \<Rightarrow> NBDExport" where
  "new_NBDExport name namespace node volume sizeBytes =
     \<lparr>e_Meta = fst (AddFinalizer (new_meta name namespace (Some CommonLabels)) Finalizer),
      e_Spec = \<lparr>es_Export = om_Name (v_Meta volume), es_Path = devName volume, es_Host = node,
        es_SizeBytes = sizeBytes, es_Clients = []\<rparr>,
      e_Status = \<lparr>est_ObservedGeneration = 0, est_Conditions = [], est_URI = []\<rparr>\<rparr>"

definition reconcileThinNBDSetup :: "Volume \<Rightarrow> ThinPoolLv \<Rightarrow> Volume io" where
  "reconcileThinNBDSetup volume thinPoolLv =
     bindE (askEnv LocalNodeName) (\<lambda>node.
     let thinLvName = VolumeToThinLvName (om_Name (v_Meta volume));
         (nodes, volume) = interested thinPoolLv volume
     in case Status_FindThinLv (p_Status thinPoolLv) thinLvName of
          None \<Rightarrow> ret volume
        | Some thinLvStatus \<Rightarrow>
            if \<not> isThinLvActiveOnLocalNode node thinPoolLv thinLvName then ret volume
            else if \<not> slices_Contains nodes node \<or> length nodes = 1 then ret volume
            else
              let name = node @ ''-'' @ VolumeToThinLvName (om_Name (v_Meta volume))
              in if vst_NBDExport (v_Status volume) = name then ret volume
                 else
                   bindE (askEnv Namespace) (\<lambda>namespace.
                   let export = new_NBDExport name namespace node volume (lst_SizeBytes thinLvStatus)
                   in bindE (liftE (SetControllerReference (volume_object volume) (e_Meta export))) (\<lambda>metadata.
                      bindE (attempt (api_create exports ExportCall (export\<lparr>e_Meta := metadata\<rparr>))) (\<lambda>created.
                      thenE (returnErr (case created of Inl err \<Rightarrow> IgnoreAlreadyExists (Some err) | Inr e \<Rightarrow> None))
                        (node_volume_statusUpdate (set_NBDExport name volume))))))"

text \<open>The status the volume gets from an attachment or a detachment, and whether it changed.\<close>

definition attached_status :: "string \<Rightarrow> bool \<Rightarrow> ThinPoolLv \<Rightarrow> Volume \<Rightarrow> Volume \<times> bool" where
  "attached_status node attached thinPoolLv volume =
     (if attached then
        (let (volume, needsUpdate) =
               (if \<not> slices_Contains (vst_AttachedToNodes (v_Status volume)) node
                then (set_AttachedToNodes (vst_AttachedToNodes (v_Status volume) @ [node]) volume, True)
                else (volume, False));
             thinLvName = VolumeToThinLvName (om_Name (v_Meta volume))
         in case Status_FindThinLv (p_Status thinPoolLv) thinLvName of
              None \<Rightarrow> (volume, needsUpdate)
            | Some thinLvStatus \<Rightarrow>
                if isThinLvActiveOnLocalNode node thinPoolLv thinLvName \<and>
                   lst_SizeBytes thinLvStatus > vst_SizeBytes (v_Status volume)
                then (set_status_SizeBytes (lst_SizeBytes thinLvStatus) volume, True)
                else (volume, needsUpdate))
      else if slices_Contains (vst_AttachedToNodes (v_Status volume)) node
        then (set_AttachedToNodes (RemoveAll (vst_AttachedToNodes (v_Status volume)) node) volume, True)
      else (volume, False))"

definition updateStatusAttachedToNodes :: "Volume \<Rightarrow> bool \<Rightarrow> ThinPoolLv \<Rightarrow> Volume io" where
  "updateStatusAttachedToNodes volume attached thinPoolLv =
     bindE (askEnv LocalNodeName) (\<lambda>node.
       let (volume, needsUpdate) = attached_status node attached thinPoolLv volume
       in if needsUpdate then node_volume_statusUpdate volume else ret volume)"

definition reconcileThin :: "Volume \<Rightarrow> unit io" where
  "reconcileThin volume =
     bindE (attempt (api_get pools PoolCall (om_Name (v_Meta volume)))) (\<lambda>got.
       case got of
         Inl err \<Rightarrow>
           if om_DeletionTimestamp (v_Meta volume) \<noteq> None then returnErr (IgnoreNotFound (Some err))
           else fail err
       | Inr thinPoolLv \<Rightarrow>
           bindE (askEnv LocalNodeName) (\<lambda>node.
             case Status_FindThinLv (p_Status thinPoolLv) (VolumeToThinLvName (om_Name (v_Meta volume))) of
               None \<Rightarrow>
                 if om_DeletionTimestamp (v_Meta volume) \<noteq> None \<and>
                    \<not> slices_Contains (vst_AttachedToNodes (v_Status volume)) node
                 then ret () else fail (BadRequest ''unexpected missing blob'')
             | Some thinLvStatus \<Rightarrow>
                 bindE (reconcileThinNBDCleanup volume thinPoolLv (lst_SizeBytes thinLvStatus)) (\<lambda>volume.
                 let attached = (om_DeletionTimestamp (v_Meta volume) = None \<and>
                                 slices_Contains (vs_AttachToNodes (v_Spec volume)) node)
                 in bindE (if attached then reconcileThinAttaching volume thinPoolLv
                           else reconcileThinDetaching volume thinPoolLv) (\<lambda>(volume, thinPoolLv).
                    bindE (updateStatusAttachedToNodes volume attached thinPoolLv) (\<lambda>volume.
                    thenE (reconcileThinNBDSetup volume thinPoolLv) (ret ()))))))"

section \<open>Population\<close>

definition source_path :: "Volume \<Rightarrow> string" where
  "source_path volume =
     ''/dev/'' @ vs_VgName (v_Spec volume) @ ''/'' @
       VolumeToThinLvName (''clone-'' @ om_Name (v_Meta volume))"

text \<open>A path that cannot be examined counts as missing.\<close>

definition require_path :: "string \<Rightarrow> string \<Rightarrow> unit io" where
  "require_path p msg =
     bindE (attempt (PathExistsOnHost p)) (\<lambda>found.
       if found \<noteq> Inr True then fail (BadRequest msg) else ret ())"

definition reconcileSourcePopulating :: "Volume \<Rightarrow> string \<Rightarrow> int io" where
  "reconcileSourcePopulating volume targetPathOnHost =
     (if vc_ContentsType (vs_Contents (v_Spec volume)) = VolumeContentsTypeEmpty
      then fail (BadRequest ''unexpected empty source'')
      else
        let workName = ''dd-'' @ om_Name (v_Meta volume)
        in if om_DeletionTimestamp (v_Meta volume) \<noteq> None then thenE (Workers_Cancel workName) (ret 0)
           else
             thenE (require_path (source_path volume) ''unexpected missing source mount'')
             (thenE (require_path targetPathOnHost ''unexpected missing destination mount'')
             (thenE (Workers_Run workName (DdWork targetPathOnHost (source_path volume)))
               (LvmSize (vs_VgName (v_Spec volume))
                  (VolumeToThinLvName (''clone-'' @ om_Name (v_Meta volume)))))))"

definition reconcileThinPopulating :: "Volume \<Rightarrow> unit io" where
  "reconcileThinPopulating volume =
     thenE (reconcileSourcePopulating volume (devName volume)) (ret ())"

definition blkdiscardWorkName :: "Volume \<Rightarrow> string" where
  "blkdiscardWorkName volume =
     ''blkdiscard/'' @ vs_VgName (v_Spec volume) @ ''/'' @ om_Name (v_Meta volume)"

definition LvmLvKeySafeOffset :: string where
  "LvmLvKeySafeOffset = Domain @ ''/safe-offset''"

definition linear_path :: "Volume \<Rightarrow> string" where
  "linear_path volume = vs_VgName (v_Spec volume) @ ''/'' @ om_Name (v_Meta volume)"

definition linear_lvchange :: "Volume \<Rightarrow> string \<Rightarrow> string list" where
  "linear_lvchange volume activation =
     [''lvchange'', ''--devicesfile'', vs_VgName (v_Spec volume), ''--activate'', activation, linear_path volume]"

text \<open>The data of the source, once: the offset up to which the volume is safe.\<close>

definition populate_from_source :: "Volume \<Rightarrow> int \<Rightarrow> int io" where
  "populate_from_source volume offset =
     (if vc_ContentsType (vs_Contents (v_Spec volume)) \<noteq> VolumeContentsTypeEmpty \<and> offset = 0 then
        bindE (reconcileSourcePopulating volume (''/dev/'' @ linear_path volume)) (\<lambda>offset.
        thenE (LvmLvUpdateCounterIfLower (vs_VgName (v_Spec volume)) (om_Name (v_Meta volume))
                 LvmLvKeySafeOffset offset)
          (ret offset))
      else ret offset)"

text \<open>The rest of a block volume is zeroed, unless the policy waives it.\<close>

definition zero_rest :: "Volume \<Rightarrow> int \<Rightarrow> unit io" where
  "zero_rest volume offset =
     (if om_DeletionTimestamp (v_Meta volume) \<noteq> None then Workers_Cancel (blkdiscardWorkName volume)
      else if vt_Block (vs_Type (v_Spec volume)) \<noteq> None then
        bindE (LvmSize (vs_VgName (v_Spec volume)) (om_Name (v_Meta volume))) (\<lambda>sizeBytes.
        thenE (whenE (offset < sizeBytes \<and> vs_WipePolicy (v_Spec volume) \<noteq> VolumeWipePolicyUnsafeFast)
                 (Workers_Run (blkdiscardWorkName volume)
                    (BlkdiscardWork (''/dev/'' @ linear_path volume) offset)))
        (thenE (LvmLvUpdateCounterIfLower (vs_VgName (v_Spec volume)) (om_Name (v_Meta volume))
                  LvmLvKeySafeOffset sizeBytes)
          (ret ())))
      else ret ())"

definition reconcileLinearPopulating :: "Volume \<Rightarrow> unit io" where
  "reconcileLinearPopulating volume =
     thenE (checkErr (Lvm (linear_lvchange volume ''ey'')))
     (bindE (LvmLvGetCounter (vs_VgName (v_Spec volume)) (om_Name (v_Meta volume)) LvmLvKeySafeOffset) (\<lambda>offset.
      bindE (populate_from_source volume offset) (\<lambda>offset.
      thenE (zero_rest volume offset)
     (thenE (checkErr (Lvm (linear_lvchange volume ''n''))) (ret ())))))"

section \<open>Linear volumes\<close>

definition reconcileLinear :: "Volume \<Rightarrow> unit io" where
  "reconcileLinear volume =
     bindE (askEnv LocalNodeName) (\<lambda>node.
     let shouldBeActive = (om_DeletionTimestamp (v_Meta volume) = None \<and>
           slices_Contains (vs_AttachToNodes (v_Spec volume)) node);
         attachedTo = vst_AttachedToNodes (v_Status volume);
         isActiveInStatus = slices_Contains attachedTo node
     in bindE (PathExistsOnHost (''/dev/'' @ linear_path volume)) (\<lambda>isActuallyActive.
        bindE (if shouldBeActive \<and> \<not> isActuallyActive
               then thenE (checkErr (Lvm (linear_lvchange volume ''sy''))) (ret True)
               else if \<not> shouldBeActive \<and> isActuallyActive
               then thenE (checkErr (Lvm (linear_lvchange volume ''n''))) (ret False)
               else ret isActuallyActive) (\<lambda>isActuallyActive.
          if \<not> isActiveInStatus \<and> isActuallyActive then
            thenE (node_volume_statusUpdate (set_AttachedToNodes (attachedTo @ [node]) volume)) (ret ())
          else if isActiveInStatus \<and> \<not> isActuallyActive then
            thenE (node_volume_statusUpdate (set_AttachedToNodes (RemoveAll attachedTo node) volume)) (ret ())
          else ret ())))"

section \<open>The reconciler\<close>

text \<open>Population runs on the node that the label of the volume names.\<close>

definition populates_here :: "string \<Rightarrow> Volume \<Rightarrow> bool" where
  "populates_here node volume \<longleftrightarrow>
     volume_is volume LvCreated \<and> \<not> volume_is volume DataSourceCompleted \<and>
     om_Labels (v_Meta volume) \<noteq> None \<and>
     (case map_of (labels_of volume) PopulationNodeLabel of None \<Rightarrow> [] | Some n \<Rightarrow> n) = node"

definition population_done :: Condition where
  "population_done = new_condition DataSourceCompleted ConditionTrue ''Completed''
     ''population from data source completed''"

definition populate :: "Volume \<Rightarrow> unit io" where
  "populate volume =
     (case vs_Mode (v_Spec volume) of
        VolumeModeThin \<Rightarrow> reconcileThinPopulating volume
      | VolumeModeLinear \<Rightarrow> reconcileLinearPopulating volume
      | OtherVolumeMode s \<Rightarrow> fail (BadRequest ''invalid volume mode for data population''))"

text \<open>The step of the population phase: the volume to go on with, None where the reconciler
  returns without an error.\<close>

definition node_populate :: "Volume \<Rightarrow> Volume option io" where
  "node_populate volume =
     bindE (attempt (populate volume)) (\<lambda>populated.
        case populated of
          Inl err \<Rightarrow> if is_WatchPending err then ret None else fail err
        | Inr u \<Rightarrow>
            if om_DeletionTimestamp (v_Meta volume) \<noteq> None then ret None
            else
              bindE timeNow (\<lambda>now.
                let (volume, changed) = set_volume_condition now population_done volume
                in if changed then bindE (node_volume_statusUpdate volume) (\<lambda>volume. ret (Some volume))
                   else ret (Some volume)))"

definition reconcile_by_mode :: "Volume \<Rightarrow> unit io" where
  "reconcile_by_mode volume =
     (case vs_Mode (v_Spec volume) of
        VolumeModeThin \<Rightarrow> reconcileThin volume
      | VolumeModeLinear \<Rightarrow> reconcileLinear volume
      | OtherVolumeMode s \<Rightarrow> fail (BadRequest ''invalid volume mode''))"

definition node_volume_Reconcile :: "string \<Rightarrow> unit io" where
  "node_volume_Reconcile name =
     bindE (attempt (api_get volumes VolumeCall name)) (\<lambda>got.
       case got of
         Inl err \<Rightarrow> returnErr (IgnoreNotFound (Some err))
       | Inr volume \<Rightarrow>
           bindE (askEnv LocalNodeName) (\<lambda>node.
           bindE (if populates_here node volume then node_populate volume else ret (Some volume)) (\<lambda>going.
             case going of
               None \<Rightarrow> ret ()
             | Some volume \<Rightarrow>
                 if \<not> volume_is volume Available then ret ()
                 else
                   bindE (attempt (reconcile_by_mode volume)) (\<lambda>result.
                     case result of
                       Inl err \<Rightarrow> if is_WatchPending err then ret () else fail err
                     | Inr u \<Rightarrow> ret ()))))"

end
