(* ===== verification/Node_Volume_Props.thy ===== *)
theory Node_Volume_Props
  imports Node_Volume
begin

text \<open>
  What the node's side of a volume guarantees: which device is attached, where zeroing starts, when
  population is reported, when a linear volume is activated.
\<close>

section \<open>Zeroing and population\<close>

text \<open>The counter stored with a linear volume, as the reconciler reads it.\<close>

definition stored_offset :: "env \<Rightarrow> world \<Rightarrow> Volume \<Rightarrow> int" where
  "stored_offset E w volume =
     Max (insert 0 (counter_values LvmLvKeySafeOffset
       (tags_at E (after w (lvm_call (linear_lvchange volume ''ey''))) (vs_VgName (v_Spec volume))
          (om_Name (v_Meta volume)))))"

definition zeroes :: "call \<Rightarrow> string \<Rightarrow> int \<Rightarrow> bool" where
  "zeroes c device offset \<longleftrightarrow> (\<exists>n. c = WorkerStart n (BlkdiscardWork device offset))"

lemma zeroes_simps [simp]:
  "\<not> zeroes (lvm_call a) d i" "\<not> zeroes (StatHost p) d i" "\<not> zeroes (WorkerPoll n) d i"
  "\<not> zeroes (WorkerCancel n) d i" "\<not> zeroes (WorkerStart n (DdWork t s)) d i"
  "zeroes (WorkerStart n (BlkdiscardWork d' i')) d i \<longleftrightarrow> d = d' \<and> i = i'"
  by (auto simp: zeroes_def lvm_call_def host_call_def)

definition zeroing_safe :: "Volume \<Rightarrow> env \<Rightarrow> world \<Rightarrow> call \<Rightarrow> bool" where
  "zeroing_safe volume E w c \<longleftrightarrow>
     (\<forall>device offset. zeroes c device offset \<longrightarrow>
        device = ''/dev/'' @ linear_path volume \<and> om_DeletionTimestamp (v_Meta volume) = None \<and>
        vt_Block (vs_Type (v_Spec volume)) \<noteq> None \<and>
        vs_WipePolicy (v_Spec volume) \<noteq> VolumeWipePolicyUnsafeFast \<and>
        (offset = stored_offset E w volume \<or>
         stored_offset E w volume = 0 \<and>
         vc_ContentsType (vs_Contents (v_Spec volume)) \<noteq> VolumeContentsTypeEmpty \<and>
         (\<exists>w1 w2. reconcileSourcePopulating volume device E w1 = (Inr offset, w2))))"

text \<open>The procedures that only run lvm, and those of the workers, as parts of larger ones.\<close>

lemma emits_lvm_only:
  "emits (\<lambda>E c. \<exists>a. c = lvm_call a) (LvmLvGetCounter vg lv key)"
  "emits (\<lambda>E c. \<exists>a. c = lvm_call a) (LvmLvUpdateCounterIfLower vg lv key v)"
  "emits (\<lambda>E c. \<exists>a. c = lvm_call a) (LvmSize vg lv)"
  unfolding LvmLvGetCounter_def LvmLvUpdateCounterIfLower_def LvmLvAddTag_def LvmLvGetTags_def
    UpdateCounter_step_def LvmLvDelTag_def LvmSize_def
  by (intro emits_intros; simp)+

lemma wp_lvm_only [wp_intros]:
  "(\<And>a. S (lvm_call a)) \<Longrightarrow> (\<And>r w1. LvmLvGetCounter vg lv key E w = (r, w1) \<Longrightarrow> Q r w1) \<Longrightarrow>
    wp S (LvmLvGetCounter vg lv key) Q E w"
  "(\<And>a. S (lvm_call a)) \<Longrightarrow> (\<And>r w1. LvmLvUpdateCounterIfLower vg lv key v E w = (r, w1) \<Longrightarrow> Q r w1) \<Longrightarrow>
    wp S (LvmLvUpdateCounterIfLower vg lv key v) Q E w"
  "(\<And>a. S (lvm_call a)) \<Longrightarrow> (\<And>r w1. LvmSize vg lv E w = (r, w1) \<Longrightarrow> Q r w1) \<Longrightarrow>
    wp S (LvmSize vg lv) Q E w"
  by (rule wp_emits [OF emits_lvm_only(1)] wp_emits [OF emits_lvm_only(2)] wp_emits [OF emits_lvm_only(3)];
      blast)+

lemma emits_reconcileSourcePopulating:
  "emits (\<lambda>E c. (\<exists>a. c = lvm_call a) \<or> (\<exists>p. c = StatHost p) \<or> (\<exists>n. c = WorkerPoll n \<or> c = WorkerCancel n) \<or>
      (\<exists>n t s. c = WorkerStart n (DdWork t s))) (reconcileSourcePopulating volume target)"
  unfolding reconcileSourcePopulating_def require_path_def Workers_Run_def Workers_Cancel_def
    worker_start_def getResult_def worker_delete_def
  by (intro emits_intros emits_mono [OF emits_lvm_only(3)]) auto

lemma wp_source_populating:
  assumes "\<And>a. S (lvm_call a)" and "\<And>p. S (StatHost p)" and "\<And>n. S (WorkerPoll n)" and "\<And>n. S (WorkerCancel n)"
    and "\<And>n t s. S (WorkerStart n (DdWork t s))"
    and "\<And>r w1. reconcileSourcePopulating volume target E w = (r, w1) \<Longrightarrow> Q r w1"
  shows "wp S (reconcileSourcePopulating volume target) Q E w"
  by (rule wp_emits [OF emits_reconcileSourcePopulating]) (use assms in blast)+

lemma zeroing_offset:
  "issues (reconcileLinearPopulating volume) (zeroing_safe volume)"
  unfolding reconcileLinearPopulating_def populate_from_source_def zero_rest_def
  by (rule wp_issues, (intro wp_intros wp_source_populating wp_Workers_Run wp_Workers_Cancel))
    (auto simp: zeroing_safe_def stored_offset_def dest: LvmLvGetCounter_Inr)

text \<open>A block volume is declared safe up to its size only when there is nothing left to zero, the
  policy waives it, or the worker has reported success.\<close>

definition rest_zeroed :: "Volume \<Rightarrow> int \<Rightarrow> env \<Rightarrow> world \<Rightarrow> bool" where
  "rest_zeroed volume offset E w \<longleftrightarrow>
     (\<exists>sizeBytes w1. LvmSize (vs_VgName (v_Spec volume)) (om_Name (v_Meta volume)) E w = (Inr sizeBytes, w1) \<and>
        (sizeBytes \<le> offset \<or> vs_WipePolicy (v_Spec volume) = VolumeWipePolicyUnsafeFast \<or>
         (\<exists>w2. Workers_Run (blkdiscardWorkName volume)
            (BlkdiscardWork (''/dev/'' @ linear_path volume) offset) E w1 = (Inr (), w2))))"

lemma zero_rest_tags:
  "issues (zero_rest volume offset) (\<lambda>E w c. \<forall>tag.
     c = addtag_call (vs_VgName (v_Spec volume)) (om_Name (v_Meta volume)) tag \<longrightarrow> rest_zeroed volume offset E w)"
proof -
  have size: "emits (\<lambda>E c. \<forall>a b tag. c \<noteq> addtag_call a b tag) (LvmSize vg lv)" for vg lv
    by (intro emits_LvmSize) (simp add: addtag_call_def)
  have simps: "WorkerStart n x \<noteq> addtag_call a b tag" "WorkerPoll n \<noteq> addtag_call a b tag"
    "WorkerCancel n \<noteq> addtag_call a b tag" for n x a b tag
    by (simp_all add: addtag_call_def lvm_call_def host_call_def)
  show ?thesis
    unfolding zero_rest_def
    by (rule wp_issues, (intro wp_emits [OF size] wp_intros wp_Workers_Run wp_Workers_Cancel))
      (auto simp: rest_zeroed_def simps)
qed

section \<open>Population is reported last\<close>

definition population_reported_after :: "Volume \<Rightarrow> env \<Rightarrow> world \<Rightarrow> call \<Rightarrow> bool" where
  "population_reported_after volume E w c \<longleftrightarrow>
     (\<forall>v. c = VolumeCall (ApiUpdateStatus v) \<longrightarrow>
        (\<exists>w1. populate volume E w = (Inr (), w1)) \<and> om_DeletionTimestamp (v_Meta volume) = None \<and>
        volume_is v DataSourceCompleted)"

lemma emits_populate:
  "emits (\<lambda>E c. \<forall>v. c \<noteq> VolumeCall v) (populate volume)"
proof -
  have [intro]: "emits (\<lambda>E c. \<forall>v. c \<noteq> VolumeCall v) (reconcileSourcePopulating volume t)"
    "emits (\<lambda>E c. \<forall>v. c \<noteq> VolumeCall v) (LvmLvGetCounter vg lv key)"
    "emits (\<lambda>E c. \<forall>v. c \<noteq> VolumeCall v) (LvmLvUpdateCounterIfLower vg lv key i)"
    "emits (\<lambda>E c. \<forall>v. c \<noteq> VolumeCall v) (LvmSize vg lv)" for t vg lv key i
    by (rule emits_mono [OF emits_reconcileSourcePopulating] emits_mono [OF emits_lvm_only(1)]
        emits_mono [OF emits_lvm_only(2)] emits_mono [OF emits_lvm_only(3)]; auto)+
  show ?thesis
    unfolding populate_def reconcileThinPopulating_def reconcileLinearPopulating_def populate_from_source_def
      zero_rest_def Workers_Run_def Workers_Cancel_def worker_start_def getResult_def worker_delete_def
    by (cases "vs_Mode (v_Spec volume)") (auto intro!: emits_intros)
qed

lemma volume_is_statusUpdate:
  "volume_is (v\<lparr>v_Status := (v_Status v)\<lparr>vst_ObservedGeneration := g\<rparr>\<rparr>) t = volume_is v t"
  by (simp add: volume_is_def)

lemma population_reported:
  "issues (node_populate volume) (population_reported_after volume)"
  unfolding node_populate_def node_volume_statusUpdate_def
  by (rule wp_issues, (intro wp_emits [OF emits_populate] wp_intros))
    (auto simp: population_reported_after_def volume_is_statusUpdate set_volume_condition_is population_done_def
      dest!: arg_cong [of _ _ fst])

section \<open>Attaching thin volumes\<close>

text \<open>The device of an attached volume: the thin LV itself only while the pool is assigned to this
  node and reported active on it, and otherwise the NBD device recorded for the export.\<close>

definition attachable :: "env \<Rightarrow> Volume \<Rightarrow> ThinPoolLv \<Rightarrow> string \<Rightarrow> world \<Rightarrow> bool" where
  "attachable E volume thinPoolLv device w \<longleftrightarrow>
     (if ps_ActiveOnNode (p_Spec thinPoolLv) = LocalNodeName E
      then device = devName volume \<and>
        isThinLvActiveOnLocalNode (LocalNodeName E) thinPoolLv (VolumeToThinLvName (om_Name (v_Meta volume)))
      else vst_NBDExport (v_Status volume) \<noteq> [] \<and>
        (\<exists>uri dev. map_of (nbd_clients w) uri = Some dev \<and> device = ''/dev/'' @ dev))"

lemma attach_device_Inr:
  assumes "attach_device volume p sz E w = (Inr (n, device), w2)"
  shows "attachable E volume p device w2"
  using assms unfolding attach_device_def attachable_def
  by (auto simp: io_run dest!: ConnectClient_Inr split: if_splits sum.splits)

lemma interested_status [simp]:
  "v_Status (snd (interested p v)) = v_Status v" "v_Meta (snd (interested p v)) = v_Meta v"
  "vs_VgName (v_Spec (snd (interested p v))) = vs_VgName (v_Spec v)"
  "fst (interested p v) = fst (InterestedNodes p (vs_AttachToNodes (v_Spec v)))"
  "vs_AttachToNodes (v_Spec (snd (interested p v))) = snd (InterestedNodes p (vs_AttachToNodes (v_Spec v)))"
  by (simp_all add: interested_def set_AttachToNodes_def split_beta)

lemma devName_interested [simp]: "devName (snd (interested p v)) = devName v"
  by (simp add: devName_def)

lemma attachable_interested [simp]: "attachable E (snd (interested q v)) p d w = attachable E v p d w"
  by (simp only: attachable_def interested_status devName_interested)

lemma dm_Resume_Inr:
  "dm_Resume name sz device E w = (Inr u, w2) \<Longrightarrow>
    trace w2 = trace w @ load_plan (lowerName name) (lowerTable sz device) @ load_plan (upperName name) (upperTable sz name)"
  using follows_calls [OF follows_dm_Resume] by fastforce

text \<open>An attachment that succeeds ends by loading that device below the volume's.\<close>

lemma reconcileThinAttaching_Inr:
  assumes "reconcileThinAttaching volume p E w = (Inr (v2, p2), w2)"
  shows "v_Status v2 = v_Status volume \<and> v_Meta v2 = v_Meta volume \<and>
    (\<exists>sz device w1. attachable E volume p2 device w1 \<and>
      trace w2 = trace w1 @ load_plan (lowerName (om_Name (v_Meta volume))) (lowerTable sz device) @
        load_plan (upperName (om_Name (v_Meta volume))) (upperTable sz (om_Name (v_Meta volume))))"
proof -
  from assms obtain w0 n q sz device w1 w3 where
    v2: "v2 = snd (interested q volume)" and dev: "attach_device (snd (interested q volume)) p2 n E w0 = (Inr (sz, device), w1)"
    and res: "dm_Resume (om_Name (v_Meta volume)) sz device E w1 = (Inr (), w2)"
    by (auto simp: reconcileThinAttaching_def io_run Let_def split_beta index_panic_def
        split: option.splits if_splits)
  from attach_device_Inr [OF dev] have "attachable E volume p2 device w1" by simp
  with v2 dm_Resume_Inr [OF res] show ?thesis by auto
qed

lemma reconcileThinDetaching_Inr:
  "reconcileThinDetaching volume p E w = (Inr (v2, p2), w2) \<Longrightarrow>
    v_Status v2 = v_Status volume \<and> v_Meta v2 = v_Meta volume"
  by (auto simp: reconcileThinDetaching_def io_run Let_def split_beta split: if_splits)

section \<open>The attachment in the status\<close>

lemma attached_status_nodes:
  "set (vst_AttachedToNodes (v_Status (fst (attached_status node attached p v)))) =
    (if attached then insert node (set (vst_AttachedToNodes (v_Status v)))
     else set (vst_AttachedToNodes (v_Status v)) - {node})"
  "snd (attached_status node attached p v) = False \<Longrightarrow> fst (attached_status node attached p v) = v"
  by (auto simp: attached_status_def Let_def set_AttachedToNodes_def set_status_SizeBytes_def split: option.split)

lemma attached_status_same: "attached_status node attached p v = (v', False) \<Longrightarrow> v' = v"
  using attached_status_nodes(2) [of node attached p v] by simp

lemma attached_status_size:
  "vst_SizeBytes (v_Status v) \<le> vst_SizeBytes (v_Status (fst (attached_status node attached p v)))"
  by (auto simp: attached_status_def Let_def set_AttachedToNodes_def set_status_SizeBytes_def split: option.split)

lemma attached_status_distinct:
  "distinct (vst_AttachedToNodes (v_Status v)) \<Longrightarrow>
    distinct (vst_AttachedToNodes (v_Status (fst (attached_status node attached p v))))"
  by (auto simp: attached_status_def Let_def set_AttachedToNodes_def set_status_SizeBytes_def split: option.split)

text \<open>A list of nodes that is the volume's own, or one that the server returned.\<close>

definition known_list :: "env \<Rightarrow> Volume \<Rightarrow> string list \<Rightarrow> bool" where
  "known_list E volume l \<longleftrightarrow> l = vst_AttachedToNodes (v_Status volume) \<or>
     (\<exists>h x v. cl_UpdateStatus (volumes E) h x = Inr v \<and> l = vst_AttachedToNodes (v_Status v))"

text \<open>What a status update of the thin path may say of the nodes: nothing new, this node added after
  a successful attachment, or this node removed after a successful detachment.\<close>

definition attachment_reported :: "Volume \<Rightarrow> env \<Rightarrow> world \<Rightarrow> call \<Rightarrow> bool" where
  "attachment_reported volume E w c \<longleftrightarrow>
     (\<forall>x. c = VolumeCall (ApiUpdateStatus x) \<longrightarrow>
        (let nodes = vst_AttachedToNodes (v_Status x) in
         known_list E volume nodes \<or>
         (\<exists>v p v2 p2 w1 w2. reconcileThinAttaching v p E w1 = (Inr (v2, p2), w2) \<and>
            set nodes = insert (LocalNodeName E) (set (vst_AttachedToNodes (v_Status v2)))) \<or>
         (\<exists>v p v2 p2 w1 w2. reconcileThinDetaching v p E w1 = (Inr (v2, p2), w2) \<and>
            set nodes = set (vst_AttachedToNodes (v_Status v2)) - {LocalNodeName E})))"

lemma emits_dm [emits_intros]:
  "(\<And>E a. P E (dmsetup_call a)) \<Longrightarrow> (\<And>E p. P E (StatHost p)) \<Longrightarrow> emits P (dm_Create name sz)"
  "(\<And>E a. P E (dmsetup_call a)) \<Longrightarrow> emits P (dm_Remove name)"
  "(\<And>E a. P E (dmsetup_call a)) \<Longrightarrow> emits P (dm_Resume name sz device)"
  "(\<And>E a. P E (dmsetup_call a)) \<Longrightarrow> (\<And>E p. P E (StatHost p)) \<Longrightarrow> emits P (dm_Suspend name b)"
  unfolding dm_Create_def dm_Remove_def dm_Resume_def dm_Suspend_def loadTable_def
  by (intro emits_intros; simp)+

definition no_volume_call :: "env \<Rightarrow> call \<Rightarrow> bool" where
  "no_volume_call E c \<longleftrightarrow> (\<forall>v. c \<noteq> VolumeCall v)"

lemma no_volume_call_simps [simp]:
  "no_volume_call E (dmsetup_call a)" "no_volume_call E (lvm_call a)" "no_volume_call E (StatHost p)"
  "no_volume_call E (PoolCall q)" "no_volume_call E (ExportCall e)" "no_volume_call E (backend_call d)"
  "no_volume_call E (nbd_client_call a)"
  by (auto simp: no_volume_call_def dmsetup_call_def lvm_call_def host_call_def backend_call_def nbd_client_call_def)

lemma no_volume_call_reported: "no_volume_call E c \<Longrightarrow> attachment_reported volume E w c"
  by (auto simp: no_volume_call_def attachment_reported_def)

lemma emits_client_no_volume [emits_intros]:
  "emits no_volume_call (ConnectClient e)" "emits no_volume_call (CheckClient e)"
  "emits no_volume_call (DisconnectClient e)"
  unfolding ConnectClient_def CheckClient_def DisconnectClient_def NBDClientConnect_def NBDClientDisconnect_def
  by (intro emits_intros; simp)+

lemma emits_attach_detach:
  "emits no_volume_call (reconcileThinAttaching volume p)"
  "emits no_volume_call (reconcileThinDetaching volume p)"
  unfolding reconcileThinAttaching_def reconcileThinDetaching_def attach_device_def UpdateThinPoolLv_def
  by (intro emits_intros; simp)+

lemma known_list_refl [simp]: "known_list E volume (vst_AttachedToNodes (v_Status volume))"
  by (simp add: known_list_def)

lemma known_list_returned: "cl_UpdateStatus (volumes E) h x = Inr v \<Longrightarrow> known_list E volume (vst_AttachedToNodes (v_Status v))"
  by (auto simp: known_list_def)

lemma known_reported:
  "known_list E volume (vst_AttachedToNodes (v_Status x)) \<Longrightarrow>
    attachment_reported volume E w (VolumeCall (ApiUpdateStatus x))"
  by (simp add: attachment_reported_def Let_def)

lemma set_NBDExport_nodes [simp]: "vst_AttachedToNodes (v_Status (set_NBDExport n v)) = vst_AttachedToNodes (v_Status v)"
  by (simp add: set_NBDExport_def)

lemma wp_node_volume_statusUpdate:
  assumes "\<And>x. vst_AttachedToNodes (v_Status x) = vst_AttachedToNodes (v_Status v) \<Longrightarrow>
      S (VolumeCall (ApiUpdateStatus x))"
    and "\<And>e w1. Q (Inl e) w1" and "\<And>u h x w1. cl_UpdateStatus (volumes E) h x = Inr u \<Longrightarrow> Q (Inr u) w1"
  shows "wp S (node_volume_statusUpdate v) Q E w"
proof -
  let ?x = "v\<lparr>v_Status := (v_Status v)\<lparr>vst_ObservedGeneration := om_Generation (v_Meta v)\<rparr>\<rparr>"
  have "S (VolumeCall (ApiUpdateStatus ?x))" by (rule assms(1)) simp
  then show ?thesis
    unfolding node_volume_statusUpdate_def
    by (rule wp_api(5)) (cases "cl_UpdateStatus (volumes E) (trace w) ?x"; simp add: assms(2,3))
qed

lemma wp_no_volume:
  assumes "emits no_volume_call m" and "\<And>r w1. m E w = (r, w1) \<Longrightarrow> Q r w1"
  shows "wp (attachment_reported volume E w0) m Q E w"
  by (rule wp_emits [OF assms(1) no_volume_call_reported assms(2)])

lemma reported_simps [simp]:
  "attachment_reported volume E w (ExportCall e)" "attachment_reported volume E w (PoolCall q)"
  by (simp_all add: no_volume_call_reported)

lemma cleanup_server_reported:
  assumes "known_list E volume (vst_AttachedToNodes (v_Status v))"
  shows "wp (attachment_reported volume E w0) (cleanup_server v p sz e)
    (\<lambda>r w1. \<forall>v1. r = Inr v1 \<longrightarrow> known_list E volume (vst_AttachedToNodes (v_Status v1))) E w"
  unfolding cleanup_server_def
  by (intro wp_intros wp_node_volume_statusUpdate wp_no_volume [OF emits_export_update])
    (use assms in \<open>auto simp: known_list_returned intro!: known_reported
       simp: interested_def split_beta set_AttachToNodes_def\<close>)

lemma cleanup_client_no_volume: "emits no_volume_call (cleanup_client v e)"
  unfolding cleanup_client_def by (intro emits_intros; simp)

lemma cleanup_reported:
  "wp (attachment_reported volume E w0) (reconcileThinNBDCleanup volume p sz)
    (\<lambda>r w1. \<forall>v1. r = Inr v1 \<longrightarrow> known_list E volume (vst_AttachedToNodes (v_Status v1))) E w"
  unfolding reconcileThinNBDCleanup_def
  by (intro wp_intros wp_node_volume_statusUpdate wp_no_volume [OF cleanup_client_no_volume] cleanup_server_reported)
    (auto simp: known_list_returned intro!: known_reported)

lemma setup_reported:
  assumes "known_list E volume (vst_AttachedToNodes (v_Status v))"
  shows "wp (attachment_reported volume E w0) (reconcileThinNBDSetup v p) (\<lambda>r w1. True) E w"
  unfolding reconcileThinNBDSetup_def
  by (intro wp_intros wp_node_volume_statusUpdate)
    (use assms in \<open>auto intro!: known_reported
       simp: interested_def split_beta set_AttachToNodes_def\<close>)

text \<open>The update of the status that follows an attachment or a detachment.\<close>

lemma update_status_reported:
  assumes v: "known_list E volume (vst_AttachedToNodes (v_Status v2))"
    and step: "if attached then \<exists>v p0 w1 w2. reconcileThinAttaching v p0 E w1 = (Inr (v2, p), w2)
      else \<exists>v p0 w1 w2. reconcileThinDetaching v p0 E w1 = (Inr (v2, p), w2)"
  shows "wp (attachment_reported volume E w0) (updateStatusAttachedToNodes v2 attached p)
    (\<lambda>r w1. \<forall>v3. r = Inr v3 \<longrightarrow> known_list E volume (vst_AttachedToNodes (v_Status v3))) E w"
proof -
  have rep: "attachment_reported volume E w0 (VolumeCall (ApiUpdateStatus x))"
    if "vst_AttachedToNodes (v_Status x) =
      vst_AttachedToNodes (v_Status (fst (attached_status (LocalNodeName E) attached p v2)))" for x
    using step that attached_status_nodes(1) [of "LocalNodeName E" attached p v2]
    by (auto simp: attachment_reported_def Let_def split: if_splits) blast+
  show ?thesis
    unfolding updateStatusAttachedToNodes_def
    by (intro wp_intros wp_node_volume_statusUpdate)
      (use v in \<open>auto simp: known_list_returned rep dest: attached_status_same\<close>)
qed

lemma reconcileThin_reported:
  "issues (reconcileThin volume) (attachment_reported volume)"
proof (rule wp_issues)
  fix E w
  show "wp (attachment_reported volume E w) (reconcileThin volume) (\<lambda>r w2. True) E w"
    unfolding reconcileThin_def
    by (intro wp_intros wp_mono [OF cleanup_reported] wp_no_volume [OF emits_attach_detach(1)]
        wp_no_volume [OF emits_attach_detach(2)] wp_mono [OF update_status_reported] wp_mono [OF setup_reported])
      (auto dest: reconcileThinAttaching_Inr reconcileThinDetaching_Inr)
qed

section \<open>Linear volumes\<close>

text \<open>A linear volume is activated only where it is wanted, deactivated only where it is not, and
  the status follows what was done.\<close>

definition linear_wanted :: "env \<Rightarrow> Volume \<Rightarrow> bool" where
  "linear_wanted E volume \<longleftrightarrow> om_DeletionTimestamp (v_Meta volume) = None \<and>
     LocalNodeName E \<in> set (vs_AttachToNodes (v_Spec volume))"

definition linear_activation :: "Volume \<Rightarrow> env \<Rightarrow> world \<Rightarrow> call \<Rightarrow> bool" where
  "linear_activation volume E w c \<longleftrightarrow>
     (c = lvm_call (linear_lvchange volume ''sy'') \<longrightarrow> linear_wanted E volume) \<and>
     (c = lvm_call (linear_lvchange volume ''n'') \<longrightarrow> \<not> linear_wanted E volume) \<and>
     (\<forall>x. c = VolumeCall (ApiUpdateStatus x) \<longrightarrow>
        (LocalNodeName E \<in> set (vst_AttachedToNodes (v_Status x)) \<longleftrightarrow> linear_wanted E volume))"

lemma reconcileLinear_activation: "issues (reconcileLinear volume) (linear_activation volume)"
  unfolding reconcileLinear_def node_volume_statusUpdate_def
  by (rule wp_issues, (intro wp_intros))
    (auto simp: linear_activation_def linear_wanted_def linear_lvchange_def set_AttachedToNodes_def
      split: stat_outcome.splits)

section \<open>A pinned pool and the list of nodes\<close>

text \<open>While a clone pins the pool to this node, the cleanup of the NBD export takes this node out
  of the volume's own list.\<close>

lemma cleanup_clobbers:
  assumes "vst_NBDExport (v_Status volume) \<noteq> []"
    and "cl_Get (exports E) (trace w) (vst_NBDExport (v_Status volume)) = Inr e"
    and "CheckClient e E (after w (ExportCall (ApiGet (vst_NBDExport (v_Status volume))))) = (Inr (False, False), w1)"
    and "\<not> ShouldStopExport (LocalNodeName E) e (fst (interested p volume)) sz"
  shows "reconcileThinNBDCleanup volume p sz E w = (Inr (snd (interested p volume)), w1)"
proof -
  have "cleanup_client volume e E (after w (ExportCall (ApiGet (vst_NBDExport (v_Status volume))))) = (Inr e, w1)"
    using assms(3) by (simp add: cleanup_client_def bindE_def [of "CheckClient e"])
  moreover have "cleanup_server volume p sz e E w1 = (Inr (snd (interested p volume)), w1)"
    using assms(4) by (simp add: cleanup_server_def split_beta Let_def)
  ultimately show ?thesis
    using assms(1,2) by (simp add: reconcileThinNBDCleanup_def attempt_get bindE_def [of "cleanup_client _ _"])
qed

lemma pinned_node_detached:
  assumes "clone_pins p" and "ps_ActiveOnNode (p_Spec p) = LocalNodeName E"
    and "cl_Get (pools E) (trace w) (om_Name (v_Meta volume)) = Inr p"
    and "Status_FindThinLv (p_Status p) (VolumeToThinLvName (om_Name (v_Meta volume))) = Some st"
    and "vst_NBDExport (v_Status volume) \<noteq> []"
    and "cl_Get (exports E) (trace w @ [PoolCall (ApiGet (om_Name (v_Meta volume)))]) (vst_NBDExport (v_Status volume)) = Inr e"
    and "CheckClient e E (after (after w (PoolCall (ApiGet (om_Name (v_Meta volume)))))
      (ExportCall (ApiGet (vst_NBDExport (v_Status volume))))) = (Inr (False, False), w1)"
    and "\<not> ShouldStopExport (LocalNodeName E) e (fst (interested p volume)) (lst_SizeBytes st)"
  shows "\<exists>cs. trace (snd (reconcileThin volume E w)) =
    trace w1 @ dmsetup_call [''remove'', ''--force'', upperName (om_Name (v_Meta volume))] # cs"
proof -
  let ?w = "after w (PoolCall (ApiGet (om_Name (v_Meta volume))))"
  let ?v = "snd (interested p volume)"
  have clean: "reconcileThinNBDCleanup volume p (lst_SizeBytes st) E ?w = (Inr ?v, w1)"
    using assms by (intro cleanup_clobbers) simp_all
  have gone: "LocalNodeName E \<notin> set (vs_AttachToNodes (v_Spec ?v))"
    using InterestedNodes_caller_loses [OF assms(1)] assms(2) by simp
  let ?rest = "\<lambda>(volume, thinPoolLv). bindE (updateStatusAttachedToNodes volume False thinPoolLv) (\<lambda>volume.
      thenE (reconcileThinNBDSetup volume thinPoolLv) (ret ()))"
  have run: "reconcileThin volume E w = bindE (reconcileThinDetaching ?v p) ?rest E w1"
    using assms(3,4) clean gone
    by (simp add: reconcileThin_def attempt_get bindE_def [of "reconcileThinNBDCleanup _ _ _"] Let_def)
  have force: "\<exists>cs. trace (snd (thenE (dm_Remove n) k E w1)) =
      trace w1 @ dmsetup_call [''remove'', ''--force'', upperName n] # cs"
    if k: "emits (\<lambda>E c. True) k" for n :: string and k :: "unit io"
  proof -
    have "\<exists>n' \<le> 2. 0 < n' \<and> trace (snd (dm_Remove n E w1)) = trace w1 @ take n'
        [dmsetup_call [''remove'', ''--force'', upperName n], dmsetup_call [''remove'', lowerName n]]"
      using follows_calls [OF follows_dm_Remove [of n] prod.collapse [symmetric, of "dm_Remove n E w1"]]
      by (auto simp: numeral_2_eq_2)
    then obtain ds where ds: "trace (snd (dm_Remove n E w1)) =
        trace w1 @ dmsetup_call [''remove'', ''--force'', upperName n] # ds"
      by (metis take_Suc_Cons gr0_implies_Suc append_Cons)
    obtain es where "trace (snd (k E (snd (dm_Remove n E w1)))) = trace (snd (dm_Remove n E w1)) @ es"
      using k unfolding emits_def by blast
    with ds show ?thesis
      by (cases "dm_Remove n E w1") (auto simp: thenE_def bindE_def split: sum.split)
  qed
  have det: "\<exists>k. reconcileThinDetaching ?v p = thenE (dm_Remove (om_Name (v_Meta volume))) k \<and> emits (\<lambda>E c. True) k"
    unfolding reconcileThinDetaching_def Let_def interested_status
    by (rule exI, rule conjI, rule refl) (unfold UpdateThinPoolLv_def, intro emits_intros; simp)
  have rest: "emits (\<lambda>E c. True) (?rest x)" for x
    unfolding updateStatusAttachedToNodes_def reconcileThinNBDSetup_def node_volume_statusUpdate_def
    by (intro emits_intros; simp)
  from det obtain k where k: "reconcileThinDetaching ?v p = thenE (dm_Remove (om_Name (v_Meta volume))) k"
    "emits (\<lambda>E c. True) k" by blast
  have "reconcileThin volume E w = thenE (dm_Remove (om_Name (v_Meta volume))) (bindE k ?rest) E w1"
    unfolding run k(1) thenE_def bindE_assoc ..
  moreover have "emits (\<lambda>E c. True) (bindE k ?rest)" by (rule emits_bindE [OF k(2) rest])
  ultimately show ?thesis using force by simp
qed

end
