(* ===== verification/Node_NBDExport.thy ===== *)
theory Node_NBDExport
  imports Nbd_Client
begin

text \<open>
  internal/manager/node/nbdexport_node_controller.go: the node that hosts an NBD export starts
  the server for it, watches its health, stops it when the object is deleted, and on shutdown
  asks the clients of all its exports to leave.  Its events and its signal handler are in
  Node_Shutdown.
\<close>

section \<open>Conditions\<close>

definition set_export_condition :: "nat \<Rightarrow> Condition \<Rightarrow> NBDExport \<Rightarrow> NBDExport \<times> bool" where
  "set_export_condition now condition export =
     (let (conditions, changed) = SetStatusCondition now (est_Conditions (e_Status export)) condition
      in (export\<lparr>e_Status := (e_Status export)\<lparr>est_Conditions := conditions\<rparr>\<rparr>, changed))"

definition export_stopping :: Condition where
  "export_stopping = new_condition Available ConditionFalse ''Stopping''
     ''server stop requested, waiting for clients to disconnect''"

definition export_ready :: Condition where
  "export_ready = new_condition Available ConditionTrue ''Ready'' ''NBD Export is ready''"

definition export_device_error :: Condition where
  "export_device_error = new_condition Available ConditionFalse ''DeviceError'' ''unexpected NBD server error''"

definition export_deleting :: Condition where
  "export_deleting = new_condition Available ConditionFalse ''Deleting''
     ''deletion requested, waiting for clients to disconnect''"

definition export_is_available :: "NBDExport \<Rightarrow> bool" where
  "export_is_available export = IsStatusConditionTrue (est_Conditions (e_Status export)) Available"

section \<open>The reconciler\<close>

definition export_statusUpdate :: "NBDExport \<Rightarrow> NBDExport io" where
  "export_statusUpdate export =
     api_update_status exports ExportCall
       (export\<lparr>e_Status := (e_Status export)\<lparr>est_ObservedGeneration :=
          om_Generation (e_Meta export)\<rparr>\<rparr>)"

definition set_URI :: "string \<Rightarrow> NBDExport \<Rightarrow> NBDExport" where
  "set_URI uri e = e\<lparr>e_Status := (e_Status e)\<lparr>est_URI := uri\<rparr>\<rparr>"

definition set_Path :: "string \<Rightarrow> NBDExport \<Rightarrow> NBDExport" where
  "set_Path p e = e\<lparr>e_Spec := (e_Spec e)\<lparr>es_Path := p\<rparr>\<rparr>"

definition export_reconcileDeleting :: "NBDExport \<Rightarrow> unit io" where
  "export_reconcileDeleting export =
     bindE (if \<not> ExportDegraded export then
              bindE timeNow (\<lambda>now. export_statusUpdate (fst (set_export_condition now export_deleting export)))
            else ret export) (\<lambda>export.
       if length (es_Clients (e_Spec export)) > 0 then ret ()
       else
         thenE (StopExport (es_Export (e_Spec export)))
           (thenE (export_update (export\<lparr>e_Meta := fst (RemoveFinalizer (e_Meta export) Finalizer)\<rparr>))
             (ret ())))"

text \<open>The four steps for an export that stays, each on the export the one before returned.\<close>

definition export_ensure_finalizer :: "NBDExport \<Rightarrow> NBDExport io" where
  "export_ensure_finalizer export =
     (let (metadata, added) = AddFinalizer (e_Meta export) Finalizer
      in if added then export_update (export\<lparr>e_Meta := metadata\<rparr>) else ret export)"

definition export_mark_stopping :: "NBDExport \<Rightarrow> NBDExport io" where
  "export_mark_stopping export =
     (if es_Path (e_Spec export) = [] \<and> export_is_available export
      then bindE timeNow (\<lambda>now. export_statusUpdate (fst (set_export_condition now export_stopping export)))
      else ret export)"

definition export_start :: "NBDExport \<Rightarrow> NBDExport io" where
  "export_start export =
     bindE (getW nbd_Shutdown) (\<lambda>shutdown.
       if est_URI (e_Status export) = [] \<and> \<not> shutdown then
         bindE (StartExport (es_Export (e_Spec export)) (es_Path (e_Spec export))) (\<lambda>uri.
         bindE timeNow (\<lambda>now.
           export_statusUpdate (fst (set_export_condition now export_ready (set_URI uri export)))))
       else ret export)"

definition export_check_health :: "NBDExport \<Rightarrow> unit io" where
  "export_check_health export =
     (if length (es_Clients (e_Spec export)) > 0 then
        bindE (attempt (CheckExportHealth (es_Export (e_Spec export)))) (\<lambda>health.
          case health of
            Inr u \<Rightarrow> ret ()
          | Inl err \<Rightarrow>
              bindE timeNow (\<lambda>now.
                let (export, changed) = set_export_condition now export_device_error export
                in thenE (if changed then thenE (export_statusUpdate export) (ret ()) else ret ()) (fail err)))
      else ret ())"

definition export_Reconcile :: "string \<Rightarrow> unit io" where
  "export_Reconcile name =
     bindE (attempt (api_get exports ExportCall name)) (\<lambda>got.
       case got of
         Inl err \<Rightarrow> returnErr (IgnoreNotFound (Some err))
       | Inr export \<Rightarrow>
           bindE (askEnv LocalNodeName) (\<lambda>node.
             if es_Host (e_Spec export) \<noteq> node then ret ()
             else if om_DeletionTimestamp (e_Meta export) \<noteq> None then export_reconcileDeleting export
             else
               bindE (export_ensure_finalizer export) (\<lambda>export.
               bindE (export_mark_stopping export) (\<lambda>export.
               bindE (export_start export) (\<lambda>export. export_check_health export)))))"

section \<open>Shutdown\<close>

text \<open>The loop goes on past an error and returns the last one; conflicts are retried from a
  fresh list.\<close>

definition trigger_one :: "NBDExport \<Rightarrow> goerr option \<Rightarrow> goerr option io" where
  "trigger_one export lastErr =
     bindE (askEnv LocalNodeName) (\<lambda>node.
       if es_Host (e_Spec export) \<noteq> node \<or> est_URI (e_Status export) = [] \<or> es_Path (e_Spec export) = []
       then ret lastErr
       else
         bindE (attempt (export_update (set_Path [] export))) (\<lambda>updated.
           ret (case updated of
                  Inr e \<Rightarrow> lastErr
                | Inl err \<Rightarrow> if IgnoreNotFound (Some err) \<noteq> None then Some err else lastErr)))"

text \<open>One pass over the list.\<close>

definition trigger_pass :: "unit io" where
  "trigger_pass =
     bindE (api_list exports ExportCall) (\<lambda>items.
     bindE (foldE trigger_one items None) (\<lambda>lastErr. returnErr lastErr))"

definition triggerCleanup :: "unit io" where
  "triggerCleanup = RetryOnConflict 5 trigger_pass"

section \<open>Which calls it makes\<close>

lemma wp_export_update [wp_intros]:
  "S (ExportCall (ApiUpdate x)) \<Longrightarrow> Q (cl_Update (exports E) (trace w) x) (after w (ExportCall (ApiUpdate x))) \<Longrightarrow>
    wp S (export_update x) Q E w"
  unfolding export_update_def by (rule wp_api)

text \<open>The commands a procedure on exports sends to the daemon.\<close>

definition serves :: "call \<Rightarrow> bool" where
  "serves c \<longleftrightarrow> (\<exists>node p. c = Qmp (QmpBlockdevAdd node p)) \<or> (\<exists>i node e. c = Qmp (QmpBlockExportAdd i node e))"

lemma serves_simps [simp]:
  "\<not> serves (ExportCall x)" "\<not> serves QmpConnect" "\<not> serves (Qmp (QmpBlockdevDel n))"
  "\<not> serves (Qmp (QmpBlockExportDel i))" "\<not> serves (Qmp QmpQueryBlockExports)"
  "serves (Qmp (QmpBlockdevAdd n p))" "serves (Qmp (QmpBlockExportAdd i n e))"
  by (auto simp: serves_def)

lemma wp_qmp [wp_intros]:
  "S (Qmp cmd) \<Longrightarrow> (\<And>r. Q r (after w (Qmp cmd))) \<Longrightarrow> wp S (qmp_run cmd guard) Q E w"
  unfolding qmp_run_def by (intro wp_intros) simp_all

lemma wp_monitor [wp_intros]:
  "S QmpConnect \<Longrightarrow> (\<And>r. Q r (after w QmpConnect)) \<Longrightarrow> wp S newQemuStorageDaemonMonitor Q E w"
  unfolding newQemuStorageDaemonMonitor_def by (intro wp_intros)

lemma wp_nodeName [wp_intros]:
  "Q (Inr (fst (allocate_name export w))) ((snd (allocate_name export w))\<lparr>trace := trace w\<rparr>) \<Longrightarrow>
    wp S (nodeName export) Q E w"
  by (auto simp: wp_def nodeName_run)

lemma emits_StopExport:
  "emits (\<lambda>E c. c = QmpConnect \<or> (\<exists>i. c = Qmp (QmpBlockExportDel i)) \<or> (\<exists>n. c = Qmp (QmpBlockdevDel n)))
    (StopExport export)"
  unfolding StopExport_def newQemuStorageDaemonMonitor_def BlockExportDel_def BlockdevDel_def qmp_run_def
    nodeName_def locked_def
  by (intro emits_intros) auto

lemma emits_CheckExportHealth:
  "emits (\<lambda>E c. c = QmpConnect \<or> c = Qmp QmpQueryBlockExports) (CheckExportHealth export)"
  unfolding CheckExportHealth_def newQemuStorageDaemonMonitor_def QueryBlockExports_def
  by (intro emits_intros) auto

lemma emits_StartExport:
  "emits (\<lambda>E c. c = QmpConnect \<or> serves c) (StartExport export p)"
  unfolding StartExport_def newQemuStorageDaemonMonitor_def BlockdevAdd_def BlockExportAdd_def qmp_run_def
    nodeName_def locked_def
  by (intro emits_intros) auto

section \<open>Where an export is served\<close>

text \<open>A node tells the daemon to serve an export only if the object just read names it as the
  host and is not being deleted, and the node is not shutting down.\<close>

definition served_here :: "string \<Rightarrow> env \<Rightarrow> world \<Rightarrow> call \<Rightarrow> bool" where
  "served_here name E w c \<longleftrightarrow>
     (serves c \<longrightarrow> \<not> nbd_Shutdown w \<and>
        (\<exists>export. cl_Get (exports E) (trace w) name = Inr export \<and>
           es_Host (e_Spec export) = LocalNodeName E \<and> om_DeletionTimestamp (e_Meta export) = None))"

lemma export_Reconcile_served_here: "issues (export_Reconcile name) (served_here name)"
  unfolding export_Reconcile_def export_reconcileDeleting_def export_ensure_finalizer_def
    export_mark_stopping_def export_start_def export_check_health_def export_statusUpdate_def
  by (rule wp_issues, (intro wp_intros wp_emits [OF emits_StopExport] wp_emits [OF emits_StartExport]
        wp_emits [OF emits_CheckExportHealth])) (auto simp: served_here_def)

text \<open>The URI is reported only by the run of StartExport that gave it, with the export marked
  available, and only if none was reported before.\<close>

definition started_reported :: "NBDExport \<Rightarrow> env \<Rightarrow> world \<Rightarrow> call \<Rightarrow> bool" where
  "started_reported export E w c \<longleftrightarrow>
     (\<forall>x. c = ExportCall (ApiUpdateStatus x) \<longrightarrow>
        est_URI (e_Status export) = [] \<and> \<not> nbd_Shutdown w \<and> export_is_available x \<and>
        (\<exists>w1. StartExport (es_Export (e_Spec export)) (es_Path (e_Spec export)) E w =
           (Inr (est_URI (e_Status x)), w1)))"

lemma ready_available: "IsStatusConditionTrue (fst (SetStatusCondition now cs export_ready)) Available"
  using SetStatusCondition_true_same [of now cs export_ready] by (simp add: export_ready_def)

lemma export_start_reported: "issues (export_start export) (started_reported export)"
  unfolding export_start_def export_statusUpdate_def
  by (rule wp_issues, (intro wp_intros wp_emits [OF emits_StartExport]))
    (auto simp: started_reported_def set_export_condition_def set_URI_def export_is_available_def
      ready_available split_beta serves_def)

text \<open>
  The object of a deleted export is released by the last call of the run, which drops the
  finalizer; it follows a stop of the server that succeeded, and there is no client left.  A
  run without that update leaves the object with its finalizer.
\<close>

definition released_after_stop :: "NBDExport \<Rightarrow> env \<Rightarrow> world \<Rightarrow> goerr + unit \<Rightarrow> world \<Rightarrow> bool" where
  "released_after_stop export E w r w2 \<longleftrightarrow>
     (\<forall>x. ExportCall (ApiUpdate x) \<in> set (new_calls w w2) \<longrightarrow>
        (\<exists>e w0 w1. w2 = after w1 (ExportCall (ApiUpdate x)) \<and> es_Clients (e_Spec e) = [] \<and>
           x = e\<lparr>e_Meta := fst (RemoveFinalizer (e_Meta e) Finalizer)\<rparr> \<and>
           StopExport (es_Export (e_Spec e)) E w0 = (Inr (), w1)))"

definition stop_and_release :: "NBDExport \<Rightarrow> unit io" where
  "stop_and_release export =
     (if length (es_Clients (e_Spec export)) > 0 then ret ()
      else
        thenE (StopExport (es_Export (e_Spec export)))
          (thenE (export_update (export\<lparr>e_Meta := fst (RemoveFinalizer (e_Meta export) Finalizer)\<rparr>))
            (ret ())))"

lemma stop_and_release_released:
  assumes "stop_and_release export E w = (r, w2)"
    and "ExportCall (ApiUpdate x) \<in> set (new_calls w w2)"
  shows "es_Clients (e_Spec export) = [] \<and>
    x = export\<lparr>e_Meta := fst (RemoveFinalizer (e_Meta export) Finalizer)\<rparr> \<and>
    (\<exists>w1. w2 = after w1 (ExportCall (ApiUpdate x)) \<and> StopExport (es_Export (e_Spec export)) E w = (Inr (), w1))"
proof -
  obtain s w1 where stop: "StopExport (es_Export (e_Spec export)) E w = (s, w1)"
    by (cases "StopExport (es_Export (e_Spec export)) E w")
  have "ExportCall (ApiUpdate x) \<notin> set (new_calls w w1)"
    using emits_new_calls [OF emits_StopExport stop, of "ExportCall (ApiUpdate x)"] by auto
  moreover obtain cs where "trace w1 = trace w @ cs"
    using emits_StopExport stop unfolding emits_def by (metis snd_conv)
  ultimately show ?thesis
    using assms stop
    by (cases s) (auto simp: stop_and_release_def thenE_def bindE_def export_update_def api_update_def
        invoke_def new_calls_def after_def split: if_splits sum.splits prod.splits)
qed

lemma export_reconcileDeleting_split:
  "export_reconcileDeleting export =
     bindE (if \<not> ExportDegraded export then
              bindE timeNow (\<lambda>now. export_statusUpdate (fst (set_export_condition now export_deleting export)))
            else ret export) stop_and_release"
  unfolding export_reconcileDeleting_def stop_and_release_def by (rule refl)

lemma export_reconcileDeleting_released:
  "behaves (export_reconcileDeleting export) (released_after_stop export)"
proof (rule behavesI)
  fix E w r w2
  assume run: "export_reconcileDeleting export E w = (r, w2)"
  define first where "first = (if \<not> ExportDegraded export then
      bindE timeNow (\<lambda>now. export_statusUpdate (fst (set_export_condition now export_deleting export)))
    else ret export)"
  obtain f w0 where f: "first E w = (f, w0)" by (cases "first E w")
  have "emits (\<lambda>E c. \<exists>y. c = ExportCall (ApiUpdateStatus y)) first"
    unfolding first_def export_statusUpdate_def by (intro emits_intros) auto
  then obtain cs where cs: "trace w0 = trace w @ cs" "\<forall>c\<in>set cs. \<exists>y. c = ExportCall (ApiUpdateStatus y)"
    using f unfolding emits_def by (metis snd_conv)
  show "released_after_stop export E w r w2"
  proof (cases f)
    case (Inl err)
    with run f have "w2 = w0" by (simp add: export_reconcileDeleting_split first_def bindE_def)
    with cs show ?thesis by (auto simp: released_after_stop_def new_calls_def)
  next
    case (Inr e)
    with run f have rest: "stop_and_release e E w0 = (r, w2)"
      by (simp add: export_reconcileDeleting_split first_def bindE_def)
    have "emits (\<lambda>E c. True) (stop_and_release e)"
      unfolding stop_and_release_def
      by (intro emits_intros emits_mono [OF emits_StopExport] emits_export_update) auto
    then obtain ds where "trace w2 = trace w0 @ ds"
      using rest unfolding emits_def by (metis snd_conv)
    with cs have "ExportCall (ApiUpdate x) \<in> set (new_calls w w2) \<Longrightarrow>
        ExportCall (ApiUpdate x) \<in> set (new_calls w0 w2)" for x
      by (auto simp: new_calls_def)
    with stop_and_release_released [OF rest] show ?thesis
      unfolding released_after_stop_def by metis
  qed
qed

section \<open>Which exports are asked to stop\<close>

text \<open>The exports of this node that are up, in the order of the list, each with its path cleared.\<close>

definition to_stop :: "string \<Rightarrow> NBDExport \<Rightarrow> bool" where
  "to_stop node e \<longleftrightarrow> es_Host (e_Spec e) = node \<and> est_URI (e_Status e) \<noteq> [] \<and> es_Path (e_Spec e) \<noteq> []"

lemma trigger_one_run:
  "\<exists>err. trigger_one e lastErr E w =
    (Inr err, if to_stop (LocalNodeName E) e then after w (ExportCall (ApiUpdate (set_Path [] e))) else w)"
  by (auto simp: trigger_one_def to_stop_def bindE_def attempt_def export_update_def api_update_def
      invoke_def ret_def askEnv_def after_def)

lemma trigger_all_run:
  "\<exists>err w2. foldE trigger_one es lastErr E w = (Inr err, w2) \<and>
    trace w2 = trace w @
      map (\<lambda>e. ExportCall (ApiUpdate (set_Path [] e))) (filter (to_stop (LocalNodeName E)) es)"
proof (induction es arbitrary: lastErr w)
  case Nil
  then show ?case by simp
next
  case (Cons e es)
  obtain err where one: "trigger_one e lastErr E w =
      (Inr err, if to_stop (LocalNodeName E) e then after w (ExportCall (ApiUpdate (set_Path [] e))) else w)"
    using trigger_one_run by blast
  with Cons.IH [of err "if to_stop (LocalNodeName E) e
      then after w (ExportCall (ApiUpdate (set_Path [] e))) else w"]
  show ?case by (auto simp: bindE_def)
qed

text \<open>In a pass, an error on one export does not keep the others running.\<close>

definition pass_covers :: "env \<Rightarrow> world \<Rightarrow> goerr + unit \<Rightarrow> world \<Rightarrow> bool" where
  "pass_covers E w r w2 \<longleftrightarrow>
     (case cl_List (exports E) (trace w) of
        Inl err \<Rightarrow> r = Inl err \<and> new_calls w w2 = [ExportCall ApiList]
      | Inr items \<Rightarrow> new_calls w w2 = ExportCall ApiList #
          map (\<lambda>e. ExportCall (ApiUpdate (set_Path [] e))) (filter (to_stop (LocalNodeName E)) items))"

lemma trigger_pass_covers: "behaves trigger_pass pass_covers"
proof (rule behavesI)
  fix E w r w2
  assume run: "trigger_pass E w = (r, w2)"
  show "pass_covers E w r w2"
  proof (cases "cl_List (exports E) (trace w)")
    case (Inl err)
    with run show ?thesis
      by (auto simp: pass_covers_def trigger_pass_def api_list_def bindE_def invoke_def new_calls_def)
  next
    case (Inr items)
    obtain err w1 where "foldE trigger_one items None E (after w (ExportCall ApiList)) = (Inr err, w1)"
      and tr: "trace w1 = trace (after w (ExportCall ApiList)) @
        map (\<lambda>e. ExportCall (ApiUpdate (set_Path [] e))) (filter (to_stop (LocalNodeName E)) items)"
      using trigger_all_run by blast
    with run Inr have "w2 = w1"
      by (auto simp: trigger_pass_def api_list_def bindE_def invoke_def after_def returnErr_run)
    with tr Inr show ?thesis by (simp add: pass_covers_def new_calls_def)
  qed
qed

end
