(* ===== verification/Node_Shutdown.thy ===== *)
theory Node_Shutdown
  imports Node_NBDExport
begin

text \<open>
  The set-up of the NBD export controller in nbdexport_node_controller.go: which events of the API
  server wake the reconciler, and what its signal handler does.  The handler runs beside the
  reconciles, so it is a state machine whose steps interleave with the locked sections of the
  server; receiving from the shutdown channel is possible once the channel is closed.
\<close>

section \<open>Events\<close>

datatype 'o watch_event =
    Created 'o
  | Changed 'o 'o
  | Deleted 'o
  | Triggered 'o

fun event_object :: "'o watch_event \<Rightarrow> 'o" where
  "event_object (Created x) = x"
| "event_object (Changed old new) = new"
| "event_object (Deleted x) = x"
| "event_object (Triggered x) = x"

text \<open>The field index: exports are listed by their host.\<close>

definition index_host :: "NBDExport \<Rightarrow> string list" where
  "index_host export = [es_Host (e_Spec export)]"

definition hosted_by :: "string \<Rightarrow> NBDExport \<Rightarrow> bool" where
  "hosted_by node export \<longleftrightarrow> es_Host (e_Spec export) = node"

text \<open>predicate.GenerationChangedPredicate.\<close>

fun generation_changed :: "NBDExport watch_event \<Rightarrow> bool" where
  "generation_changed (Changed old new) \<longleftrightarrow> om_Generation (e_Meta new) \<noteq> om_Generation (e_Meta old)"
| "generation_changed ev \<longleftrightarrow> True"

definition wakes_reconciler :: "string \<Rightarrow> NBDExport watch_event \<Rightarrow> bool" where
  "wakes_reconciler node ev \<longleftrightarrow> hosted_by node (event_object ev) \<and> generation_changed ev"

text \<open>An export that another node hosts never wakes the controller, and would not be acted upon.\<close>

lemma foreign_export_ignored:
  assumes "cl_Get (exports E) (trace w) name = Inr export" and "es_Host (e_Spec export) \<noteq> LocalNodeName E"
  shows "\<not> wakes_reconciler (LocalNodeName E) (Created export)"
    and "export_Reconcile name E w = (Inr (), after w (ExportCall (ApiGet name)))"
  using assms by (simp_all add: wakes_reconciler_def hosted_by_def export_Reconcile_def attempt_get)

section \<open>The signal handler\<close>

datatype handler_state =
    AwaitSignal
  | Asking
  | Draining
  | Cancelled
  | Exiting

text \<open>
  On the first signal the server is told to stop, then the exports are asked to; the handler waits
  for the channel or a second signal.  Once the channel is closed the controllers are cancelled,
  and a second signal ends the process in any case.
\<close>

inductive handler_step :: "env \<Rightarrow> handler_state \<times> world \<Rightarrow> handler_state \<times> world \<Rightarrow> bool" for E where
  signal: "StopServer E w = (Inr (), w2) \<Longrightarrow> handler_step E (AwaitSignal, w) (Asking, w2)"
| asked: "ignoreErr triggerCleanup E w = (Inr (), w2) \<Longrightarrow> handler_step E (Asking, w) (Draining, w2)"
| drained: "shutdown_closed w \<Longrightarrow> handler_step E (Draining, w) (Cancelled, w)"
| second: "h = Draining \<or> h = Cancelled \<Longrightarrow> handler_step E (h, w) (Exiting, w)"
| others: "server_step w w2 \<Longrightarrow> handler_step E (h, w) (h, w2)"

inductive_cases handler_stepE [consumes 1, case_names signal asked drained second others]:
  "handler_step E (h, w) (h2, w2)"

text \<open>Asking the exports leaves the server's own state alone.\<close>

lemma server_moves_attempt: "server_moves m \<Longrightarrow> server_moves (attempt m)"
  unfolding server_moves_def attempt_def by (simp add: split_beta)

lemma server_moves_foldE: "(\<And>x t. server_moves (f x t)) \<Longrightarrow> server_moves (foldE f xs s)"
  by (induction xs arbitrary: s) (simp_all add: moves_intros)

lemma server_moves_trigger_pass: "server_moves trigger_pass"
  unfolding trigger_pass_def trigger_one_def api_list_def export_update_def api_update_def returnErr_def
  by (intro moves_intros server_moves_foldE server_moves_attempt) (auto intro: moves_intros split: option.split)

lemma server_moves_retry: "server_moves m \<Longrightarrow> server_moves (RetryOnConflict n m)"
  by (induction n) (auto intro!: moves_intros server_moves_attempt)

lemma server_moves_triggerCleanup: "server_moves (ignoreErr triggerCleanup)"
  unfolding ignoreErr_def triggerCleanup_def
  by (intro moves_intros server_moves_attempt server_moves_retry server_moves_trigger_pass)

text \<open>The server at some time while it was stopping had nothing to serve.\<close>

definition was_idle :: "world \<Rightarrow> bool" where
  "was_idle w \<longleftrightarrow> (\<exists>v. rtranclp server_step init_world v \<and> nbd_Shutdown v \<and> blockdevs_m v = [] \<and>
     rtranclp server_step v w)"

lemma was_idle_step: "was_idle w \<Longrightarrow> rtranclp server_step w w2 \<Longrightarrow> was_idle w2"
  unfolding was_idle_def by (meson rtranclp_trans)

lemma closes_idle:
  assumes "server_step w w2" and "\<not> shutdown_closed w" and "shutdown_closed w2"
  shows "nbd_Shutdown w2 \<and> blockdevs_m w2 = []"
  using assms
  by (cases rule: server_stepE)
    (auto simp: allocate_name_keys forget_export_def begin_shutdown_def close_shutdownChannel_def same_server_def
      Let_def split: if_splits)

lemma closed_was_idle:
  assumes "rtranclp server_step v w" and "rtranclp server_step init_world v" and "shutdown_closed w"
    and "shutdown_closed v \<Longrightarrow> was_idle v"
  shows "was_idle w"
  using assms
proof (induction rule: rtranclp_induct)
  case (step w w2)
  have reached: "rtranclp server_step init_world w" using step.hyps(1) step.prems(1) by (rule rtranclp_trans [rotated])
  show ?case
  proof (cases "shutdown_closed w")
    case True
    with step have "was_idle w" by blast
    with step.hyps(2) show ?thesis by (blast intro: was_idle_step)
  next
    case False
    from closes_idle [OF step.hyps(2) False step.prems(2)] reached step.hyps(2) show ?thesis
      unfolding was_idle_def by (meson rtranclp.rtrancl_into_rtrancl rtranclp.rtrancl_refl)
  qed
qed simp

text \<open>Every step of the handler moves the server by steps of its machine.\<close>

lemma handler_moves:
  assumes "handler_step E s s2"
  shows "rtranclp server_step (snd s) (snd s2)"
  using assms
proof cases
  case (signal w w2)
  with server_moves_operations(4) show ?thesis unfolding server_moves_def by (metis snd_conv)
next
  case (asked w w2)
  with server_moves_triggerCleanup show ?thesis unfolding server_moves_def by (metis snd_conv)
qed auto

lemma handler_reaches:
  assumes "rtranclp (handler_step E) (AwaitSignal, init_world) s"
  shows "rtranclp server_step init_world (snd s) \<and> (shutdown_closed (snd s) \<longrightarrow> was_idle (snd s)) \<and>
    (fst s = Cancelled \<longrightarrow> shutdown_closed (snd s))"
  using assms
proof (induction rule: rtranclp_induct)
  case base
  have "\<not> shutdown_closed init_world" by (simp add: init_world_def)
  then show ?case by simp
next
  case (step s s2)
  have moves: "rtranclp server_step (snd s) (snd s2)" using step.hyps(2) by (rule handler_moves)
  have stays: "shutdown_closed w2" if "server_step w w2" "shutdown_closed w" for w w2
    using that by (cases rule: server_stepE)
      (auto simp: allocate_name_keys forget_export_def begin_shutdown_def close_shutdownChannel_def same_server_def
        Let_def split: if_splits)
  have "fst s2 = Cancelled \<longrightarrow> shutdown_closed (snd s2)"
    using step.hyps(2) step.IH by cases (auto intro: stays)
  moreover have "shutdown_closed (snd s2) \<longrightarrow> was_idle (snd s2)"
    using closed_was_idle [OF moves] step.IH by blast
  ultimately show ?case using moves step.IH by (meson rtranclp_trans)
qed

text \<open>A start that passed the check of the shutdown before the signal is not held up by anything
  afterwards: the export is served and reported by a process that is about to end.\<close>

lemma late_start_succeeds:
  assumes "daemon_answers E"
  shows "\<exists>uri w2. StartExport export p E w = (Inr uri, w2) \<and> export \<in> fst ` set (blockdevs_m w2) \<and>
    shutdown_closed w2 = shutdown_closed w"
proof -
  define w1 where "w1 = w\<lparr>trace := trace w @ [QmpConnect]\<rparr>"
  have "\<exists>t. StartExport export p E w = (Inr (url_String ''nbd'' (PodIP E) export), (snd (allocate_name export w1))\<lparr>trace := t\<rparr>)"
    by (simp add: StartExport_def thenE_def bindE_def daemon_answers_run [OF assms] BlockdevAdd_def BlockExportAdd_def
        nodeName_run w1_def askEnv_def ret_def) (intro exI, rule refl)
  then show ?thesis by (auto simp: allocate_name_keys w1_def)
qed

end
