(* ===== verification/Csi_Node.thy ===== *)
theory Csi_Node
  imports Csi_Volume Io_Logic
begin

text \<open>
  internal/csi/node: the CSI node service.  Staging asks for the volume on this node, waits until
  the controllers report it, and mounts or links its device; unstaging undoes it in the opposite
  order; publishing binds or links the staged path.  The file system calls and the mounter of the
  vendored mount-utils are answered by the environment.
\<close>

section \<open>The mounter and the request\<close>

definition mount_do :: "mount_call \<Rightarrow> bool io" where
  "mount_do c = invoke (\<lambda>E h. env_mount E h c) (MountCall c)"

definition Internal :: "string \<Rightarrow> goerr" where
  "Internal msg = GrpcStatus ''Internal'' msg"

definition FailedPrecondition :: "string \<Rightarrow> goerr" where
  "FailedPrecondition msg = GrpcStatus ''FailedPrecondition'' msg"

text \<open>The getter of the request reads a missing capability as one with no access type.\<close>

definition GetMount :: "VolumeCapability option \<Rightarrow> (string \<times> string list) option" where
  "GetMount capability =
     (case capability of
        None \<Rightarrow> None
      | Some c \<Rightarrow> (case cap_AccessType c of AccessMount fsType flags \<Rightarrow> Some (fsType, flags) | _ \<Rightarrow> None))"

definition validate_capability :: "VolumeCapability option \<Rightarrow> goerr option" where
  "validate_capability capability =
     (case capability of
        None \<Rightarrow> Some (InvalidArgument ''expected a block or mount volume'')
      | Some c \<Rightarrow> ValidateVolumeCapability c)"

section \<open>Information\<close>

datatype node_capability =
    STAGE_UNSTAGE_VOLUME
  | NODE_SINGLE_NODE_MULTI_WRITER
  | GET_VOLUME_STATS
  | VOLUME_CONDITION

definition NodeGetInfo :: "string io" where
  "NodeGetInfo = askEnv LocalNodeName"

definition NodeGetCapabilities :: "node_capability list io" where
  "NodeGetCapabilities =
     ret [STAGE_UNSTAGE_VOLUME, NODE_SINGLE_NODE_MULTI_WRITER, GET_VOLUME_STATS, VOLUME_CONDITION]"

section \<open>Staging\<close>

record NodeStageVolumeRequest =
  st_VolumeId :: string
  st_PublishContext :: params
  st_StagingTargetPath :: string
  st_VolumeCapability :: "VolumeCapability option"

record NodeUnstageVolumeRequest =
  us_VolumeId :: string
  us_StagingTargetPath :: string

text \<open>The mount flags are passed as the sensitive options of the vendored FormatAndMountSensitive.\<close>

definition formatAndMount :: "string \<Rightarrow> string \<Rightarrow> string \<Rightarrow> string list \<Rightarrow> unit io" where
  "formatAndMount source target fstype mountFlags =
     bindE (attempt (mount_do (IsMountPoint target))) (\<lambda>sure.
       if sure = Inr True then ret ()
       else
         bindE (attempt (mount_do (FormatAndMount source target fstype mountFlags))) (\<lambda>mounted.
           case mounted of
             Inl err \<Rightarrow> fail (Internal ''format and mount failed'')
           | Inr u \<Rightarrow>
               bindE (attempt (mount_do (NeedResize source target))) (\<lambda>needResize.
                 case needResize of
                   Inl err \<Rightarrow> fail (Internal ''failed to determine whether to resize'')
                 | Inr need \<Rightarrow>
                     if need then
                       bindE (attempt (mount_do (ResizeFs source target))) (\<lambda>resized.
                         case resized of
                           Inl err \<Rightarrow> fail (Internal ''failed to resize'')
                         | Inr u \<Rightarrow> ret ())
                     else ret ())))"

text \<open>The bodies of the two retried closures: one attempt to list this node, and to unlist it.\<close>

definition stage_attach_once :: "string \<Rightarrow> Volume io" where
  "stage_attach_once name =
     bindE (attempt (volume_get name)) (\<lambda>got.
       case got of
         Inl err \<Rightarrow> fail (if err = ErrNotFound then NotFound ''volume does not exist'' else err)
       | Inr volume \<Rightarrow>
           if om_DeletionTimestamp (v_Meta volume) \<noteq> None
             then fail (FailedPrecondition ''volume deletion is already in progress'')
           else
             bindE (askEnv LocalNodeName) (\<lambda>node.
               if \<not> slices_Contains (vs_AttachToNodes (v_Spec volume)) node
               then volume_update (set_AttachToNodes (AppendUnique (vs_AttachToNodes (v_Spec volume)) node) volume)
               else ret volume))"

definition unstage_detach_once :: "string \<Rightarrow> Volume io" where
  "unstage_detach_once name =
     bindE (attempt (volume_get name)) (\<lambda>got.
       case got of
         Inl err \<Rightarrow> fail (if err = ErrNotFound then NotFound ''volume does not exist'' else err)
       | Inr volume \<Rightarrow>
           bindE (askEnv LocalNodeName) (\<lambda>node.
             if slices_Contains (vs_AttachToNodes (v_Spec volume)) node
             then volume_update (set_AttachToNodes (RemoveAll (vs_AttachToNodes (v_Spec volume)) node) volume)
             else ret volume))"

text \<open>The device of the volume is mounted, or linked for a block volume.\<close>

definition stage_device :: "NodeStageVolumeRequest \<Rightarrow> Volume \<Rightarrow> unit io" where
  "stage_device req volume =
     (case GetMount (st_VolumeCapability req) of
        Some (fsType, mountFlags) \<Rightarrow>
          formatAndMount (vst_Path (v_Status volume)) (st_StagingTargetPath req) fsType mountFlags
      | None \<Rightarrow>
          thenE (remove_if_exists (st_StagingTargetPath req))
            (thenE (os_do (OsSymlink (vst_Path (v_Status volume)) (st_StagingTargetPath req))) (ret ())))"

definition attached_here :: "string \<Rightarrow> Volume \<Rightarrow> bool" where
  "attached_here node volume = slices_Contains (vst_AttachedToNodes (v_Status volume)) node"

definition NodeStageVolume :: "nat \<Rightarrow> NodeStageVolumeRequest \<Rightarrow> unit io" where
  "NodeStageVolume polls req =
     bindE (liftE (ValidateVolumeID (st_VolumeId req))) (\<lambda>name.
     thenE (returnErr (ValidateVolumeContext (st_PublishContext req)))
     (if st_StagingTargetPath req = [] then fail (InvalidArgument ''must specify staging target path'')
      else
        thenE (returnErr (validate_capability (st_VolumeCapability req)))
        (bindE (RetryOnConflict 5 (stage_attach_once name)) (\<lambda>volume.
         bindE (askEnv LocalNodeName) (\<lambda>node.
         bindE (WatchVolumeUntil polls volume (attached_here node)) (\<lambda>volume.
           stage_device req volume))))))"

text \<open>What is left of the staging at the path: a mount, or the link of a block volume.\<close>

definition unstage_path :: "string \<Rightarrow> unit io" where
  "unstage_path path =
     bindE (attempt (mount_do (IsMountPoint path))) (\<lambda>sure.
       case sure of
         Inl err \<Rightarrow> fail (Internal ''failed to determine whether the staging path is a mount point'')
       | Inr isMount \<Rightarrow>
           if isMount then
             bindE (attempt (mount_do (CleanupMountPoint path))) (\<lambda>cleaned.
               case cleaned of
                 Inl err \<Rightarrow> fail (Internal ''failed to clean up mount point'')
               | Inr u \<Rightarrow> ret ())
           else
             bindE (attempt (os_do (OsLstat path))) (\<lambda>fileInfo.
               case fileInfo of
                 Inl err \<Rightarrow>
                   if err \<noteq> ErrNotExist then fail (Internal ''error determining if dir is a symbolic link'')
                   else ret ()
               | Inr isSymlink \<Rightarrow>
                   if isSymlink then thenE (os_do (OsRemove path)) (ret ()) else ret ()))"

definition NodeUnstageVolume :: "nat \<Rightarrow> NodeUnstageVolumeRequest \<Rightarrow> unit io" where
  "NodeUnstageVolume polls req =
     bindE (liftE (ValidateVolumeID (us_VolumeId req))) (\<lambda>name.
     if us_StagingTargetPath req = [] then fail (InvalidArgument ''must specify staging target path'')
     else
       thenE (unstage_path (us_StagingTargetPath req))
       (bindE (RetryOnConflict 5 (unstage_detach_once name)) (\<lambda>volume.
        bindE (askEnv LocalNodeName) (\<lambda>node.
        thenE (WatchVolumeUntil polls volume (\<lambda>volume. \<not> attached_here node volume)) (ret ())))))"

section \<open>Publishing\<close>

record NodePublishVolumeRequest =
  pb_VolumeId :: string
  pb_PublishContext :: params
  pb_StagingTargetPath :: string
  pb_TargetPath :: string
  pb_VolumeCapability :: "VolumeCapability option"

text \<open>The volume has to exist still, and to be staged here.\<close>

definition check_published :: "string \<Rightarrow> goerr + Volume \<Rightarrow> goerr option" where
  "check_published node got =
     (case got of
        Inl err \<Rightarrow> Some (if err = ErrNotFound then NotFound ''volume not found'' else err)
      | Inr volume \<Rightarrow>
          if \<not> slices_Contains (vs_AttachToNodes (v_Spec volume)) node
            then Some (FailedPrecondition ''volume is not staged on node'')
          else if om_DeletionTimestamp (v_Meta volume) \<noteq> None
            then Some (FailedPrecondition ''volume deletion is already in progress'')
          else None)"

definition publish_bind :: "string \<Rightarrow> string \<Rightarrow> unit io" where
  "publish_bind staging target =
     thenE (os_do (OsMkdirAll target))
       (bindE (attempt (mount_do (MountFs staging target ''none'' [''bind'']))) (\<lambda>mounted.
          case mounted of
            Inl err \<Rightarrow> thenE (ignoreErr (os_do (OsRemove target))) (fail err)
          | Inr u \<Rightarrow> ret ()))"

definition publish_link :: "string \<Rightarrow> string \<Rightarrow> unit io" where
  "publish_link staging target =
     thenE (remove_if_exists target) (thenE (os_do (OsSymlink staging target)) (ret ()))"

definition NodePublishVolume :: "NodePublishVolumeRequest \<Rightarrow> unit io" where
  "NodePublishVolume req =
     bindE (liftE (ValidateVolumeID (pb_VolumeId req))) (\<lambda>name.
     thenE (returnErr (ValidateVolumeContext (pb_PublishContext req)))
     (if pb_TargetPath req = [] then fail (InvalidArgument ''must specify target path'')
      else if pb_VolumeCapability req = None then fail (InvalidArgument ''must specify volume capability'')
      else
        thenE (returnErr (validate_capability (pb_VolumeCapability req)))
        (bindE (attempt (volume_get name)) (\<lambda>got.
         bindE (askEnv LocalNodeName) (\<lambda>node.
         thenE (returnErr (check_published node got))
           (if GetMount (pb_VolumeCapability req) \<noteq> None
            then publish_bind (pb_StagingTargetPath req) (pb_TargetPath req)
            else publish_link (pb_StagingTargetPath req) (pb_TargetPath req)))))))"

definition NodeUnpublishVolume :: "string \<Rightarrow> string \<Rightarrow> unit io" where
  "NodeUnpublishVolume volumeId targetPath =
     bindE (liftE (ValidateVolumeID volumeId)) (\<lambda>name.
     if targetPath = [] then fail (InvalidArgument ''must specify target path'')
     else
       bindE (attempt (mount_do (IsMountPoint targetPath))) (\<lambda>isMountPoint.
       thenE (if isMountPoint = Inr True
              then thenE (mount_do (CleanupMountPoint targetPath)) (ret ())
              else remove_if_exists targetPath)
         (bindE (attempt (volume_get name)) (\<lambda>got.
            case got of
              Inl err \<Rightarrow> fail (if err = ErrNotFound then NotFound ''volume not found'' else err)
            | Inr volume \<Rightarrow> ret ()))))"

section \<open>Statistics\<close>

record VolumeStats =
  vs_Total :: int
  vs_Abnormal :: bool
  vs_Message :: string

definition volume_condition :: "Volume \<Rightarrow> bool \<times> string" where
  "volume_condition volume =
     (case FindStatusCondition (vst_Conditions (v_Status volume)) Abnormal of
        None \<Rightarrow> (False, ''Volume is operational'')
      | Some cond \<Rightarrow>
          if c_Status cond = ConditionTrue then (True, c_Message cond)
          else (False, ''Volume is operational''))"

definition NodeGetVolumeStats :: "string \<Rightarrow> string \<Rightarrow> VolumeStats io" where
  "NodeGetVolumeStats volumeId volumePath =
     bindE (liftE (ValidateVolumeID volumeId)) (\<lambda>name.
     if volumePath = [] then fail (InvalidArgument ''Volume Path not provided'')
     else
       bindE (attempt (os_do (OsStat volumePath))) (\<lambda>stat.
         case stat of
           Inl err \<Rightarrow>
             fail (if err = ErrNotExist then NotFound (''Failed to find a volume at '' @ volumePath) else err)
         | Inr u \<Rightarrow>
             bindE (attempt (volume_get name)) (\<lambda>got.
               case got of
                 Inl err \<Rightarrow>
                   fail (if err = ErrNotFound then NotFound (volumeId @ '' does not exist'') else err)
               | Inr volume \<Rightarrow>
                   bindE (if vs_Mode (v_Spec volume) = VolumeModeThin
                          then dm_GetSize (volume_name volume)
                          else ret (vst_SizeBytes (v_Status volume))) (\<lambda>sizeBytes.
                     let (abnormal, message) = volume_condition volume
                     in ret \<lparr>vs_Total = sizeBytes, vs_Abnormal = abnormal, vs_Message = message\<rparr>))))"

section \<open>Which calls it makes\<close>

lemma wp_mount_do [wp_intros]:
  "S (MountCall c) \<Longrightarrow> Q (env_mount E (trace w) c) (after w (MountCall c)) \<Longrightarrow> wp S (mount_do c) Q E w"
  unfolding mount_do_def by (rule wp_invoke)

lemma wp_volume_get [wp_intros]:
  "S (VolumeCall (ApiGet n)) \<Longrightarrow>
    Q (cl_Get (volumes E) (trace w) n) (after w (VolumeCall (ApiGet n))) \<Longrightarrow> wp S (volume_get n) Q E w"
  unfolding volume_get_def by (rule wp_api)

lemma wp_volume_update [wp_intros]:
  "S (VolumeCall (ApiUpdate x)) \<Longrightarrow>
    Q (cl_Update (volumes E) (trace w) x) (after w (VolumeCall (ApiUpdate x))) \<Longrightarrow> wp S (volume_update x) Q E w"
  unfolding volume_update_def by (rule wp_api)

text \<open>An update of the list of nodes, computed from the object that was read.\<close>

definition relists :: "(string \<Rightarrow> string list \<Rightarrow> string list) \<Rightarrow> string \<Rightarrow> env \<Rightarrow> call \<Rightarrow> bool" where
  "relists change name E c \<longleftrightarrow>
     c = VolumeCall (ApiGet name) \<or>
     (\<exists>h v. cl_Get (volumes E) h name = Inr v \<and>
        change (LocalNodeName E) (vs_AttachToNodes (v_Spec v)) \<noteq> vs_AttachToNodes (v_Spec v) \<and>
        c = VolumeCall (ApiUpdate
          (set_AttachToNodes (change (LocalNodeName E) (vs_AttachToNodes (v_Spec v))) v)))"

lemma emits_stage_attach_once:
  "emits (relists (\<lambda>node nodes. AppendUnique nodes node) name) (stage_attach_once name)"
  unfolding stage_attach_once_def
  by (rule wp_emitsI, (intro wp_intros)) (auto simp: relists_def AppendUnique_eq)

lemma filter_other_same: "filter (\<lambda>x. x \<noteq> node) nodes = nodes \<longleftrightarrow> node \<notin> set nodes"
  by (auto simp: filter_id_conv)

lemma emits_unstage_detach_once:
  "emits (relists (\<lambda>node nodes. RemoveAll nodes node) name) (unstage_detach_once name)"
  unfolding unstage_detach_once_def
  by (rule wp_emitsI, (intro wp_intros)) (auto simp: relists_def filter_other_same)

lemma emits_WatchVolumeUntil:
  "emits (\<lambda>E c. \<exists>n. c = VolumeCall (ApiGet n)) (WatchVolumeUntil polls volume condition)"
  unfolding WatchVolumeUntil_def volume_get_def by (intro emits_intros emits_watch_polls) auto

lemma ValidateVolumeID_same: "ValidateVolumeID i = Inr name \<Longrightarrow> name = i"
  by (auto simp: ValidateVolumeID_def validateID_def split: if_splits)

text \<open>The path is clear: what the first calls of the unstaging were answered.\<close>

definition path_cleared :: "env \<Rightarrow> call list \<Rightarrow> string \<Rightarrow> bool" where
  "path_cleared E h path \<longleftrightarrow>
     (let h1 = h @ [MountCall (IsMountPoint path)]; h2 = h1 @ [OsCall (OsLstat path)]
      in case env_mount E h (IsMountPoint path) of
           Inl err \<Rightarrow> False
         | Inr True \<Rightarrow> \<not> isl (env_mount E h1 (CleanupMountPoint path))
         | Inr False \<Rightarrow>
             (case env_os E h1 (OsLstat path) of
                Inl err \<Rightarrow> err = ErrNotExist
              | Inr isSymlink \<Rightarrow> isSymlink \<longrightarrow> \<not> isl (env_os E h2 (OsRemove path))))"

definition detached_after_clearing :: "NodeUnstageVolumeRequest \<Rightarrow> env \<Rightarrow> world \<Rightarrow> call \<Rightarrow> bool" where
  "detached_after_clearing req E w c \<longleftrightarrow>
     (\<forall>x. c = VolumeCall (ApiUpdate x) \<longrightarrow>
        path_cleared E (trace w) (us_StagingTargetPath req) \<and>
        (\<exists>h v. cl_Get (volumes E) h (us_VolumeId req) = Inr v \<and>
           LocalNodeName E \<in> set (vs_AttachToNodes (v_Spec v)) \<and>
           x = set_AttachToNodes (filter (\<lambda>n. n \<noteq> LocalNodeName E) (vs_AttachToNodes (v_Spec v))) v))"

lemma detached_after_clearing_simps [simp]:
  "detached_after_clearing req E w (MountCall m)" "detached_after_clearing req E w (OsCall c)"
  "detached_after_clearing req E w (VolumeCall (ApiGet n))"
  by (simp_all add: detached_after_clearing_def)

lemma wp_unstage_path:
  assumes "\<And>m. S (MountCall m)" and "\<And>c. S (OsCall c)"
    and "\<And>w1. path_cleared E (trace w) path \<Longrightarrow> Q (Inr ()) w1" and "\<And>e w1. Q (Inl e) w1"
  shows "wp S (unstage_path path) Q E w"
  unfolding unstage_path_def
  by (intro wp_intros) (auto simp: assms(1,2,4) path_cleared_def intro!: assms(3) split: sum.splits)

lemma NodeUnstageVolume_order: "issues (NodeUnstageVolume polls req) (detached_after_clearing req)"
  unfolding NodeUnstageVolume_def
  by (rule wp_issues, (intro wp_intros wp_unstage_path wp_emits [OF emits_WatchVolumeUntil]
        wp_emits [OF emits_RetryOnConflict, OF emits_unstage_detach_once]))
    (auto simp: relists_def detached_after_clearing_def filter_other_same dest: ValidateVolumeID_same)

section \<open>Staging uses a device the cluster reported\<close>

lemma RetryOnConflict_last:
  assumes "emits P m" and "RetryOnConflict n m E w = (Inr x, w2)"
  shows "\<exists>w0. prefix (trace w) (trace w0) \<and> m E w0 = (Inr x, w2)"
  using assms(2)
proof (induction n arbitrary: w)
  case 0
  then show ?case by simp
next
  case (Suc n)
  obtain r w1 where m: "m E w = (r, w1)" by (cases "m E w")
  with assms(1) have p: "prefix (trace w) (trace w1)" by (rule emits_prefix)
  show ?case
  proof (cases r)
    case (Inl err)
    with m Suc.prems have "RetryOnConflict n m E w1 = (Inr x, w2)"
      by (auto simp: bindE_def attempt_def split: if_splits)
    from Suc.IH [OF this] p show ?thesis using prefix_order.trans by blast
  next
    case (Inr y)
    with m Suc.prems show ?thesis by (auto simp: bindE_def attempt_def)
  qed
qed

lemma answered_update: "volume_update x E w = (Inr v, w2) \<Longrightarrow> answered E w w2 v"
  unfolding answered_def volume_update_def api_update_def
  by (auto simp: invoke_iff intro!: exI [of _ "trace w"])

lemma stage_attach_once_answered:
  assumes "stage_attach_once name E w = (Inr v, w2)"
  shows "answered E w w2 v"
proof -
  from assms obtain volume w1 where get: "volume_get name E w = (Inr volume, w1)"
    and next_step: "v = volume \<and> w2 = w1 \<or> (\<exists>x. volume_update x E w1 = (Inr v, w2))"
    by (auto simp: stage_attach_once_def io_run split: if_splits)
  from get have "prefix (trace w) (trace w1)" by (rule emits_prefix [OF emits_volume_get])
  with next_step answered_get [OF get] show ?thesis
    using answered_mono [OF answered_update] by blast
qed

text \<open>The device handed to the mounter, or linked, is the path in an answer of the API server, of
  this very run, that lists this node as attached.\<close>

definition reported_device :: "env \<Rightarrow> world \<Rightarrow> string \<Rightarrow> bool" where
  "reported_device E w source \<longleftrightarrow>
     (\<exists>v w1. answered E w w1 v \<and> LocalNodeName E \<in> set (vst_AttachedToNodes (v_Status v)) \<and>
        source = vst_Path (v_Status v))"

definition stages_reported_device :: "NodeStageVolumeRequest \<Rightarrow> env \<Rightarrow> world \<Rightarrow> call \<Rightarrow> bool" where
  "stages_reported_device req E w c \<longleftrightarrow>
     (\<forall>source target fs flags.
        c = MountCall (FormatAndMount source target fs flags) \<or> c = MountCall (ResizeFs source target) \<or>
        c = OsCall (OsSymlink source target) \<longrightarrow>
        reported_device E w source \<and> target = st_StagingTargetPath req)"

lemma stages_reported_device_simps [simp]:
  "stages_reported_device req E w (VolumeCall x)"
  "stages_reported_device req E w (OsCall (OsRemove p))"
  "stages_reported_device req E w (MountCall (IsMountPoint p))"
  "stages_reported_device req E w (MountCall (NeedResize s p))"
  by (simp_all add: stages_reported_device_def)

lemma wp_stage_device:
  assumes "reported_device E w0 (vst_Path (v_Status v))"
  shows "wp (stages_reported_device req E w0) (stage_device req v) (\<lambda>r w2. True) E w"
  unfolding stage_device_def formatAndMount_def remove_if_exists_def
  by (intro wp_intros) (use assms in \<open>auto simp: stages_reported_device_def\<close>)

lemma staged_volume_reported:
  assumes retry: "RetryOnConflict n (stage_attach_once name) E w = (Inr v, w1)"
    and watch: "WatchVolumeUntil polls v (attached_here (LocalNodeName E)) E w1 = (Inr x, w2)"
  shows "reported_device E w (vst_Path (v_Status x))"
proof -
  from RetryOnConflict_last [OF emits_stage_attach_once retry]
  obtain w0 where w0: "prefix (trace w) (trace w0)" "stage_attach_once name E w0 = (Inr v, w1)" by blast
  then have "answered E w w1 v"
    using answered_mono [OF stage_attach_once_answered] by blast
  moreover have "prefix (trace w) (trace w1)"
    using w0 emits_prefix [OF emits_stage_attach_once] prefix_order.trans by blast
  ultimately have "answered E w w2 x \<and> attached_here (LocalNodeName E) x"
    by (rule watch_volume_answered [OF watch])
  then show ?thesis by (auto simp: reported_device_def attached_here_def)
qed

lemma NodeStageVolume_device: "issues (NodeStageVolume polls req) (stages_reported_device req)"
  unfolding NodeStageVolume_def
  by (rule wp_issues, (intro wp_intros wp_emits [OF emits_WatchVolumeUntil]
      wp_emits [OF emits_RetryOnConflict, OF emits_stage_attach_once] wp_stage_device;
      (auto simp: relists_def; fail)?))
    (auto intro: staged_volume_reported)

section \<open>Retrying an unstaging\<close>

text \<open>When the mounter fails on the staging path, as it does on one that is missing, the request
  ends there: the volume is not looked at.\<close>

lemma NodeUnstageVolume_missing_path:
  assumes "IsDNS1123Label (us_VolumeId req)" and "us_StagingTargetPath req \<noteq> []"
    and "env_mount E (trace w) (IsMountPoint (us_StagingTargetPath req)) = Inl err"
  shows "NodeUnstageVolume polls req E w =
    (Inl (Internal ''failed to determine whether the staging path is a mount point''),
     after w (MountCall (IsMountPoint (us_StagingTargetPath req))))"
proof -
  have "us_VolumeId req \<noteq> []" using assms(1) by (auto simp: IsDNS1123Label_def)
  with assms show ?thesis
    by (simp add: NodeUnstageVolume_def ValidateVolumeID_def validateID_def liftE_def unstage_path_def
        mount_do_def thenE_def bindE_def attempt_def invoke_def fail_def ret_def after_def)
qed

section \<open>Publishing\<close>

definition published_where_staged :: "NodePublishVolumeRequest \<Rightarrow> env \<Rightarrow> world \<Rightarrow> call \<Rightarrow> bool" where
  "published_where_staged req E w c \<longleftrightarrow>
     c = VolumeCall (ApiGet (pb_VolumeId req)) \<or>
     ((\<exists>v. cl_Get (volumes E) (trace w) (pb_VolumeId req) = Inr v \<and>
         LocalNodeName E \<in> set (vs_AttachToNodes (v_Spec v)) \<and> om_DeletionTimestamp (v_Meta v) = None) \<and>
      c \<in> (if GetMount (pb_VolumeCapability req) \<noteq> None
            then {OsCall (OsMkdirAll (pb_TargetPath req)),
                  MountCall (MountFs (pb_StagingTargetPath req) (pb_TargetPath req) ''none'' [''bind'']),
                  OsCall (OsRemove (pb_TargetPath req))}
            else {OsCall (OsRemove (pb_TargetPath req)),
                  OsCall (OsSymlink (pb_StagingTargetPath req) (pb_TargetPath req))}))"

lemma check_published_None:
  "(case check_published node got of None \<Rightarrow> Inr () | Some e \<Rightarrow> Inl e) = Inr u \<longleftrightarrow>
    (\<exists>v. got = Inr v \<and> node \<in> set (vs_AttachToNodes (v_Spec v)) \<and> om_DeletionTimestamp (v_Meta v) = None)"
  by (auto simp: check_published_def split: sum.splits)

lemma NodePublishVolume_where_staged: "issues (NodePublishVolume req) (published_where_staged req)"
  unfolding NodePublishVolume_def publish_bind_def publish_link_def remove_if_exists_def
  by (rule wp_issues, (intro wp_intros))
    (auto simp: published_where_staged_def check_published_None dest!: ValidateVolumeID_same)

section \<open>Statistics\<close>

text \<open>The size of a thin volume is the one of its device on this node, and the size in the status
  otherwise.\<close>

definition stats_of_node :: "string \<Rightarrow> string \<Rightarrow> env \<Rightarrow> world \<Rightarrow> VolumeStats \<Rightarrow> world \<Rightarrow> bool" where
  "stats_of_node volumeId path E w s w2 \<longleftrightarrow>
     (let w0 = after w (OsCall (OsStat path)); w1 = after w0 (VolumeCall (ApiGet volumeId))
      in \<exists>v. cl_Get (volumes E) (trace w0) volumeId = Inr v \<and>
        (vs_Abnormal s \<longleftrightarrow> IsStatusConditionTrue (vst_Conditions (v_Status v)) Abnormal) \<and>
        (if vs_Mode (v_Spec v) = VolumeModeThin then dm_GetSize (volume_name v) E w1 = (Inr (vs_Total s), w2)
         else vs_Total s = vst_SizeBytes (v_Status v) \<and> w2 = w1))"

lemma volume_condition_abnormal:
  "fst (volume_condition v) \<longleftrightarrow> IsStatusConditionTrue (vst_Conditions (v_Status v)) Abnormal"
  by (auto simp: volume_condition_def IsStatusConditionTrue_find split: option.split)

lemma emits_dm_GetSize: "emits (\<lambda>E c. True) (dm_GetSize name)"
  unfolding dm_GetSize_def by (intro emits_intros) auto

lemma NodeGetVolumeStats_node:
  "yields (NodeGetVolumeStats volumeId path) (stats_of_node volumeId path)"
  unfolding NodeGetVolumeStats_def
  by (rule wp_yields, (intro wp_intros wp_emits [OF emits_dm_GetSize]; (rule TrueI)?))
    (drule ValidateVolumeID_same, simp add: stats_of_node_def volume_condition_abnormal [symmetric])+

end
