(* ===== verification/Worker_System.thy ===== *)
theory Worker_System
  imports Workers
begin

text \<open>
  internal/manager/common/workers/workers.go with its goroutines.  Workers has one call of Run or
  Cancel, and takes the outcome of the work from the environment; here the workers themselves are
  the state: each has a channel of one place for its outcome, a goroutine that runs the work, puts
  the outcome into the channel and then triggers the reconciler.  The goroutines move at any time.
  A call is two steps, what it does to the table and the look into the channel, so that goroutines
  and the calls for other names move in between; calls for one name follow each other, since the
  name belongs to an object and the framework reconciles an object in one goroutine at a time.
\<close>

section \<open>Workers and their table\<close>

text \<open>The name under which a worker was started is kept with it, for the statements only.\<close>

record worker =
  wk_name :: string
  wk_work :: "work option"
  wk_running :: bool
  wk_done :: "goerr option option"
  wk_cancelled :: bool
  wk_triggered :: bool

record worker_pool =
  wp_table :: "(string \<times> nat) list"
  wp_workers :: "worker list"

definition NewWorkers :: worker_pool where
  "NewWorkers = \<lparr>wp_table = [], wp_workers = []\<rparr>"

definition newWorker :: "string \<Rightarrow> worker" where
  "newWorker name =
     \<lparr>wk_name = name, wk_work = None, wk_running = False, wk_done = None, wk_cancelled = False,
      wk_triggered = False\<rparr>"

definition start :: "work \<Rightarrow> worker \<Rightarrow> worker" where
  "start work w = w\<lparr>wk_work := Some work, wk_running := True\<rparr>"

definition change_worker :: "nat \<Rightarrow> (worker \<Rightarrow> worker) \<Rightarrow> worker_pool \<Rightarrow> worker_pool" where
  "change_worker i f s = s\<lparr>wp_workers := (wp_workers s)[i := f (wp_workers s ! i)]\<rparr>"

text \<open>Run up to the look into the channel: a name without a worker gets one.\<close>

definition ensure_worker :: "string \<Rightarrow> work \<Rightarrow> worker_pool \<Rightarrow> worker_pool" where
  "ensure_worker name work s =
     (case map_of (wp_table s) name of
        None \<Rightarrow>
          \<lparr>wp_table = AList.update name (length (wp_workers s)) (wp_table s),
           wp_workers = wp_workers s @ [start work (newWorker name)]\<rparr>
      | Some i \<Rightarrow> s)"

text \<open>Cancel up to the look into the channel: the context of the work is cancelled.\<close>

definition cancel_worker :: "string \<Rightarrow> worker_pool \<Rightarrow> worker_pool" where
  "cancel_worker name s =
     (case map_of (wp_table s) name of
        None \<Rightarrow> s
      | Some i \<Rightarrow> change_worker i (\<lambda>w. w\<lparr>wk_cancelled := True\<rparr>) s)"

text \<open>getResult, which takes what is in the channel, and the deletion of a worker that was done.\<close>

definition worker_result :: "nat \<Rightarrow> worker_pool \<Rightarrow> goerr option option \<times> worker_pool" where
  "worker_result i s =
     (wk_done (wp_workers s ! i),
      if wk_done (wp_workers s ! i) = None then s
      else change_worker i (\<lambda>w. w\<lparr>wk_done := None\<rparr>) s)"

definition collect_result :: "string \<Rightarrow> worker_pool \<Rightarrow> goerr option option \<times> worker_pool" where
  "collect_result name s =
     (case map_of (wp_table s) name of
        None \<Rightarrow> (None, s)
      | Some i \<Rightarrow>
          (case worker_result i s of
             (None, s) \<Rightarrow> (None, s)
           | (Some err, s) \<Rightarrow> (Some err, s\<lparr>wp_table := AList.delete name (wp_table s)\<rparr>)))"

text \<open>The goroutine of a worker: the send of the outcome, for which the channel must have room, and
  the trigger after it.\<close>

definition finish_work :: "nat \<Rightarrow> goerr option \<Rightarrow> worker_pool \<Rightarrow> worker_pool" where
  "finish_work i err = change_worker i (\<lambda>w. w\<lparr>wk_running := False, wk_done := Some err\<rparr>)"

definition trigger_reconcile :: "nat \<Rightarrow> worker_pool \<Rightarrow> worker_pool" where
  "trigger_reconcile i = change_worker i (\<lambda>w. w\<lparr>wk_triggered := True\<rparr>)"

definition can_send :: "nat \<Rightarrow> worker_pool \<Rightarrow> bool" where
  "can_send i s \<longleftrightarrow> i < length (wp_workers s) \<and> wk_running (wp_workers s ! i) \<and>
     wk_done (wp_workers s ! i) = None"

definition can_trigger :: "nat \<Rightarrow> worker_pool \<Rightarrow> bool" where
  "can_trigger i s \<longleftrightarrow> i < length (wp_workers s) \<and> \<not> wk_running (wp_workers s ! i) \<and>
     \<not> wk_triggered (wp_workers s ! i)"

inductive goroutine_step :: "worker_pool \<Rightarrow> worker_pool \<Rightarrow> bool" where
  finish: "can_send i s \<Longrightarrow> goroutine_step s (finish_work i err s)"
| trigger: "can_trigger i s \<Longrightarrow> goroutine_step s (trigger_reconcile i s)"

inductive worker_step :: "worker_pool \<Rightarrow> worker_pool \<Rightarrow> bool" where
  ensure: "worker_step s (ensure_worker name work s)"
| cancel: "worker_step s (cancel_worker name s)"
| collect: "collect_result name s = (err, s') \<Longrightarrow> worker_step s s'"
| goroutine: "goroutine_step s s' \<Longrightarrow> worker_step s s'"

inductive_cases goroutine_stepE: "goroutine_step s s'"
inductive_cases worker_stepE: "worker_step s s'"

section \<open>The invariant\<close>

text \<open>
  A worker whose goroutine runs is the one of its name in the table; a worker in the table runs or
  has its outcome in the channel; and a channel is filled once, after the goroutine is done.
\<close>

definition worker_ok :: "worker_pool \<Rightarrow> nat \<Rightarrow> bool" where
  "worker_ok s i \<longleftrightarrow>
     (let w = wp_workers s ! i
      in (wk_running w \<longrightarrow> wk_done w = None \<and> \<not> wk_triggered w) \<and>
         (map_of (wp_table s) (wk_name w) = Some i \<longleftrightarrow> wk_running w \<or> wk_done w \<noteq> None))"

definition pool_ok :: "worker_pool \<Rightarrow> bool" where
  "pool_ok s \<longleftrightarrow>
     (\<forall>name i. map_of (wp_table s) name = Some i \<longrightarrow>
        i < length (wp_workers s) \<and> wk_name (wp_workers s ! i) = name) \<and>
     (\<forall>i < length (wp_workers s). worker_ok s i)"

lemma pool_ok_NewWorkers: "pool_ok NewWorkers"
  by (simp add: pool_ok_def NewWorkers_def)

lemma wp_change_worker [simp]:
  "wp_table (change_worker i f s) = wp_table s"
  "length (wp_workers (change_worker i f s)) = length (wp_workers s)"
  by (simp_all add: change_worker_def)

lemma change_worker_nth:
  "j < length (wp_workers s) \<Longrightarrow> wp_workers (change_worker i f s) ! j =
    (if j = i then f (wp_workers s ! i) else wp_workers s ! j)"
  by (auto simp: change_worker_def)

lemma pool_ok_change:
  assumes "pool_ok s" and "\<And>w. wk_name (f w) = wk_name w"
    and "i < length (wp_workers s) \<Longrightarrow> worker_ok (change_worker i f s) i"
  shows "pool_ok (change_worker i f s)"
  using assms by (auto simp: pool_ok_def worker_ok_def change_worker_nth Let_def)

lemma pool_okD:
  assumes "pool_ok s"
  shows "map_of (wp_table s) name = Some i \<Longrightarrow> i < length (wp_workers s) \<and> wk_name (wp_workers s ! i) = name"
    and "i < length (wp_workers s) \<Longrightarrow> worker_ok s i"
  using assms by (auto simp: pool_ok_def)

lemma pool_ok_ensure:
  assumes ok: "pool_ok s"
  shows "pool_ok (ensure_worker name work s)"
proof (cases "map_of (wp_table s) name")
  case None
  let ?n = "length (wp_workers s)" and ?s = "ensure_worker name work s"
  have ws: "wp_workers ?s = wp_workers s @ [start work (newWorker name)]"
    and table: "map_of (wp_table ?s) = (map_of (wp_table s))(name \<mapsto> ?n)"
    using None by (simp_all add: ensure_worker_def update_conv')
  have "worker_ok ?s i" if "i < Suc ?n" for i
  proof (cases "i = ?n")
    case True
    then show ?thesis by (simp add: worker_ok_def ws table start_def newWorker_def)
  next
    case False
    then have "worker_ok s i" using that pool_okD(2) [OF ok] by simp
    with False that None show ?thesis
      by (cases "wk_name (wp_workers s ! i) = name") (simp_all add: worker_ok_def ws table nth_append)
  qed
  moreover have "i < Suc ?n \<and> wk_name (wp_workers ?s ! i) = key"
    if "map_of (wp_table ?s) key = Some i" for key i
    using that pool_okD(1) [OF ok, of key i]
    by (cases "key = name") (auto simp: ws table nth_append start_def newWorker_def)
  ultimately show ?thesis unfolding pool_ok_def by (simp add: ws)
qed (simp add: ensure_worker_def ok)

lemma pool_ok_cancel: "pool_ok s \<Longrightarrow> pool_ok (cancel_worker name s)"
  by (auto simp: cancel_worker_def intro!: pool_ok_change split: option.splits)
    (auto simp: pool_ok_def worker_ok_def change_worker_nth Let_def)

lemma pool_ok_goroutine: "goroutine_step s s' \<Longrightarrow> pool_ok s \<Longrightarrow> pool_ok s'"
  by (erule goroutine_stepE)
    (auto simp: finish_work_def trigger_reconcile_def can_send_def can_trigger_def pool_ok_def
      worker_ok_def change_worker_nth Let_def)

lemma pool_ok_collect:
  assumes ok: "pool_ok s" and run: "collect_result name s = (err, s')"
  shows "pool_ok s'"
proof (cases "err = None")
  case True
  then have "s' = s"
    using run by (auto simp: collect_result_def worker_result_def split: option.splits prod.splits)
  then show ?thesis using ok by simp
next
  case False
  then obtain i where i: "map_of (wp_table s) name = Some i" "wk_done (wp_workers s ! i) \<noteq> None"
    using run by (auto simp: collect_result_def worker_result_def split: option.splits prod.splits)
  let ?c = "change_worker i (\<lambda>w. w\<lparr>wk_done := None\<rparr>) s"
  have s': "s' = ?c\<lparr>wp_table := AList.delete name (wp_table s)\<rparr>"
    using run i by (auto simp: collect_result_def worker_result_def split: option.splits)
  have table: "map_of (wp_table s') = (map_of (wp_table s))(name := None)"
    and ws: "wp_workers s' = wp_workers ?c" by (simp_all add: s' delete_conv')
  have named: "i < length (wp_workers s)" "wk_name (wp_workers s ! i) = name"
    using pool_okD(1) [OF ok i(1)] by simp_all
  have "worker_ok s' j" if j: "j < length (wp_workers s)" for j
  proof (cases "j = i")
    case True
    have "worker_ok s i" by (rule pool_okD(2) [OF ok named(1)])
    then show ?thesis
      using True i named j by (auto simp: worker_ok_def Let_def ws table change_worker_nth)
  next
    case False
    have "worker_ok s j" by (rule pool_okD(2) [OF ok j])
    then show ?thesis using False i(1) j
      by (cases "wk_name (wp_workers s ! j) = name")
        (auto simp: worker_ok_def Let_def ws table change_worker_nth)
  qed
  moreover have "j < length (wp_workers s) \<and> wk_name (wp_workers s' ! j) = key"
    if "map_of (wp_table s') key = Some j" for key j
  proof -
    have "map_of (wp_table s) key = Some j" using that by (simp add: table split: if_splits)
    from pool_okD(1) [OF ok this] show ?thesis by (auto simp: ws change_worker_nth)
  qed
  ultimately show ?thesis unfolding pool_ok_def by (simp add: ws)
qed

lemma pool_ok_step: "worker_step s s' \<Longrightarrow> pool_ok s \<Longrightarrow> pool_ok s'"
  by (erule worker_stepE)
    (auto intro: pool_ok_ensure pool_ok_cancel pool_ok_collect pool_ok_goroutine)

lemma pool_ok_steps: "worker_step\<^sup>*\<^sup>* s s' \<Longrightarrow> pool_ok s \<Longrightarrow> pool_ok s'"
  by (induction rule: rtranclp_induct) (auto intro: pool_ok_step)

lemma running_unique:
  assumes "pool_ok s" and "i < length (wp_workers s)" and "j < length (wp_workers s)"
    and "wk_running (wp_workers s ! i)" and "wk_running (wp_workers s ! j)"
    and "wk_name (wp_workers s ! i) = wk_name (wp_workers s ! j)"
  shows "i = j"
  using pool_okD(2) [OF assms(1,2)] pool_okD(2) [OF assms(1,3)] assms(4-6)
  by (auto simp: worker_ok_def Let_def)

section \<open>Run and Cancel on the pool\<close>

text \<open>The table of Workers names the work of each worker in the table of the pool.\<close>

definition table_agrees :: "worker_pool \<Rightarrow> world \<Rightarrow> bool" where
  "table_agrees s w \<longleftrightarrow>
     (\<forall>name. map_of (workers_m w) name =
        (case map_of (wp_table s) name of None \<Rightarrow> None | Some i \<Rightarrow> wk_work (wp_workers s ! i))) \<and>
     (\<forall>name i. map_of (wp_table s) name = Some i \<longrightarrow> wk_work (wp_workers s ! i) \<noteq> None)"

lemma goroutine_step_frame:
  "goroutine_step s s' \<Longrightarrow> wp_table s' = wp_table s \<and> length (wp_workers s') = length (wp_workers s) \<and>
    (\<forall>i < length (wp_workers s). wk_work (wp_workers s' ! i) = wk_work (wp_workers s ! i))"
  by (erule goroutine_stepE)
    (auto simp: finish_work_def trigger_reconcile_def change_worker_nth)

lemma goroutine_steps_frame:
  assumes "goroutine_step\<^sup>*\<^sup>* s s'"
  shows "wp_table s' = wp_table s \<and> length (wp_workers s') = length (wp_workers s) \<and>
    (\<forall>i < length (wp_workers s). wk_work (wp_workers s' ! i) = wk_work (wp_workers s ! i))"
  using assms by (induction rule: rtranclp_induct) (auto dest!: goroutine_step_frame)

lemma table_agrees_same:
  assumes "table_agrees s w" and "pool_ok s" and "wp_table s' = wp_table s"
    and "\<forall>i < length (wp_workers s). wk_work (wp_workers s' ! i) = wk_work (wp_workers s ! i)"
  shows "table_agrees s' w"
  using assms pool_okD(1) [OF assms(2)] by (auto simp: table_agrees_def split: option.splits)

lemma table_agrees_ensure:
  assumes "table_agrees s w" and "pool_ok s"
  shows "table_agrees (ensure_worker name work s)
    (if map_of (workers_m w) name = None
     then w\<lparr>workers_m := AList.update name work (workers_m w)\<rparr> else w)"
proof (cases "map_of (wp_table s) name")
  case None
  then have "map_of (workers_m w) name = None" using assms(1) by (simp add: table_agrees_def)
  with None assms(1) show ?thesis
    using pool_okD(1) [OF assms(2)]
    by (auto simp: ensure_worker_def table_agrees_def update_conv' nth_append start_def
        split: option.splits)
next
  case (Some i)
  then have "map_of (workers_m w) name \<noteq> None" using assms(1) by (auto simp: table_agrees_def)
  then show ?thesis using Some assms(1) by (auto simp: ensure_worker_def)
qed

lemma collect_result_cases:
  assumes "collect_result name s = (err, s')"
  shows "(if err = None then s' = s else wp_table s' = AList.delete name (wp_table s)) \<and>
    (\<forall>i < length (wp_workers s). wk_work (wp_workers s' ! i) = wk_work (wp_workers s ! i))"
  using assms
  by (auto simp: collect_result_def worker_result_def change_worker_nth
      split: option.splits prod.splits if_splits)

lemma table_agrees_collect:
  assumes "table_agrees s w" and "pool_ok s" and "collect_result name s = (err, s')"
  shows "table_agrees s'
    (if err = None then w else w\<lparr>workers_m := AList.delete name (workers_m w)\<rparr>)"
proof (cases "err = None")
  case True
  then show ?thesis using assms collect_result_cases [OF assms(3)] by simp
next
  case False
  then have "map_of (wp_table s') = (map_of (wp_table s))(name := None)"
    using collect_result_cases [OF assms(3)] by (simp add: delete_conv')
  then show ?thesis
    using False assms(1) collect_result_cases [OF assms(3)] pool_okD(1) [OF assms(2)]
    by (auto simp: table_agrees_def delete_conv' split: option.splits)
qed

lemma Workers_Run_eq:
  "Workers_Run name work E w =
    (let fresh = map_of (workers_m w) name = None;
         w1 = (if fresh then w\<lparr>workers_m := AList.update name work (workers_m w)\<rparr> else w);
         w1 = (if fresh then after w1 (WorkerStart name work) else w1);
         w2 = after w1 (WorkerPoll name)
     in case env_worker E (trace w1) name of
          None \<Rightarrow> (Inl (WatchPending ''waiting for worker to complete''), w2)
        | Some err \<Rightarrow> (case err of None \<Rightarrow> Inr () | Some e \<Rightarrow> Inl e,
            w2\<lparr>workers_m := AList.delete name (workers_m w2)\<rparr>))"
  by (auto simp: Workers_Run_def bindE_def thenE_def getW_def modifyW_def worker_start_def
      getResult_def worker_delete_def invoke_def ret_def fail_def returnErr_def after_def Let_def
      split: option.splits)

lemma Workers_Cancel_eq:
  "Workers_Cancel name E w =
    (if map_of (workers_m w) name = None then (Inr (), w)
     else
       let w1 = after w (WorkerCancel name); w2 = after w1 (WorkerPoll name)
       in case env_worker E (trace w1) name of
            None \<Rightarrow> (Inl (WatchPending ''waiting for worker cancellation''), w2)
          | Some err \<Rightarrow> (Inr (), w2\<lparr>workers_m := AList.delete name (workers_m w2)\<rparr>))"
  by (auto simp: Workers_Cancel_def bindE_def thenE_def getW_def modifyW_def getResult_def
      worker_delete_def invoke_def ret_def fail_def after_def Let_def split: option.splits)

lemma table_agrees_cong: "workers_m w = workers_m w' \<Longrightarrow> table_agrees s w = table_agrees s w'"
  by (simp add: table_agrees_def)

text \<open>What Run returns for an outcome.\<close>

fun run_result :: "goerr option option \<Rightarrow> goerr + unit" where
  "run_result None = Inl (WatchPending ''waiting for worker to complete'')"
| "run_result (Some None) = Inr ()"
| "run_result (Some (Some err)) = Inl err"

text \<open>
  Run and Cancel of Workers, given as the answer of the environment what the channel holds after
  any moves of the goroutines, do what the steps of the pool do.
\<close>

lemma Workers_Run_refines:
  assumes "table_agrees s w" and "pool_ok s"
    and "goroutine_step\<^sup>*\<^sup>* (ensure_worker name work s) s1"
    and "collect_result name s1 = (err, s2)"
    and "env_worker E (trace w @ (if map_of (workers_m w) name = None
           then [WorkerStart name work] else [])) name = err"
  shows "\<exists>w2. Workers_Run name work E w = (run_result err, w2) \<and> table_agrees s2 w2"
proof -
  let ?w = "if map_of (workers_m w) name = None
     then w\<lparr>workers_m := AList.update name work (workers_m w)\<rparr> else w"
  have ok: "pool_ok (ensure_worker name work s)" by (rule pool_ok_ensure [OF assms(2)])
  have "pool_ok s1"
    using assms(3) ok by (induction rule: rtranclp_induct) (auto intro: pool_ok_goroutine)
  moreover have "table_agrees s1 ?w"
    using table_agrees_same [OF table_agrees_ensure [OF assms(1,2)] ok, of s1]
      goroutine_steps_frame [OF assms(3)] by simp
  ultimately have "table_agrees s2
      (if err = None then ?w else ?w\<lparr>workers_m := AList.delete name (workers_m ?w)\<rparr>)"
    by (intro table_agrees_collect [OF _ _ assms(4)])
  then have agrees: "workers_m w2 = workers_m
      (if err = None then ?w else ?w\<lparr>workers_m := AList.delete name (workers_m ?w)\<rparr>) \<Longrightarrow>
      table_agrees s2 w2" for w2
    using table_agrees_cong by blast
  show ?thesis
    unfolding Workers_Run_eq Let_def
    using assms(5)
    by (cases err rule: run_result.cases) (auto intro!: agrees simp: after_def)
qed

lemma Workers_Cancel_refines:
  assumes "table_agrees s w" and "pool_ok s"
    and "goroutine_step\<^sup>*\<^sup>* (cancel_worker name s) s1"
    and "collect_result name s1 = (err, s2)"
    and "env_worker E (trace w @ [WorkerCancel name]) name = err"
  shows "\<exists>w2. Workers_Cancel name E w =
      (if map_of (wp_table s) name \<noteq> None \<and> err = None
       then Inl (WatchPending ''waiting for worker cancellation'') else Inr (), w2) \<and>
    table_agrees s2 w2"
proof -
  have ok: "pool_ok (cancel_worker name s)" by (rule pool_ok_cancel [OF assms(2)])
  have s1: "pool_ok s1"
    using assms(3) ok by (induction rule: rtranclp_induct) (auto intro: pool_ok_goroutine)
  have "wp_table (cancel_worker name s) = wp_table s \<and>
      length (wp_workers (cancel_worker name s)) = length (wp_workers s) \<and>
      (\<forall>i < length (wp_workers s).
        wk_work (wp_workers (cancel_worker name s) ! i) = wk_work (wp_workers s ! i))"
    by (auto simp: cancel_worker_def change_worker_nth split: option.splits)
  then have frame: "wp_table s1 = wp_table s" "\<forall>i < length (wp_workers s).
      wk_work (wp_workers s1 ! i) = wk_work (wp_workers s ! i)"
    using goroutine_steps_frame [OF assms(3)] by simp_all
  have tab: "table_agrees s1 w" by (rule table_agrees_same [OF assms(1,2) frame])
  have "table_agrees s2
      (if err = None then w else w\<lparr>workers_m := AList.delete name (workers_m w)\<rparr>)"
    by (rule table_agrees_collect [OF tab s1 assms(4)])
  then have agrees: "workers_m w2 = workers_m
      (if err = None then w else w\<lparr>workers_m := AList.delete name (workers_m w)\<rparr>) \<Longrightarrow>
      table_agrees s2 w2" for w2
    using table_agrees_cong by blast
  show ?thesis
  proof (cases "map_of (wp_table s) name")
    case None
    then have "err = None" "s2 = s1"
      using assms(4) frame(1) by (auto simp: collect_result_def)
    moreover have "map_of (workers_m w) name = None"
      using None assms(1) by (simp add: table_agrees_def)
    ultimately show ?thesis using None tab by (simp add: Workers_Cancel_eq)
  next
    case (Some i)
    then have "map_of (workers_m w) name \<noteq> None" using assms(1) by (auto simp: table_agrees_def)
    then show ?thesis
      unfolding Workers_Cancel_eq Let_def
      using assms(5) Some by (cases err) (auto intro!: agrees simp: after_def)
  qed
qed

end
