(* ===== verification/Node_Properties.thy ===== *)
theory Node_Properties
  imports Node_Volume_Props Node_Shutdown Csi_Node Worker_System Sample
begin

text \<open>
  What the parts that run on a node guarantee: the NBD server and client, the controllers of volumes
  and of NBD exports, and the CSI node service, each as one theorem over the definitions of its
  theory, with the requirements on a volume that cross from the CSI services to the controllers, and the background work.
\<close>

section \<open>The NBD server\<close>

text \<open>C35: However concurrent operations interleave, no two exports share the name of a block
  device, and every name is short enough for the storage daemon, for as many steps as the counter
  has values.\<close>

theorem nbd_names_distinct:
  assumes "(server_step ^^ n) init_world w" and "n < 2 ^ 64"
  shows "distinct (map fst (blockdevs_m w)) \<and> distinct (map snd (blockdevs_m w)) \<and>
    list_all (\<lambda>name. length name \<le> 31) (map snd (blockdevs_m w))"
  using names_ok_steps [OF assms] names_ok_short [of n w] by (auto simp: names_ok_def list_all_iff)

theorem nbd_names_distinct_witness:
  "distinct (map snd (blockdevs_m (snd (allocate_name ''b'' (snd (allocate_name ''a'' init_world))))))"
proof -
  have "(server_step ^^ 2) init_world (snd (allocate_name ''b'' (snd (allocate_name ''a'' init_world))))"
    by (auto simp: numeral_2_eq_2 intro!: relcomppI server_step.allocate)
  from nbd_names_distinct [OF this] show ?thesis by simp
qed


text \<open>Stopping the server while it serves nothing closes the shutdown channel; an export that is
  stopped after that closes it again, which is a panic.\<close>

theorem nbd_stop_after_shutdown_panics:
  assumes "daemon_answers E" and "blockdevs_m w = []" and "StopServer E w = (Inr (), w2)"
  shows "fst (StopExport export E w2) = Inl (Panic ''close of closed channel'')"
proof -
  from StopServer_closes [OF assms(2,3)]
  have "nbd_Shutdown w2" "shutdown_closed w2" "fst ` set (blockdevs_m w2) \<subseteq> {export}" by simp_all
  then show ?thesis by (rule StopExport_closed_panics [OF assms(1)])
qed

definition stopped_world :: world where
  "stopped_world = init_world\<lparr>nbd_Shutdown := True, shutdown_closed := True\<rparr>"

lemma sample_daemon_answers: "daemon_answers (sample_env vs ss ps out)"
  by (simp add: daemon_answers_def sample_env_def)

theorem nbd_stop_after_shutdown_panics_witness:
  "fst (StopExport ''e'' (sample_env [] [] [] []) stopped_world) = Inl (Panic ''close of closed channel'')"
proof (rule nbd_stop_after_shutdown_panics [OF sample_daemon_answers, of init_world])
  show "blockdevs_m init_world = []" by (simp add: init_world_def)
  show "StopServer (sample_env [] [] [] []) init_world = (Inr (), stopped_world)"
    by (simp add: StopServer_def locked_run begin_shutdown_def close_shutdownChannel_def init_world_def
        stopped_world_def Let_def)
qed



section \<open>Background work\<close>

text \<open>C34: However the calls of Run and Cancel and the goroutines of the work interleave, at most one
  goroutine runs for a name, so that a copy or a zeroing never runs twice at a time on a volume; a
  goroutine can always send its outcome; and a name in the table has a goroutine that runs, or its
  outcome can be taken at once.\<close>

theorem background_work_exclusive:
  assumes "worker_step\<^sup>*\<^sup>* NewWorkers s"
  shows "(\<forall>i j. i < length (wp_workers s) \<and> j < length (wp_workers s) \<and>
      wk_running (wp_workers s ! i) \<and> wk_running (wp_workers s ! j) \<and>
      wk_name (wp_workers s ! i) = wk_name (wp_workers s ! j) \<longrightarrow> i = j) \<and>
    (\<forall>i < length (wp_workers s). wk_running (wp_workers s ! i) \<longrightarrow> can_send i s) \<and>
    (\<forall>name i. map_of (wp_table s) name = Some i \<longrightarrow>
      wk_running (wp_workers s ! i) \<or> fst (collect_result name s) \<noteq> None)"
proof (intro conjI allI impI)
  have ok: "pool_ok s" by (rule pool_ok_steps [OF assms pool_ok_NewWorkers])
  show "i = j" if "i < length (wp_workers s) \<and> j < length (wp_workers s) \<and>
      wk_running (wp_workers s ! i) \<and> wk_running (wp_workers s ! j) \<and>
      wk_name (wp_workers s ! i) = wk_name (wp_workers s ! j)" for i j
    using that running_unique [OF ok] by blast
  show "can_send i s" if "i < length (wp_workers s)" "wk_running (wp_workers s ! i)" for i
    using that pool_okD(2) [OF ok that(1)] by (simp add: can_send_def worker_ok_def Let_def)
  show "wk_running (wp_workers s ! i) \<or> fst (collect_result name s) \<noteq> None"
    if "map_of (wp_table s) name = Some i" for name i
    using that pool_okD(1) [OF ok that] pool_okD(2) [OF ok, of i]
    by (auto simp: worker_ok_def Let_def collect_result_def worker_result_def)
qed

theorem background_work_exclusive_witness:
  "let s = finish_work 0 None (ensure_worker ''dd-b'' (DdWork ''t'' ''u'')
      (ensure_worker ''dd-a'' (DdWork ''x'' ''y'') NewWorkers))
   in can_send 1 s \<and> fst (collect_result ''dd-a'' s) \<noteq> None"
proof -
  let ?s1 = "ensure_worker ''dd-a'' (DdWork ''x'' ''y'') NewWorkers"
  let ?s2 = "ensure_worker ''dd-b'' (DdWork ''t'' ''u'') ?s1"
  let ?s3 = "finish_work 0 None ?s2"
  note defs = ensure_worker_def NewWorkers_def newWorker_def start_def finish_work_def
    change_worker_def
  have "goroutine_step ?s2 ?s3" by (rule goroutine_step.finish) (simp add: defs can_send_def)
  then have "worker_step\<^sup>*\<^sup>* NewWorkers ?s3"
    by (meson converse_rtranclp_into_rtranclp rtranclp.rtrancl_refl worker_step.intros)
  note all = background_work_exclusive [OF this, THEN conjunct2]
  have run: "1 < length (wp_workers ?s3)" "wk_running (wp_workers ?s3 ! 1)"
    and table: "map_of (wp_table ?s3) ''dd-a'' = Some 0" "\<not> wk_running (wp_workers ?s3 ! 0)"
    by (simp_all add: defs)
  show ?thesis
    unfolding Let_def using all [THEN conjunct1] all [THEN conjunct2] run table by blast
qed

text \<open>The client reads back from the reported URI the host and the export that the server put
  there, for every valid name of an export.\<close>

theorem nbd_uri_roundtrip:
  assumes "IsDNS1123Label export" and "list_all url_host_char host" and "host \<noteq> []"
  shows "nbdClientURIPattern (url_String ''nbd'' host export) = Some (host, export)"
proof (rule nbd_uri_read_back [OF assms(2) _ assms(3)])
  have label: "label_char c \<Longrightarrow> url_path_char c" "label_char c \<Longrightarrow> c \<noteq> CHR ''/''" for c
    by (auto simp: label_char_def lower_def is_digit_def url_path_char_def url_unreserved_def Let_def)
  have "url_path_char CHR ''-''" by (simp add: url_path_char_def url_unreserved_def Let_def)
  with assms(1) label(1) show "list_all url_path_char export"
    by (auto simp: IsDNS1123Label_def list_all_iff)
  show "export \<noteq> []" "hd export \<noteq> CHR ''/''"
    using assms(1) label(2) by (auto simp: IsDNS1123Label_def)
qed

theorem nbd_uri_roundtrip_witness:
  "nbdClientURIPattern (url_String ''nbd'' ''10.0.0.1'' ''pvc-1'') = Some (''10.0.0.1'', ''pvc-1'')"
  by (rule nbd_uri_roundtrip)
    (simp_all add: IsDNS1123Label_def label_char_def lower_def is_digit_def url_host_char_def
      url_unreserved_def Let_def)

section \<open>The NBD client\<close>

text \<open>A device is connected only for a URI that the table does not know, and detached only if it
  is the device recorded for the export and still serves its URI.\<close>

theorem nbd_client_own_devices:
  "issues (ConnectClient export) connect_fresh \<and> issues (DisconnectClient export) (disconnect_own export)"
  by (intro conjI ConnectClient_fresh DisconnectClient_own)

section \<open>NBD exports\<close>

text \<open>C23: A node serves an export only if the object just read names it as the host and is not being
  deleted, and the node is not shutting down; and a status update made when starting it carries the
  URI that this very start returned, and marks the export available.\<close>

theorem export_served_where_hosted:
  "issues (export_Reconcile name) (served_here name) \<and>
   issues (export_start export) (started_reported export)"
  by (intro conjI export_Reconcile_served_here export_start_reported)

text \<open>C24: The finalizer of an export is dropped by the last call of a run only, directly after its
  server was stopped successfully, and with no client left in the object.\<close>

theorem export_released_last:
  "behaves (export_reconcileDeleting export) (released_after_stop export)"
  by (rule export_reconcileDeleting_released)

section \<open>Volumes on a node\<close>


text \<open>C14: The status of a thin volume lists this node only after the attachment succeeded, and drops
  it only after the detachment succeeded.\<close>

theorem thin_attachment_reported: "issues (reconcileThin volume) (attachment_reported volume)"
  by (rule reconcileThin_reported)

text \<open>C15: A linear volume is activated shared only where it is wanted and not deleted, deactivated
  only where it is not, and its status lists this node exactly in the first case.\<close>

theorem linear_volume_activated: "issues (reconcileLinear volume) (linear_activation volume)"
  by (rule reconcileLinear_activation)



text \<open>C17: The population of a volume is reported complete only after all of it succeeded, and not for
  a volume that is being deleted.\<close>

theorem volume_population_reported: "issues (node_populate volume) (population_reported_after volume)"
  by (rule population_reported)

text \<open>C38: A node that still has to keep a thin volume attached takes it away by force when a clone
  pins the pool to that node: the clean-up of the NBD export has removed the node from the list in
  memory, and the reconciler tests that list.\<close>

theorem pinned_volume_detached:
  assumes "LocalNodeName E \<in> set (vs_AttachToNodes (v_Spec volume))"
    and "clone_pins p" and "ps_ActiveOnNode (p_Spec p) = LocalNodeName E"
    and "cl_Get (pools E) (trace w) (om_Name (v_Meta volume)) = Inr p"
    and "Status_FindThinLv (p_Status p) (VolumeToThinLvName (om_Name (v_Meta volume))) = Some st"
    and "vst_NBDExport (v_Status volume) \<noteq> []"
    and "cl_Get (exports E) (trace w @ [PoolCall (ApiGet (om_Name (v_Meta volume)))])
      (vst_NBDExport (v_Status volume)) = Inr e"
    and "CheckClient e E (after (after w (PoolCall (ApiGet (om_Name (v_Meta volume)))))
      (ExportCall (ApiGet (vst_NBDExport (v_Status volume))))) = (Inr (False, False), w1)"
    and "\<not> ShouldStopExport (LocalNodeName E) e (fst (interested p volume)) (lst_SizeBytes st)"
  shows "\<exists>cs. trace (snd (reconcileThin volume E w)) =
    trace w1 @ dmsetup_call [''remove'', ''--force'', upperName (om_Name (v_Meta volume))] # cs"
  by (rule pinned_node_detached [OF assms(2-9)])

text \<open>A volume to be attached to two nodes, its pool pinned to the first by a clone, and an export
  that the other node hosts.\<close>

definition pinned_volume :: Volume where
  "pinned_volume = set_NBDExport ''export'' (set_AttachToNodes [''node1'', ''node2''] (sample_volume ''vol'' []))"

definition pinned_pool :: ThinPoolLv where
  "pinned_pool = (sample_pool ''node1'')\<lparr>p_Status := (p_Status (sample_pool ''node1''))
     \<lparr>pst_ThinLvs := [\<lparr>lst_Name = ''thin-vol'', lst_State = \<lparr>st_Name = StatusInactive, st_Active = None\<rparr>,
        lst_SizeBytes = 8388608\<rparr>]\<rparr>\<rparr>"

definition other_export :: NBDExport where
  "other_export =
     \<lparr>e_Meta = sample_meta ''export'',
      e_Spec = \<lparr>es_Export = ''export'', es_Path = ''/dev/x'', es_Host = ''node2'', es_SizeBytes = 8388608,
        es_Clients = []\<rparr>,
      e_Status = \<lparr>est_ObservedGeneration = 0, est_Conditions = [], est_URI = []\<rparr>\<rparr>"

definition pinned_env :: env where
  "pinned_env = (sample_env [pinned_volume] [] [pinned_pool] [])\<lparr>exports := echo_client [other_export]\<rparr>"

theorem pinned_volume_detached_witness:
  "\<exists>cs. trace (snd (reconcileThin pinned_volume pinned_env init_world)) =
    [PoolCall (ApiGet ''vol''), ExportCall (ApiGet ''export'')] @
    dmsetup_call [''remove'', ''--force'', upperName ''vol''] # cs"
proof -
  have env: "LocalNodeName pinned_env = ''node1''" "pools pinned_env = echo_client [pinned_pool]"
    "exports pinned_env = echo_client [other_export]"
    by (simp_all add: pinned_env_def sample_env_def)
  have vol: "om_Name (v_Meta pinned_volume) = ''vol''" "vst_NBDExport (v_Status pinned_volume) = ''export''"
    "vs_AttachToNodes (v_Spec pinned_volume) = [''node1'', ''node2'']"
    by (simp_all add: pinned_volume_def set_NBDExport_def set_AttachToNodes_def sample_volume_def)
  have pins: "clone_pins pinned_pool" and active: "ps_ActiveOnNode (p_Spec pinned_pool) = ''node1''"
    by (simp_all add: clone_pins_def pinned_pool_def sample_pool_def str_contains_def sublist_code prefix_code)
  have check: "CheckClient other_export E w = (Inr (False, False), w)" for E w
    by (simp add: CheckClient_def other_export_def)
  have stays: "\<not> ShouldStopExport ''node1'' other_export nodes n" for nodes n
    by (simp add: ShouldStopExport_def other_export_def)
  have init: "trace init_world = []" by (simp add: init_world_def)
  let ?st = "\<lparr>lst_Name = ''thin-vol'', lst_State = \<lparr>st_Name = StatusInactive, st_Active = None\<rparr>, lst_SizeBytes = 8388608\<rparr>"
  have find: "Status_FindThinLv (p_Status pinned_pool) (VolumeToThinLvName ''vol'') = Some ?st"
    by (simp add: Status_FindThinLv_def pinned_pool_def VolumeToThinLvName_def)
  show ?thesis
    using pinned_volume_detached [of pinned_env pinned_volume pinned_pool init_world ?st other_export
        "after (after init_world (PoolCall (ApiGet ''vol''))) (ExportCall (ApiGet ''export''))"]
      pins active check stays find by (simp add: env vol init)
qed

section \<open>The CSI node service\<close>

text \<open>C22: Staging formats, mounts, resizes or links only the device that an answer of the API server
  in the same run reports for the volume, an answer that lists this node as attached, and only at the
  staging path of the request.\<close>

theorem staged_device_reported: "issues (NodeStageVolume polls req) (stages_reported_device req)"
  by (rule NodeStageVolume_device)

text \<open>C21: Unstaging takes this node out of the volume's list, and nothing else, only after the
  staging path was unmounted, or its link removed, or found to hold neither.\<close>

theorem unstage_detaches_last: "issues (NodeUnstageVolume polls req) (detached_after_clearing req)"
  by (rule NodeUnstageVolume_order)

text \<open>Unstaging again after the staging path is gone never detaches the volume: the mounter fails
  on a missing path, and the request ends with that as its only call.\<close>

theorem unstage_again_fails:
  assumes "IsDNS1123Label (us_VolumeId req)" and "us_StagingTargetPath req \<noteq> []"
    and "env_mount E (trace w) (IsMountPoint (us_StagingTargetPath req)) = Inl ErrNotExist"
  shows "NodeUnstageVolume polls req E w =
    (Inl (Internal ''failed to determine whether the staging path is a mount point''),
     after w (MountCall (IsMountPoint (us_StagingTargetPath req))))"
  using assms by (rule NodeUnstageVolume_missing_path)

theorem unstage_again_fails_witness:
  "\<exists>e. fst (NodeUnstageVolume 3 \<lparr>us_VolumeId = ''vol'', us_StagingTargetPath = ''/stage''\<rparr>
     ((sample_env [] [] [] [])\<lparr>env_mount := \<lambda>h c. Inl ErrNotExist\<rparr>) init_world) = Inl (Internal e)"
proof -
  let ?E = "(sample_env [] [] [] [])\<lparr>env_mount := \<lambda>h c. Inl ErrNotExist\<rparr>"
  let ?req = "\<lparr>us_VolumeId = ''vol'', us_StagingTargetPath = ''/stage''\<rparr>"
  have "IsDNS1123Label (us_VolumeId ?req)"
    by (simp add: IsDNS1123Label_def label_char_def lower_def)
  from unstage_again_fails [OF this, of ?E init_world 3] show ?thesis by auto
qed

text \<open>A volume is published only where the object just read says that it is staged, and while it is
  not being deleted; what is bound or linked is the staging path, at the target of the request.\<close>

theorem published_if_staged: "issues (NodePublishVolume req) (published_where_staged req)"
  by (rule NodePublishVolume_where_staged)

section \<open>From the CSI service to the controllers\<close>

text \<open>The requirements of the resource on a volume that the reconcilers rely on: exactly one type,
  contents of one source, sets where the schema says so, a valid name, a volume group.\<close>

definition volume_well_typed :: "Volume \<Rightarrow> bool" where
  "volume_well_typed v \<longleftrightarrow> volume_valid v \<and> IsDNS1123Label (om_Name (v_Meta v)) \<and>
     has_finalizer Finalizer (v_Meta v) \<and> vs_VgName (v_Spec v) \<noteq> [] \<and>
     vs_Mode (v_Spec v) \<in> {VolumeModeThin, VolumeModeLinear} \<and>
     vs_WipePolicy (v_Spec v) \<in> {VolumeWipePolicyFull, VolumeWipePolicyUnsafeFast} \<and>
     distinct (vs_AccessModes (v_Spec v)) \<and> distinct (vs_AttachToNodes (v_Spec v))"

definition creates_well_typed :: "env \<Rightarrow> call \<Rightarrow> bool" where
  "creates_well_typed E c \<longleftrightarrow> (\<forall>v. c = VolumeCall (ApiCreate v) \<longrightarrow> volume_well_typed v)"

lemma creates_well_typed_simps [simp]:
  "creates_well_typed E (VolumeCall (ApiGet n))" "creates_well_typed E (SnapshotCall s)"
  "creates_well_typed E (VolumeCall (ApiCreate v)) = volume_well_typed v"
  by (simp_all add: creates_well_typed_def)

lemma emits_getVolumeContents_typed: "emits creates_well_typed (getVolumeContents req vg limit vt)"
  unfolding getVolumeContents_def volume_get_def
  by (auto intro!: emits_intros split: option.split content_source.split)

lemma getVolumeContents_valid:
  assumes "getVolumeContents req vg limit vt E w = (Inr contents, w2)"
  shows "validate_contents contents = None"
proof (cases "cv_VolumeContentSource req")
  case None
  with assms show ?thesis by (simp add: getVolumeContents_def validate_contents_def no_contents_def)
next
  case (Some source)
  with assms show ?thesis
    by (cases source) (auto simp: getVolumeContents_def validate_contents_def io_run)
qed

lemma mode_policy_values:
  "getVolumeMode ps = Inr mode \<Longrightarrow> mode \<in> {VolumeModeThin, VolumeModeLinear}"
  "getWipePolicy ps = Inr policy \<Longrightarrow> policy \<in> {VolumeWipePolicyFull, VolumeWipePolicyUnsafeFast}"
  "getVolumeAccessModes cs = Inr modes \<Longrightarrow> distinct modes"
  by (auto simp: getVolumeMode_def getWipePolicy_def getVolumeAccessModes_def Let_def split: if_splits sum.splits)

lemma new_Volume_typed:
  assumes "vs_VgName spec \<noteq> []" and "getVolumeMode ps = Inr (vs_Mode spec)"
    and "getWipePolicy ps = Inr (vs_WipePolicy spec)" and "getVolumeType zeroEq cs = Inr (vs_Type spec)"
    and "getVolumeAccessModes cs = Inr (vs_AccessModes spec)"
    and "getVolumeContents req vg limit vt E w = (Inr (vs_Contents spec), w2)" and "vs_AttachToNodes spec = []"
  shows "volume_well_typed (new_Volume namespace (SafeName name ''pvc'') spec)"
proof -
  have "IsDNS1123Label (SafeName name ''pvc'')" by (rule SafeName_label) (simp_all add: lower_def)
  then show ?thesis
    using assms mode_policy_values(1) [OF assms(2)] mode_policy_values(2) [OF assms(3)]
      mode_policy_values(3) [OF assms(5)] getVolumeType_exclusive [OF assms(4)]
      getVolumeContents_valid [OF assms(6)]
    by (simp add: volume_well_typed_def volume_valid_def new_Volume_def new_meta_def)
qed

text \<open>C37: Every volume that the CSI service creates meets the requirements under which the
  controllers accept a volume.\<close>

theorem created_volume_well_typed: "emits creates_well_typed (CreateVolume zeroEq polls req)"
  unfolding CreateVolume_def Let_def
  by (rule wp_emitsI, (intro wp_intros wp_emits [OF emits_getVolumeContents_typed]
        wp_emits [OF emits_WatchVolumeUntil]))
    (simp add: new_Volume_typed | clarsimp)+

end
