(* ===== verification/Nbd_Protocol.thy ===== *)
theory Nbd_Protocol
  imports Nbd_Client
begin

text \<open>
  The agreement between the nodes that use an NBD export and the node that serves it.  The nodes
  share nothing but the NBDExport object: a node that wants to connect first adds itself to
  Spec.Clients, one that leaves disconnects first and then takes itself out, and the host, once
  the object is being deleted and marked unavailable, stops the server when Spec.Clients is empty.

  A run is a sequence of events, each the successful call of one party: what it read or wrote,
  the devices nbd-client attached and detached, the start of a stop.  What a party may do is a
  machine over what it holds (the object it obtained last) and the device it has attached.  What
  the API server may answer is a second condition, over the versions of the object stored so
  far.  The first is shown of the code, in the theories that follow; the second is the
  documented behaviour of the API server.  Together they imply that no server is stopped under
  a client.
\<close>

section \<open>Events\<close>

datatype nbd_event =
    Got NBDExport
  | Updated NBDExport NBDExport
  | StatusUpdated NBDExport NBDExport
  | Attached string "string option"
  | Detached string
  | BackendRead string string
  | Stopping
  | DeletionMarked NBDExport

abbreviation version :: "NBDExport \<Rightarrow> string" where
  "version e \<equiv> om_ResourceVersion (e_Meta e)"

abbreviation members :: "NBDExport \<Rightarrow> string list" where
  "members e \<equiv> es_Clients (e_Spec e)"

abbreviation uri_of :: "NBDExport \<Rightarrow> string" where
  "uri_of e \<equiv> est_URI (e_Status e)"

abbreviation deletion :: "NBDExport \<Rightarrow> nat option" where
  "deletion e \<equiv> om_DeletionTimestamp (e_Meta e)"

abbreviation export_name :: "NBDExport \<Rightarrow> string" where
  "export_name e \<equiv> om_Name (e_Meta e)"

text \<open>An export that takes new clients, and one that never will again.\<close>

definition connectable :: "NBDExport \<Rightarrow> bool" where
  "connectable e \<longleftrightarrow> uri_of e \<noteq> [] \<and> \<not> ExportDegraded e"

definition sealed :: "NBDExport \<Rightarrow> bool" where
  "sealed e \<longleftrightarrow> deletion e \<noteq> None \<and> \<not> connectable e"

definition same_export :: "NBDExport \<Rightarrow> NBDExport \<Rightarrow> bool" where
  "same_export x b \<longleftrightarrow> es_Export (e_Spec x) = es_Export (e_Spec b) \<and>
     es_Host (e_Spec x) = es_Host (e_Spec b) \<and> es_SizeBytes (e_Spec x) = es_SizeBytes (e_Spec b)"

section \<open>The parties\<close>

text \<open>
  A machine judges the events of one party, in order: an event that the party may not cause in
  its state violates the agreement, an answer that the API server cannot give in that state ends
  the run, and every other event moves the state.
\<close>

datatype 's verdict = Going 's | Impossible | Violated

record 's party =
  pa_allowed :: "'s \<Rightarrow> nbd_event \<Rightarrow> bool"
  pa_possible :: "'s \<Rightarrow> nbd_event \<Rightarrow> bool"
  pa_move :: "'s \<Rightarrow> nbd_event \<Rightarrow> 's"

fun judge :: "'s party \<Rightarrow> 's verdict \<Rightarrow> nbd_event \<Rightarrow> 's verdict" where
  "judge p (Going s) ev =
     (if \<not> pa_allowed p s ev then Violated
      else if \<not> pa_possible p s ev then Impossible
      else Going (pa_move p s ev))"
| "judge p Impossible ev = Impossible"
| "judge p Violated ev = Violated"

definition verdict_of :: "'s party \<Rightarrow> 's \<Rightarrow> nbd_event list \<Rightarrow> 's verdict" where
  "verdict_of p s evs = foldl (judge p) (Going s) evs"

lemma verdict_stuck: "foldl (judge p) Violated evs = Violated" "foldl (judge p) Impossible evs = Impossible"
  by (induction evs) simp_all

lemma verdict_Nil [simp]: "verdict_of p s [] = Going s"
  by (simp add: verdict_of_def)

lemma verdict_Cons:
  "verdict_of p s (ev # evs) =
    (if \<not> pa_allowed p s ev then Violated
     else if \<not> pa_possible p s ev then Impossible
     else verdict_of p (pa_move p s ev) evs)"
  by (simp add: verdict_of_def verdict_stuck)

lemma verdict_snoc: "verdict_of p s (evs @ [ev]) = judge p (verdict_of p s evs) ev"
  by (simp add: verdict_of_def)

lemma verdict_prefix: "verdict_of p s (evs @ later) \<noteq> Violated \<Longrightarrow> verdict_of p s evs \<noteq> Violated"
  by (auto simp: verdict_of_def verdict_stuck)

subsection \<open>A client\<close>

record client_role =
  cr_held :: "NBDExport option"
  cr_device :: "string option"

text \<open>
  A client n of the export under a URI.  It writes only what it holds, and changes only the path
  and its own membership: it joins while the export takes clients, and leaves when it has no
  device.  It attaches a device only as a member, and never a second one.
\<close>

fun client_allowed :: "string \<Rightarrow> string \<Rightarrow> client_role \<Rightarrow> nbd_event \<Rightarrow> bool" where
  "client_allowed n uri s (Got e) = True"
| "client_allowed n uri s (Updated x e) =
     (case cr_held s of None \<Rightarrow> False
      | Some b \<Rightarrow> version x = version b \<and> same_export x b \<and>
          (members x = members b \<or>
           members x = members b @ [n] \<and> n \<notin> set (members b) \<and> connectable b \<or>
           members x = RemoveAll (members b) n \<and> cr_device s = None))"
| "client_allowed n uri s (Attached u d) =
     (if u = uri then cr_device s = None \<and>
        (case cr_held s of None \<Rightarrow> False | Some b \<Rightarrow> n \<in> set (members b) \<and> uri_of b = uri)
      else True)"
| "client_allowed n uri s (Detached p) = True"
| "client_allowed n uri s (BackendRead p t) = True"
| "client_allowed n uri s (StatusUpdated x e) = False"
| "client_allowed n uri s Stopping = False"
| "client_allowed n uri s (DeletionMarked e) = False"

text \<open>The answers the API server can give a client, and that nbd-client names the device it
  attached.\<close>

definition written :: "string \<Rightarrow> NBDExport \<Rightarrow> NBDExport \<Rightarrow> bool" where
  "written name b e \<longleftrightarrow> export_name e = name \<and> deletion e = deletion b"

fun client_possible :: "string \<Rightarrow> string \<Rightarrow> client_role \<Rightarrow> nbd_event \<Rightarrow> bool" where
  "client_possible name uri s (Got e) =
     (export_name e = name \<and> (uri_of e = [] \<or> uri_of e = uri) \<and> (uri_of e = [] \<longrightarrow> members e = []))"
| "client_possible name uri s (Updated x e) =
     (case cr_held s of None \<Rightarrow> False
      | Some b \<Rightarrow> written name b e \<and> e_Spec e = e_Spec x \<and> e_Status e = e_Status b)"
| "client_possible name uri s (Attached u d) = (d \<noteq> None)"
| "client_possible name uri s ev = True"

fun client_move :: "string \<Rightarrow> client_role \<Rightarrow> nbd_event \<Rightarrow> client_role" where
  "client_move uri s (Got e) = s\<lparr>cr_held := Some e\<rparr>"
| "client_move uri s (Updated x e) = s\<lparr>cr_held := Some e\<rparr>"
| "client_move uri s (Attached u d) = (if u = uri then s\<lparr>cr_device := d\<rparr> else s)"
| "client_move uri s (Detached p) =
     (case cr_device s of None \<Rightarrow> s | Some d \<Rightarrow> if p = ''/dev/'' @ d then s\<lparr>cr_device := None\<rparr> else s)"
| "client_move uri s (BackendRead p t) =
     (case cr_device s of None \<Rightarrow> s
      | Some d \<Rightarrow> if p = ''/sys/block/'' @ d @ ''/backend'' \<and> t \<noteq> uri then s\<lparr>cr_device := None\<rparr> else s)"
| "client_move uri s ev = s"

definition client_party :: "string \<Rightarrow> string \<Rightarrow> string \<Rightarrow> client_role party" where
  "client_party name uri n =
     \<lparr>pa_allowed = client_allowed n uri, pa_possible = client_possible name uri,
      pa_move = client_move uri\<rparr>"

definition client_start :: "string option \<Rightarrow> client_role" where
  "client_start d = \<lparr>cr_held = None, cr_device = d\<rparr>"

subsection \<open>The host\<close>

text \<open>
  The host keeps the members, gives the export its URI once, makes it available only then and
  never for a deleted one, and stops the server only for a sealed export without members.
\<close>

fun host_allowed :: "string \<Rightarrow> NBDExport option \<Rightarrow> nbd_event \<Rightarrow> bool" where
  "host_allowed uri s (Got e) = True"
| "host_allowed uri s (Updated x e) =
     (case s of None \<Rightarrow> False
      | Some b \<Rightarrow> version x = version b \<and> same_export x b \<and> members x = members b)"
| "host_allowed uri s (StatusUpdated x e) =
     (case s of None \<Rightarrow> False
      | Some b \<Rightarrow> version x = version b \<and>
          (uri_of x = uri_of b \<or> uri_of b = [] \<and> uri_of x = uri) \<and>
          (deletion b \<noteq> None \<or> uri_of b \<noteq> [] \<longrightarrow> \<not> connectable x))"
| "host_allowed uri s Stopping =
     (case s of None \<Rightarrow> False | Some b \<Rightarrow> sealed b \<and> members b = [])"
| "host_allowed uri s ev = False"

fun host_possible :: "string \<Rightarrow> string \<Rightarrow> NBDExport option \<Rightarrow> nbd_event \<Rightarrow> bool" where
  "host_possible name export s (Got e) = (export_name e = name \<and> es_Export (e_Spec e) = export)"
| "host_possible name export s (Updated x e) =
     (case s of None \<Rightarrow> False
      | Some b \<Rightarrow> written name b e \<and> e_Spec e = e_Spec x \<and> e_Status e = e_Status b)"
| "host_possible name export s (StatusUpdated x e) =
     (case s of None \<Rightarrow> False
      | Some b \<Rightarrow> written name b e \<and> e_Spec e = e_Spec b \<and> e_Status e = e_Status x)"
| "host_possible name export s ev = True"

fun host_move :: "NBDExport option \<Rightarrow> nbd_event \<Rightarrow> NBDExport option" where
  "host_move s (Got e) = Some e"
| "host_move s (Updated x e) = Some e"
| "host_move s (StatusUpdated x e) = Some e"
| "host_move s ev = s"

definition host_party :: "string \<Rightarrow> string \<Rightarrow> string \<Rightarrow> NBDExport option party" where
  "host_party name uri export =
     \<lparr>pa_allowed = host_allowed uri, pa_possible = host_possible name export, pa_move = host_move\<rparr>"

section \<open>The API server\<close>

text \<open>
  The server keeps the versions of the object, the last being the current one, and each party an
  index: its reads never go back behind it.  A write is stored only when it carries the current
  version; it changes the spec or the status, never both, and leaves the mark of deletion alone.
  A write that changes nothing stores nothing.  The switch tells whether a party that wrote also
  reads its own write, which an informer cache does not promise.
\<close>

definition fresh :: "NBDExport list \<Rightarrow> NBDExport \<Rightarrow> bool" where
  "fresh vs e \<longleftrightarrow> version e \<notin> set (map version vs)"

definition store :: "bool \<Rightarrow> NBDExport \<Rightarrow> NBDExport list \<times> nat \<Rightarrow> (NBDExport list \<times> nat) option" where
  "store ryw e st =
     (case st of (vs, i) \<Rightarrow>
        if e = last vs then Some (vs, if ryw then length vs - 1 else i)
        else if fresh vs e then Some (vs @ [e], if ryw then length vs else i)
        else None)"

fun serve :: "bool \<Rightarrow> nbd_event \<Rightarrow> NBDExport list \<times> nat \<Rightarrow> (NBDExport list \<times> nat) option" where
  "serve ryw (Got e) (vs, i) =
     (case List.find (\<lambda>j. vs ! j = e) [i..<length vs] of None \<Rightarrow> None | Some j \<Rightarrow> Some (vs, j))"
| "serve ryw (Updated x e) (vs, i) =
     (if version x = version (last vs) \<and> written (export_name (last vs)) (last vs) e \<and>
         e_Spec e = e_Spec x \<and> e_Status e = e_Status (last vs)
      then store ryw e (vs, i) else None)"
| "serve ryw (StatusUpdated x e) (vs, i) =
     (if version x = version (last vs) \<and> written (export_name (last vs)) (last vs) e \<and>
         e_Spec e = e_Spec (last vs) \<and> e_Status e = e_Status x
      then store ryw e (vs, i) else None)"
| "serve ryw (DeletionMarked e) (vs, i) =
     (if export_name e = export_name (last vs) \<and> deletion e \<noteq> None \<and>
         e_Spec e = e_Spec (last vs) \<and> e_Status e = e_Status (last vs) \<and> fresh vs e
      then Some (vs @ [e], i) else None)"
| "serve ryw (Attached u d) st = (if d = None then None else Some st)"
| "serve ryw ev st = Some st"

datatype actor = Client string | Host | Outside

text \<open>The answers in a run are those of the server.\<close>

fun served :: "bool \<Rightarrow> (actor \<times> nbd_event) list \<Rightarrow> NBDExport list \<times> (actor \<Rightarrow> nat) \<Rightarrow>
    (NBDExport list \<times> (actor \<Rightarrow> nat)) option" where
  "served ryw [] st = Some st"
| "served ryw ((a, ev) # run) (vs, seen) =
     (case serve ryw ev (vs, seen a) of
        None \<Rightarrow> None
      | Some (vs, i) \<Rightarrow> served ryw run (vs, seen(a := i)))"

end
