(* ===== verification/Nbd_System.thy ===== *)
theory Nbd_System
  imports Nbd_Protocol
begin

text \<open>
  All the parties of an export together with the API server: the runs in which every party keeps
  to its machine and every answer is one of the server, their invariants, and the safety of the
  agreement.
\<close>

section \<open>The system\<close>

record nbd_system =
  sy_versions :: "NBDExport list"
  sy_seen :: "actor \<Rightarrow> nat"
  sy_client :: "string \<Rightarrow> client_role"
  sy_host :: "NBDExport option"
  sy_stopped :: bool

definition sy_start :: "NBDExport \<Rightarrow> (string \<Rightarrow> string option) \<Rightarrow> nbd_system" where
  "sy_start e0 devs = \<lparr>sy_versions = [e0], sy_seen = (\<lambda>a. 0), sy_client = (\<lambda>n. client_start (devs n)),
     sy_host = None, sy_stopped = False\<rparr>"

text \<open>The parties only; what the server does is a condition on the answers.\<close>

fun party_step :: "string \<Rightarrow> actor \<times> nbd_event \<Rightarrow> nbd_system \<Rightarrow> nbd_system option" where
  "party_step uri (Client n, ev) s =
     (if client_allowed n uri (sy_client s n) ev
      then Some (s\<lparr>sy_client := (sy_client s)(n := client_move uri (sy_client s n) ev)\<rparr>) else None)"
| "party_step uri (Host, ev) s =
     (if host_allowed uri (sy_host s) ev
      then Some (s\<lparr>sy_host := host_move (sy_host s) ev, sy_stopped := (sy_stopped s \<or> ev = Stopping)\<rparr>)
      else None)"
| "party_step uri (Outside, ev) s = (case ev of DeletionMarked e \<Rightarrow> Some s | _ \<Rightarrow> None)"

definition sy_step :: "bool \<Rightarrow> string \<Rightarrow> actor \<times> nbd_event \<Rightarrow> nbd_system \<Rightarrow> nbd_system option" where
  "sy_step ryw uri aev s =
     (case serve ryw (snd aev) (sy_versions s, sy_seen s (fst aev)) of
        None \<Rightarrow> None
      | Some (vs, i) \<Rightarrow>
          party_step uri aev (s\<lparr>sy_versions := vs, sy_seen := (sy_seen s)(fst aev := i)\<rparr>))"

fun sy_run :: "bool \<Rightarrow> string \<Rightarrow> (actor \<times> nbd_event) list \<Rightarrow> nbd_system \<Rightarrow> nbd_system option" where
  "sy_run ryw uri [] s = Some s"
| "sy_run ryw uri (aev # run) s =
     (case sy_step ryw uri aev s of None \<Rightarrow> None | Some s \<Rightarrow> sy_run ryw uri run s)"

text \<open>An export at the beginning of the observation: the nodes with a device are members, and there
  are members only under the URI.\<close>

definition addressed :: "string \<Rightarrow> NBDExport \<Rightarrow> bool" where
  "addressed uri e \<longleftrightarrow> (uri_of e = [] \<or> uri_of e = uri) \<and> (uri_of e = [] \<longrightarrow> members e = [])"

definition well_started :: "string \<Rightarrow> NBDExport \<Rightarrow> (string \<Rightarrow> string option) \<Rightarrow> bool" where
  "well_started uri e0 devs \<longleftrightarrow> uri \<noteq> [] \<and> addressed uri e0 \<and> (\<forall>n. devs n \<noteq> None \<longrightarrow> n \<in> set (members e0))"

inductive nbd_reachable :: "bool \<Rightarrow> string \<Rightarrow> nbd_system \<Rightarrow> bool" for ryw uri where
  start: "well_started uri e0 devs \<Longrightarrow> nbd_reachable ryw uri (sy_start e0 devs)"
| step: "nbd_reachable ryw uri s \<Longrightarrow> sy_step ryw uri aev s = Some s2 \<Longrightarrow> nbd_reachable ryw uri s2"

lemma reachable_run:
  "nbd_reachable ryw uri s \<Longrightarrow> sy_run ryw uri run s = Some s2 \<Longrightarrow> nbd_reachable ryw uri s2"
  by (induction run arbitrary: s) (auto split: option.splits intro: nbd_reachable.step)

section \<open>Invariants\<close>

text \<open>How a version may follow another, written by an actor: the membership of a node is changed by
  that node alone, and a sealed export stays sealed and gains no member.\<close>

definition follows_version :: "string \<Rightarrow> actor \<Rightarrow> NBDExport \<Rightarrow> NBDExport \<Rightarrow> bool" where
  "follows_version uri a l e \<longleftrightarrow> addressed uri e \<and> export_name e = export_name l \<and> same_export e l \<and>
     (\<forall>n. a \<noteq> Client n \<longrightarrow> n \<in> set (members e) \<longleftrightarrow> n \<in> set (members l)) \<and>
     (sealed l \<longrightarrow> sealed e \<and> set (members e) \<subseteq> set (members l))"

definition sealed_order :: "NBDExport \<Rightarrow> NBDExport \<Rightarrow> bool" where
  "sealed_order l e \<longleftrightarrow> (sealed l \<longrightarrow> sealed e \<and> set (members e) \<subseteq> set (members l))"

definition inv_versions :: "string \<Rightarrow> nbd_system \<Rightarrow> bool" where
  "inv_versions uri s \<longleftrightarrow> sy_versions s \<noteq> [] \<and> distinct (map version (sy_versions s)) \<and>
     (\<forall>e\<in>set (sy_versions s). addressed uri e) \<and> sorted_wrt sealed_order (sy_versions s)"

definition inv_held :: "nbd_system \<Rightarrow> bool" where
  "inv_held s \<longleftrightarrow> (\<forall>a. sy_seen s a < length (sy_versions s)) \<and>
     (\<forall>n b. cr_held (sy_client s n) = Some b \<longrightarrow> sy_versions s ! sy_seen s (Client n) = b) \<and>
     (\<forall>b. sy_host s = Some b \<longrightarrow> sy_versions s ! sy_seen s Host = b)"

definition inv_member :: "nbd_system \<Rightarrow> bool" where
  "inv_member s \<longleftrightarrow> (\<forall>n i. sy_seen s (Client n) \<le> i \<longrightarrow> i < length (sy_versions s) \<longrightarrow>
     (n \<in> set (members (sy_versions s ! i)) \<longleftrightarrow> n \<in> set (members (last (sy_versions s)))))"

definition inv_device :: "nbd_system \<Rightarrow> bool" where
  "inv_device s \<longleftrightarrow> (\<forall>n. cr_device (sy_client s n) \<noteq> None \<longrightarrow> n \<in> set (members (last (sy_versions s))))"

definition inv_stopped :: "nbd_system \<Rightarrow> bool" where
  "inv_stopped s \<longleftrightarrow> (sy_stopped s \<longrightarrow> sealed (last (sy_versions s)) \<and> members (last (sy_versions s)) = [])"

lemmas inv_defs = inv_versions_def inv_held_def inv_member_def inv_device_def inv_stopped_def

lemma transp_sealed_order: "transp sealed_order"
  by (rule transpI) (auto simp: sealed_order_def)

lemma sorted_wrt_snoc:
  assumes "transp R" and "sorted_wrt R vs" and "vs \<noteq> []" and "R (last vs) e"
  shows "sorted_wrt R (vs @ [e])"
proof -
  from assms(2,3) have "\<forall>x\<in>set (butlast vs). R x (last vs)"
    by (metis append_butlast_last_id list.set_intros(1) sorted_wrt_append)
  with assms(1,4) have "\<forall>x\<in>set (butlast vs). R x e" by (meson transpE)
  moreover have "set vs = insert (last vs) (set (butlast vs))"
    using assms(3) by (metis append_butlast_last_id list.set(1,2) set_append Un_commute insert_is_Un)
  ultimately show ?thesis using assms(2,4) by (auto simp: sorted_wrt_append)
qed

subsection \<open>What the server stores\<close>

lemma serve_reads:
  assumes "serve ryw (Got e) (vs, i) = Some (vs2, j)"
  shows "vs2 = vs \<and> i \<le> j \<and> j < length vs \<and> vs ! j = e"
  using assms by (auto split: option.splits simp: find_Some_iff)

text \<open>The events that store a version.\<close>

fun stores :: "nbd_event \<Rightarrow> bool" where
  "stores (Updated x e) = True"
| "stores (StatusUpdated x e) = True"
| "stores (DeletionMarked e) = True"
| "stores ev = False"

lemma serve_quiet:
  assumes "serve ryw ev (vs, i) = Some (vs2, j)" and "\<not> stores ev" and "i < length vs"
  shows "vs2 = vs \<and> i \<le> j \<and> j < length vs"
proof (cases ev)
  case (Got e)
  with assms(1) serve_reads show ?thesis by metis
qed (use assms in \<open>auto split: if_splits\<close>)

lemma store_cases:
  assumes "store True e (vs, i) = Some (vs2, j)"
  shows "vs2 = vs \<and> j = length vs - 1 \<and> e = last vs \<or> vs2 = vs @ [e] \<and> j = length vs \<and> fresh vs e"
  using assms by (auto simp: store_def split: if_splits)

lemma serve_client_writes:
  assumes "serve True (Updated x e) (vs, i) = Some (vs2, j)"
  shows "store True e (vs, i) = Some (vs2, j) \<and> version x = version (last vs) \<and>
    written (export_name (last vs)) (last vs) e \<and> e_Spec e = e_Spec x \<and> e_Status e = e_Status (last vs)"
  using assms by (auto split: if_splits)

lemma serve_host_writes:
  assumes "serve True (StatusUpdated x e) (vs, i) = Some (vs2, j)"
  shows "store True e (vs, i) = Some (vs2, j) \<and> version x = version (last vs) \<and>
    written (export_name (last vs)) (last vs) e \<and> e_Spec e = e_Spec (last vs) \<and> e_Status e = e_Status x"
  using assms by (auto split: if_splits)

text \<open>A held version with the current resource version is the current one.\<close>

lemma held_current:
  assumes "distinct (map version vs)" and "b \<in> set vs" and "version b = version (last vs)"
  shows "b = last vs"
proof -
  from assms(2) have "last vs \<in> set vs" by (metis last_in_set list.set(1) empty_iff)
  with assms show ?thesis by (metis distinct_map inj_onD)
qed

lemma same_export_refl [simp]: "same_export e e"
  by (simp add: same_export_def)

lemma connectable_status: "e_Status a = e_Status b \<Longrightarrow> connectable a = connectable b"
  by (simp add: connectable_def ExportDegraded_def)

text \<open>Every write follows the version it is stored after.\<close>

lemma follows_client:
  assumes "client_allowed n uri c (Updated x e)" and "cr_held c = Some b" and "addressed uri b"
    and "written (export_name b) b e" and "e_Spec e = e_Spec x" and "e_Status e = e_Status b"
  shows "follows_version uri (Client n) b e"
  using assms connectable_status [of e b]
  by (auto simp: follows_version_def written_def same_export_def addressed_def sealed_def connectable_def)

lemma follows_host:
  assumes "host_allowed uri (Some b) (Updated x e)" and "addressed uri b"
    and "written (export_name b) b e" and "e_Spec e = e_Spec x" and "e_Status e = e_Status b"
  shows "follows_version uri Host b e"
  using assms connectable_status [of e b]
  by (auto simp: follows_version_def written_def same_export_def addressed_def sealed_def)

lemma follows_host_status:
  assumes "host_allowed uri (Some b) (StatusUpdated x e)" and "addressed uri b" and "uri \<noteq> []"
    and "written (export_name b) b e" and "e_Spec e = e_Spec b" and "e_Status e = e_Status x"
  shows "follows_version uri Host b e"
  using assms connectable_status [of e x]
  by (auto simp: follows_version_def written_def addressed_def sealed_def same_export_def)

lemma follows_deletion:
  assumes "addressed uri b" and "export_name e = export_name b" and "deletion e \<noteq> None"
    and "e_Spec e = e_Spec b" and "e_Status e = e_Status b"
  shows "follows_version uri Outside b e"
  using assms connectable_status [of e b]
  by (auto simp: follows_version_def addressed_def sealed_def same_export_def)

text \<open>What a step does to the versions and to the index of its actor.\<close>

definition moves_on :: "string \<Rightarrow> actor \<Rightarrow> nbd_system \<Rightarrow> nbd_system \<Rightarrow> bool" where
  "moves_on uri a s s2 \<longleftrightarrow>
     (\<exists>i. sy_seen s2 = (sy_seen s)(a := i) \<and> i < length (sy_versions s2) \<and>
        (sy_versions s2 = sy_versions s \<and> sy_seen s a \<le> i \<or>
         (\<exists>e. sy_versions s2 = sy_versions s @ [e] \<and> fresh (sy_versions s) e \<and>
            follows_version uri a (last (sy_versions s)) e \<and> (a \<noteq> Outside \<longrightarrow> i = length (sy_versions s)))))"

lemma moves_on_store:
  assumes "store True e (sy_versions s, sy_seen s a) = Some (vs, i)" and "sy_versions s \<noteq> []"
    and "sy_seen s a < length (sy_versions s)"
    and "follows_version uri a (last (sy_versions s)) e"
    and "sy_versions s2 = vs" and "sy_seen s2 = (sy_seen s)(a := i)"
  shows "moves_on uri a s s2"
  using store_cases [OF assms(1)] assms(2-) by (auto simp: moves_on_def)

lemma moves_on_quiet:
  assumes "serve True ev (sy_versions s, sy_seen s a) = Some (vs, i)" and "\<not> stores ev"
    and "sy_seen s a < length (sy_versions s)"
    and "sy_versions s2 = vs" and "sy_seen s2 = (sy_seen s)(a := i)"
  shows "moves_on uri a s s2"
  using serve_quiet [OF assms(1-3)] assms(4,5) by (auto simp: moves_on_def)

lemma held_is_last:
  assumes "inv_versions uri s" and "i < length (sy_versions s)" and "sy_versions s ! i = b"
    and "version x = version b" and "version x = version (last (sy_versions s))"
  shows "b = last (sy_versions s)"
  using assms by (intro held_current) (auto simp: inv_versions_def)

lemma last_addressed: "inv_versions uri s \<Longrightarrow> addressed uri (last (sy_versions s))"
  by (simp add: inv_versions_def)

lemma client_moves_on:
  assumes inv: "inv_versions uri s" "inv_held s" and step: "sy_step True uri (Client n, ev) s = Some s2"
  shows "moves_on uri (Client n) s s2"
proof -
  from step obtain vs i where sv: "serve True ev (sy_versions s, sy_seen s (Client n)) = Some (vs, i)"
    and ok: "client_allowed n uri (sy_client s n) ev"
    and s2: "sy_versions s2 = vs" "sy_seen s2 = (sy_seen s)(Client n := i)"
    by (auto simp: sy_step_def split: option.splits if_splits)
  have seen: "sy_seen s (Client n) < length (sy_versions s)" using inv(2) by (simp add: inv_held_def)
  show ?thesis
  proof (cases ev)
    case (Updated x e)
    from ok Updated obtain b where b: "cr_held (sy_client s n) = Some b" "version x = version b"
      by (auto split: option.splits)
    note w = serve_client_writes [OF sv [unfolded Updated]]
    have "b = last (sy_versions s)"
      using inv b w seen by (intro held_is_last) (auto simp: inv_held_def)
    with ok Updated b w inv(1) have "follows_version uri (Client n) (last (sy_versions s)) e"
      by (intro follows_client) (auto simp: last_addressed)
    with w s2 inv(1) seen show ?thesis by (intro moves_on_store) (auto simp: inv_versions_def)
  qed (use ok in \<open>auto intro: moves_on_quiet [OF sv _ seen s2] split: if_splits\<close>)
qed

lemma host_moves_on:
  assumes inv: "inv_versions uri s" "inv_held s" and uri: "uri \<noteq> []"
    and step: "sy_step True uri (Host, ev) s = Some s2"
  shows "moves_on uri Host s s2"
proof -
  from step obtain vs i where sv: "serve True ev (sy_versions s, sy_seen s Host) = Some (vs, i)"
    and ok: "host_allowed uri (sy_host s) ev"
    and s2: "sy_versions s2 = vs" "sy_seen s2 = (sy_seen s)(Host := i)"
    by (auto simp: sy_step_def split: option.splits if_splits)
  have seen: "sy_seen s Host < length (sy_versions s)" using inv(2) by (simp add: inv_held_def)
  show ?thesis
  proof (cases ev)
    case (Updated x e)
    from ok Updated obtain b where b: "sy_host s = Some b" "version x = version b"
      by (auto split: option.splits)
    note w = serve_client_writes [OF sv [unfolded Updated]]
    have "b = last (sy_versions s)"
      using inv b w seen by (intro held_is_last) (auto simp: inv_held_def)
    with ok Updated b w inv(1) have "follows_version uri Host (last (sy_versions s)) e"
      by (intro follows_host) (auto simp: last_addressed)
    with w s2 inv(1) seen show ?thesis by (intro moves_on_store) (auto simp: inv_versions_def)
  next
    case (StatusUpdated x e)
    from ok StatusUpdated obtain b where b: "sy_host s = Some b" "version x = version b"
      by (auto split: option.splits)
    note w = serve_host_writes [OF sv [unfolded StatusUpdated]]
    have "b = last (sy_versions s)"
      using inv b w seen by (intro held_is_last) (auto simp: inv_held_def)
    with ok StatusUpdated b w inv(1) uri have "follows_version uri Host (last (sy_versions s)) e"
      by (intro follows_host_status) (auto simp: last_addressed)
    with w s2 inv(1) seen show ?thesis by (intro moves_on_store) (auto simp: inv_versions_def)
  qed (use ok in \<open>auto intro: moves_on_quiet [OF sv _ seen s2] split: if_splits\<close>)
qed

lemma outside_moves_on:
  assumes inv: "inv_versions uri s" "inv_held s" and step: "sy_step True uri (Outside, ev) s = Some s2"
  shows "moves_on uri Outside s s2"
proof -
  from step obtain e where ev: "ev = DeletionMarked e"
    by (auto simp: sy_step_def split: option.splits nbd_event.splits)
  let ?l = "last (sy_versions s)"
  from step ev have e: "export_name e = export_name ?l" "deletion e \<noteq> None" "e_Spec e = e_Spec ?l"
    "e_Status e = e_Status ?l" "fresh (sy_versions s) e"
    and s2: "sy_versions s2 = sy_versions s @ [e]" "sy_seen s2 = sy_seen s"
    by (auto simp: sy_step_def split: if_splits)
  from e last_addressed [OF inv(1)] have "follows_version uri Outside ?l e"
    by (intro follows_deletion)
  moreover have "sy_seen s Outside < length (sy_versions s)" using inv(2) by (simp add: inv_held_def)
  ultimately show ?thesis using e(5) s2
    by (auto simp: moves_on_def intro!: exI [of _ "sy_seen s Outside"])
qed

text \<open>A step of any actor.\<close>

lemma step_moves_on:
  assumes "inv_versions uri s" and "inv_held s" and "uri \<noteq> []" and "sy_step True uri (a, ev) s = Some s2"
  shows "moves_on uri a s s2"
  using assms client_moves_on host_moves_on outside_moves_on by (cases a) metis+

subsection \<open>The invariants are kept\<close>

lemma moves_on_versions:
  assumes "moves_on uri a s s2" and "inv_versions uri s"
  shows "inv_versions uri s2"
proof -
  from assms(1) consider "sy_versions s2 = sy_versions s"
    | e where "sy_versions s2 = sy_versions s @ [e]" "fresh (sy_versions s) e"
        "follows_version uri a (last (sy_versions s)) e"
    by (auto simp: moves_on_def)
  then show ?thesis
  proof cases
    case 1
    with assms(2) show ?thesis by (simp add: inv_versions_def)
  next
    case 2
    then have "sealed_order (last (sy_versions s)) e"
      by (simp add: follows_version_def sealed_order_def)
    with assms(2) have "sorted_wrt sealed_order (sy_versions s @ [e])"
      by (intro sorted_wrt_snoc transp_sealed_order) (auto simp: inv_versions_def)
    with 2 assms(2) show ?thesis
      by (auto simp: inv_versions_def fresh_def follows_version_def)
  qed
qed

text \<open>The index of an actor other than the one that moved is where it was, among the same versions.\<close>

lemma moves_on_nth:
  assumes "moves_on uri a s s2" and "i < length (sy_versions s)"
  shows "sy_versions s2 ! i = sy_versions s ! i" and "i < length (sy_versions s2)"
  using assms by (auto simp: moves_on_def nth_append)

lemma moves_on_seen:
  assumes "moves_on uri a s s2" and "b \<noteq> a"
  shows "sy_seen s2 b = sy_seen s b"
  using assms by (auto simp: moves_on_def)

lemma moves_on_held_others:
  assumes "moves_on uri a s s2" and "inv_held s" and "b \<noteq> a"
  shows "sy_versions s2 ! sy_seen s2 b = sy_versions s ! sy_seen s b"
  using assms by (simp add: moves_on_seen moves_on_nth inv_held_def)

lemma moves_on_bound:
  assumes "moves_on uri a s s2" and "inv_held s"
  shows "sy_seen s2 b < length (sy_versions s2)"
proof (cases "b = a")
  case True
  with assms(1) show ?thesis by (auto simp: moves_on_def)
next
  case False
  with assms show ?thesis by (simp add: moves_on_seen moves_on_nth inv_held_def)
qed

lemma serve_answer:
  assumes "serve True ev (vs, i) = Some (vs2, j)" and "vs \<noteq> []"
    and "ev = Got e \<or> ev = Updated x e \<or> ev = StatusUpdated x e"
  shows "vs2 ! j = e"
  using assms(3)
proof (elim disjE)
  assume "ev = Got e"
  with assms(1) serve_reads show ?thesis by metis
next
  assume "ev = Updated x e"
  with assms serve_client_writes store_cases show ?thesis by (metis last_conv_nth nth_append_length)
next
  assume "ev = StatusUpdated x e"
  with assms serve_host_writes store_cases show ?thesis by (metis last_conv_nth nth_append_length)
qed

lemma client_held_after:
  assumes "client_allowed n uri c ev" and "cr_held (client_move uri c ev) = Some b"
  shows "ev = Got b \<or> (\<exists>x. ev = Updated x b) \<or> \<not> stores ev \<and> (\<forall>e. ev \<noteq> Got e) \<and> cr_held c = Some b"
  using assms by (cases ev) (auto split: option.splits if_splits)

lemma host_held_after:
  assumes "host_allowed uri h ev" and "host_move h ev = Some b"
  shows "ev = Got b \<or> (\<exists>x. ev = Updated x b) \<or> (\<exists>x. ev = StatusUpdated x b) \<or>
    \<not> stores ev \<and> (\<forall>e. ev \<noteq> Got e) \<and> h = Some b"
  using assms by (cases ev) (auto split: option.splits)

lemma serve_still:
  "serve ryw ev (vs, i) = Some (vs2, j) \<Longrightarrow> \<not> stores ev \<Longrightarrow> (\<forall>e. ev \<noteq> Got e) \<Longrightarrow> vs2 = vs \<and> j = i"
  by (cases ev) (auto split: if_splits)

lemma client_step:
  assumes "sy_step ryw uri (Client n, ev) s = Some s2"
  obtains vs i where "serve ryw ev (sy_versions s, sy_seen s (Client n)) = Some (vs, i)"
    and "client_allowed n uri (sy_client s n) ev"
    and "s2 = s\<lparr>sy_versions := vs, sy_seen := (sy_seen s)(Client n := i),
           sy_client := (sy_client s)(n := client_move uri (sy_client s n) ev)\<rparr>"
  using assms by (auto simp: sy_step_def split: option.splits if_splits)

lemma host_step:
  assumes "sy_step ryw uri (Host, ev) s = Some s2"
  obtains vs i where "serve ryw ev (sy_versions s, sy_seen s Host) = Some (vs, i)"
    and "host_allowed uri (sy_host s) ev"
    and "s2 = s\<lparr>sy_versions := vs, sy_seen := (sy_seen s)(Host := i),
           sy_host := host_move (sy_host s) ev, sy_stopped := (sy_stopped s \<or> ev = Stopping)\<rparr>"
  using assms by (auto simp: sy_step_def split: option.splits if_splits)

lemma outside_step:
  assumes "sy_step ryw uri (Outside, ev) s = Some s2"
  shows "sy_client s2 = sy_client s \<and> sy_host s2 = sy_host s \<and> sy_stopped s2 = sy_stopped s"
  using assms by (auto simp: sy_step_def split: option.splits nbd_event.splits)

lemma step_held:
  assumes inv: "inv_versions uri s" "inv_held s" and uri: "uri \<noteq> []" and step: "sy_step True uri (a, ev) s = Some s2"
  shows "inv_held s2"
proof -
  note m = step_moves_on [OF inv uri step]
  have ne: "sy_versions s \<noteq> []" using inv(1) by (simp add: inv_versions_def)
  note others = moves_on_held_others [OF m inv(2)]
  show ?thesis
  proof (cases a)
    case (Client n)
    with step obtain vs i where sv: "serve True ev (sy_versions s, sy_seen s (Client n)) = Some (vs, i)"
      and ok: "client_allowed n uri (sy_client s n) ev"
      and s2: "s2 = s\<lparr>sy_versions := vs, sy_seen := (sy_seen s)(Client n := i),
           sy_client := (sy_client s)(n := client_move uri (sy_client s n) ev)\<rparr>"
      using client_step by blast
    have "vs ! i = b" if "cr_held (client_move uri (sy_client s n) ev) = Some b" for b
      using client_held_after [OF ok that]
    proof (elim disjE conjE)
      assume "\<not> stores ev" "\<forall>e. ev \<noteq> Got e" "cr_held (sy_client s n) = Some b"
      with serve_still [OF sv] inv(2) show ?thesis by (simp add: inv_held_def)
    qed (use serve_answer [OF sv ne] in blast)+
    with s2 others Client inv(2) moves_on_bound [OF m inv(2)] show ?thesis
      by (auto simp: inv_held_def)
  next
    case Host
    with step obtain vs i where sv: "serve True ev (sy_versions s, sy_seen s Host) = Some (vs, i)"
      and ok: "host_allowed uri (sy_host s) ev"
      and s2: "s2 = s\<lparr>sy_versions := vs, sy_seen := (sy_seen s)(Host := i),
           sy_host := host_move (sy_host s) ev, sy_stopped := (sy_stopped s \<or> ev = Stopping)\<rparr>"
      using host_step by blast
    have "vs ! i = b" if "host_move (sy_host s) ev = Some b" for b
      using host_held_after [OF ok that]
    proof (elim disjE conjE)
      assume "\<not> stores ev" "\<forall>e. ev \<noteq> Got e" "sy_host s = Some b"
      with serve_still [OF sv] inv(2) show ?thesis by (simp add: inv_held_def)
    qed (use serve_answer [OF sv ne] in blast)+
    with s2 others Host inv(2) moves_on_bound [OF m inv(2)] show ?thesis
      by (auto simp: inv_held_def)
  next
    case Outside
    with step others inv(2) moves_on_bound [OF m inv(2)] outside_step [of True uri ev s s2] show ?thesis
      by (simp add: inv_held_def)
  qed
qed

lemma step_member:
  assumes m: "moves_on uri a s s2" and inv: "inv_versions uri s" "inv_held s" "inv_member s"
  shows "inv_member s2"
  unfolding inv_member_def
proof (intro allI impI)
  fix n i
  assume i: "sy_seen s2 (Client n) \<le> i" "i < length (sy_versions s2)"
  have ne: "sy_versions s \<noteq> []" using inv(1) by (simp add: inv_versions_def)
  from m consider "sy_versions s2 = sy_versions s" "sy_seen s (Client n) \<le> sy_seen s2 (Client n)"
    | e where "sy_versions s2 = sy_versions s @ [e]" "a = Client n" "sy_seen s2 a = length (sy_versions s)"
    | e where "sy_versions s2 = sy_versions s @ [e]" "a \<noteq> Client n"
        "follows_version uri a (last (sy_versions s)) e" "sy_seen s2 (Client n) = sy_seen s (Client n)"
    by (cases "a = Client n") (auto simp: moves_on_def)
  then show "n \<in> set (members (sy_versions s2 ! i)) \<longleftrightarrow> n \<in> set (members (last (sy_versions s2)))"
  proof cases
    case 1
    with i inv(3) show ?thesis by (simp add: inv_member_def)
  next
    case 2
    with i have "i = length (sy_versions s)" by simp
    with 2 show ?thesis by simp
  next
    case 3
    then have "n \<in> set (members e) \<longleftrightarrow> n \<in> set (members (last (sy_versions s)))"
      by (simp add: follows_version_def)
    with 3 i inv(3) show ?thesis by (auto simp: inv_member_def nth_append less_Suc_eq)
  qed
qed

lemma client_device_after:
  assumes "client_allowed n uri c ev" and "cr_device (client_move uri c ev) \<noteq> None"
  shows "cr_device c \<noteq> None \<or> (\<exists>b. cr_held c = Some b \<and> n \<in> set (members b) \<and> \<not> stores ev)"
  using assms by (cases ev) (auto split: option.splits if_splits)

lemma client_keeps_membership:
  assumes "client_allowed n uri c (Updated x e)" and "cr_held c = Some b" and "cr_device c \<noteq> None"
    and "n \<in> set (members b)"
  shows "n \<in> set (members x)"
  using assms by (auto split: option.splits)

lemma client_stores:
  "client_allowed n uri c ev \<Longrightarrow> stores ev \<Longrightarrow> \<exists>x e b. ev = Updated x e \<and> cr_held c = Some b \<and> version x = version b"
  by (cases ev) (auto split: option.splits)

text \<open>A node that holds itself as a member still is one.\<close>

lemma held_member:
  assumes "inv_held s" and "inv_member s" and "cr_held (sy_client s n) = Some b"
  shows "n \<in> set (members b) \<longleftrightarrow> n \<in> set (members (last (sy_versions s)))"
  using assms unfolding inv_held_def inv_member_def by (metis order_refl)

lemma step_device_own:
  assumes inv: "inv_versions uri s" "inv_held s" "inv_member s" "inv_device s"
    and step: "sy_step True uri (Client n, ev) s = Some s2"
    and dev: "cr_device (sy_client s2 n) \<noteq> None"
  shows "n \<in> set (members (last (sy_versions s2)))"
proof -
  let ?c = "sy_client s n" and ?l = "last (sy_versions s)"
  from step obtain vs i where sv: "serve True ev (sy_versions s, sy_seen s (Client n)) = Some (vs, i)"
    and ok: "client_allowed n uri ?c ev"
    and st: "s2 = s\<lparr>sy_versions := vs, sy_seen := (sy_seen s)(Client n := i),
           sy_client := (sy_client s)(n := client_move uri ?c ev)\<rparr>"
    by (rule client_step)
  from st have s2: "sy_versions s2 = vs" by simp
  from st dev have moved: "cr_device (client_move uri ?c ev) \<noteq> None" by simp
  from client_device_after [OF ok moved] consider "cr_device ?c \<noteq> None"
    | b where "cr_held ?c = Some b" "n \<in> set (members b)" "\<not> stores ev" by blast
  then have last: "n \<in> set (members ?l)"
  proof cases
    case 1
    with inv(4) show ?thesis unfolding inv_device_def by blast
  next
    case 2
    with held_member [OF inv(2,3)] show ?thesis by blast
  qed
  show ?thesis
  proof (cases "stores ev")
    case False
    have "sy_seen s (Client n) < length (sy_versions s)" using inv(2) by (simp add: inv_held_def)
    with serve_quiet [OF sv False] s2 last show ?thesis by simp
  next
    case True
    with client_stores [OF ok] obtain x e b
      where ev: "ev = Updated x e" and b: "cr_held ?c = Some b" by blast
    have "cr_device ?c \<noteq> None"
      using client_device_after [OF ok moved] True by blast
    with ok ev b last held_member [OF inv(2,3) b] have "n \<in> set (members x)"
      by (intro client_keeps_membership [of n uri ?c x e b]) auto
    moreover note w = serve_client_writes [OF sv [unfolded ev]]
    moreover from w have "vs = sy_versions s \<or> vs = sy_versions s @ [e]"
      using store_cases by blast
    ultimately show ?thesis using s2 last by (elim disjE) simp_all
  qed
qed

lemma step_device:
  assumes inv: "inv_versions uri s" "inv_held s" "inv_member s" "inv_device s"
    and m: "moves_on uri a s s2" and step: "sy_step True uri (a, ev) s = Some s2"
  shows "inv_device s2"
  unfolding inv_device_def
proof (intro allI impI)
  fix n
  assume dev: "cr_device (sy_client s2 n) \<noteq> None"
  show "n \<in> set (members (last (sy_versions s2)))"
  proof (cases "a = Client n")
    case True
    with step_device_own inv step dev show ?thesis by metis
  next
    case False
    with step have "sy_client s2 n = sy_client s n"
      by (cases a) (auto elim!: client_step host_step dest: outside_step)
    with dev inv(4) have "n \<in> set (members (last (sy_versions s)))" by (simp add: inv_device_def)
    with m False show ?thesis by (auto simp: moves_on_def follows_version_def)
  qed
qed

lemma sealed_since:
  assumes "inv_versions uri s" and "i < length (sy_versions s)"
  shows "sealed_order (sy_versions s ! i) (last (sy_versions s))"
proof (cases "Suc i = length (sy_versions s)")
  case True
  then have "sy_versions s ! i = last (sy_versions s)"
    by (metis diff_Suc_1 last_conv_nth length_0_conv nat.distinct(1))
  then show ?thesis by (simp add: sealed_order_def)
next
  case False
  with assms have "i < length (sy_versions s) - 1" by simp
  with assms have "sealed_order (sy_versions s ! i) (sy_versions s ! (length (sy_versions s) - 1))"
    by (intro sorted_wrt_nth_less [of sealed_order]) (auto simp: inv_versions_def)
  with assms show ?thesis by (simp add: inv_versions_def last_conv_nth)
qed

lemma step_stopped:
  assumes inv: "inv_versions uri s" "inv_held s" "inv_stopped s"
    and m: "moves_on uri a s s2" and step: "sy_step True uri (a, ev) s = Some s2"
  shows "inv_stopped s2"
  unfolding inv_stopped_def
proof (intro impI)
  let ?l = "last (sy_versions s)"
  assume "sy_stopped s2"
  with step have "sy_stopped s \<or> a = Host \<and> ev = Stopping"
    by (cases a) (auto elim!: client_step host_step dest: outside_step)
  then consider "sy_stopped s" | "a = Host" "ev = Stopping" by blast
  then show "sealed (last (sy_versions s2)) \<and> members (last (sy_versions s2)) = []"
  proof cases
    case 1
    with inv(3) have "sealed ?l" "members ?l = []" by (simp_all add: inv_stopped_def)
    with m show ?thesis by (auto simp: moves_on_def follows_version_def)
  next
    case 2
    with step have ok: "host_allowed uri (sy_host s) Stopping" and vs: "sy_versions s2 = sy_versions s"
      by (auto elim!: host_step)
    from ok obtain b where b: "sy_host s = Some b" "sealed b" "members b = []"
      by (auto split: option.splits)
    with inv(2) have "sy_versions s ! sy_seen s Host = b" "sy_seen s Host < length (sy_versions s)"
      by (simp_all add: inv_held_def)
    with sealed_since [OF inv(1)] b(2,3) have "sealed ?l" "members ?l = []"
      by (fastforce simp: sealed_order_def)+
    with vs show ?thesis by simp
  qed
qed

lemma start_invariants:
  assumes "well_started uri e0 devs"
  shows "inv_versions uri (sy_start e0 devs)" and "inv_held (sy_start e0 devs)"
    and "inv_member (sy_start e0 devs)" and "inv_device (sy_start e0 devs)" and "inv_stopped (sy_start e0 devs)"
  using assms by (auto simp: inv_defs sy_start_def client_start_def well_started_def)

text \<open>All of them hold in every state that is reached, when a party reads its own writes.\<close>

lemma reachable_invariants:
  assumes "nbd_reachable True uri s"
  shows "uri \<noteq> [] \<and> inv_versions uri s \<and> inv_held s \<and> inv_member s \<and> inv_device s \<and> inv_stopped s"
  using assms
proof (induction rule: nbd_reachable.induct)
  case (start e0 devs)
  with start_invariants [OF start] show ?case by (simp add: well_started_def)
next
  case (step s aev s2)
  obtain a ev where aev: "aev = (a, ev)" by fastforce
  note inv = step.IH
  from step.hyps(2) inv aev have m: "moves_on uri a s s2" by (intro step_moves_on) auto
  with step.hyps(2) inv aev show ?case
    using moves_on_versions [OF m] step_held [of uri s a ev s2] step_member [OF m]
      step_device [of uri s a s2 ev] step_stopped [of uri s a s2 ev]
    by blast
qed

lemma reachable_safe:
  assumes "nbd_reachable True uri s" and "sy_stopped s"
  shows "cr_device (sy_client s n) = None"
  using reachable_invariants [OF assms(1)] assms(2) by (auto simp: inv_device_def inv_stopped_def)

section \<open>Runs of parties\<close>

text \<open>
  A run given as what each party did and what the server answered: if every party, judged by its
  own events alone, kept the agreement, the run is one of the system.
\<close>

definition events_of :: "actor \<Rightarrow> (actor \<times> nbd_event) list \<Rightarrow> nbd_event list" where
  "events_of a run = map snd (filter (\<lambda>aev. fst aev = a) run)"

lemma events_of_simps [simp]:
  "events_of a [] = []"
  "events_of a ((b, ev) # run) = (if b = a then ev # events_of a run else events_of a run)"
  by (simp_all add: events_of_def)

fun marks_deletion :: "nbd_event \<Rightarrow> bool" where
  "marks_deletion (DeletionMarked e) = True"
| "marks_deletion ev = False"

definition parties_keep :: "string \<Rightarrow> string \<Rightarrow> string \<Rightarrow> (string \<Rightarrow> client_role) \<Rightarrow> NBDExport option \<Rightarrow>
    (actor \<times> nbd_event) list \<Rightarrow> bool" where
  "parties_keep name uri export clients host run \<longleftrightarrow>
     (\<forall>n. verdict_of (client_party name uri n) (clients n) (events_of (Client n) run) \<noteq> Violated) \<and>
     verdict_of (host_party name uri export) host (events_of Host run) \<noteq> Violated \<and>
     list_all marks_deletion (events_of Outside run)"

definition inv_named :: "string \<Rightarrow> string \<Rightarrow> nbd_system \<Rightarrow> bool" where
  "inv_named name export s \<longleftrightarrow>
     (\<forall>e\<in>set (sy_versions s). export_name e = name \<and> es_Export (e_Spec e) = export)"

lemma moves_on_named:
  assumes "moves_on uri a s s2" and "inv_versions uri s" and "inv_named name export s"
  shows "inv_named name export s2"
proof -
  have "last (sy_versions s) \<in> set (sy_versions s)" using assms(2) by (simp add: inv_versions_def)
  with assms show ?thesis
    by (auto simp: moves_on_def inv_named_def follows_version_def same_export_def)
qed

text \<open>What the server answers is possible for the party that asked.\<close>

lemma answer_named:
  assumes "inv_versions uri s" and "inv_named name export s"
    and "serve True (Got e) (sy_versions s, i) = Some (vs, j)"
  shows "addressed uri e \<and> export_name e = name \<and> es_Export (e_Spec e) = export"
proof -
  from serve_reads [OF assms(3)] have "e \<in> set (sy_versions s)" by auto
  with assms(1,2) show ?thesis by (simp add: inv_versions_def inv_named_def)
qed

lemma client_answer_possible:
  assumes inv: "inv_versions uri s" "inv_held s" "inv_named name export s"
    and sv: "serve True ev (sy_versions s, sy_seen s (Client n)) = Some (vs, i)"
    and ok: "client_allowed n uri (sy_client s n) ev"
  shows "client_possible name uri (sy_client s n) ev"
proof (cases ev)
  case (Got e)
  with answer_named [OF inv(1,3)] sv show ?thesis by (fastforce simp: addressed_def)
next
  case (Updated x e)
  from ok Updated obtain b where b: "cr_held (sy_client s n) = Some b" "version x = version b"
    by (auto split: option.splits)
  note w = serve_client_writes [OF sv [unfolded Updated]]
  have "b = last (sy_versions s)"
    using inv(1,2) b w by (intro held_is_last) (auto simp: inv_held_def)
  moreover from this inv(1,3) have "export_name b = name" by (simp add: inv_versions_def inv_named_def)
  ultimately show ?thesis using Updated b w by simp
qed (use sv in \<open>auto split: if_splits\<close>)

lemma host_answer_possible:
  assumes inv: "inv_versions uri s" "inv_held s" "inv_named name export s"
    and sv: "serve True ev (sy_versions s, sy_seen s Host) = Some (vs, i)"
    and ok: "host_allowed uri (sy_host s) ev"
  shows "host_possible name export (sy_host s) ev"
proof -
  have last: "b = last (sy_versions s) \<and> export_name b = name"
    if "sy_host s = Some b" "version x = version b" "version x = version (last (sy_versions s))" for b x
  proof -
    have "b = last (sy_versions s)"
      using inv(1,2) that by (intro held_is_last) (auto simp: inv_held_def)
    with inv(1,3) show ?thesis by (simp add: inv_versions_def inv_named_def)
  qed
  show ?thesis
  proof (cases ev)
    case (Got e)
    with answer_named [OF inv(1,3)] sv show ?thesis by fastforce
  next
    case (Updated x e)
    with ok obtain b where "sy_host s = Some b" "version x = version b" by (auto split: option.splits)
    with last serve_client_writes [OF sv [unfolded Updated]] Updated show ?thesis by fastforce
  next
    case (StatusUpdated x e)
    with ok obtain b where "sy_host s = Some b" "version x = version b" by (auto split: option.splits)
    with last serve_host_writes [OF sv [unfolded StatusUpdated]] StatusUpdated show ?thesis by fastforce
  qed simp_all
qed

lemma parties_keep_client:
  assumes "parties_keep name uri export clients h ((Client n, ev) # run)"
  shows "client_allowed n uri (clients n) ev"
    and "client_possible name uri (clients n) ev \<Longrightarrow>
      parties_keep name uri export (clients(n := client_move uri (clients n) ev)) h run"
proof -
  from assms have own: "verdict_of (client_party name uri n) (clients n) (ev # events_of (Client n) run) \<noteq> Violated"
    and others: "\<forall>m. m \<noteq> n \<longrightarrow> verdict_of (client_party name uri m) (clients m) (events_of (Client m) run) \<noteq> Violated"
    and rest: "verdict_of (host_party name uri export) h (events_of Host run) \<noteq> Violated"
      "list_all marks_deletion (events_of Outside run)"
    by (auto simp: parties_keep_def split: if_splits)
  from own show "client_allowed n uri (clients n) ev"
    by (auto simp: verdict_Cons client_party_def split: if_splits)
  assume "client_possible name uri (clients n) ev"
  with own others rest
  show "parties_keep name uri export (clients(n := client_move uri (clients n) ev)) h run"
    by (auto simp: parties_keep_def verdict_Cons client_party_def split: if_splits)
qed

lemma parties_keep_host:
  assumes "parties_keep name uri export clients h ((Host, ev) # run)"
  shows "host_allowed uri h ev"
    and "host_possible name export h ev \<Longrightarrow> parties_keep name uri export clients (host_move h ev) run"
  using assms by (auto simp: parties_keep_def verdict_Cons host_party_def split: if_splits)

lemma parties_keep_outside:
  assumes "parties_keep name uri export clients h ((Outside, ev) # run)"
  shows "marks_deletion ev" and "parties_keep name uri export clients h run"
  using assms by (auto simp: parties_keep_def)

text \<open>The run of the system goes through the states in which the parties end.\<close>

definition ends_in :: "string \<Rightarrow> string \<Rightarrow> string \<Rightarrow> nbd_system \<Rightarrow> (actor \<times> nbd_event) list \<Rightarrow> nbd_system \<Rightarrow> bool" where
  "ends_in name uri export s run s2 \<longleftrightarrow>
     (\<forall>n. verdict_of (client_party name uri n) (sy_client s n) (events_of (Client n) run) = Going (sy_client s2 n)) \<and>
     verdict_of (host_party name uri export) (sy_host s) (events_of Host run) = Going (sy_host s2) \<and>
     (sy_stopped s2 \<longleftrightarrow> sy_stopped s \<or> (Host, Stopping) \<in> set run) \<and>
     served True run (sy_versions s, sy_seen s) = Some (sy_versions s2, sy_seen s2)"

lemma ends_in_Nil: "ends_in name uri export s [] s"
  by (simp add: ends_in_def)

lemma served_Cons:
  assumes "served ryw ((a, ev) # run) (sy_versions s, sy_seen s) \<noteq> None"
  obtains vs i where "serve ryw ev (sy_versions s, sy_seen s a) = Some (vs, i)"
    and "served ryw run (vs, (sy_seen s)(a := i)) \<noteq> None"
  using assms by (auto split: option.splits)

lemma parties_step:
  assumes inv: "inv_versions uri s" "inv_held s" "inv_named name export s"
    and sv: "serve True ev (sy_versions s, sy_seen s a) = Some (vs, i)"
    and keep: "parties_keep name uri export (sy_client s) (sy_host s) ((a, ev) # run)"
  shows "\<exists>s2. sy_step True uri (a, ev) s = Some s2 \<and> sy_versions s2 = vs \<and> sy_seen s2 = (sy_seen s)(a := i) \<and>
    parties_keep name uri export (sy_client s2) (sy_host s2) run \<and>
    (\<forall>s3. ends_in name uri export s2 run s3 \<longrightarrow> ends_in name uri export s ((a, ev) # run) s3)"
proof (cases a)
  case (Client n)
  note ok = parties_keep_client(1) [OF keep [unfolded Client]]
  note poss = client_answer_possible [OF inv sv [unfolded Client] ok]
  from ok poss parties_keep_client(2) [OF keep [unfolded Client] poss] sv Client show ?thesis
    by (auto simp: sy_step_def ends_in_def verdict_Cons client_party_def)
next
  case Host
  note ok = parties_keep_host(1) [OF keep [unfolded Host]]
  note poss = host_answer_possible [OF inv sv [unfolded Host] ok]
  from ok poss parties_keep_host(2) [OF keep [unfolded Host] poss] sv Host show ?thesis
    by (auto simp: sy_step_def ends_in_def verdict_Cons host_party_def)
next
  case Outside
  note ok = parties_keep_outside [OF keep [unfolded Outside]]
  then obtain e where "ev = DeletionMarked e" by (cases ev) auto
  with ok sv Outside show ?thesis
    by (auto simp: sy_step_def ends_in_def split: if_splits)
qed

lemma parties_run:
  assumes "nbd_reachable True uri s" and "inv_named name export s"
    and "served True run (sy_versions s, sy_seen s) \<noteq> None"
    and "parties_keep name uri export (sy_client s) (sy_host s) run"
  shows "\<exists>s2. nbd_reachable True uri s2 \<and> ends_in name uri export s run s2"
  using assms
proof (induction run arbitrary: s)
  case Nil
  then show ?case using ends_in_Nil by blast
next
  case (Cons aev run)
  obtain a ev where aev: "aev = (a, ev)" by fastforce
  note inv = reachable_invariants [OF Cons.prems(1)]
  obtain vs i
    where sv: "serve True ev (sy_versions s, sy_seen s a) = Some (vs, i)"
      and rest: "served True run (vs, (sy_seen s)(a := i)) \<noteq> None"
    by (rule served_Cons [OF Cons.prems(3) [unfolded aev]])
  from parties_step [OF _ _ Cons.prems(2) sv Cons.prems(4) [unfolded aev]] inv
  obtain s1 where step: "sy_step True uri (a, ev) s = Some s1"
    and s1: "sy_versions s1 = vs" "sy_seen s1 = (sy_seen s)(a := i)"
      "parties_keep name uri export (sy_client s1) (sy_host s1) run"
    and ends: "\<forall>s3. ends_in name uri export s1 run s3 \<longrightarrow> ends_in name uri export s ((a, ev) # run) s3"
    by blast
  have "nbd_reachable True uri s1" using Cons.prems(1) step by (rule nbd_reachable.step)
  moreover have "inv_named name export s1"
    using moves_on_named step_moves_on step inv Cons.prems(2) by blast
  ultimately obtain s2 where "nbd_reachable True uri s2" "ends_in name uri export s1 run s2"
    using Cons.IH [of s1] rest s1 by metis
  with ends aev show ?case by blast
qed

section \<open>Safety\<close>

text \<open>The server is not stopped under a client: once the stop has begun, no node has a device
  attached, whatever the nodes do before and after it.\<close>

definition agreement_starts :: "string \<Rightarrow> string \<Rightarrow> string \<Rightarrow> NBDExport \<Rightarrow> (string \<Rightarrow> string option) \<Rightarrow> bool" where
  "agreement_starts name uri export e0 devs \<longleftrightarrow>
     well_started uri e0 devs \<and> export_name e0 = name \<and> es_Export (e_Spec e0) = export"

lemma deployed_run:
  assumes "agreement_starts name uri export e0 devs"
    and "served True run ([e0], \<lambda>a. 0) \<noteq> None"
    and "parties_keep name uri export (\<lambda>n. client_start (devs n)) None run"
  obtains s2 where "nbd_reachable True uri s2" and "ends_in name uri export (sy_start e0 devs) run s2"
proof -
  let ?s = "sy_start e0 devs"
  have "nbd_reachable True uri ?s"
    using assms(1) by (intro nbd_reachable.start) (simp add: agreement_starts_def)
  moreover have "inv_named name export ?s"
    using assms(1) by (auto simp: agreement_starts_def inv_named_def sy_start_def)
  ultimately have "\<exists>s2. nbd_reachable True uri s2 \<and> ends_in name uri export ?s run s2"
    using assms(2,3) parties_run [of uri ?s name export run] by (simp add: sy_start_def)
  with that show thesis by blast
qed

lemma no_stop_under_client:
  assumes "agreement_starts name uri export e0 devs"
    and "served True run ([e0], \<lambda>a. 0) \<noteq> None"
    and "parties_keep name uri export (\<lambda>n. client_start (devs n)) None run"
    and "(Host, Stopping) \<in> set run"
  shows "\<exists>c. verdict_of (client_party name uri n) (client_start (devs n)) (events_of (Client n) run) = Going c \<and>
    cr_device c = None"
proof -
  obtain s2 where "nbd_reachable True uri s2" "ends_in name uri export (sy_start e0 devs) run s2"
    by (rule deployed_run [OF assms(1-3)])
  with reachable_safe [of uri s2 n] assms(4) show ?thesis
    by (auto simp: ends_in_def sy_start_def)
qed

text \<open>A node with a device is a member of the current version.\<close>

lemma device_of_member:
  assumes "agreement_starts name uri export e0 devs"
    and "served True run ([e0], \<lambda>a. 0) = Some (vs, seen)"
    and "parties_keep name uri export (\<lambda>n. client_start (devs n)) None run"
    and "verdict_of (client_party name uri n) (client_start (devs n)) (events_of (Client n) run) = Going c"
    and "cr_device c \<noteq> None"
  shows "n \<in> set (members (last vs))"
proof -
  obtain s2 where "nbd_reachable True uri s2" and e: "ends_in name uri export (sy_start e0 devs) run s2"
    using assms(2) by (auto intro: deployed_run [OF assms(1) _ assms(3)])
  then have "inv_device s2" using reachable_invariants by blast
  moreover from e assms(2,4) have "sy_versions s2 = vs" "sy_client s2 n = c"
    by (auto simp: ends_in_def sy_start_def)
  ultimately show ?thesis using assms(5) by (auto simp: inv_device_def)
qed

end
