(* ===== verification/Nbd_Trace.thy ===== *)
theory Nbd_Trace
  imports Nbd_Protocol
begin

text \<open>
  The events of an export in the trace of a controller, and the verdict of a party on them: what
  a controller did to the export from the start of its process to a world is read off its calls
  and their answers.
\<close>

section \<open>Events of calls\<close>

text \<open>The commands of the NBD client, by their first five words and the rest.\<close>

definition exec_event :: "string list \<Rightarrow> string \<Rightarrow> nbd_event option" where
  "exec_event command out =
     (let words = take 5 command; args = drop 5 command
      in if words = [''nsenter'', ''--target'', ''1'', ''--net'', ''nbd-client''] then
           (if length args = 7 \<and> args ! 0 = ''--identifier''
            then Some (Attached (args ! 1) (nbdClientConnectedPattern out))
            else if length args = 2 \<and> args ! 0 = ''--disconnect'' then Some (Detached (args ! 1))
            else None)
         else if words = [''nsenter'', ''--target'', ''1'', ''--all'', ''cat''] \<and> length args = 1
           then Some (BackendRead (args ! 0) (trim_suffix out [char_of (10::nat)]))
         else None)"

definition answer_event :: "('a \<Rightarrow> nbd_event) \<Rightarrow> goerr + 'a \<Rightarrow> nbd_event option" where
  "answer_event f r = (case r of Inl err \<Rightarrow> None | Inr x \<Rightarrow> Some (f x))"

text \<open>A list gives the object of the name, which is unique in it.\<close>

definition listed :: "string \<Rightarrow> goerr + NBDExport list \<Rightarrow> nbd_event option" where
  "listed name r =
     (case r of Inl err \<Rightarrow> None
      | Inr items \<Rightarrow> map_option Got (List.find (\<lambda>e. export_name e = name) items))"

definition event_of :: "string \<Rightarrow> env \<Rightarrow> call list \<Rightarrow> call \<Rightarrow> nbd_event option" where
  "event_of name E h c =
     (case c of
        ExportCall (ApiGet m) \<Rightarrow>
          if m = name then answer_event Got (cl_Get (exports E) h m) else None
      | ExportCall ApiList \<Rightarrow> listed name (cl_List (exports E) h)
      | ExportCall (ApiUpdate x) \<Rightarrow>
          if export_name x = name then answer_event (Updated x) (cl_Update (exports E) h x) else None
      | ExportCall (ApiUpdateStatus x) \<Rightarrow>
          if export_name x = name then answer_event (StatusUpdated x) (cl_UpdateStatus (exports E) h x)
          else None
      | Exec command \<Rightarrow>
          (case env_exec E h command of ExecOk out \<Rightarrow> exec_event command out | _ \<Rightarrow> None)
      | Qmp (QmpBlockExportDel i) \<Rightarrow> Some Stopping
      | Qmp (QmpBlockdevDel i) \<Rightarrow> Some Stopping
      | _ \<Rightarrow> None)"

fun events_from :: "string \<Rightarrow> env \<Rightarrow> call list \<Rightarrow> call list \<Rightarrow> nbd_event list" where
  "events_from name E h [] = []"
| "events_from name E h (c # cs) =
     (case event_of name E h c of None \<Rightarrow> [] | Some ev \<Rightarrow> [ev]) @ events_from name E (h @ [c]) cs"

definition trace_events :: "string \<Rightarrow> env \<Rightarrow> world \<Rightarrow> nbd_event list" where
  "trace_events name E w = events_from name E [] (trace w)"

lemma events_from_append:
  "events_from name E h (cs @ ds) = events_from name E h cs @ events_from name E (h @ cs) ds"
  by (induction cs arbitrary: h) auto

lemma trace_events_after:
  "trace_events name E (after w c) =
    trace_events name E w @ (case event_of name E (trace w) c of None \<Rightarrow> [] | Some ev \<Rightarrow> [ev])"
  by (simp add: trace_events_def events_from_append)

lemma trace_events_cong: "trace w2 = trace w \<Longrightarrow> trace_events name E w2 = trace_events name E w"
  by (simp add: trace_events_def)

section \<open>Verdicts on traces\<close>

definition judged :: "'s party \<Rightarrow> 's \<Rightarrow> string \<Rightarrow> env \<Rightarrow> world \<Rightarrow> 's verdict" where
  "judged p s0 name E w = verdict_of p s0 (trace_events name E w)"

lemma judged_after:
  "judged p s0 name E (after w c) =
    (case event_of name E (trace w) c of
       None \<Rightarrow> judged p s0 name E w | Some ev \<Rightarrow> judge p (judged p s0 name E w) ev)"
  by (simp add: judged_def trace_events_after verdict_snoc split: option.split)

lemma judged_cong: "trace w2 = trace w \<Longrightarrow> judged p s0 name E w2 = judged p s0 name E w"
  by (simp add: judged_def trace_events_def)

text \<open>Calls that are no event of any export.\<close>

definition quiet_call :: "env \<Rightarrow> call \<Rightarrow> bool" where
  "quiet_call E c \<longleftrightarrow> (\<forall>name h. event_of name E h c = None)"

lemma exec_event_host [simp]:
  "x \<noteq> ''cat'' \<Longrightarrow> exec_event (''nsenter'' # ''--target'' # ''1'' # ''--all'' # x # xs) out = None"
  by (simp add: exec_event_def)

lemma quiet_call_simps [simp]:
  "quiet_call E (dmsetup_call a)" "quiet_call E (lvm_call a)" "quiet_call E (StatHost p)"
  "quiet_call E (PoolCall q)" "quiet_call E (VolumeCall v)" "quiet_call E (SnapshotCall s)"
  "quiet_call E (ExportCall (ApiCreate x))" "quiet_call E (ExportCall (ApiDelete x pr))"
  "quiet_call E QmpConnect" "quiet_call E (Qmp (QmpBlockdevAdd n p))" "quiet_call E (Qmp (QmpBlockExportAdd i n e))"
  "quiet_call E (Qmp QmpQueryBlockExports)"
  by (auto simp: quiet_call_def event_of_def dmsetup_call_def lvm_call_def host_call_def split: exec_outcome.split)

lemma events_from_quiet:
  "\<forall>c\<in>set cs. quiet_call E c \<Longrightarrow> events_from name E h cs = []"
  by (induction cs arbitrary: h) (auto simp: quiet_call_def)

lemma judged_quiet:
  assumes "emits quiet_call m" and "m E w = (r, w2)"
  shows "judged p s0 name E w2 = judged p s0 name E w"
proof -
  from assms obtain cs where "trace w2 = trace w @ cs" "\<forall>c\<in>set cs. quiet_call E c"
    unfolding emits_def by (metis snd_conv)
  then show ?thesis by (simp add: judged_def trace_events_def events_from_append events_from_quiet)
qed

section \<open>The table of devices\<close>

text \<open>Procedures that leave the table of NBD devices alone.\<close>

definition tableless :: "'a io \<Rightarrow> bool" where
  "tableless m \<longleftrightarrow> (\<forall>E w. nbd_clients (snd (m E w)) = nbd_clients w)"

named_theorems tableless_intros "procedures that leave the table of NBD devices alone"

lemma tableless_basic [tableless_intros]:
  "tableless (ret x)" "tableless (fail err)" "tableless (askEnv f)" "tableless (getW g)"
  "tableless timeNow" "tableless (invoke a c)" "tableless (liftE r)" "tableless (returnErr oe)"
  "tableless (api_get sel wrap n)" "tableless (api_list sel wrap)" "tableless (api_create sel wrap x)"
  "tableless (api_update sel wrap x)" "tableless (api_update_status sel wrap x)" "tableless (api_delete sel wrap x pr)"
  by (simp_all add: tableless_def io_defs api_defs split: sum.split option.split)

lemma tableless_bindE [tableless_intros]:
  "tableless m \<Longrightarrow> (\<And>x. tableless (k x)) \<Longrightarrow> tableless (bindE m k)"
  by (simp add: tableless_def bindE_def split_beta split: sum.split)

lemma tableless_thenE [tableless_intros]: "tableless m \<Longrightarrow> tableless k \<Longrightarrow> tableless (thenE m k)"
  unfolding thenE_def by (rule tableless_bindE)

lemma tableless_attempt [tableless_intros]: "tableless m \<Longrightarrow> tableless (attempt m)"
  by (simp add: tableless_def attempt_def split_beta)

lemma tableless_ignoreErr [tableless_intros]: "tableless m \<Longrightarrow> tableless (ignoreErr m)"
  unfolding ignoreErr_def by (intro tableless_intros)

lemma tableless_branches [tableless_intros]:
  "tableless m1 \<Longrightarrow> tableless m2 \<Longrightarrow> tableless (if b then m1 else m2)"
  "tableless m3 \<Longrightarrow> tableless (whenE b m3)"
  "tableless m4 \<Longrightarrow> (\<And>x. tableless (f x)) \<Longrightarrow> tableless (case ov of None \<Rightarrow> m4 | Some x \<Rightarrow> f x)"
  "(\<And>e. tableless (g e)) \<Longrightarrow> (\<And>x. tableless (h x)) \<Longrightarrow> tableless (case sv of Inl e \<Rightarrow> g e | Inr x \<Rightarrow> h x)"
  "(\<And>a b. tableless (pk a b)) \<Longrightarrow> tableless (case pv of (a, b) \<Rightarrow> pk a b)"
  "(\<And>y. tableless (lk y)) \<Longrightarrow> tableless (let y = v in lk y)"
  by (auto simp: whenE_def tableless_basic split: option.split sum.split prod.split)

lemma tableless_commands [tableless_intros]:
  "tableless (RunInContainer command)" "tableless (RunOnHost command)" "tableless (Dmsetup args)" "tableless (Lvm args)"
  "tableless m1 \<Longrightarrow> tableless (suppress texts m1)" "tableless m2 \<Longrightarrow> tableless (checkErr m2)"
  "tableless (PathExistsOnHost path)"
  by (auto simp: tableless_def RunInContainer_eq RunOnHost_eq Dmsetup_def Lvm_def suppress_def checkErr_def
      bindE_def ret_def fail_def PathExistsOnHost_def invoke_def split_beta
      split: sum.split option.split stat_outcome.split)

end
