(* ===== verification/Nbd_Client_Role.thy ===== *)
theory Nbd_Client_Role
  imports Nbd_Trace Node_Volume_Props
begin

text \<open>
  The volume controller of a node keeps to the agreement as a client.  For an export and the URI
  it is served under, the verdict on everything a process did so far is never a violation, and
  the device the machine knows of is the one in the table of the process.  Every procedure of the
  thin path of the controller preserves this, whatever the API server and the host answer.
\<close>

section \<open>The view of a client\<close>

definition client_at :: "string \<Rightarrow> string \<Rightarrow> string option \<Rightarrow> env \<Rightarrow> world \<Rightarrow> client_role verdict" where
  "client_at name uri d0 E w =
     judged (client_party name uri (LocalNodeName E)) (client_start d0) name E w"

definition tabled :: "string \<Rightarrow> world \<Rightarrow> client_role \<Rightarrow> bool" where
  "tabled uri w c \<longleftrightarrow> (\<forall>d. cr_device c = Some d \<longrightarrow> map_of (nbd_clients w) uri = Some d)"

definition client_keeps :: "string \<Rightarrow> string \<Rightarrow> string option \<Rightarrow> env \<Rightarrow> world \<Rightarrow> bool" where
  "client_keeps name uri d0 E w \<longleftrightarrow>
     (case client_at name uri d0 E w of
        Going c \<Rightarrow> tabled uri w c | Impossible \<Rightarrow> True | Violated \<Rightarrow> False)"

text \<open>The controller holds an object, with more known of it or of the device.\<close>

definition well_held :: "string \<Rightarrow> string \<Rightarrow> NBDExport \<Rightarrow> bool" where
  "well_held name uri b \<longleftrightarrow> export_name b = name \<and> (uri_of b = [] \<or> uri_of b = uri) \<and>
     (uri_of b = [] \<longrightarrow> members b = [])"

definition client_holding ::
  "(client_role \<Rightarrow> bool) \<Rightarrow> string \<Rightarrow> string \<Rightarrow> string option \<Rightarrow> env \<Rightarrow> NBDExport \<Rightarrow> world \<Rightarrow> bool" where
  "client_holding P name uri d0 E b w \<longleftrightarrow>
     client_at name uri d0 E w = Impossible \<or>
     (\<exists>c. client_at name uri d0 E w = Going c \<and> tabled uri w c \<and> cr_held c = Some b \<and>
        well_held name uri b \<and> P c)"

abbreviation client_holds :: "string \<Rightarrow> string \<Rightarrow> string option \<Rightarrow> env \<Rightarrow> NBDExport \<Rightarrow> world \<Rightarrow> bool" where
  "client_holds \<equiv> client_holding (\<lambda>c. True)"

lemma holding_keeps: "client_holding P name uri d0 E b w \<Longrightarrow> client_keeps name uri d0 E w"
  by (auto simp: client_holding_def client_keeps_def)

lemma holding_mono:
  "client_holding P name uri d0 E b w \<Longrightarrow> (\<And>c. P c \<Longrightarrow> P2 c) \<Longrightarrow> client_holding P2 name uri d0 E b w"
  by (auto simp: client_holding_def)

text \<open>Worlds that look the same to every client.\<close>

definition same_view :: "env \<Rightarrow> world \<Rightarrow> world \<Rightarrow> bool" where
  "same_view E w w2 \<longleftrightarrow> (\<forall>name. trace_events name E w2 = trace_events name E w) \<and> nbd_clients w2 = nbd_clients w"

lemma same_view_keeps:
  assumes "same_view E w w2"
  shows "client_keeps name uri d0 E w2 = client_keeps name uri d0 E w"
    and "client_holding P name uri d0 E b w2 = client_holding P name uri d0 E b w"
  using assms
  by (simp_all add: same_view_def client_keeps_def client_holding_def client_at_def judged_def tabled_def
      cong: verdict.case_cong)

lemma same_view_quiet:
  assumes "emits quiet_call m" and "tableless m" and "m E w = (r, w2)"
  shows "same_view E w w2"
proof -
  from assms(1,3) obtain cs where "trace w2 = trace w @ cs" "\<forall>c\<in>set cs. quiet_call E c"
    unfolding emits_def by (metis snd_conv)
  moreover from assms(2,3) have "nbd_clients w2 = nbd_clients w"
    unfolding tableless_def by (metis snd_conv)
  ultimately show ?thesis
    by (simp add: same_view_def trace_events_def events_from_append events_from_quiet)
qed

lemma wp_quiet:
  assumes "emits quiet_call m" and "tableless m" and "\<And>r w2. same_view E w w2 \<Longrightarrow> Q r w2"
  shows "wp (\<lambda>c. True) m Q E w"
  by (rule wp_emits [OF assms(1)]) (auto intro: assms(3) same_view_quiet [OF assms(1,2)])

section \<open>Calls on the export\<close>

lemma client_at_after:
  "client_at name uri d0 E (after w c) =
    (case event_of name E (trace w) c of
       None \<Rightarrow> client_at name uri d0 E w
     | Some ev \<Rightarrow> judge (client_party name uri (LocalNodeName E)) (client_at name uri d0 E w) ev)"
  by (simp add: client_at_def judged_after split: option.split)

lemma tabled_cong: "nbd_clients w2 = nbd_clients w \<Longrightarrow> tabled uri w2 c = tabled uri w c"
  by (simp add: tabled_def)

lemma tabled_after [simp]: "tabled uri (after w c) s = tabled uri w s"
  by (simp add: tabled_def)

lemma tabled_held [simp]: "tabled uri w (c\<lparr>cr_held := h\<rparr>) = tabled uri w c"
  by (simp add: tabled_def)

lemma get_held:
  assumes "client_keeps name uri d0 E w" and "cl_Get (exports E) (trace w) name = Inr e"
  shows "client_holds name uri d0 E e (after w (ExportCall (ApiGet name)))"
  using assms
  by (cases "client_at name uri d0 E w")
    (auto simp: client_keeps_def client_holding_def client_at_after event_of_def answer_event_def client_party_def
      well_held_def)

lemma get_failed:
  assumes "client_keeps name uri d0 E w" and "cl_Get (exports E) (trace w) name = Inl err"
  shows "client_keeps name uri d0 E (after w (ExportCall (ApiGet name)))"
  using assms
  by (auto simp: client_keeps_def client_at_after event_of_def answer_event_def split: verdict.splits)

text \<open>An update the machine allows, and what it returns.\<close>

definition client_may :: "string \<Rightarrow> string \<Rightarrow> client_role \<Rightarrow> NBDExport \<Rightarrow> bool" where
  "client_may n uri c x \<longleftrightarrow> client_allowed n uri c (Updated x x)"

lemma client_allowed_update: "client_allowed n uri c (Updated x e) = client_may n uri c x"
  by (simp add: client_may_def)

definition stored_as :: "NBDExport \<Rightarrow> NBDExport \<Rightarrow> NBDExport \<Rightarrow> bool" where
  "stored_as b x e \<longleftrightarrow> e_Spec e = e_Spec x \<and> e_Status e = e_Status b"

lemma well_held_update:
  assumes "well_held name uri b" and "client_may n uri c x" and "cr_held c = Some b"
    and "written name b e" and "stored_as b x e"
  shows "well_held name uri e"
  using assms
  by (auto simp: well_held_def client_may_def written_def stored_as_def connectable_def)

lemma update_stored:
  assumes "client_holding P name uri d0 E b w" and "export_name x = export_name b"
    and may: "\<And>c. cr_held c = Some b \<Longrightarrow> P c \<Longrightarrow> client_may (LocalNodeName E) uri c x"
    and "cl_Update (exports E) (trace w) x = Inr e"
    and kept: "\<And>c. P c \<Longrightarrow> stored_as b x e \<Longrightarrow> P2 (c\<lparr>cr_held := Some e\<rparr>)"
  shows "client_holding P2 name uri d0 E e (after w (ExportCall (ApiUpdate x)))"
proof (cases "client_at name uri d0 E w = Impossible")
  case True
  then show ?thesis by (simp add: client_holding_def client_at_after split: option.split)
next
  case False
  with assms(1) obtain c where c: "client_at name uri d0 E w = Going c" "tabled uri w c"
    "cr_held c = Some b" "well_held name uri b" "P c"
    by (auto simp: client_holding_def)
  have allowed: "client_may (LocalNodeName E) uri c x" using may c by blast
  have ev: "event_of name E (trace w) (ExportCall (ApiUpdate x)) = Some (Updated x e)"
    using assms(2,4) c(4) by (simp add: event_of_def answer_event_def well_held_def)
  have "client_at name uri d0 E (after w (ExportCall (ApiUpdate x))) =
      (if written name b e \<and> stored_as b x e then Going (c\<lparr>cr_held := Some e\<rparr>) else Impossible)"
    using c allowed ev
    by (simp add: client_at_after client_party_def client_allowed_update stored_as_def del: client_allowed.simps)
  with c kept well_held_update [OF c(4) allowed c(3)] show ?thesis
    by (auto simp: client_holding_def)
qed

lemma update_failed:
  assumes "client_keeps name uri d0 E w" and "cl_Update (exports E) (trace w) x = Inl err"
  shows "client_keeps name uri d0 E (after w (ExportCall (ApiUpdate x)))"
  using assms
  by (auto simp: client_keeps_def client_at_after event_of_def answer_event_def split: verdict.splits)

lemma wp_client_update:
  assumes "client_holding P name uri d0 E b w" and "export_name x = export_name b"
    and "\<And>c. cr_held c = Some b \<Longrightarrow> P c \<Longrightarrow> client_may (LocalNodeName E) uri c x"
    and "\<And>c e. P c \<Longrightarrow> stored_as b x e \<Longrightarrow> P2 (c\<lparr>cr_held := Some e\<rparr>)"
    and "\<And>e w2. client_holding P2 name uri d0 E e w2 \<Longrightarrow> Q (Inr e) w2"
    and "\<And>err w2. client_keeps name uri d0 E w2 \<Longrightarrow> Q (Inl err) w2"
  shows "wp (\<lambda>c. True) (export_update x) Q E w"
  unfolding export_update_def
proof (rule wp_api)
  show "Q (cl_Update (exports E) (trace w) x) (after w (ExportCall (ApiUpdate x)))"
  proof (cases "cl_Update (exports E) (trace w) x")
    case (Inl err)
    with assms(6) update_failed [OF holding_keeps [OF assms(1)] Inl] show ?thesis by simp
  next
    case (Inr e)
    with assms(5) update_stored [OF assms(1,2,3) Inr, of P2] assms(4) show ?thesis by simp
  qed
qed simp

section \<open>Commands\<close>

text \<open>What a command of the NBD client gave, in its result and as an event.\<close>

lemma exec_event_client:
  "exec_event ([''nsenter'', ''--target'', ''1'', ''--net'', ''nbd-client''] @
      [''--identifier'', uri, ''--connections'', ''8'', ''--name'', nm, host]) out =
    Some (Attached uri (nbdClientConnectedPattern out))"
  "exec_event ([''nsenter'', ''--target'', ''1'', ''--net'', ''nbd-client''] @ [''--disconnect'', p]) out =
    Some (Detached p)"
  "exec_event ([''nsenter'', ''--target'', ''1'', ''--all''] @ [''cat'', p]) out =
    Some (BackendRead p (trim_suffix out [char_of (10::nat)]))"
  by (simp_all add: exec_event_def)

lemma nbdClient_run:
  "checkErr (nbdClient args) E w =
    (let command = [''nsenter'', ''--target'', ''1'', ''--net'', ''nbd-client''] @ args;
         outcome = env_exec E (trace w) command
     in (case outcome_result command outcome of
           (out, None) \<Rightarrow> Inr out | (out, Some err) \<Rightarrow> Inl err, after w (nbd_client_call args)))"
  by (auto simp: checkErr_def nbdClient_def RunInContainer_eq bindE_def ret_def fail_def after_def
      nbd_client_call_def Let_def split: prod.split option.split)

definition connect_answer :: "string \<Rightarrow> nbd_event option \<Rightarrow> goerr + string \<Rightarrow> bool" where
  "connect_answer uri ev r \<longleftrightarrow>
     (case r of
        Inr dev \<Rightarrow> ev = Some (Attached uri (Some dev))
      | Inl err \<Rightarrow> ev = None \<or> ev = Some (Attached uri None))"

lemma wp_connect:
  assumes "\<And>err. Q (Inl err) w"
    and "\<And>c r. connect_answer uri (event_of name E (trace w) c) r \<Longrightarrow> Q r (after w c)"
  shows "wp (\<lambda>c. True) (NBDClientConnect uri) Q E w"
proof (cases "nbdClientURIPattern uri")
  case None
  then show ?thesis unfolding NBDClientConnect_def using assms(1) by (auto intro!: wp_intros)
next
  case (Some hn)
  obtain host nm where hn: "hn = (host, nm)" by fastforce
  let ?args = "[''--identifier'', uri, ''--connections'', ''8'', ''--name'', nm, host]"
  let ?command = "[''nsenter'', ''--target'', ''1'', ''--net'', ''nbd-client''] @ ?args"
  obtain r where run: "NBDClientConnect uri E w = (r, after w (nbd_client_call ?args))"
    and r: "r = (case env_exec E (trace w) ?command of
      ExecOk out \<Rightarrow> (case nbdClientConnectedPattern out of
        None \<Rightarrow> Inl (BadRequest ''could not parse NBD device from nbd-client'') | Some dev \<Rightarrow> Inr dev)
      | oc \<Rightarrow> Inl (the (snd (outcome_result ?command oc))))"
    using Some hn
    by (cases "env_exec E (trace w) ?command")
      (auto simp: NBDClientConnect_def bindE_def nbdClient_run Let_def ret_def fail_def split: option.split)
  have "connect_answer uri (event_of name E (trace w) (nbd_client_call ?args)) r"
  proof (cases "env_exec E (trace w) ?command")
    case (ExecOk out)
    then have "event_of name E (trace w) (nbd_client_call ?args) =
        Some (Attached uri (nbdClientConnectedPattern out))"
      using exec_event_client(1) [of uri nm host out] by (simp add: event_of_def nbd_client_call_def)
    with r ExecOk show ?thesis
      by (simp add: connect_answer_def split: option.split)
  qed (use r in \<open>auto simp: connect_answer_def event_of_def nbd_client_call_def\<close>)
  with assms(2) run show ?thesis by (simp add: wp_def after_def)
qed

lemma wp_disconnect_command:
  assumes "\<And>err. event_of name E (trace w) (nbd_client_call [''--disconnect'', p]) = None \<Longrightarrow>
      Q (Inl err) (after w (nbd_client_call [''--disconnect'', p]))"
    and "\<And>out. event_of name E (trace w) (nbd_client_call [''--disconnect'', p]) = Some (Detached p) \<Longrightarrow>
      Q (Inr out) (after w (nbd_client_call [''--disconnect'', p]))"
  shows "wp (\<lambda>c. True) (checkErr (nbdClient [''--disconnect'', p])) Q E w"
proof -
  let ?command = "[''nsenter'', ''--target'', ''1'', ''--net'', ''nbd-client'', ''--disconnect'', p]"
  show ?thesis
  proof (cases "env_exec E (trace w) ?command")
    case (ExecOk out)
    then have "event_of name E (trace w) (nbd_client_call [''--disconnect'', p]) = Some (Detached p)"
      using exec_event_client(2) [of p out] by (simp add: event_of_def nbd_client_call_def)
    with assms(2) ExecOk show ?thesis by (simp add: wp_def nbdClient_run Let_def after_def)
  next
    case (ExecExit code out)
    with assms(1) show ?thesis
      by (simp add: wp_def nbdClient_run Let_def event_of_def nbd_client_call_def after_def)
  next
    case (ExecFailed err out)
    with assms(1) show ?thesis
      by (simp add: wp_def nbdClient_run Let_def event_of_def nbd_client_call_def after_def)
  qed
qed

lemma wp_backend:
  assumes "\<And>err. event_of name E (trace w) (backend_call dev) = None \<Longrightarrow> Q (Inl err) (after w (backend_call dev))"
    and "\<And>t. event_of name E (trace w) (backend_call dev) = Some (BackendRead (''/sys/block/'' @ dev @ ''/backend'') t) \<Longrightarrow>
      Q (Inr t) (after w (backend_call dev))"
  shows "wp (\<lambda>c. True) (NBDClientBackend dev) Q E w"
proof -
  let ?p = "''/sys/block/'' @ dev @ ''/backend''"
  have run: "NBDClientBackend dev E w =
      (case host_outcome E w [''cat'', ?p] of
         ExecOk out \<Rightarrow> Inr (trim_suffix out [char_of (10::nat)])
       | oc \<Rightarrow> Inl (the (snd (outcome_result ([''nsenter'', ''--target'', ''1'', ''--all''] @ [''cat'', ?p]) oc))),
       after w (backend_call dev))"
    by (cases "host_outcome E w [''cat'', ?p]")
      (auto simp: NBDClientBackend_def checkErr_def RunOnHost_eq bindE_def ret_def fail_def backend_call_def)
  show ?thesis
  proof (cases "host_outcome E w [''cat'', ?p]")
    case (ExecOk out)
    then have "event_of name E (trace w) (backend_call dev) = Some (BackendRead ?p (trim_suffix out [char_of (10::nat)]))"
      using exec_event_client(3) [of ?p out]
      by (simp add: event_of_def backend_call_def host_call_def host_outcome_def)
    with assms(2) ExecOk run show ?thesis by (simp add: wp_def after_def)
  next
    case (ExecExit code out)
    with assms(1) run show ?thesis
      by (simp add: wp_def event_of_def backend_call_def host_call_def host_outcome_def after_def)
  next
    case (ExecFailed err out)
    with assms(1) run show ?thesis
      by (simp add: wp_def event_of_def backend_call_def host_call_def host_outcome_def after_def)
  qed
qed

section \<open>Connecting\<close>

definition joined :: "string \<Rightarrow> string \<Rightarrow> client_role \<Rightarrow> bool" where
  "joined n uri c \<longleftrightarrow> (\<exists>b. cr_held c = Some b \<and> n \<in> set (members b) \<and> uri_of b = uri)"

definition left :: "client_role \<Rightarrow> bool" where
  "left c \<longleftrightarrow> cr_device c = None"

lemma set_Clients_simps [simp]:
  "members (set_Clients nodes e) = nodes" "e_Status (set_Clients nodes e) = e_Status e"
  "e_Meta (set_Clients nodes e) = e_Meta e" "same_export (set_Clients nodes e) e"
  by (simp_all add: set_Clients_def same_export_def)

lemma wp_join:
  assumes "client_holds name uri d0 E b w" and "connectable b"
    and "\<And>e w2. client_holding (joined (LocalNodeName E) uri) name uri d0 E e w2 \<Longrightarrow> Q (Inr e) w2"
    and "\<And>err w2. client_keeps name uri d0 E w2 \<Longrightarrow> Q (Inl err) w2"
  shows "wp (\<lambda>c. True) (if \<not> slices_Contains (members b) (LocalNodeName E)
      then export_update (set_Clients (members b @ [LocalNodeName E]) b) else ret b) Q E w"
proof (cases "LocalNodeName E \<in> set (members b)")
  case True
  with assms(1,2) have "client_holding (joined (LocalNodeName E) uri) name uri d0 E b w"
    by (auto simp: client_holding_def joined_def well_held_def)
  with True assms(3) show ?thesis by (simp add: wp_basic)
next
  case False
  let ?P = "\<lambda>c. uri_of b = uri \<and> connectable b"
  from assms(1,2) have "client_holding ?P name uri d0 E b w"
    by (auto simp: client_holding_def well_held_def connectable_def)
  then have "wp (\<lambda>c. True) (export_update (set_Clients (members b @ [LocalNodeName E]) b)) Q E w"
    by (rule wp_client_update [where ?P2.0 = "joined (LocalNodeName E) uri"])
      (use False assms(3,4) in \<open>auto simp: client_may_def joined_def stored_as_def\<close>)
  with False show ?thesis by simp
qed

text \<open>A client without a device takes itself out.\<close>

lemma wp_release:
  assumes "client_holding left name uri d0 E b w"
    and "\<And>e w2. client_holds name uri d0 E e w2 \<Longrightarrow> Q (Inr e) w2"
    and "\<And>err w2. client_keeps name uri d0 E w2 \<Longrightarrow> Q (Inl err) w2"
  shows "wp (\<lambda>c. True) (export_update (set_Clients (RemoveAll (members b) (LocalNodeName E)) b)) Q E w"
  using assms(1)
  by (rule wp_client_update [where ?P2.0 = "\<lambda>c. True"])
    (use assms(2,3) in \<open>auto simp: client_may_def left_def\<close>)

text \<open>A command changes the device only, and the table follows.\<close>

lemma connected_recorded:
  assumes "client_holding (joined (LocalNodeName E) uri) name uri d0 E b w"
    and "map_of (nbd_clients w) uri = None"
    and "event_of name E (trace w) c = Some (Attached uri (Some dev))"
  shows "client_keeps name uri d0 E ((after w c)\<lparr>nbd_clients := AList.update uri dev (nbd_clients (after w c)),
    trace := trace (after w c)\<rparr>)"
proof -
  let ?w = "(after w c)\<lparr>nbd_clients := AList.update uri dev (nbd_clients (after w c)), trace := trace (after w c)\<rparr>"
  have "client_at name uri d0 E ?w = client_at name uri d0 E (after w c)"
    by (simp add: client_at_def judged_def trace_events_def)
  then show ?thesis
    using assms
    by (auto simp: client_keeps_def client_holding_def client_at_after client_party_def joined_def tabled_def
        update_conv')
qed

lemma connect_failed:
  assumes "client_holding (joined (LocalNodeName E) uri) name uri d0 E b w"
    and "map_of (nbd_clients w) uri = None"
    and "event_of name E (trace w) c = None \<or> event_of name E (trace w) c = Some (Attached uri None)"
  shows "client_holding left name uri d0 E b (after w c)"
  using assms
  by (auto simp: client_holding_def client_at_after client_party_def joined_def tabled_def left_def split: option.splits)

lemma joined_uri:
  "client_holding (joined (LocalNodeName E) uri) name uri d0 E b w \<Longrightarrow>
    client_at name uri d0 E w = Impossible \<or> uri_of b = uri"
  by (auto simp: client_holding_def joined_def)

text \<open>Once the answers are impossible nothing counts any more.\<close>

lemma impossible_after:
  assumes "emits (\<lambda>E c. True) m" and "client_at name uri d0 E w = Impossible" and "m E w = (r, w2)"
  shows "client_at name uri d0 E w2 = Impossible"
proof -
  from assms(1,3) obtain cs where "trace w2 = trace w @ cs"
    unfolding emits_def by (metis snd_conv)
  with assms(2) show ?thesis
    by (simp add: client_at_def judged_def trace_events_def events_from_append verdict_of_def verdict_stuck)
qed

lemma wp_impossible:
  assumes "emits (\<lambda>E c. True) m" and "client_at name uri d0 E w = Impossible"
    and "\<And>r w2. client_at name uri d0 E w2 = Impossible \<Longrightarrow> Q r w2"
  shows "wp (\<lambda>c. True) m Q E w"
  by (rule wp_emits [OF assms(1)]) (use assms impossible_after in blast)+

definition connect_device :: "string \<Rightarrow> NBDExport \<Rightarrow> (string \<times> NBDExport) io" where
  "connect_device node export =
     bindE (getW nbd_clients) (\<lambda>clients.
       case map_of clients (uri_of export) of
         Some dev \<Rightarrow> ret (''/dev/'' @ dev, export)
       | None \<Rightarrow>
           bindE (attempt (NBDClientConnect (uri_of export))) (\<lambda>connected.
             case connected of
               Inl err \<Rightarrow>
                 thenE (ignoreErr (export_update (set_Clients (RemoveAll (members export) node) export))) (fail err)
             | Inr dev \<Rightarrow> thenE (record_client (uri_of export) dev) (ret (''/dev/'' @ dev, export))))"

lemma ConnectClient_steps:
  "ConnectClient export =
     (if \<not> connectable export then fail (WatchPending ''waiting for NBD server to become available'')
      else bindE (askEnv LocalNodeName) (\<lambda>node.
        bindE (if \<not> slices_Contains (members export) node
               then export_update (set_Clients (members export @ [node]) export) else ret export)
          (connect_device node)))"
  by (simp add: ConnectClient_def connectable_def connect_device_def [abs_def] Let_def)

lemma on_success_eta: "on_success K F (Inr x) = K x"
  by (rule ext) simp

lemma emits_connect_device: "emits (\<lambda>E c. True) (connect_device node e)"
  unfolding connect_device_def NBDClientConnect_def by (intro emits_intros) simp_all

lemma wp_connect_device:
  assumes "client_holding (joined (LocalNodeName E) uri) name uri d0 E b w"
    and "\<And>r w2. client_keeps name uri d0 E w2 \<Longrightarrow> Q r w2"
  shows "wp (\<lambda>c. True) (connect_device (LocalNodeName E) b) Q E w"
proof (cases "client_at name uri d0 E w = Impossible")
  case True
  then show ?thesis
    by (rule wp_impossible [OF emits_connect_device]) (auto intro: assms(2) simp: client_keeps_def)
next
  case False
  with joined_uri [OF assms(1)] have uri: "uri_of b = uri" by blast
  have release: "wp (\<lambda>c. True) (thenE (ignoreErr (export_update
      (set_Clients (RemoveAll (members b) (LocalNodeName E)) b))) (fail err)) Q E w2"
    if "client_holding left name uri d0 E b w2" for err w2
    by (intro wp_intros wp_release [OF that])
      (auto intro!: wp_intros assms(2) dest: holding_keeps)
  show ?thesis
  proof (cases "map_of (nbd_clients w) uri")
    case (Some dev)
    with uri holding_keeps [OF assms(1)] show ?thesis
      by (auto simp: connect_device_def intro!: wp_intros assms(2))
  next
    case None
    with assms(1) have left0: "client_holding left name uri d0 E b w"
      by (auto simp: client_holding_def tabled_def left_def)
    have "wp (\<lambda>c. True) (NBDClientConnect uri)
        (\<lambda>r w2. wp (\<lambda>c. True) (case r of
            Inl err \<Rightarrow> thenE (ignoreErr (export_update
                 (set_Clients (RemoveAll (members b) (LocalNodeName E)) b))) (fail err)
          | Inr dev \<Rightarrow> thenE (record_client uri dev) (ret (''/dev/'' @ dev, b))) Q E w2) E w"
    proof (rule wp_connect)
      fix err show "wp (\<lambda>c. True) (case Inl err of
            Inl err \<Rightarrow> thenE (ignoreErr (export_update
                 (set_Clients (RemoveAll (members b) (LocalNodeName E)) b))) (fail err)
          | Inr dev \<Rightarrow> thenE (record_client uri dev) (ret (''/dev/'' @ dev, b))) Q E w"
        using release [OF left0] by simp
    next
      fix c r
      assume ans: "connect_answer uri (event_of name E (trace w) c) r"
      show "wp (\<lambda>c. True) (case r of
            Inl err \<Rightarrow> thenE (ignoreErr (export_update
                 (set_Clients (RemoveAll (members b) (LocalNodeName E)) b))) (fail err)
          | Inr dev \<Rightarrow> thenE (record_client uri dev) (ret (''/dev/'' @ dev, b))) Q E (after w c)"
      proof (cases r)
        case (Inl err)
        with ans connect_failed [OF assms(1) None, of c] release show ?thesis
          by (simp add: connect_answer_def)
      next
        case (Inr dev)
        with ans connected_recorded [OF assms(1) None, of c dev] show ?thesis
          unfolding record_client_def connect_answer_def
          by (auto intro!: wp_intros assms(2))
      qed
    qed
    then show ?thesis
      using None uri unfolding connect_device_def
      by (auto simp: on_success_eta intro!: wp_intros)
  qed
qed

lemma wp_ConnectClient:
  assumes "client_holds name uri d0 E b w" and "\<And>r w2. client_keeps name uri d0 E w2 \<Longrightarrow> Q r w2"
  shows "wp (\<lambda>c. True) (ConnectClient b) Q E w"
  unfolding ConnectClient_steps
  by (intro wp_if wp_bindE wp_basic on_success_known wp_join [OF assms(1)] wp_connect_device assms(2))
    (use holding_keeps [OF assms(1)] in auto)

section \<open>Disconnecting\<close>

lemma backend_read:
  assumes "client_holds name uri d0 E b w"
    and "event_of name E (trace w) c = None \<or> event_of name E (trace w) c = Some (BackendRead p t)"
  shows "client_holds name uri d0 E b (after w c)"
  using assms
  by (auto simp: client_holding_def client_at_after client_party_def tabled_def split: option.splits if_splits)

lemma backend_gone:
  assumes "client_holds name uri d0 E b w" and "map_of (nbd_clients w) uri = Some dev" and "t \<noteq> uri"
    and "event_of name E (trace w) c = Some (BackendRead (''/sys/block/'' @ dev @ ''/backend'') t)"
  shows "client_holding left name uri d0 E b (after w c)"
  using assms
  by (auto simp: client_holding_def client_at_after client_party_def tabled_def left_def split: option.splits)

lemma detached:
  assumes "client_holds name uri d0 E b w" and "map_of (nbd_clients w) uri = Some dev"
    and "event_of name E (trace w) c = Some (Detached (''/dev/'' @ dev))"
  shows "client_holding left name uri d0 E b (after w c)"
  using assms
  by (auto simp: client_holding_def client_at_after client_party_def tabled_def left_def split: option.splits)

lemma detach_failed:
  assumes "client_holds name uri d0 E b w" and "event_of name E (trace w) c = None"
  shows "client_keeps name uri d0 E (after w c)"
  using assms by (auto simp: client_holding_def client_keeps_def client_at_after tabled_def)

lemma wp_NBDClientDisconnect:
  assumes holds: "client_holds name uri d0 E b w" and dev: "map_of (nbd_clients w) uri = Some dev"
    and ok: "\<And>u w2. client_holding left name uri d0 E b w2 \<Longrightarrow> nbd_clients w2 = nbd_clients w \<Longrightarrow> Q (Inr u) w2"
    and err: "\<And>err w2. client_keeps name uri d0 E w2 \<Longrightarrow> Q (Inl err) w2"
  shows "wp (\<lambda>c. True) (NBDClientDisconnect uri dev) Q E w"
  unfolding NBDClientDisconnect_def
proof (rule wp_bindE, rule wp_backend [where name = name])
  fix e
  assume "event_of name E (trace w) (backend_call dev) = None"
  with backend_read [OF holds] show "on_success (\<lambda>x. wp (\<lambda>c. True) (if x \<noteq> uri then ret () else
      bindE (checkErr (nbdClient [''--disconnect'', ''/dev/'' @ dev])) (\<lambda>output. ret ())) Q E) (\<lambda>e. Q (Inl e))
      (Inl e) (after w (backend_call dev))"
    using err holding_keeps by (metis on_success_simps(1))
next
  fix t
  let ?w = "after w (backend_call dev)"
  assume ev: "event_of name E (trace w) (backend_call dev) = Some (BackendRead (''/sys/block/'' @ dev @ ''/backend'') t)"
  have "wp (\<lambda>c. True) (if t \<noteq> uri then ret () else
      bindE (checkErr (nbdClient [''--disconnect'', ''/dev/'' @ dev])) (\<lambda>output. ret ())) Q E ?w"
  proof (cases "t = uri")
    case False
    with backend_gone [OF holds dev False ev] ok show ?thesis by (simp add: wp_basic)
  next
    case True
    have h: "client_holds name uri d0 E b ?w" using backend_read [OF holds] ev by blast
    have "wp (\<lambda>c. True) (bindE (checkErr (nbdClient [''--disconnect'', ''/dev/'' @ dev])) (\<lambda>output. ret ())) Q E ?w"
    proof (rule wp_bindE, rule wp_disconnect_command [where name = name])
      fix out
      assume "event_of name E (trace ?w) (nbd_client_call [''--disconnect'', ''/dev/'' @ dev]) = Some (Detached (''/dev/'' @ dev))"
      from detached [OF h _ this] dev ok show "on_success (\<lambda>x. wp (\<lambda>c. True) (ret ()) Q E) (\<lambda>e. Q (Inl e)) (Inr out)
          (after ?w (nbd_client_call [''--disconnect'', ''/dev/'' @ dev]))"
        by (simp add: wp_basic)
    next
      fix e
      assume "event_of name E (trace ?w) (nbd_client_call [''--disconnect'', ''/dev/'' @ dev]) = None"
      from detach_failed [OF h this] err show "on_success (\<lambda>x. wp (\<lambda>c. True) (ret ()) Q E) (\<lambda>e. Q (Inl e)) (Inl e)
          (after ?w (nbd_client_call [''--disconnect'', ''/dev/'' @ dev]))"
        by simp
    qed
    with True show ?thesis by simp
  qed
  then show "on_success (\<lambda>x. wp (\<lambda>c. True) (if x \<noteq> uri then ret () else
      bindE (checkErr (nbdClient [''--disconnect'', ''/dev/'' @ dev])) (\<lambda>output. ret ())) Q E) (\<lambda>e. Q (Inl e))
      (Inr t) (after w (backend_call dev))"
    by simp
qed

text \<open>Without a device the entry of the table goes, and the client with it.\<close>

definition leave :: "string \<Rightarrow> NBDExport \<Rightarrow> NBDExport io" where
  "leave node export =
     thenE (modifyW (\<lambda>w. w\<lparr>nbd_clients := AList.delete (uri_of export) (nbd_clients w)\<rparr>))
       (export_update (set_Clients (RemoveAll (members export) node) export))"

lemma forgotten:
  assumes "client_holding left name uri d0 E b w"
  shows "client_holding left name uri d0 E b (w\<lparr>nbd_clients := t, trace := trace w\<rparr>)"
proof -
  have "client_at name uri d0 E (w\<lparr>nbd_clients := t, trace := trace w\<rparr>) = client_at name uri d0 E w"
    by (simp add: client_at_def judged_def trace_events_def)
  with assms show ?thesis by (auto simp: client_holding_def tabled_def left_def)
qed

lemma wp_leave:
  assumes "client_holding left name uri d0 E b w"
    and "\<And>e w2. client_holds name uri d0 E e w2 \<Longrightarrow> Q (Inr e) w2"
    and "\<And>err w2. client_keeps name uri d0 E w2 \<Longrightarrow> Q (Inl err) w2"
  shows "wp (\<lambda>c. True) (leave (LocalNodeName E) b) Q E w"
  unfolding leave_def
  by (rule wp_thenE, rule wp_basic(5), rule on_success_known, rule wp_release)
    (use forgotten [OF assms(1)] assms(2,3) in simp_all)

lemma DisconnectClient_steps:
  "DisconnectClient export =
     bindE (askEnv LocalNodeName) (\<lambda>node.
       if \<not> slices_Contains (members export) node then ret export
       else bindE (getW nbd_clients) (\<lambda>clients.
         thenE (case map_of clients (uri_of export) of
                  Some dev \<Rightarrow> NBDClientDisconnect (uri_of export) dev | None \<Rightarrow> ret ()) (leave node export)))"
  unfolding DisconnectClient_def leave_def Let_def by (rule refl)

lemma emits_DisconnectClient: "emits (\<lambda>E c. True) (DisconnectClient e)"
  unfolding DisconnectClient_def NBDClientDisconnect_def by (intro emits_intros) simp_all

lemma wp_DisconnectClient:
  assumes holds: "client_holds name uri d0 E b w"
    and ok: "\<And>e w2. client_holds name uri d0 E e w2 \<Longrightarrow> Q (Inr e) w2"
    and err: "\<And>err w2. client_keeps name uri d0 E w2 \<Longrightarrow> Q (Inl err) w2"
  shows "wp (\<lambda>c. True) (DisconnectClient b) Q E w"
proof (cases "client_at name uri d0 E w = Impossible")
  case True
  show ?thesis
  proof (rule wp_impossible [OF emits_DisconnectClient True])
    fix r w2
    assume "client_at name uri d0 E w2 = Impossible"
    then show "Q r w2" using ok err by (cases r) (auto simp: client_holding_def client_keeps_def)
  qed
next
  case False
  show ?thesis
  proof (cases "LocalNodeName E \<in> set (members b)")
    case False
    with ok holds show ?thesis by (simp add: DisconnectClient_steps wp_def bindE_def askEnv_def ret_def)
  next
    case True
    with False holds have uri: "uri_of b = uri" by (auto simp: client_holding_def well_held_def)
    have "wp (\<lambda>c. True) (case map_of (nbd_clients w) uri of
            Some dev \<Rightarrow> NBDClientDisconnect uri dev | None \<Rightarrow> ret ())
        (on_success (\<lambda>u. client_holding left name uri d0 E b) (\<lambda>err. client_keeps name uri d0 E)) E w"
    proof (cases "map_of (nbd_clients w) uri")
      case None
      with holds have "client_holding left name uri d0 E b w"
        by (auto simp: client_holding_def tabled_def left_def)
      with None show ?thesis by (simp add: wp_basic)
    next
      case (Some dev)
      then show ?thesis by (auto intro!: wp_NBDClientDisconnect [OF holds])
    qed
    then have "wp (\<lambda>c. True) (thenE (case map_of (nbd_clients w) uri of
            Some dev \<Rightarrow> NBDClientDisconnect uri dev | None \<Rightarrow> ret ()) (leave (LocalNodeName E) b)) Q E w"
      by (intro wp_thenE, elim wp_mono)
        (auto simp: on_success_def split: sum.splits intro!: wp_leave ok err)
    with True show ?thesis unfolding DisconnectClient_steps
      by (intro wp_bindE wp_basic on_success_known wp_if) (simp_all add: uri cong: option.case_cong)
  qed
qed

lemma wp_CheckClient:
  assumes "client_holds name uri d0 E b w" and "\<And>r w2. client_holds name uri d0 E b w2 \<Longrightarrow> Q r w2"
  shows "wp (\<lambda>c. True) (CheckClient b) Q E w"
  unfolding CheckClient_def
  by (intro wp_intros wp_backend [where name = name]) (auto intro!: wp_intros assms(2) backend_read [OF assms(1)] assms(1))

section \<open>The controller\<close>

lemma quiet_dm:
  "emits quiet_call (dm_Create name sz)" "emits quiet_call (dm_Remove name)"
  "emits quiet_call (dm_Resume name sz dev)" "emits quiet_call (dm_Suspend name b)"
  by (intro emits_dm; simp)+

lemma tableless_dm [tableless_intros]:
  "tableless (dm_Create name sz)" "tableless (dm_Remove name)" "tableless (dm_Resume name sz dev)"
  "tableless (dm_Suspend name b)"
  unfolding dm_Create_def dm_Remove_def dm_Resume_def dm_Suspend_def loadTable_def DmsetupCreateIdempotent_def
    DmsetupRemoveIdempotent_def DmsetupSuspendIdempotent_def
  by (intro tableless_intros)+

lemma tableless_updates [tableless_intros]:
  "tableless (UpdateThinPoolLv old p)" "tableless (node_volume_statusUpdate v)"
  "tableless (updateStatusAttachedToNodes v att p)"
  unfolding UpdateThinPoolLv_def node_volume_statusUpdate_def updateStatusAttachedToNodes_def
  by (intro tableless_intros)+

lemma quiet_updates:
  "emits quiet_call (UpdateThinPoolLv old p)" "emits quiet_call (node_volume_statusUpdate v)"
  "emits quiet_call (updateStatusAttachedToNodes v att p)"
  unfolding UpdateThinPoolLv_def node_volume_statusUpdate_def updateStatusAttachedToNodes_def
  by (intro emits_intros; simp)+

lemma quiet_detach: "emits quiet_call (reconcileThinDetaching v p)"
  unfolding reconcileThinDetaching_def by (intro emits_intros quiet_dm quiet_updates) simp_all

lemma tableless_detach: "tableless (reconcileThinDetaching v p)"
  unfolding reconcileThinDetaching_def by (intro tableless_intros)

lemma quiet_setup: "emits quiet_call (reconcileThinNBDSetup v p)"
  unfolding reconcileThinNBDSetup_def by (intro emits_intros quiet_dm quiet_updates) simp_all

lemma tableless_setup: "tableless (reconcileThinNBDSetup v p)"
  unfolding reconcileThinNBDSetup_def by (intro tableless_intros)

text \<open>The status of a volume, as the API server returns it after a status update, names the export
  that was written.\<close>

definition status_echoed :: "env \<Rightarrow> bool" where
  "status_echoed E \<longleftrightarrow> (\<forall>h x v. cl_UpdateStatus (volumes E) h x = Inr v \<longrightarrow>
     vst_NBDExport (v_Status v) = vst_NBDExport (v_Status x))"

abbreviation nbd_of :: "Volume \<Rightarrow> string" where
  "nbd_of v \<equiv> vst_NBDExport (v_Status v)"

lemma same_view_call: "quiet_call E c \<Longrightarrow> same_view E w (after w c)"
  by (simp add: same_view_def trace_events_after quiet_call_def)

lemma wp_volume_status:
  assumes "status_echoed E" and "client_keeps name uri d0 E w"
    and "\<And>v w2. client_keeps name uri d0 E w2 \<Longrightarrow> nbd_of v = nbd_of volume \<Longrightarrow> Q (Inr v) w2"
    and "\<And>err w2. client_keeps name uri d0 E w2 \<Longrightarrow> Q (Inl err) w2"
  shows "wp (\<lambda>c. True) (node_volume_statusUpdate volume) Q E w"
proof -
  let ?x = "volume\<lparr>v_Status := (v_Status volume)\<lparr>vst_ObservedGeneration := om_Generation (v_Meta volume)\<rparr>\<rparr>"
  have "client_keeps name uri d0 E (after w (VolumeCall (ApiUpdateStatus ?x)))"
    using assms(2) same_view_keeps(1) [OF same_view_call] by simp
  with assms show ?thesis unfolding node_volume_statusUpdate_def
    by (intro wp_api) (auto simp: status_echoed_def split: sum.splits intro: sum.exhaust
        [of "cl_UpdateStatus (volumes E) (trace w) ?x"])
qed

lemma wp_cleanup_client:
  assumes "client_holds name uri d0 E b w"
    and ok: "\<And>e w2. client_holds name uri d0 E e w2 \<Longrightarrow> Q (Inr e) w2"
    and err: "\<And>err w2. client_keeps name uri d0 E w2 \<Longrightarrow> Q (Inl err) w2"
  shows "wp (\<lambda>c. True) (cleanup_client volume b) Q E w"
  unfolding cleanup_client_def
proof (rule wp_bindE, rule wp_CheckClient [OF assms(1)])
  fix r w2
  assume h: "client_holds name uri d0 E b w2"
  have step: "wp (\<lambda>c. True) (thenE (dm_Suspend nm sk) (DisconnectClient b)) Q E w2" for nm sk
  proof (intro wp_thenE wp_quiet quiet_dm tableless_dm)
    fix r3 w3
    assume "same_view E w2 w3"
    then have "client_holds name uri d0 E b w3" using h same_view_keeps(2) by simp
    then show "on_success (\<lambda>x. wp (\<lambda>c. True) (DisconnectClient b) Q E) (\<lambda>e. Q (Inl e)) r3 w3"
      by (cases r3) (auto intro!: wp_DisconnectClient ok err dest: holding_keeps)
  qed
  show "on_success (\<lambda>x. wp (\<lambda>c. True) (case x of (connected, disconnect) \<Rightarrow>
         bindE (askEnv LocalNodeName) (\<lambda>node.
           if (connected \<and> \<not> slices_Contains (vs_AttachToNodes (v_Spec volume)) node) \<or> disconnect
           then thenE (dm_Suspend (om_Name (v_Meta volume)) (vt_Block (vs_Type (v_Spec volume)) \<noteq> None))
                  (DisconnectClient b)
           else ret b)) Q E) (\<lambda>e. Q (Inl e)) r w2"
    using h by (cases r) (auto intro!: wp_intros step ok err dest: holding_keeps)
qed

lemma cleanup_no_export: "cleanup_client volume no_export = ret no_export"
  by (simp add: cleanup_client_def CheckClient_def no_export_def fun_eq_iff)

lemma wp_delete_and_report:
  assumes "status_echoed E" and "client_keeps name uri d0 E w"
    and "\<And>v w2. client_keeps name uri d0 E w2 \<Longrightarrow> nbd_of v = nbd_of volume \<Longrightarrow> Q (Inr v) w2"
    and "\<And>err w2. client_keeps name uri d0 E w2 \<Longrightarrow> Q (Inl err) w2"
  shows "wp (\<lambda>c. True) (bindE (attempt (api_delete exports ExportCall b pr)) (\<lambda>deleted.
      thenE (returnErr (case deleted of Inl err \<Rightarrow> IgnoreNotFound (Some err) | Inr u \<Rightarrow> None))
        (node_volume_statusUpdate volume))) Q E w"
proof -
  have "client_keeps name uri d0 E (after w (ExportCall (ApiDelete b pr)))"
    using assms(2) same_view_keeps(1) [OF same_view_call] by simp
  then show ?thesis
    by (intro wp_bindE wp_attempt wp_api on_success_known wp_thenE wp_lift TrueI)
      (auto split: option.splits intro!: wp_volume_status [OF assms(1)] assms(3,4))
qed

lemma interested_nbd: "interested p volume = (nodes, v) \<Longrightarrow> nbd_of v = nbd_of volume"
  by (auto simp: interested_def set_AttachToNodes_def split: prod.splits)

definition clear_path :: "NBDExport \<Rightarrow> NBDExport io" where
  "clear_path e = (if es_Path (e_Spec e) \<noteq> [] then export_update (e\<lparr>e_Spec := (e_Spec e)\<lparr>es_Path := []\<rparr>\<rparr>) else ret e)"

lemma wp_clear_path:
  assumes "client_holds name uri d0 E b w \<or> b = no_export \<and> client_keeps name uri d0 E w"
    and ok: "\<And>e w2. client_keeps name uri d0 E w2 \<Longrightarrow> Q (Inr e) w2"
    and err: "\<And>err w2. client_keeps name uri d0 E w2 \<Longrightarrow> Q (Inl err) w2"
  shows "wp (\<lambda>c. True) (clear_path b) Q E w"
  using assms(1)
proof (elim disjE conjE)
  assume h: "client_holds name uri d0 E b w"
  have "wp (\<lambda>c. True) (export_update (b\<lparr>e_Spec := (e_Spec b)\<lparr>es_Path := []\<rparr>\<rparr>)) Q E w"
    by (rule wp_client_update [OF h, where ?P2.0 = "\<lambda>c. True"])
      (auto simp: client_may_def same_export_def intro: ok err dest: holding_keeps)
  with ok holding_keeps [OF h] show ?thesis by (simp add: clear_path_def wp_basic)
next
  assume "b = no_export" "client_keeps name uri d0 E w"
  with ok show ?thesis by (simp add: clear_path_def no_export_def wp_basic)
qed

lemma cleanup_server_steps:
  "cleanup_server volume p sz e =
     bindE (askEnv LocalNodeName) (\<lambda>node.
     let (nodes, volume) = interested p volume
     in if \<not> ShouldStopExport node e nodes sz then ret volume
        else bindE (clear_path e) (\<lambda>e.
          if length (members e) = 0 then
            bindE (attempt (api_delete exports ExportCall e (Some ''Background''))) (\<lambda>deleted.
            thenE (returnErr (case deleted of Inl err \<Rightarrow> IgnoreNotFound (Some err) | Inr u \<Rightarrow> None))
              (node_volume_statusUpdate (set_NBDExport [] volume)))
          else fail (WatchPending ''waiting for NBD clients to detach'')))"
  unfolding cleanup_server_def clear_path_def by (rule refl)

lemma wp_cleanup_server:
  assumes echo: "status_echoed E"
    and "client_holds name uri d0 E b w \<or> b = no_export \<and> client_keeps name uri d0 E w"
    and ok: "\<And>v w2. client_keeps name uri d0 E w2 \<Longrightarrow> nbd_of v = nbd_of volume \<or> nbd_of v = [] \<Longrightarrow> Q (Inr v) w2"
    and err: "\<And>err w2. client_keeps name uri d0 E w2 \<Longrightarrow> Q (Inl err) w2"
  shows "wp (\<lambda>c. True) (cleanup_server volume p sz b) Q E w"
proof -
  obtain nodes v where v: "interested p volume = (nodes, v)" by fastforce
  have keeps: "client_keeps name uri d0 E w" using assms(2) holding_keeps by blast
  have none: "nbd_of (set_NBDExport [] v) = []" by (simp add: set_NBDExport_def)
  have "wp (\<lambda>c. True) (bindE (clear_path b) (\<lambda>e.
          if length (members e) = 0 then
            bindE (attempt (api_delete exports ExportCall e (Some ''Background''))) (\<lambda>deleted.
            thenE (returnErr (case deleted of Inl err \<Rightarrow> IgnoreNotFound (Some err) | Inr u \<Rightarrow> None))
              (node_volume_statusUpdate (set_NBDExport [] v)))
          else fail (WatchPending ''waiting for NBD clients to detach''))) Q E w"
    by (intro wp_bindE wp_clear_path [OF assms(2)] on_success_known wp_if wp_delete_and_report [OF echo] wp_basic)
      (use none ok err in auto)
  then show ?thesis
    unfolding cleanup_server_steps
    by (intro wp_bindE wp_basic on_success_known) (use v keeps ok interested_nbd [OF v] in \<open>auto intro: wp_basic\<close>)
qed

lemma wp_cleanup:
  assumes echo: "status_echoed E" and keeps: "client_keeps name uri d0 E w"
    and "nbd_of volume = name \<or> nbd_of volume = []"
    and ok: "\<And>v w2. client_keeps name uri d0 E w2 \<Longrightarrow> nbd_of v = name \<or> nbd_of v = [] \<Longrightarrow> Q (Inr v) w2"
    and err: "\<And>err w2. client_keeps name uri d0 E w2 \<Longrightarrow> Q (Inl err) w2"
  shows "wp (\<lambda>c. True) (reconcileThinNBDCleanup volume p sz) Q E w"
proof (cases "nbd_of volume = []")
  case True
  with keeps ok show ?thesis by (simp add: reconcileThinNBDCleanup_def wp_basic)
next
  case False
  with assms(3) have name: "nbd_of volume = name" by simp
  let ?rest = "\<lambda>(e, v). bindE (cleanup_client v e) (\<lambda>e. cleanup_server v p sz e)"
  let ?w = "after w (ExportCall (ApiGet name))"
  have found: "wp (\<lambda>c. True) (bindE (cleanup_client v e) (\<lambda>e. cleanup_server v p sz e)) Q E w2"
    if "client_holds name uri d0 E e w2" "nbd_of v = name" for e v w2
    by (intro wp_bindE wp_cleanup_client [OF that(1)] on_success_known wp_cleanup_server [OF echo])
      (use that(2) ok err in auto)
  have missing: "wp (\<lambda>c. True) (bindE (cleanup_client v no_export) (\<lambda>e. cleanup_server v p sz e)) Q E w2"
    if "client_keeps name uri d0 E w2" "nbd_of v = []" for v w2
    unfolding cleanup_no_export
    by (intro wp_bindE wp_basic on_success_known wp_cleanup_server [OF echo]) (use that ok err in auto)
  have "wp (\<lambda>c. True) (bindE (case cl_Get (exports E) (trace w) name of
                 Inr e \<Rightarrow> ret (e, volume)
               | Inl err \<Rightarrow>
                   if err = ErrNotFound
                   then bindE (node_volume_statusUpdate (set_NBDExport [] volume)) (\<lambda>v. ret (no_export, v))
                   else fail err) ?rest) Q E ?w"
  proof (cases "cl_Get (exports E) (trace w) name")
    case (Inr e)
    then show ?thesis using found [OF get_held [OF keeps Inr] name] by simp
  next
    case (Inl e)
    have none: "nbd_of (set_NBDExport [] volume) = []" by (simp add: set_NBDExport_def)
    have "wp (\<lambda>c. True) (if e = ErrNotFound
        then bindE (node_volume_statusUpdate (set_NBDExport [] volume)) (\<lambda>v. ret (no_export, v)) else fail e)
        (on_success (\<lambda>x. wp (\<lambda>c. True) (?rest x) Q E) (\<lambda>err. Q (Inl err))) E ?w"
      by (intro wp_if wp_bindE wp_volume_status [OF echo get_failed [OF keeps Inl]] wp_basic on_success_known)
        (use none get_failed [OF keeps Inl] in \<open>simp_all add: missing err\<close>)
    with Inl show ?thesis by (simp add: wp_bindE)
  qed
  then show ?thesis
    unfolding reconcileThinNBDCleanup_def using False name
    by (auto intro!: wp_bindE [of _ "attempt m" for m] wp_attempt wp_api)
qed

lemma wp_attach_device:
  assumes keeps: "client_keeps name uri d0 E w" and "nbd_of volume = name \<or> nbd_of volume = []"
    and all: "\<And>r w2. client_keeps name uri d0 E w2 \<Longrightarrow> Q r w2"
  shows "wp (\<lambda>c. True) (attach_device volume p sz) Q E w"
proof -
  have no: "ConnectClient no_export = fail (WatchPending ''waiting for NBD server to become available'')"
    by (simp add: ConnectClient_def no_export_def)
  have got: "wp (\<lambda>c. True) (bindE (case cl_Get (exports E) (trace w) name of
             Inr e \<Rightarrow> ret e
           | Inl err \<Rightarrow> if IgnoreNotFound (Some err) \<noteq> None then fail err else ret no_export)
       (\<lambda>e. bindE (ConnectClient e) (\<lambda>(device, e). ret (es_SizeBytes (e_Spec e), device)))) Q E
       (after w (ExportCall (ApiGet name)))"
  proof (cases "cl_Get (exports E) (trace w) name")
    case (Inl e)
    with get_failed [OF keeps Inl] show ?thesis
      by (auto simp: no intro!: wp_intros all)
  next
    case (Inr e)
    then show ?thesis
      by (auto intro!: wp_bindE wp_ConnectClient [OF get_held [OF keeps Inr]] all on_successI wp_basic)
  qed
  show ?thesis
    unfolding attach_device_def
    by (intro wp_bindE [of _ "askEnv f" for f] wp_bindE [of _ "attempt m" for m] wp_attempt wp_basic
        on_success_known wp_if wp_api TrueI)
      (use assms(2) got in \<open>auto intro: all keeps\<close>)
qed

lemma wp_attaching:
  assumes keeps: "client_keeps name uri d0 E w" and "nbd_of volume = name \<or> nbd_of volume = []"
    and all: "\<And>r w2. client_keeps name uri d0 E w2 \<Longrightarrow> Q r w2"
  shows "wp (\<lambda>c. True) (reconcileThinAttaching volume p) Q E w"
proof -
  have quiet: "wp (\<lambda>c. True) m (on_success K (\<lambda>e. Q (Inl e))) E w2"
    if "emits quiet_call m" "tableless m" "client_keeps name uri d0 E w2"
      "\<And>x w3. client_keeps name uri d0 E w3 \<Longrightarrow> K x w3" for m K w2
    using that by (intro wp_quiet on_successI) (auto simp: same_view_keeps intro: all)
  have rest: "wp (\<lambda>c. True) (bindE (UpdateThinPoolLv old q) (\<lambda>(old, q).
      bindE (attach_device v q s) (\<lambda>(sizeBytes, device).
        thenE (dm_Resume nm sizeBytes device) (ret (v, q))))) Q E w2"
    if "client_keeps name uri d0 E w2" "nbd_of v = name \<or> nbd_of v = []" for old q v s nm w2
  proof (rule wp_bindE, rule quiet [OF quiet_updates(1) tableless_updates(1) that(1)])
    fix x w3
    assume k: "client_keeps name uri d0 E w3"
    show "wp (\<lambda>c. True) (case x of (old, q) \<Rightarrow> bindE (attach_device v q s) (\<lambda>(sizeBytes, device).
        thenE (dm_Resume nm sizeBytes device) (ret (v, q)))) Q E w3"
      by (cases x) (auto intro!: wp_bindE wp_attach_device [OF k that(2)] on_successI wp_thenE
          quiet [OF quiet_dm(3) tableless_dm(3)] wp_basic all)
  qed
  show ?thesis
    unfolding reconcileThinAttaching_def Let_def using assms(2)
    by (auto split: option.splits prod.splits intro!: wp_thenE wp_basic all keeps rest
        quiet [OF quiet_dm(1) tableless_dm(1)] simp: index_panic_def dest: interested_nbd)
qed

text \<open>A reconciliation of a thin volume keeps to the agreement on the export of the volume.\<close>

definition keeps_agreement :: "string \<Rightarrow> env \<Rightarrow> world \<Rightarrow> 'r \<Rightarrow> world \<Rightarrow> bool" where
  "keeps_agreement name E w r w2 \<longleftrightarrow>
     (status_echoed E \<longrightarrow>
       (\<forall>uri d0. client_keeps name uri d0 E w \<longrightarrow> client_keeps name uri d0 E w2))"

definition move_thin :: "string \<Rightarrow> ThinPoolLv \<Rightarrow> Volume \<Rightarrow> unit io" where
  "move_thin node p volume =
     (let attached = (om_DeletionTimestamp (v_Meta volume) = None \<and>
                      slices_Contains (vs_AttachToNodes (v_Spec volume)) node)
      in bindE (if attached then reconcileThinAttaching volume p else reconcileThinDetaching volume p)
           (\<lambda>(volume, p). bindE (updateStatusAttachedToNodes volume attached p) (\<lambda>volume.
              thenE (reconcileThinNBDSetup volume p) (ret ()))))"

lemma reconcileThin_steps:
  "reconcileThin volume =
     bindE (attempt (api_get pools PoolCall (om_Name (v_Meta volume)))) (\<lambda>got.
       case got of
         Inl err \<Rightarrow>
           if om_DeletionTimestamp (v_Meta volume) \<noteq> None then returnErr (IgnoreNotFound (Some err)) else fail err
       | Inr p \<Rightarrow>
           bindE (askEnv LocalNodeName) (\<lambda>node.
             case Status_FindThinLv (p_Status p) (VolumeToThinLvName (om_Name (v_Meta volume))) of
               None \<Rightarrow>
                 if om_DeletionTimestamp (v_Meta volume) \<noteq> None \<and>
                    \<not> slices_Contains (vst_AttachedToNodes (v_Status volume)) node
                 then ret () else fail (BadRequest ''unexpected missing blob'')
             | Some s \<Rightarrow>
                 bindE (reconcileThinNBDCleanup volume p (lst_SizeBytes s)) (move_thin node p)))"
  unfolding reconcileThin_def move_thin_def [abs_def] by (rule refl)

lemma wp_move_thin:
  assumes keeps: "client_keeps name uri d0 E w" and "nbd_of v = name \<or> nbd_of v = []"
  shows "wp (\<lambda>c. True) (move_thin node p v) (\<lambda>r w2. client_keeps name uri d0 E w2) E w"
proof -
  let ?Q = "\<lambda>r w2. client_keeps name uri d0 E w2"
  have report: "wp (\<lambda>c. True) (bindE (updateStatusAttachedToNodes v att q) (\<lambda>v.
      thenE (reconcileThinNBDSetup v q) (ret ()))) (\<lambda>r. client_keeps name uri d0 E) E w2"
    if "client_keeps name uri d0 E w2" for v att q w2
    using that
    by (intro wp_bindE wp_thenE wp_quiet [OF quiet_updates(3) tableless_updates(3)]
        wp_quiet [OF quiet_setup tableless_setup] wp_basic on_successI) (auto simp: same_view_keeps)
  show ?thesis
    unfolding move_thin_def Let_def
    by (intro wp_bindE [of _ "if b then m1 else m2" for b m1 m2] wp_if wp_attaching [OF keeps assms(2)]
        wp_quiet [OF quiet_detach tableless_detach] on_successI)
      (use keeps in \<open>auto simp: same_view_keeps split: prod.split intro: report\<close>)
qed

lemma wp_reconcileThin:
  assumes echo: "status_echoed E" and keeps: "client_keeps (nbd_of volume) uri d0 E w"
  shows "wp (\<lambda>c. True) (reconcileThin volume) (\<lambda>r w2. client_keeps (nbd_of volume) uri d0 E w2) E w"
proof -
  let ?Q = "\<lambda>r w2. client_keeps (nbd_of volume) uri d0 E w2"
  have pool: "client_keeps (nbd_of volume) uri d0 E (after w (PoolCall (ApiGet n)))" for n
    using keeps same_view_keeps(1) [OF same_view_call] by simp
  have main: "wp (\<lambda>c. True) (bindE (reconcileThinNBDCleanup volume p sz) (move_thin node p)) ?Q E
      (after w (PoolCall (ApiGet n)))" for p sz node n
    by (intro wp_bindE wp_cleanup [OF echo pool] on_success_known wp_move_thin) auto
  show ?thesis
    unfolding reconcileThin_steps
    by (intro wp_bindE [of _ "attempt m" for m] wp_attempt wp_api on_success_known TrueI wp_case wp_if wp_lift
        wp_bindE [of _ "askEnv f" for f] wp_basic main pool)
qed

lemma reconcileThin_agrees: "behaves (reconcileThin volume) (keeps_agreement (nbd_of volume))"
  using wp_result [OF wp_reconcileThin] by (intro behavesI) (auto simp: keeps_agreement_def)

end
