(* ===== verification/Nbd_Host_Role.thy ===== *)
theory Nbd_Host_Role
  imports Nbd_Trace Node_NBDExport
begin

text \<open>
  The NBD export controller keeps to the agreement as the host: a reconciliation writes the
  status and starts and stops the server only as the machine of the host allows, whatever the
  API server and the daemon answer.
\<close>

section \<open>The view of the host\<close>

definition host_uri :: "env \<Rightarrow> string \<Rightarrow> string" where
  "host_uri E export = url_String ''nbd'' (PodIP E) export"

definition host_at :: "string \<Rightarrow> string \<Rightarrow> env \<Rightarrow> world \<Rightarrow> NBDExport option verdict" where
  "host_at name export E w = judged (host_party name (host_uri E export) export) None name E w"

definition host_keeps :: "string \<Rightarrow> string \<Rightarrow> env \<Rightarrow> world \<Rightarrow> bool" where
  "host_keeps name export E w \<longleftrightarrow> host_at name export E w \<noteq> Violated"

definition host_holding :: "(NBDExport \<Rightarrow> bool) \<Rightarrow> string \<Rightarrow> string \<Rightarrow> env \<Rightarrow> NBDExport \<Rightarrow> world \<Rightarrow> bool" where
  "host_holding P name export E b w \<longleftrightarrow>
     host_at name export E w = Impossible \<or>
     (host_at name export E w = Going (Some b) \<and> export_name b = name \<and> es_Export (e_Spec b) = export \<and> P b)"

lemma host_holding_keeps: "host_holding P name export E b w \<Longrightarrow> host_keeps name export E w"
  by (auto simp: host_holding_def host_keeps_def)

lemma host_at_after:
  "host_at name export E (after w c) =
    (case event_of name E (trace w) c of
       None \<Rightarrow> host_at name export E w
     | Some ev \<Rightarrow> judge (host_party name (host_uri E export) export) (host_at name export E w) ev)"
  by (simp add: host_at_def judged_after split: option.split)

lemma wp_host_quiet:
  assumes "emits quiet_call m"
    and "\<And>r w2. m E w = (r, w2) \<Longrightarrow> host_at name export E w2 = host_at name export E w \<Longrightarrow> Q r w2"
  shows "wp (\<lambda>c. True) m Q E w"
proof (rule wp_emits [OF assms(1)])
  fix r w2
  assume run: "m E w = (r, w2)"
  have "host_at name export E w2 = host_at name export E w"
    unfolding host_at_def by (rule judged_quiet [OF assms(1) run])
  with run show "Q r w2" by (rule assms(2))
qed simp

lemma wp_host_quiet_holding:
  assumes "emits quiet_call m" and "host_holding P name export E b w"
    and "\<And>r w2. m E w = (r, w2) \<Longrightarrow> host_holding P name export E b w2 \<Longrightarrow> Q r w2"
  shows "wp (\<lambda>c. True) m Q E w"
  by (rule wp_host_quiet [OF assms(1), where name = name and export = export])
    (use assms(2,3) in \<open>simp add: host_holding_def\<close>)

section \<open>Calls on the export\<close>

lemma host_got:
  assumes "host_keeps name export E w" and "cl_Get (exports E) (trace w) name = Inr e"
  shows "host_holding (\<lambda>b. True) name export E e (after w (ExportCall (ApiGet name)))"
  using assms
  by (cases "host_at name export E w")
    (auto simp: host_keeps_def host_holding_def host_at_after event_of_def answer_event_def host_party_def)

lemma host_get_failed:
  assumes "host_keeps name export E w" and "cl_Get (exports E) (trace w) name = Inl err"
  shows "host_keeps name export E (after w (ExportCall (ApiGet name)))"
  using assms by (auto simp: host_keeps_def host_at_after event_of_def answer_event_def)

definition host_update_ok :: "NBDExport \<Rightarrow> NBDExport \<Rightarrow> bool" where
  "host_update_ok b x \<longleftrightarrow> version x = version b \<and> same_export x b \<and> members x = members b \<and> export_name x = export_name b"

definition host_status_ok :: "string \<Rightarrow> NBDExport \<Rightarrow> NBDExport \<Rightarrow> bool" where
  "host_status_ok uri b x \<longleftrightarrow> version x = version b \<and> export_name x = export_name b \<and>
     (uri_of x = uri_of b \<or> uri_of b = [] \<and> uri_of x = uri) \<and>
     (deletion b \<noteq> None \<or> uri_of b \<noteq> [] \<longrightarrow> \<not> connectable x)"

lemma wp_host_update:
  assumes "host_holding P name export E b w" and "P b \<Longrightarrow> host_update_ok b x"
    and kept: "\<And>e. P b \<Longrightarrow> e_Spec e = e_Spec x \<Longrightarrow> e_Status e = e_Status b \<Longrightarrow> deletion e = deletion b \<Longrightarrow> P2 e"
    and ok: "\<And>e w2. host_holding P2 name export E e w2 \<Longrightarrow> Q (Inr e) w2"
    and err: "\<And>err w2. host_keeps name export E w2 \<Longrightarrow> Q (Inl err) w2"
  shows "wp (\<lambda>c. True) (export_update x) Q E w"
  unfolding export_update_def
proof (rule wp_api)
  let ?c = "ExportCall (ApiUpdate x)"
  show "Q (cl_Update (exports E) (trace w) x) (after w ?c)"
  proof (cases "cl_Update (exports E) (trace w) x")
    case (Inl e)
    have "host_keeps name export E (after w ?c)"
      using host_holding_keeps [OF assms(1)] Inl
      by (auto simp: host_keeps_def host_at_after event_of_def answer_event_def)
    with Inl err show ?thesis by simp
  next
    case (Inr e)
    have "host_holding P2 name export E e (after w ?c)"
    proof (cases "host_at name export E w = Impossible")
      case True
      then show ?thesis by (simp add: host_holding_def host_at_after split: option.split)
    next
      case False
      with assms(1,2) Inr kept show ?thesis
        by (auto simp: host_holding_def host_at_after event_of_def answer_event_def host_party_def host_update_ok_def
            written_def same_export_def)
    qed
    with Inr ok show ?thesis by simp
  qed
qed simp

lemma wp_host_status:
  assumes "host_holding P name export E b w"
    and "P b \<Longrightarrow> es_Export (e_Spec b) = export \<Longrightarrow> host_status_ok (host_uri E export) b x"
    and kept: "\<And>e. P b \<Longrightarrow> e_Spec e = e_Spec b \<Longrightarrow> e_Status e = e_Status x \<Longrightarrow> deletion e = deletion b \<Longrightarrow> P2 e"
    and ok: "\<And>e w2. host_holding P2 name export E e w2 \<Longrightarrow> Q (Inr e) w2"
    and err: "\<And>err w2. host_keeps name export E w2 \<Longrightarrow> Q (Inl err) w2"
  shows "wp (\<lambda>c. True) (api_update_status exports ExportCall x) Q E w"
proof (rule wp_api)
  let ?c = "ExportCall (ApiUpdateStatus x)"
  show "Q (cl_UpdateStatus (exports E) (trace w) x) (after w ?c)"
  proof (cases "cl_UpdateStatus (exports E) (trace w) x")
    case (Inl e)
    have "host_keeps name export E (after w ?c)"
      using host_holding_keeps [OF assms(1)] Inl
      by (auto simp: host_keeps_def host_at_after event_of_def answer_event_def)
    with Inl err show ?thesis by simp
  next
    case (Inr e)
    have "host_holding P2 name export E e (after w ?c)"
    proof (cases "host_at name export E w = Impossible")
      case True
      then show ?thesis by (simp add: host_holding_def host_at_after split: option.split)
    next
      case False
      with assms(1) have b: "host_at name export E w = Going (Some b)" "export_name b = name"
        "es_Export (e_Spec b) = export" "P b"
        by (auto simp: host_holding_def)
      with assms(2) Inr kept show ?thesis
        by (auto simp: host_holding_def host_at_after event_of_def answer_event_def host_party_def host_status_ok_def
            written_def)
    qed
    with Inr ok show ?thesis by simp
  qed
qed simp

section \<open>The steps of a reconciliation\<close>

lemma marked_not_connectable:
  "c_Type c = Available \<Longrightarrow> c_Status c \<noteq> ConditionTrue \<Longrightarrow> \<not> connectable (fst (set_export_condition now c b))"
  using SetStatusCondition_true_same [of now "est_Conditions (e_Status b)" c]
  by (auto simp: connectable_def ExportDegraded_def set_export_condition_def split_beta)

lemma marks [simp]:
  "c_Type export_stopping = Available" "c_Status export_stopping \<noteq> ConditionTrue"
  "c_Type export_deleting = Available" "c_Status export_deleting \<noteq> ConditionTrue"
  "c_Type export_device_error = Available" "c_Status export_device_error \<noteq> ConditionTrue"
  by (simp_all add: export_stopping_def export_deleting_def export_device_error_def new_condition_def)

lemma set_export_condition_simps [simp]:
  "e_Meta (fst (set_export_condition now c b)) = e_Meta b"
  "e_Spec (fst (set_export_condition now c b)) = e_Spec b"
  "uri_of (fst (set_export_condition now c b)) = uri_of b"
  by (simp_all add: set_export_condition_def split_beta)

lemma observed_status [simp]:
  "connectable (e\<lparr>e_Status := (e_Status e)\<lparr>est_ObservedGeneration := g\<rparr>\<rparr>) = connectable e"
  by (simp add: connectable_def ExportDegraded_def)

lemma wp_host_mark:
  assumes h: "host_holding P name export E b w" and c: "c_Type c = Available" "c_Status c \<noteq> ConditionTrue"
    and kept: "\<And>e. P b \<Longrightarrow> members e = members b \<Longrightarrow> \<not> connectable e \<Longrightarrow> deletion e = deletion b \<Longrightarrow> P2 e"
    and ok: "\<And>e w2. host_holding P2 name export E e w2 \<Longrightarrow> Q (Inr e) w2"
    and err: "\<And>err w2. host_keeps name export E w2 \<Longrightarrow> Q (Inl err) w2"
  shows "wp (\<lambda>c. True) (export_statusUpdate (fst (set_export_condition now c b))) Q E w"
  unfolding export_statusUpdate_def
proof (rule wp_host_status [OF h, where ?P2.0 = P2])
  let ?x = "fst (set_export_condition now c b)"
  let ?y = "?x\<lparr>e_Status := (e_Status ?x)\<lparr>est_ObservedGeneration := om_Generation (e_Meta ?x)\<rparr>\<rparr>"
  note no = marked_not_connectable [OF c, of now b]
  show "host_status_ok (host_uri E export) b ?y" using no by (simp add: host_status_ok_def)
  fix e
  assume "P b" "e_Spec e = e_Spec b" "e_Status e = e_Status ?y" "deletion e = deletion b"
  moreover from this no have "\<not> connectable e" by (simp add: connectable_def ExportDegraded_def)
  ultimately show "P2 e" using kept by simp
qed (use ok err in auto)

definition undeleted :: "NBDExport \<Rightarrow> bool" where
  "undeleted e \<longleftrightarrow> deletion e = None"

lemma wp_ensure_finalizer:
  assumes h: "host_holding undeleted name export E b w"
    and ok: "\<And>e w2. host_holding undeleted name export E e w2 \<Longrightarrow> Q (Inr e) w2"
    and err: "\<And>err w2. host_keeps name export E w2 \<Longrightarrow> Q (Inl err) w2"
  shows "wp (\<lambda>c. True) (export_ensure_finalizer b) Q E w"
  unfolding export_ensure_finalizer_def
  using h ok err
  by (auto simp: AddFinalizer_def Let_def host_update_ok_def same_export_def undeleted_def
      intro!: wp_basic wp_host_update [OF h, where ?P2.0 = undeleted])

lemma wp_mark_stopping:
  assumes h: "host_holding undeleted name export E b w"
    and ok: "\<And>e w2. host_holding undeleted name export E e w2 \<Longrightarrow> Q (Inr e) w2"
    and err: "\<And>err w2. host_keeps name export E w2 \<Longrightarrow> Q (Inl err) w2"
  shows "wp (\<lambda>c. True) (export_mark_stopping b) Q E w"
  unfolding export_mark_stopping_def
  by (intro wp_if wp_bindE wp_basic on_success_known wp_host_mark [OF h, where ?P2.0 = undeleted])
    (use h ok err in \<open>auto simp: undeleted_def\<close>)

lemma quiet_server: "emits quiet_call (StartExport ex p)" "emits quiet_call (CheckExportHealth ex)"
   apply (rule emits_mono [OF emits_StartExport]; auto simp: serves_def)
  apply (rule emits_mono [OF emits_CheckExportHealth]; auto)
  done

lemma StartExport_uri: "StartExport ex p E w = (Inr uri, w2) \<Longrightarrow> uri = host_uri E ex"
  by (auto simp: StartExport_def io_result host_uri_def)

lemma wp_export_start:
  assumes h: "host_holding undeleted name export E b w"
    and ok: "\<And>e w2. host_holding undeleted name export E e w2 \<Longrightarrow> Q (Inr e) w2"
    and err: "\<And>err w2. host_keeps name export E w2 \<Longrightarrow> Q (Inl err) w2"
  shows "wp (\<lambda>c. True) (export_start b) Q E w"
proof -
  have report: "wp (\<lambda>c. True) (export_statusUpdate (fst (set_export_condition now export_ready (set_URI uri b)))) Q E w2"
    if "host_holding undeleted name export E b w2" and b: "uri_of b = []" "uri = host_uri E (es_Export (e_Spec b))"
    for now uri w2
    unfolding export_statusUpdate_def
    by (rule wp_host_status [OF that(1), where ?P2.0 = undeleted])
      (use b in \<open>auto simp: host_status_ok_def undeleted_def set_URI_def intro: ok err\<close>)
  show ?thesis
    unfolding export_start_def
    by (intro wp_bindE wp_basic on_success_known wp_if wp_host_quiet_holding [OF quiet_server(1) h] on_successI)
      (use h in \<open>auto dest: StartExport_uri intro: report ok err host_holding_keeps\<close>)
qed

lemma wp_check_health:
  assumes h: "host_holding P name export E b w"
    and all: "\<And>r w2. host_keeps name export E w2 \<Longrightarrow> Q r w2"
  shows "wp (\<lambda>c. True) (export_check_health b) Q E w"
proof -
  have report: "wp (\<lambda>c. True) (case set_export_condition now export_device_error b of (x, changed) \<Rightarrow>
      thenE (if changed then thenE (export_statusUpdate x) (ret ()) else ret ()) (fail err)) Q E w2"
    if h2: "host_holding P name export E b w2" for now err w2
    unfolding split_beta
    by (intro wp_thenE wp_if wp_basic wp_host_mark [OF h2, where ?P2.0 = "\<lambda>e. True"] on_success_known)
      (auto intro: all host_holding_keeps [OF h2] host_holding_keeps)
  show ?thesis
    unfolding export_check_health_def
    by (intro wp_if wp_bindE wp_attempt wp_host_quiet_holding [OF quiet_server(2) h] on_success_known wp_case wp_basic)
      (use h in \<open>auto intro: all report host_holding_keeps\<close>)
qed

text \<open>Every call of StopExport is one the host may make once it holds a sealed export without members.\<close>

definition stoppable :: "NBDExport \<Rightarrow> bool" where
  "stoppable e \<longleftrightarrow> sealed e \<and> members e = []"

lemma stop_call_allowed:
  assumes "host_holding stoppable name export E b w"
    and "c = QmpConnect \<or> (\<exists>i. c = Qmp (QmpBlockExportDel i)) \<or> (\<exists>n. c = Qmp (QmpBlockdevDel n))"
  shows "host_holding stoppable name export E b (after w c)"
  using assms
  by (auto simp: host_holding_def host_at_after event_of_def host_party_def stoppable_def)

lemma stop_calls_allowed:
  assumes "host_holding stoppable name export E b w" and "trace w2 = trace w @ cs"
    and "\<forall>c\<in>set cs. c = QmpConnect \<or> (\<exists>i. c = Qmp (QmpBlockExportDel i)) \<or> (\<exists>n. c = Qmp (QmpBlockdevDel n))"
  shows "host_holding stoppable name export E b w2"
  using assms
proof (induction cs arbitrary: w)
  case Nil
  then show ?case by (simp add: host_holding_def host_at_def judged_def trace_events_def)
next
  case (Cons c cs)
  from Cons.prems(3) have "host_holding stoppable name export E b (after w c)"
    by (intro stop_call_allowed [OF Cons.prems(1)]) simp
  then show ?case by (rule Cons.IH) (use Cons.prems(2,3) in simp_all)
qed

lemma wp_StopExport:
  assumes "host_holding stoppable name export E b w"
    and "\<And>r w2. host_holding stoppable name export E b w2 \<Longrightarrow> Q r w2"
  shows "wp (\<lambda>c. True) (StopExport ex) Q E w"
proof (rule wp_emits [OF emits_StopExport])
  fix r w2
  assume "StopExport ex E w = (r, w2)"
  with emits_StopExport [of ex] obtain cs where "trace w2 = trace w @ cs"
    "\<forall>c\<in>set cs. c = QmpConnect \<or> (\<exists>i. c = Qmp (QmpBlockExportDel i)) \<or> (\<exists>n. c = Qmp (QmpBlockdevDel n))"
    unfolding emits_def by (metis snd_conv)
  with assms stop_calls_allowed show "Q r w2" by blast
qed simp

lemma wp_stop_and_release:
  assumes h: "host_holding sealed name export E b w"
    and all: "\<And>r w2. host_keeps name export E w2 \<Longrightarrow> Q r w2"
  shows "wp (\<lambda>c. True) (stop_and_release b) Q E w"
proof (cases "members b = []")
  case False
  with h show ?thesis by (simp add: stop_and_release_def wp_basic all host_holding_keeps)
next
  case True
  with h have h2: "host_holding stoppable name export E b w" by (auto simp: host_holding_def stoppable_def)
  have "wp (\<lambda>c. True) (thenE (StopExport (es_Export (e_Spec b)))
          (thenE (export_update (b\<lparr>e_Meta := fst (RemoveFinalizer (e_Meta b) Finalizer)\<rparr>)) (ret ()))) Q E w"
  proof (intro wp_thenE wp_StopExport [OF h2] on_successI)
    fix w3
    assume h3: "host_holding stoppable name export E b w3"
    show "wp (\<lambda>c. True) (export_update (b\<lparr>e_Meta := fst (RemoveFinalizer (e_Meta b) Finalizer)\<rparr>))
        (on_success (\<lambda>x. wp (\<lambda>c. True) (ret ()) Q E) (\<lambda>e. Q (Inl e))) E w3"
      by (rule wp_host_update [OF h3, where ?P2.0 = "\<lambda>e. True"])
        (auto simp: host_update_ok_def same_export_def RemoveFinalizer_def Let_def intro!: wp_basic all
          intro: host_holding_keeps)
  qed (auto intro: all host_holding_keeps)
  with True show ?thesis by (simp add: stop_and_release_def)
qed

definition marked_deleted :: "NBDExport \<Rightarrow> bool" where
  "marked_deleted e \<longleftrightarrow> deletion e \<noteq> None"

lemma wp_reconcileDeleting:
  assumes h: "host_holding marked_deleted name export E b w"
    and all: "\<And>r w2. host_keeps name export E w2 \<Longrightarrow> Q r w2"
  shows "wp (\<lambda>c. True) (export_reconcileDeleting b) Q E w"
proof -
  have already: "host_holding sealed name export E b w" if "ExportDegraded b"
    using h that by (auto simp: host_holding_def marked_deleted_def sealed_def connectable_def)
  show ?thesis
    unfolding export_reconcileDeleting_split
    by (intro wp_bindE wp_if wp_basic on_success_known wp_host_mark [OF h, where ?P2.0 = sealed] wp_stop_and_release)
      (auto simp: marked_deleted_def sealed_def intro: all already host_holding_keeps)
qed

text \<open>The whole reconciliation.\<close>

definition host_agreement :: "string \<Rightarrow> env \<Rightarrow> world \<Rightarrow> goerr + unit \<Rightarrow> world \<Rightarrow> bool" where
  "host_agreement name E w r w2 \<longleftrightarrow>
     (\<forall>export. host_keeps name export E w \<longrightarrow> host_keeps name export E w2)"

lemma wp_export_Reconcile:
  assumes keeps: "host_keeps name export E w"
  shows "wp (\<lambda>c. True) (export_Reconcile name) (\<lambda>r w2. host_keeps name export E w2) E w"
proof -
  let ?Q = "\<lambda>r w2. host_keeps name export E w2"
  let ?w = "after w (ExportCall (ApiGet name))"
  have staying: "wp (\<lambda>c. True) (bindE (export_ensure_finalizer b) (\<lambda>b. bindE (export_mark_stopping b) (\<lambda>b.
      bindE (export_start b) (\<lambda>b. export_check_health b)))) ?Q E ?w"
    if "host_holding undeleted name export E b ?w" for b
    by (rule wp_bindE, rule wp_ensure_finalizer [OF that], rule on_success_known,
        rule wp_bindE, rule wp_mark_stopping, assumption, rule on_success_known,
        rule wp_bindE, rule wp_export_start, assumption, rule on_success_known,
        rule wp_check_health, assumption) simp_all
  have got: "wp (\<lambda>c. True) (bindE (askEnv LocalNodeName) (\<lambda>node.
             if es_Host (e_Spec b) \<noteq> node then ret ()
             else if deletion b \<noteq> None then export_reconcileDeleting b
             else bindE (export_ensure_finalizer b) (\<lambda>b. bindE (export_mark_stopping b) (\<lambda>b.
               bindE (export_start b) (\<lambda>b. export_check_health b))))) ?Q E ?w"
    if "host_holding (\<lambda>b. True) name export E b ?w" for b
    by (intro wp_bindE [of _ "askEnv f" for f] wp_basic on_success_known wp_if wp_reconcileDeleting staying)
      (use that in \<open>auto simp: host_holding_def marked_deleted_def undeleted_def host_keeps_def\<close>)
  have "wp (\<lambda>c. True) (case cl_Get (exports E) (trace w) name of
        Inl err \<Rightarrow> returnErr (IgnoreNotFound (Some err))
      | Inr b \<Rightarrow> bindE (askEnv LocalNodeName) (\<lambda>node.
             if es_Host (e_Spec b) \<noteq> node then ret ()
             else if deletion b \<noteq> None then export_reconcileDeleting b
             else bindE (export_ensure_finalizer b) (\<lambda>b. bindE (export_mark_stopping b) (\<lambda>b.
               bindE (export_start b) (\<lambda>b. export_check_health b))))) ?Q E ?w"
  proof (cases "cl_Get (exports E) (trace w) name")
    case (Inl err)
    with host_get_failed [OF keeps Inl] show ?thesis by (simp add: wp_lift)
  next
    case (Inr b)
    with got [OF host_got [OF keeps Inr]] show ?thesis by simp
  qed
  then show ?thesis
    unfolding export_Reconcile_def
    by (intro wp_bindE [of _ "attempt m" for m] wp_attempt wp_api on_success_known TrueI)
qed

lemma export_Reconcile_agrees: "behaves (export_Reconcile name) (host_agreement name)"
  using wp_result [OF wp_export_Reconcile] by (intro behavesI) (auto simp: host_agreement_def)

section \<open>Shutdown\<close>

text \<open>
  The goroutine that asks for the end of all exports when the process is told to stop works on
  objects of its own, next to the controllers.  It is a party of its own kind: a client that
  never joins, under a name that is no node's.  A list names an object once.
\<close>

definition shutdown_at :: "string \<Rightarrow> string \<Rightarrow> string \<Rightarrow> env \<Rightarrow> world \<Rightarrow> client_role verdict" where
  "shutdown_at n name uri E w = judged (client_party name uri n) (client_start None) name E w"

definition lists_once :: "env \<Rightarrow> bool" where
  "lists_once E \<longleftrightarrow> (\<forall>h items. cl_List (exports E) h = Inr items \<longrightarrow> distinct (map export_name items))"

definition holds_named :: "string \<Rightarrow> NBDExport list \<Rightarrow> client_role verdict \<Rightarrow> bool" where
  "holds_named name items v \<longleftrightarrow> v \<noteq> Violated \<and>
     (\<forall>e\<in>set items. export_name e = name \<longrightarrow> v = Impossible \<or> (\<exists>c. v = Going c \<and> cr_held c = Some e))"

lemma shutdown_at_after:
  "shutdown_at n name uri E (after w c) =
    (case event_of name E (trace w) c of
       None \<Rightarrow> shutdown_at n name uri E w
     | Some ev \<Rightarrow> judge (client_party name uri n) (shutdown_at n name uri E w) ev)"
  by (simp add: shutdown_at_def judged_after split: option.split)

lemma listed_held:
  assumes "shutdown_at n name uri E w \<noteq> Violated" and "cl_List (exports E) (trace w) = Inr items"
    and "distinct (map export_name items)"
  shows "holds_named name items (shutdown_at n name uri E (after w (ExportCall ApiList)))"
proof (cases "List.find (\<lambda>e. export_name e = name) items")
  case None
  with assms(1,2) have "shutdown_at n name uri E (after w (ExportCall ApiList)) = shutdown_at n name uri E w"
    by (simp add: shutdown_at_after event_of_def listed_def)
  with None assms(1) show ?thesis by (auto simp: holds_named_def find_None_iff)
next
  case (Some e)
  then have "e \<in> set items" "export_name e = name" by (auto simp: find_Some_iff)
  with assms(3) have one: "x = e" if "x \<in> set items" "export_name x = name" for x
    using that by (metis (mono_tags) distinct_map inj_onD)
  from assms(1,2) Some one show ?thesis
    by (cases "shutdown_at n name uri E w")
      (auto simp: holds_named_def shutdown_at_after event_of_def listed_def client_party_def)
qed

lemma path_cleared:
  assumes "holds_named name (e # items) (shutdown_at n name uri E w)" and "export_name e \<notin> set (map export_name items)"
  shows "holds_named name items (shutdown_at n name uri E (after w (ExportCall (ApiUpdate (set_Path [] e)))))"
proof (cases "export_name e = name")
  case False
  with assms(1) show ?thesis
    by (auto simp: holds_named_def shutdown_at_after event_of_def set_Path_def)
next
  case True
  let ?v = "shutdown_at n name uri E (after w (ExportCall (ApiUpdate (set_Path [] e))))"
  from True assms(1) have "shutdown_at n name uri E w = Impossible \<or>
      (\<exists>c. shutdown_at n name uri E w = Going c \<and> cr_held c = Some e)"
    by (simp add: holds_named_def)
  then have "?v \<noteq> Violated"
    by (cases "cl_Update (exports E) (trace w) (set_Path [] e)")
      (auto simp: shutdown_at_after event_of_def answer_event_def client_party_def set_Path_def same_export_def
        split: if_splits)
  moreover from True assms(2) have "\<forall>x\<in>set items. export_name x \<noteq> name"
    by (metis image_eqI image_set)
  ultimately show ?thesis by (simp add: holds_named_def)
qed

lemma paths_cleared:
  assumes "holds_named name items (shutdown_at n name uri E w)" and "distinct (map export_name items)"
    and "trace w2 = trace w @ map (\<lambda>e. ExportCall (ApiUpdate (set_Path [] e))) (filter P items)"
  shows "shutdown_at n name uri E w2 \<noteq> Violated"
  using assms
proof (induction items arbitrary: w)
  case Nil
  then show ?case by (simp add: holds_named_def shutdown_at_def judged_def trace_events_def)
next
  case (Cons e items)
  show ?case
  proof (cases "P e")
    case True
    have "holds_named name items (shutdown_at n name uri E (after w (ExportCall (ApiUpdate (set_Path [] e)))))"
      by (rule path_cleared [OF Cons.prems(1)]) (use Cons.prems(2) in simp)
    then show ?thesis by (rule Cons.IH) (use Cons.prems(2,3) True in simp_all)
  next
    case False
    have "holds_named name items (shutdown_at n name uri E w)"
      using Cons.prems(1) by (simp add: holds_named_def)
    then show ?thesis by (rule Cons.IH) (use Cons.prems(2,3) False in simp_all)
  qed
qed

definition shutdown_agreement :: "string \<Rightarrow> string \<Rightarrow> string \<Rightarrow> env \<Rightarrow> world \<Rightarrow> goerr + unit \<Rightarrow> world \<Rightarrow> bool" where
  "shutdown_agreement n name uri E w r w2 \<longleftrightarrow>
     (lists_once E \<longrightarrow> shutdown_at n name uri E w \<noteq> Violated \<longrightarrow> shutdown_at n name uri E w2 \<noteq> Violated)"

lemma trigger_pass_agrees: "behaves trigger_pass (shutdown_agreement n name uri)"
proof (rule behavesI)
  fix E w r w2
  assume run: "trigger_pass E w = (r, w2)"
  show "shutdown_agreement n name uri E w r w2"
    unfolding shutdown_agreement_def
  proof (intro impI)
    assume once: "lists_once E" and keeps: "shutdown_at n name uri E w \<noteq> Violated"
    show "shutdown_at n name uri E w2 \<noteq> Violated"
    proof (cases "cl_List (exports E) (trace w)")
      case (Inl err)
      with run have "w2 = after w (ExportCall ApiList)"
        by (auto simp: trigger_pass_def api_list_def bindE_def invoke_def after_def)
      with keeps Inl show ?thesis by (simp add: shutdown_at_after event_of_def listed_def)
    next
      case (Inr items)
      with once have d: "distinct (map export_name items)" by (simp add: lists_once_def)
      obtain err w1 where "foldE trigger_one items None E (after w (ExportCall ApiList)) = (Inr err, w1)"
        and tr: "trace w1 = trace (after w (ExportCall ApiList)) @
          map (\<lambda>e. ExportCall (ApiUpdate (set_Path [] e))) (filter (to_stop (LocalNodeName E)) items)"
        using trigger_all_run by blast
      with run Inr have "w2 = w1"
        by (auto simp: trigger_pass_def api_list_def bindE_def invoke_def after_def returnErr_run)
      with paths_cleared [OF listed_held [OF keeps Inr d] d tr] show ?thesis by simp
    qed
  qed
qed

lemma RetryOnConflict_keeps:
  assumes "\<And>w r w2. m E w = (r, w2) \<Longrightarrow> P w \<Longrightarrow> P w2" and "P w" and "RetryOnConflict k m E w = (r, w2)"
  shows "P w2"
  using assms(2,3)
proof (induction k arbitrary: w)
  case (Suc k)
  obtain r1 w1 where m: "m E w = (r1, w1)" by fastforce
  with assms(1) Suc.prems(1) have "P w1" by blast
  with Suc m show ?case
    by (auto simp: bindE_def attempt_def split: sum.splits if_splits)
qed simp

lemma triggerCleanup_agrees: "behaves triggerCleanup (shutdown_agreement n name uri)"
proof (rule behavesI)
  fix E w r w2
  assume "triggerCleanup E w = (r, w2)"
  then show "shutdown_agreement n name uri E w r w2"
    unfolding shutdown_agreement_def triggerCleanup_def
    using RetryOnConflict_keeps [of trigger_pass E "\<lambda>w. shutdown_at n name uri E w \<noteq> Violated" w 5 r w2]
      behavesD [OF trigger_pass_agrees [of n name uri], of E]
    unfolding shutdown_agreement_def by blast
qed

end
