(* ===== verification/Nbd_Deployment.thy ===== *)
theory Nbd_Deployment
  imports Nbd_System Nbd_Client_Role Nbd_Host_Role "HOL-Library.Sublist"
begin

text \<open>
  The code in the places of the parties: the nodes run the volume controller, the host runs the
  NBD export controller, a process that is told to stop runs triggerCleanup.  What they do to the
  export is read off the traces of their runs, the API server answers as it is documented to,
  and anybody may ask for the deletion of the object.
\<close>

section \<open>Processes\<close>

text \<open>A process of the volume controller: the table of devices is rebuilt, then thin volumes whose
  status names the export are reconciled, any number of times and in any state.\<close>

inductive client_process :: "string \<Rightarrow> env \<Rightarrow> (string \<times> string) list \<Rightarrow> world \<Rightarrow> bool" for name E where
  booted: "Startup E init_world = (r, w) \<Longrightarrow> client_process name E (nbd_clients w) w"
| reconciled: "client_process name E t w \<Longrightarrow> vst_NBDExport (v_Status volume) = name \<Longrightarrow>
    reconcileThin volume E w = (r, w2) \<Longrightarrow> client_process name E t w2"

inductive host_process :: "string \<Rightarrow> env \<Rightarrow> world \<Rightarrow> bool" for name E where
  idle: "host_process name E init_world"
| reconciled: "host_process name E w \<Longrightarrow> export_Reconcile name E w = (r, w2) \<Longrightarrow> host_process name E w2"

lemma trace_events_init [simp]: "trace_events name E init_world = []"
  by (simp add: trace_events_def init_world_def)

text \<open>While the table is rebuilt a device can only turn out to be gone.\<close>

lemma startup_calls:
  assumes "client_at name uri d0 E w = Going c" and "cr_device c = d0 \<or> cr_device c = None"
    and "trace w2 = trace w @ cs" and "\<forall>c\<in>set cs. c = GlobNbd \<or> (\<exists>dev. c = backend_call dev)"
  shows "\<exists>c2. client_at name uri d0 E w2 = Going c2 \<and> (cr_device c2 = d0 \<or> cr_device c2 = None)"
  using assms
proof (induction cs arbitrary: w c)
  case Nil
  then show ?case by (auto simp: client_at_def judged_def trace_events_def)
next
  case (Cons call cs)
  have "event_of name E (trace w) call = None \<or> (\<exists>p t. event_of name E (trace w) call = Some (BackendRead p t))"
    using Cons.prems(4)
    by (auto simp: event_of_def backend_call_def host_call_def exec_event_def split: exec_outcome.split)
  with Cons.prems(1,2) have "\<exists>c2. client_at name uri d0 E (after w call) = Going c2 \<and>
      (cr_device c2 = d0 \<or> cr_device c2 = None)"
    by (auto simp: client_at_after client_party_def split: option.split option.split_asm if_splits)
  then obtain c2 where "client_at name uri d0 E (after w call) = Going c2" "cr_device c2 = d0 \<or> cr_device c2 = None"
    by blast
  then show ?case by (rule Cons.IH) (use Cons.prems(3,4) in simp_all)
qed

lemma client_process_keeps:
  assumes "client_process name E t w" and "status_echoed E"
  shows "client_keeps name uri (map_of t uri) E w"
  using assms(1)
proof (induction rule: client_process.induct)
  case (booted r w)
  have "emits (\<lambda>E c. c = GlobNbd \<or> (\<exists>dev. c = backend_call dev)) Startup" by (rule emits_Startup)
  with booted obtain cs where cs: "trace w = trace init_world @ cs"
    "\<forall>c\<in>set cs. c = GlobNbd \<or> (\<exists>dev. c = backend_call dev)"
    unfolding emits_def by (metis snd_conv)
  have "client_at name uri (map_of (nbd_clients w) uri) E init_world = Going (client_start (map_of (nbd_clients w) uri))"
    by (simp add: client_at_def judged_def)
  from startup_calls [OF this _ cs] show ?case
    by (auto simp: client_keeps_def tabled_def client_start_def)
next
  case (reconciled t w volume r w2)
  with behavesD [OF reconcileThin_agrees reconciled.hyps(3)] assms(2) show ?case
    by (simp add: keeps_agreement_def)
qed

lemma host_process_keeps:
  "host_process name E w \<Longrightarrow> host_keeps name export E w"
proof (induction rule: host_process.induct)
  case idle
  then show ?case by (simp add: host_keeps_def host_at_def judged_def)
next
  case (reconciled w r w2)
  with behavesD [OF export_Reconcile_agrees reconciled.hyps(2)] show ?case
    by (simp add: host_agreement_def)
qed

section \<open>Deployments\<close>

text \<open>What a party did so far is a beginning of what its process does.  The nodes that run the volume
  controller start with the device in their table; a process told to stop is a party that has none.\<close>

definition client_ran :: "string \<Rightarrow> string \<Rightarrow> string \<Rightarrow> string option \<Rightarrow> nbd_event list \<Rightarrow> bool" where
  "client_ran name uri n d0 evs \<longleftrightarrow>
     evs = [] \<or>
     (\<exists>E t w. LocalNodeName E = n \<and> status_echoed E \<and> client_process name E t w \<and> d0 = map_of t uri \<and>
        prefix evs (trace_events name E w)) \<or>
     (\<exists>E r w. lists_once E \<and> triggerCleanup E init_world = (r, w) \<and> d0 = None \<and>
        prefix evs (trace_events name E w))"

definition host_ran :: "string \<Rightarrow> env \<Rightarrow> nbd_event list \<Rightarrow> bool" where
  "host_ran name E evs \<longleftrightarrow> (\<exists>w. host_process name E w \<and> prefix evs (trace_events name E w))"

definition deployment :: "string \<Rightarrow> string \<Rightarrow> env \<Rightarrow> (string \<Rightarrow> string option) \<Rightarrow> (actor \<times> nbd_event) list \<Rightarrow> bool" where
  "deployment name export E devs run \<longleftrightarrow>
     (\<forall>n. client_ran name (host_uri E export) n (devs n) (events_of (Client n) run)) \<and>
     host_ran name E (events_of Host run) \<and> list_all marks_deletion (events_of Outside run)"

lemma client_ran_keeps:
  assumes "client_ran name uri n d0 evs"
  shows "verdict_of (client_party name uri n) (client_start d0) evs \<noteq> Violated"
  using assms unfolding client_ran_def
proof (elim disjE exE conjE)
  fix E t w
  assume n: "LocalNodeName E = n" and "status_echoed E" "client_process name E t w" and d0: "d0 = map_of t uri"
    and evs: "prefix evs (trace_events name E w)"
  then have "client_keeps name uri d0 E w" using client_process_keeps by simp
  then have "client_at name uri d0 E w \<noteq> Violated" by (auto simp: client_keeps_def)
  with n evs show ?thesis by (auto simp: client_at_def judged_def prefix_def dest: verdict_prefix)
next
  fix E r w
  assume "lists_once E" and run: "triggerCleanup E init_world = (r, w)" and "d0 = None"
    and evs: "prefix evs (trace_events name E w)"
  moreover have "shutdown_at n name uri E init_world \<noteq> Violated" by (simp add: shutdown_at_def judged_def)
  ultimately have "shutdown_at n name uri E w \<noteq> Violated"
    using behavesD [OF triggerCleanup_agrees [of n name uri] run] by (simp add: shutdown_agreement_def)
  with evs \<open>d0 = None\<close> show ?thesis by (auto simp: shutdown_at_def judged_def prefix_def dest: verdict_prefix)
qed simp

lemma host_ran_keeps:
  assumes "host_ran name E evs"
  shows "verdict_of (host_party name (host_uri E export) export) None evs \<noteq> Violated"
proof -
  from assms obtain w where "host_process name E w" and evs: "prefix evs (trace_events name E w)"
    by (auto simp: host_ran_def)
  with host_process_keeps have "host_at name export E w \<noteq> Violated" by (simp add: host_keeps_def)
  with evs show ?thesis by (auto simp: host_at_def judged_def prefix_def dest: verdict_prefix)
qed

lemma deployment_keeps:
  assumes "deployment name export E devs run"
  shows "parties_keep name (host_uri E export) export (\<lambda>n. client_start (devs n)) None run"
  using assms client_ran_keeps host_ran_keeps by (simp add: deployment_def parties_keep_def)

text \<open>A node without a device at the end of a run.\<close>

definition without_device :: "string \<Rightarrow> string \<Rightarrow> (string \<Rightarrow> string option) \<Rightarrow> (actor \<times> nbd_event) list \<Rightarrow> string \<Rightarrow> bool" where
  "without_device name uri devs run n \<longleftrightarrow>
     (\<exists>c. verdict_of (client_party name uri n) (client_start (devs n)) (events_of (Client n) run) = Going c \<and>
        cr_device c = None)"

lemma deployment_safe:
  assumes "agreement_starts name (host_uri E export) export e0 devs"
    and "served True run ([e0], \<lambda>a. 0) \<noteq> None"
    and "deployment name export E devs run"
    and "(Host, Stopping) \<in> set run"
  shows "without_device name (host_uri E export) devs run n"
  using no_stop_under_client [OF assms(1,2) deployment_keeps [OF assms(3)] assms(4)]
  by (simp add: without_device_def)

end
