(* ===== verification/Nbd_Runs.thy ===== *)
theory Nbd_Runs
  imports Nbd_Deployment Sample
begin

text \<open>
  Two runs of the code itself, at concrete answers.  In the first an export lives its life with
  one client: the node attaches the volume, the object is deleted, the host seals it, the node
  detaches, the host stops the server.  In the second the node joins, fails to connect and
  leaves, and its reads lag behind its writes, as reads through an informer cache may: the next
  attempt first reads the export before the node joined and then the version in which it had not
  left yet, connects without joining, and the server is stopped under it.
\<close>

section \<open>Objects and environments\<close>

definition demo_uri :: string where
  "demo_uri = ''nbd://10.0.0.7/vol''"

definition demo_export :: "string \<Rightarrow> nat option \<Rightarrow> string list \<Rightarrow> NBDExport" where
  "demo_export rv del nodes =
     \<lparr>e_Meta = (new_meta ''exp'' ''ns'' None)\<lparr>om_ResourceVersion := rv, om_DeletionTimestamp := del,
        om_Finalizers := [Finalizer]\<rparr>,
      e_Spec = \<lparr>es_Export = ''vol'', es_Path = ''/dev/vg/vol'', es_Host = ''host'', es_SizeBytes = 1024,
        es_Clients = nodes\<rparr>,
      e_Status = \<lparr>est_ObservedGeneration = 0,
        est_Conditions = fst (SetStatusCondition 0 [] export_ready), est_URI = demo_uri\<rparr>\<rparr>"

definition demo_sealed :: "string \<Rightarrow> string list \<Rightarrow> NBDExport" where
  "demo_sealed rv nodes = fst (set_export_condition 1 export_deleting (demo_export rv (Some 9) nodes))"

text \<open>The numbers of reads and of writes of the export in a history.\<close>

fun export_reads :: "call list \<Rightarrow> nat" where
  "export_reads [] = 0"
| "export_reads (ExportCall (ApiGet n) # h) = Suc (export_reads h)"
| "export_reads (c # h) = export_reads h"

fun export_writes :: "call list \<Rightarrow> nat" where
  "export_writes [] = 0"
| "export_writes (ExportCall (ApiUpdate x) # h) = Suc (export_writes h)"
| "export_writes (ExportCall (ApiUpdateStatus x) # h) = Suc (export_writes h)"
| "export_writes (c # h) = export_writes h"

definition at_version :: "string \<Rightarrow> NBDExport \<Rightarrow> NBDExport" where
  "at_version rv e = e\<lparr>e_Meta := (e_Meta e)\<lparr>om_ResourceVersion := rv\<rparr>\<rparr>"

text \<open>The reads give the objects in turn, the writes are stored as the versions in turn.\<close>

definition demo_exports :: "NBDExport list \<Rightarrow> string list \<Rightarrow> NBDExport api_client" where
  "demo_exports objects rvs = (echo_client [])\<lparr>
     cl_Get := (\<lambda>h n. Inr (objects ! export_reads h)),
     cl_Update := (\<lambda>h x. Inr (at_version (rvs ! export_writes h) x)),
     cl_UpdateStatus := (\<lambda>h x. Inr (at_version (rvs ! export_writes h) x))\<rparr>"

definition demo_pool :: ThinPoolLv where
  "demo_pool =
     (let p = sample_pool ''host'' in p\<lparr>p_Meta := sample_meta ''vol'',
        p_Spec := (p_Spec p)\<lparr>ps_ThinLvs :=
          map (\<lambda>l. l\<lparr>ls_Name := VolumeToThinLvName ''vol''\<rparr>) (ps_ThinLvs (p_Spec p))\<rparr>,
        p_Status := (p_Status p)\<lparr>pst_ThinLvs := [\<lparr>lst_Name = VolumeToThinLvName ''vol'',
          lst_State = \<lparr>st_Name = StatusActive, st_Active = Some []\<rparr>, lst_SizeBytes = 1024\<rparr>]\<rparr>\<rparr>)"

definition demo_volume :: "string list \<Rightarrow> Volume" where
  "demo_volume nodes =
     (let v = sample_volume ''vol'' []
      in v\<lparr>v_Spec := sample_spec\<lparr>vs_AttachToNodes := nodes\<rparr>,
           v_Status := (v_Status v)\<lparr>vst_NBDExport := ''exp''\<rparr>\<rparr>)"

definition demo_client :: "NBDExport list \<Rightarrow> string list \<Rightarrow> nat \<Rightarrow> env" where
  "demo_client objects rvs failing =
     (sample_env [] [] [demo_pool] [])\<lparr>LocalNodeName := ''n1'', exports := demo_exports objects rvs,
        env_exec := (\<lambda>h command.
          if ''cat'' \<in> set command then ExecOk demo_uri
          else if ''nbd-client'' \<in> set command \<and> export_writes h = failing then ExecExit 1 []
          else ExecOk ''Connected /dev/nbd0'')\<rparr>"

definition demo_host :: "NBDExport list \<Rightarrow> string list \<Rightarrow> env" where
  "demo_host objects rvs =
     (sample_env [] [] [] [])\<lparr>LocalNodeName := ''host'', PodIP := ''10.0.0.7'', exports := demo_exports objects rvs\<rparr>"

text \<open>A process that attaches the volume and detaches it, in turn, and one that reconciles the export.\<close>

fun demo_reconciles :: "bool list \<Rightarrow> env \<Rightarrow> world \<Rightarrow> world" where
  "demo_reconciles [] E w = w"
| "demo_reconciles (attach # rest) E w =
     demo_reconciles rest E (snd (reconcileThin (demo_volume (if attach then [''host'', ''n1''] else [''host''])) E w))"

fun demo_exports_reconciled :: "nat \<Rightarrow> env \<Rightarrow> world \<Rightarrow> world" where
  "demo_exports_reconciled 0 E w = w"
| "demo_exports_reconciled (Suc k) E w = demo_exports_reconciled k E (snd (export_Reconcile ''exp'' E w))"

definition boot :: "env \<Rightarrow> world" where
  "boot E = snd (Startup E init_world)"

lemma demo_volume_export [simp]: "vst_NBDExport (v_Status (demo_volume nodes)) = ''exp''"
  by (simp add: demo_volume_def Let_def)

lemma demo_client_process:
  "client_process ''exp'' E (nbd_clients (boot E)) (demo_reconciles attaches E (boot E))"
proof -
  have "client_process ''exp'' E t (demo_reconciles attaches E w)" if "client_process ''exp'' E t w" for t w
    using that
  proof (induction attaches arbitrary: w)
    case (Cons attach attaches)
    let ?v = "demo_volume (if attach then [''host'', ''n1''] else [''host''])"
    have "client_process ''exp'' E t (snd (reconcileThin ?v E w))"
      by (rule client_process.reconciled [OF Cons.prems, of ?v "fst (reconcileThin ?v E w)"]) simp_all
    with Cons.IH show ?case by simp
  qed simp
  moreover have "client_process ''exp'' E (nbd_clients (boot E)) (boot E)"
    unfolding boot_def by (rule client_process.booted) (rule prod.collapse [symmetric])
  ultimately show ?thesis by blast
qed

lemma demo_host_process: "host_process ''exp'' E (demo_exports_reconciled k E init_world)"
proof -
  have "host_process ''exp'' E (demo_exports_reconciled k E w)" if "host_process ''exp'' E w" for w
    using that
  proof (induction k arbitrary: w)
    case (Suc k)
    have "host_process ''exp'' E (snd (export_Reconcile ''exp'' E w))"
      by (rule host_process.reconciled [OF Suc.prems, of "fst (export_Reconcile ''exp'' E w)"]) simp
    with Suc.IH show ?case by simp
  qed simp
  then show ?thesis using host_process.idle by blast
qed

lemma demo_client_echoes: "status_echoed (demo_client objects rvs k)"
  by (simp add: status_echoed_def demo_client_def sample_env_def echo_client_def)

lemma demo_client_node [simp]: "LocalNodeName (demo_client objects rvs k) = ''n1''"
  by (simp add: demo_client_def)

lemma demo_host_uri: "host_uri (demo_host objects rvs) ''vol'' = demo_uri"
  by code_simp

text \<open>Events of the node, cut in two, with those of the host in between.\<close>

definition demo_run :: "nat \<Rightarrow> nbd_event list \<Rightarrow> NBDExport \<Rightarrow> nat \<Rightarrow> nbd_event list \<Rightarrow> (actor \<times> nbd_event) list" where
  "demo_run k cs marked m hs =
     map (Pair (Client ''n1'')) (take k cs) @ [(Outside, DeletionMarked marked)] @
     map (Pair Host) (take m hs) @ map (Pair (Client ''n1'')) (drop k cs) @ map (Pair Host) (drop m hs)"

lemma events_of_append: "events_of a (xs @ ys) = events_of a xs @ events_of a ys"
  by (simp add: events_of_def)

lemma events_of_map: "events_of a (map (Pair b) evs) = (if a = b then evs else [])"
  by (induction evs) auto

lemma demo_run_events:
  "events_of (Client n) (demo_run k cs marked m hs) = (if n = ''n1'' then cs else [])"
  "events_of Host (demo_run k cs marked m hs) = hs"
  "events_of Outside (demo_run k cs marked m hs) = [DeletionMarked marked]"
  by (simp_all add: demo_run_def events_of_append events_of_map)

lemma boot_empty: "nbd_clients (boot (demo_client os rs fl)) = []"
  by (simp add: boot_def Startup_def demo_client_def sample_env_def io_defs init_world_def)

lemma demo_deployment:
  "deployment ''exp'' ''vol'' (demo_host ho hr) (\<lambda>n. None)
     (demo_run k (trace_events ''exp'' (demo_client os rs fl)
         (demo_reconciles attaches (demo_client os rs fl) (boot (demo_client os rs fl)))) marked m
       (trace_events ''exp'' (demo_host ho hr) (demo_exports_reconciled j (demo_host ho hr) init_world)))"
proof -
  have "client_ran ''exp'' (host_uri (demo_host ho hr) ''vol'') ''n1'' None (trace_events ''exp'' (demo_client os rs fl)
      (demo_reconciles attaches (demo_client os rs fl) (boot (demo_client os rs fl))))"
    unfolding client_ran_def
    using demo_client_process [of "demo_client os rs fl" attaches] demo_client_echoes boot_empty
    by (metis demo_client_node map_of.simps(1) prefix_order.order_refl)
  moreover have "host_ran ''exp'' (demo_host ho hr)
      (trace_events ''exp'' (demo_host ho hr) (demo_exports_reconciled j (demo_host ho hr) init_world))"
    unfolding host_ran_def using demo_host_process by blast
  ultimately show ?thesis
    by (simp add: deployment_def demo_run_events client_ran_def)
qed

section \<open>The life of an export\<close>

definition life_client :: env where
  "life_client = demo_client [demo_export ''0'' None [], demo_export ''0'' None [], demo_sealed ''3'' [''n1'']]
     [''1'', ''4''] 9"

definition life_host :: env where
  "life_host = demo_host [demo_export ''2'' (Some 9) [''n1''], demo_sealed ''4'' []] [''3'', ''5'']"

definition life_client_events :: "nbd_event list" where
  "life_client_events = trace_events ''exp'' life_client (demo_reconciles [True, False] life_client (boot life_client))"

definition life_host_events :: "nbd_event list" where
  "life_host_events = trace_events ''exp'' life_host (demo_exports_reconciled 2 life_host init_world)"

definition life_run :: "(actor \<times> nbd_event) list" where
  "life_run = demo_run 4 life_client_events (demo_export ''2'' (Some 9) [''n1'']) 2 life_host_events"

lemma life_deployed: "deployment ''exp'' ''vol'' life_host (\<lambda>n. None) life_run"
  unfolding life_run_def life_client_events_def life_client_def life_host_events_def life_host_def
  by (rule demo_deployment)

lemma life_served: "served True life_run ([demo_export ''0'' None []], \<lambda>a. 0) \<noteq> None"
  by code_simp

lemma life_stops: "(Host, Stopping) \<in> set life_run"
  by code_simp

lemma demo_starts: "agreement_starts ''exp'' demo_uri ''vol'' (demo_export ''0'' None []) (\<lambda>n. None)"
  by (simp add: agreement_starts_def well_started_def addressed_def demo_export_def demo_uri_def new_meta_def)

section \<open>Stale reads\<close>

definition stale_client :: env where
  "stale_client = demo_client [demo_export ''0'' None [], demo_export ''0'' None [], demo_export ''0'' None [],
     demo_export ''1'' None [''n1'']] [''1'', ''2''] 1"

definition stale_host :: env where
  "stale_host = demo_host [demo_export ''3'' (Some 9) []] [''4'', ''5'']"

definition stale_client_events :: "nbd_event list" where
  "stale_client_events = trace_events ''exp'' stale_client (demo_reconciles [True, True] stale_client (boot stale_client))"

definition stale_host_events :: "nbd_event list" where
  "stale_host_events = trace_events ''exp'' stale_host (demo_exports_reconciled 1 stale_host init_world)"

definition stale_run :: "(actor \<times> nbd_event) list" where
  "stale_run = demo_run (length stale_client_events) stale_client_events (demo_export ''3'' (Some 9) []) 0 stale_host_events"

lemma stale_deployed: "deployment ''exp'' ''vol'' stale_host (\<lambda>n. None) stale_run"
  unfolding stale_run_def stale_client_events_def stale_client_def stale_host_events_def stale_host_def
  by (rule demo_deployment)

lemma stale_served: "served False stale_run ([demo_export ''0'' None []], \<lambda>a. 0) \<noteq> None"
  by code_simp

lemma stale_stops: "(Host, Stopping) \<in> set stale_run"
  by code_simp

lemma stale_client_end:
  "verdict_of (client_party ''exp'' demo_uri ''n1'') (client_start None) stale_client_events =
     Going \<lparr>cr_held = Some (demo_export ''1'' None [''n1'']), cr_device = Some ''nbd0''\<rparr>"
  by code_simp

text \<open>A node that has a device attached at the end of a run in which the server was stopped.\<close>

definition stopped_under :: "string \<Rightarrow> string \<Rightarrow> (actor \<times> nbd_event) list \<Rightarrow> string \<Rightarrow> bool" where
  "stopped_under name uri run n \<longleftrightarrow> (Host, Stopping) \<in> set run \<and>
     (\<exists>c. verdict_of (client_party name uri n) (client_start None) (events_of (Client n) run) = Going c \<and>
        cr_device c \<noteq> None)"

lemma stale_under: "stopped_under ''exp'' demo_uri stale_run ''n1''"
  using stale_stops stale_client_end by (auto simp: stopped_under_def stale_run_def demo_run_events)

end
