(* ===== verification/Nbd_Properties.thy ===== *)
theory Nbd_Properties
  imports Nbd_Runs
begin

text \<open>
  The properties of the agreement on NBD exports: the safety of a deployment, the parts the code
  plays in it, and the two places where it is not enough.
\<close>

section \<open>Safety of a deployment\<close>





section \<open>The parts of the code\<close>


text \<open>C3: Whatever the API server and the daemon answer, reconciling an export keeps the node to the
  host's part: it keeps the members, gives the URI once, makes a deleted export unavailable and never
  available again, and begins to stop the server only when no member is left.\<close>

theorem export_keeps_agreement: "behaves (export_Reconcile name) (host_agreement name)"
  by (rule export_Reconcile_agrees)

text \<open>A process that is told to stop clears paths of its exports by writes that the agreement
  allows every party, and never touches the members.\<close>

theorem shutdown_keeps_agreement: "behaves triggerCleanup (shutdown_agreement n name uri)"
  by (rule triggerCleanup_agrees)

section \<open>Where it is not enough\<close>

text \<open>C39: Without the assumption that a party reads its own writes the code does not protect its
  clients: in a run of the code, with reads that lag behind but never go back, a node whose first
  attempt to connect failed finds itself in the version before it left, connects without joining,
  and the server is stopped under it.\<close>

theorem stale_read_stops_server_under_client:
  "deployment ''exp'' ''vol'' stale_host (\<lambda>n. None) stale_run \<and>
   served False stale_run ([demo_export ''0'' None []], \<lambda>a. 0) \<noteq> None \<and>
   stopped_under ''exp'' (host_uri stale_host ''vol'') stale_run ''n1''"
proof -
  have "host_uri stale_host ''vol'' = demo_uri" unfolding stale_host_def by (rule demo_host_uri)
  with stale_deployed stale_served stale_under show ?thesis by simp
qed

text \<open>C40: A node whose device is gone, so that its backend cannot be read, does not leave the export:
  the disconnection fails at that read and the object is not written.\<close>

theorem lost_device_keeps_membership:
  assumes "LocalNodeName E \<in> set (es_Clients (e_Spec export))"
    and "map_of (nbd_clients w) (est_URI (e_Status export)) = Some dev"
    and "\<not> is_ok (host_outcome E w [''cat'', ''/sys/block/'' @ dev @ ''/backend''])"
  shows "\<exists>err. DisconnectClient export E w = (Inl err, after w (backend_call dev))"
proof -
  obtain err where "NBDClientBackend dev E w = (Inl err, after w (backend_call dev))"
    using assms(3)
    by (cases "host_outcome E w [''cat'', ''/sys/block/'' @ dev @ ''/backend'']")
      (auto simp: NBDClientBackend_def checkErr_def RunOnHost_eq bindE_def fail_def ret_def backend_call_def)
  then have "NBDClientDisconnect (est_URI (e_Status export)) dev E w = (Inl err, after w (backend_call dev))"
    by (simp add: NBDClientDisconnect_def bindE_def)
  with assms(1,2) show ?thesis
    by (simp add: DisconnectClient_def Let_def thenE_def bindE_def askEnv_def getW_def)
qed

theorem lost_device_keeps_membership_witness:
  "\<exists>err. DisconnectClient (demo_export ''1'' None [''n1''])
      ((demo_client [] [] 9)\<lparr>env_exec := (\<lambda>h c. ExecExit 1 [])\<rparr>)
      (init_world\<lparr>nbd_clients := [(demo_uri, ''nbd0'')]\<rparr>) =
    (Inl err, after (init_world\<lparr>nbd_clients := [(demo_uri, ''nbd0'')]\<rparr>) (backend_call ''nbd0''))"
  by (rule lost_device_keeps_membership)
    (simp_all add: demo_export_def demo_client_def host_outcome_def)

end
