(* ===== verification/Go_Memory.thy ===== *)
theory Go_Memory
  imports Prelude "HOL-Library.Monad_Syntax" "HOL-Library.Sublist" "HOL-Library.AList"
begin

text \<open>
  Memory with aliasing, for the code whose point is which arrays two objects share: the
  DeepCopy functions of api/v1alpha1.  A memory is the list of the arrays allocated so far;
  an address is a position in it, so allocation appends and never moves anything.  new(T) is
  an array of one element, a pointer is an array with an index, a slice is an array with an
  offset and a length, and nil is None.  A reference of the wrong type or out of range, which
  the types of Go exclude, makes an operation None.

  A view reads what a piece of data stands for, following its references; its first argument
  bounds from below the addresses it may follow.  The locale is the contract of a DeepCopy
  function in these terms.
\<close>

section \<open>Arrays, slices and pointers\<close>

type_synonym addr = nat

record goslice =
  sl_Array :: addr
  sl_Off :: nat
  sl_Len :: nat

record goptr =
  pt_Array :: addr
  pt_Idx :: nat

text \<open>One kind of array among the cells of the memory: how it is stored and recognised.\<close>

locale array_kind =
  fixes sel :: "'c \<Rightarrow> 'a list option" and mk :: "'a list \<Rightarrow> 'c"
  assumes sel_mk: "sel (mk xs) = Some xs"
begin

lemma mk_inject: "mk xs = mk ys \<longleftrightarrow> xs = ys"
  using sel_mk by (metis option.inject)

end

definition array_at ::
  "('c \<Rightarrow> 'a list option) \<Rightarrow> nat \<Rightarrow> 'c list \<Rightarrow> addr \<Rightarrow> 'a list option" where
  "array_at sel lo m a = (if lo \<le> a \<and> a < length m then sel (m ! a) else None)"

definition alloc :: "('a list \<Rightarrow> 'c) \<Rightarrow> 'a list \<Rightarrow> 'c list \<Rightarrow> addr \<times> 'c list" where
  "alloc mk xs m = (length m, m @ [mk xs])"

definition load_elem ::
  "('c \<Rightarrow> 'a list option) \<Rightarrow> addr \<Rightarrow> nat \<Rightarrow> 'c list \<Rightarrow> 'a option" where
  "load_elem sel a i m =
     Option.bind (array_at sel 0 m a) (\<lambda>xs. if i < length xs then Some (xs ! i) else None)"

definition store_elem ::
  "('c \<Rightarrow> 'a list option) \<Rightarrow> ('a list \<Rightarrow> 'c) \<Rightarrow> addr \<Rightarrow> nat \<Rightarrow> 'a \<Rightarrow> 'c list \<Rightarrow> 'c list option" where
  "store_elem sel mk a i x m =
     Option.bind (array_at sel 0 m a)
       (\<lambda>xs. if i < length xs then Some (m[a := mk (xs[i := x])]) else None)"

definition slice_elems ::
  "('c \<Rightarrow> 'a list option) \<Rightarrow> nat \<Rightarrow> 'c list \<Rightarrow> goslice \<Rightarrow> 'a list option" where
  "slice_elems sel lo m s =
     Option.bind (array_at sel lo m (sl_Array s))
       (\<lambda>xs. if sl_Off s + sl_Len s \<le> length xs
             then Some (take (sl_Len s) (drop (sl_Off s) xs)) else None)"

section \<open>The shapes of the generated code\<close>

text \<open>
  for i := range *in: (*in)[i].DeepCopyInto(&(*out)[i]), over an array made with the length
  of the source; copy(*out, *in) for elements that are plain values; and new(T) filled by
  DeepCopyInto.  A DeepCopyInto takes what the receiver points to and gives what it leaves
  in *out, with the memory.
\<close>

primrec copy_elems ::
  "('c \<Rightarrow> 'a list option) \<Rightarrow> ('a list \<Rightarrow> 'c) \<Rightarrow> ('a \<Rightarrow> 'c list \<Rightarrow> ('a \<times> 'c list) option) \<Rightarrow>
     goslice \<Rightarrow> addr \<Rightarrow> nat list \<Rightarrow> 'c list \<Rightarrow> 'c list option" where
  "copy_elems sel mk into src dst [] m = Some m"
| "copy_elems sel mk into src dst (i # is) m =
     do { x \<leftarrow> load_elem sel (sl_Array src) (sl_Off src + i) m;
          (y, m) \<leftarrow> into x m;
          m \<leftarrow> store_elem sel mk dst i y m;
          copy_elems sel mk into src dst is m }"

definition make_slice ::
  "('a list \<Rightarrow> 'c) \<Rightarrow> 'a \<Rightarrow> nat \<Rightarrow> 'c list \<Rightarrow> goslice \<times> 'c list" where
  "make_slice mk zero n m =
     (let (a, m) = alloc mk (replicate n zero) m
      in (\<lparr>sl_Array = a, sl_Off = 0, sl_Len = n\<rparr>, m))"

definition slice_DeepCopy ::
  "('c \<Rightarrow> 'a list option) \<Rightarrow> ('a list \<Rightarrow> 'c) \<Rightarrow> 'a \<Rightarrow> ('a \<Rightarrow> 'c list \<Rightarrow> ('a \<times> 'c list) option) \<Rightarrow>
     goslice option \<Rightarrow> 'c list \<Rightarrow> (goslice option \<times> 'c list) option" where
  "slice_DeepCopy sel mk zero into src m =
     (case src of
        None \<Rightarrow> Some (None, m)
      | Some s \<Rightarrow>
          (let (out, m) = make_slice mk zero (sl_Len s) m
           in do { m \<leftarrow> copy_elems sel mk into s (sl_Array out) [0..<sl_Len s] m;
                   Some (Some out, m) }))"

definition slice_copy ::
  "('c \<Rightarrow> 'a list option) \<Rightarrow> ('a list \<Rightarrow> 'c) \<Rightarrow> 'a \<Rightarrow>
     goslice option \<Rightarrow> 'c list \<Rightarrow> (goslice option \<times> 'c list) option" where
  "slice_copy sel mk zero src m =
     (case src of
        None \<Rightarrow> Some (None, m)
      | Some s \<Rightarrow>
          (let (out, m) = make_slice mk zero (sl_Len s) m
           in do { xs \<leftarrow> slice_elems sel 0 m s;
                   ys \<leftarrow> array_at sel 0 m (sl_Array out);
                   Some (Some out, m[sl_Array out := mk (xs @ drop (length xs) ys)]) }))"

definition ptr_DeepCopy ::
  "('c \<Rightarrow> 'a list option) \<Rightarrow> ('a list \<Rightarrow> 'c) \<Rightarrow> 'a \<Rightarrow> ('a \<Rightarrow> 'c list \<Rightarrow> ('a \<times> 'c list) option) \<Rightarrow>
     goptr option \<Rightarrow> 'c list \<Rightarrow> (goptr option \<times> 'c list) option" where
  "ptr_DeepCopy sel mk zero into inp m =
     (case inp of
        None \<Rightarrow> Some (None, m)
      | Some p \<Rightarrow>
          (let (a, m) = alloc mk [zero] m
           in do { x \<leftarrow> load_elem sel (pt_Array p) (pt_Idx p) m;
                   (y, m) \<leftarrow> into x m;
                   m \<leftarrow> store_elem sel mk a 0 y m;
                   Some (Some \<lparr>pt_Array = a, pt_Idx = 0\<rparr>, m) }))"

text \<open>
  A map: a cell with its entries, each key once.  The copy is made empty and takes one entry
  at a time; Go leaves the order open, here it is that of the entries.
\<close>

primrec copy_entries ::
  "('c \<Rightarrow> ('k \<times> 'e) list option) \<Rightarrow> (('k \<times> 'e) list \<Rightarrow> 'c) \<Rightarrow> addr \<Rightarrow> ('k \<times> 'e) list \<Rightarrow>
     'c list \<Rightarrow> 'c list option" where
  "copy_entries sel mk out [] m = Some m"
| "copy_entries sel mk out (e # es) m =
     do { copied \<leftarrow> array_at sel 0 m out;
          copy_entries sel mk out es (m[out := mk (AList.update (fst e) (snd e) copied)]) }"

definition map_DeepCopy ::
  "('c \<Rightarrow> ('k \<times> 'e) list option) \<Rightarrow> (('k \<times> 'e) list \<Rightarrow> 'c) \<Rightarrow>
     addr option \<Rightarrow> 'c list \<Rightarrow> (addr option \<times> 'c list) option" where
  "map_DeepCopy sel mk src m =
     (case src of
        None \<Rightarrow> Some (None, m)
      | Some a \<Rightarrow>
          (let (out, m) = alloc mk [] m
           in do { es \<leftarrow> array_at sel 0 m a;
                   m \<leftarrow> copy_entries sel mk out es m;
                   Some (Some out, m) }))"

text \<open>*out = *in for a type without references.\<close>

definition assign :: "'a \<Rightarrow> 'c list \<Rightarrow> ('a \<times> 'c list) option" where
  "assign x m = Some (x, m)"

section \<open>Views\<close>

type_synonym ('c, 'h, 'v) view = "nat \<Rightarrow> 'c list \<Rightarrow> 'h \<Rightarrow> 'v option"

definition view_plain :: "('c, 'a, 'a) view" where
  "view_plain lo m x = Some x"

definition view_slice :: "('c \<Rightarrow> 'a list option) \<Rightarrow> ('c, 'a, 'v) view \<Rightarrow>
    ('c, goslice option, 'v list) view" where
  "view_slice sel view lo m src =
     (case src of
        None \<Rightarrow> Some []
      | Some s \<Rightarrow> Option.bind (slice_elems sel lo m s) (\<lambda>hs. those (map (view lo m) hs)))"

definition view_ref :: "('c \<Rightarrow> 'a list option) \<Rightarrow> ('c, 'a, 'v) view \<Rightarrow> ('c, goptr, 'v) view" where
  "view_ref sel view lo m p =
     Option.bind (array_at sel lo m (pt_Array p))
       (\<lambda>xs. if pt_Idx p < length xs then view lo m (xs ! pt_Idx p) else None)"

definition view_ptr :: "('c \<Rightarrow> 'a list option) \<Rightarrow> ('c, 'a, 'v) view \<Rightarrow>
    ('c, goptr option, 'v option) view" where
  "view_ptr sel view lo m inp =
     (case inp of None \<Rightarrow> Some None | Some p \<Rightarrow> map_option Some (view_ref sel view lo m p))"

definition view_map :: "('c \<Rightarrow> ('k \<times> 'e) list option) \<Rightarrow>
    ('c, addr option, ('k \<times> 'e) list option) view" where
  "view_map sel lo m src =
     (case src of
        None \<Rightarrow> Some None
      | Some a \<Rightarrow> Option.bind (array_at sel lo m a)
          (\<lambda>es. if distinct (map fst es) then Some (Some es) else None))"

definition view_pair :: "('c, 'h, 'v) view \<Rightarrow> ('c, 'k, 'w) view \<Rightarrow> ('c, 'h \<times> 'k, 'v \<times> 'w) view" where
  "view_pair view1 view2 lo m h =
     do { v \<leftarrow> view1 lo m (fst h); w \<leftarrow> view2 lo m (snd h); Some (v, w) }"

definition into_pair ::
  "('h \<Rightarrow> 'c list \<Rightarrow> ('h \<times> 'c list) option) \<Rightarrow> ('k \<Rightarrow> 'c list \<Rightarrow> ('k \<times> 'c list) option) \<Rightarrow>
     'h \<times> 'k \<Rightarrow> 'c list \<Rightarrow> (('h \<times> 'k) \<times> 'c list) option" where
  "into_pair into1 into2 h m =
     do { (x, m) \<leftarrow> into1 (fst h) m; (y, m) \<leftarrow> into2 (snd h) m; Some ((x, y), m) }"

text \<open>The second memory keeps what the first has from the address on.\<close>

definition keeps :: "nat \<Rightarrow> 'c list \<Rightarrow> 'c list \<Rightarrow> bool" where
  "keeps lo m m' \<longleftrightarrow>
     length m \<le> length m' \<and> (\<forall>a. lo \<le> a \<and> a < length m \<longrightarrow> m' ! a = m ! a)"

lemma keeps_refl [simp]: "keeps lo m m"
  by (simp add: keeps_def)

lemma keeps_trans: "keeps lo m m1 \<Longrightarrow> keeps lo m1 m2 \<Longrightarrow> keeps lo m m2"
  by (auto simp: keeps_def)

lemma prefix_keeps: "prefix m m' \<Longrightarrow> keeps lo m m'"
  by (auto simp: keeps_def prefix_def nth_append)

lemma keeps_higher: "keeps lo m m' \<Longrightarrow> lo \<le> lo' \<Longrightarrow> keeps lo' m m'"
  by (auto simp: keeps_def)

lemma keeps_update_below: "a < lo \<Longrightarrow> keeps lo m (m[a := c])"
  by (auto simp: keeps_def)

lemma keeps_prefix_iff: "keeps 0 m m' \<longleftrightarrow> prefix m m'"
proof
  assume k: "keeps 0 m m'"
  then have "m = take (length m) m'" by (auto simp: keeps_def intro!: nth_equalityI)
  then show "prefix m m'" by (metis take_is_prefix)
qed (rule prefix_keeps)

lemma prefix_update: "prefix m m' \<Longrightarrow> length m \<le> a \<Longrightarrow> prefix m (m'[a := c])"
  by (simp flip: keeps_prefix_iff) (auto simp: keeps_def)

lemma array_at_keeps:
  "array_at sel lo m a = Some xs \<Longrightarrow> keeps lo m m' \<Longrightarrow> array_at sel lo m' a = Some xs"
  by (auto simp: array_at_def keeps_def split: if_splits)

lemma array_at_lower:
  "array_at sel lo m a = Some xs \<Longrightarrow> lo' \<le> lo \<Longrightarrow> array_at sel lo' m a = Some xs"
  by (auto simp: array_at_def split: if_splits)

lemma slice_elems_Some:
  "slice_elems sel lo m s = Some xs \<longleftrightarrow>
    (\<exists>ys. array_at sel lo m (sl_Array s) = Some ys \<and> sl_Off s + sl_Len s \<le> length ys \<and>
      xs = take (sl_Len s) (drop (sl_Off s) ys))"
  by (auto simp: slice_elems_def bind_eq_Some_conv)

lemma slice_elems_keeps:
  "slice_elems sel lo m s = Some xs \<Longrightarrow> keeps lo m m' \<Longrightarrow> slice_elems sel lo m' s = Some xs"
  unfolding slice_elems_Some by (blast intro: array_at_keeps)

lemma slice_elems_lower:
  "slice_elems sel lo m s = Some xs \<Longrightarrow> lo' \<le> lo \<Longrightarrow> slice_elems sel lo' m s = Some xs"
  unfolding slice_elems_Some by (blast intro: array_at_lower)

section \<open>The contract of a DeepCopy function\<close>

locale deep_copier =
  fixes view :: "('c, 'h, 'v) view"
    and into :: "'h \<Rightarrow> 'c list \<Rightarrow> ('h \<times> 'c list) option"
  assumes view_keeps: "view lo m h = Some v \<Longrightarrow> keeps lo m m' \<Longrightarrow> view lo m' h = Some v"
    and view_lower: "view lo m h = Some v \<Longrightarrow> lo' \<le> lo \<Longrightarrow> view lo' m h = Some v"
    and into_copies: "view lo m h = Some v \<Longrightarrow>
      \<exists>h' m'. into h m = Some (h', m') \<and> prefix m m' \<and> view (length m) m' h' = Some v"
begin

text \<open>The copy is not changed by writes to what existed before it.\<close>

lemma copy_independent:
  assumes "view lo m h = Some v" and "into h m = Some (h', m')" and "keeps (length m) m' m''"
  shows "view (length m) m'' h' = Some v"
proof -
  have "view (length m) m' h' = Some v" using into_copies [OF assms(1)] assms(2) by auto
  then show ?thesis using assms(3) by (rule view_keeps)
qed

text \<open>The original is not changed by the copying, nor by writes to the copy.\<close>

lemma original_independent:
  assumes "view lo m h = Some v" and "prefix m m''"
  shows "view lo m'' h = Some v"
  using view_keeps [OF assms(1) prefix_keeps [OF assms(2)]] .

lemma views_keep: "those (map (view lo m) hs) = Some vs \<Longrightarrow> keeps lo m m' \<Longrightarrow>
    those (map (view lo m') hs) = Some vs"
  by (induction hs arbitrary: vs) (auto split: option.splits dest: view_keeps)

lemma views_lower: "those (map (view lo m) hs) = Some vs \<Longrightarrow> lo' \<le> lo \<Longrightarrow>
    those (map (view lo' m) hs) = Some vs"
  by (induction hs arbitrary: vs) (auto split: option.splits dest: view_lower)

end

section \<open>The shapes meet the contract\<close>

text \<open>Types without references, structs of two parts, and a struct seen through its parts.\<close>

interpretation plain: deep_copier "view_plain :: ('c, 'a, 'a) view" assign
  by unfold_locales (simp_all add: view_plain_def assign_def)

lemma view_pair_Some:
  "view_pair view1 view2 lo m h = Some v \<longleftrightarrow>
    view1 lo m (fst h) = Some (fst v) \<and> view2 lo m (snd h) = Some (snd v)"
  by (cases v) (auto simp: view_pair_def bind_eq_Some_conv)

lemma deep_copier_pair:
  assumes "deep_copier view1 into1" and "deep_copier view2 into2"
  shows "deep_copier (view_pair view1 view2) (into_pair into1 into2)"
proof
  fix lo m h v m' assume "view_pair view1 view2 lo m h = Some v" "keeps lo m m'"
  then show "view_pair view1 view2 lo m' h = Some v"
    unfolding view_pair_Some
    by (blast intro: deep_copier.view_keeps [OF assms(1)] deep_copier.view_keeps [OF assms(2)])
next
  fix lo m h v lo' assume "view_pair view1 view2 lo m h = Some v" "lo' \<le> (lo :: nat)"
  then show "view_pair view1 view2 lo' m h = Some v"
    unfolding view_pair_Some
    by (blast intro: deep_copier.view_lower [OF assms(1)] deep_copier.view_lower [OF assms(2)])
next
  fix lo m h v assume "view_pair view1 view2 lo m h = Some v"
  then obtain v1 v2 where v: "view1 lo m (fst h) = Some v1" "view2 lo m (snd h) = Some v2"
      "v = (v1, v2)"
    by (cases v) (simp add: view_pair_Some)
  obtain x m1 where x: "into1 (fst h) m = Some (x, m1)" "prefix m m1"
      "view1 (length m) m1 x = Some v1"
    using deep_copier.into_copies [OF assms(1) v(1)] by blast
  have "view2 lo m1 (snd h) = Some v2"
    using deep_copier.view_keeps [OF assms(2) v(2) prefix_keeps [OF x(2)]] .
  then obtain y m2 where y: "into2 (snd h) m1 = Some (y, m2)" "prefix m1 m2"
      "view2 (length m1) m2 y = Some v2"
    using deep_copier.into_copies [OF assms(2)] by blast
  have "view1 (length m) m2 x = Some v1"
    using deep_copier.view_keeps [OF assms(1) x(3) prefix_keeps [OF y(2)]] .
  moreover have "view2 (length m) m2 y = Some v2"
    using deep_copier.view_lower [OF assms(2) y(3)] x(2) by (simp add: prefix_length_le)
  ultimately show "\<exists>h' m'. into_pair into1 into2 h m = Some (h', m') \<and> prefix m m' \<and>
      view_pair view1 view2 (length m) m' h' = Some v"
    using x y v(3) prefix_order.trans [OF x(2) y(2)] by (simp add: into_pair_def view_pair_Some)
qed

lemma deep_copier_struct:
  assumes "deep_copier view into"
    and views: "\<And>lo m h. view' lo m h = map_option (mk h) (view lo m (get h))"
    and intos: "\<And>h m. into' h m = map_option (\<lambda>(x, m). (upd x h, m)) (into (get h) m)"
    and laws: "\<And>x h. get (upd x h) = x" "\<And>x h. mk (upd x h) = mk h"
  shows "deep_copier view' into'"
proof
  fix lo m h v m' assume "view' lo m h = Some v" "keeps lo m m'"
  then show "view' lo m' h = Some v"
    unfolding views map_option_eq_Some by (blast intro: deep_copier.view_keeps [OF assms(1)])
next
  fix lo m h v lo' assume "view' lo m h = Some v" "lo' \<le> (lo :: nat)"
  then show "view' lo' m h = Some v"
    unfolding views map_option_eq_Some by (blast intro: deep_copier.view_lower [OF assms(1)])
next
  fix lo m h v assume "view' lo m h = Some v"
  then obtain w where w: "view lo m (get h) = Some w" "v = mk h w" by (auto simp: views)
  then obtain x m' where "into (get h) m = Some (x, m')" "prefix m m'" "view (length m) m' x = Some w"
    using deep_copier.into_copies [OF assms(1)] by blast
  then show "\<exists>h' m'. into' h m = Some (h', m') \<and> prefix m m' \<and> view' (length m) m' h' = Some v"
    using w by (auto simp: views intos laws)
qed

lemma those_map_Some:
  "those (map f xs) = Some ys \<longleftrightarrow> list_all2 (\<lambda>x y. f x = Some y) xs ys"
  by (induction xs arbitrary: ys)
    (auto simp: list_all2_Cons1 split: option.splits)

text \<open>Loads and stores in an array that is there.\<close>

lemma load_elem_at:
  "array_at sel lo m a = Some xs \<Longrightarrow> i < length xs \<Longrightarrow> load_elem sel a i m = Some (xs ! i)"
  by (simp add: load_elem_def array_at_lower [where lo' = 0])

lemma store_elem_at:
  "array_at sel lo m a = Some xs \<Longrightarrow> i < length xs \<Longrightarrow>
    store_elem sel mk a i x m = Some (m[a := mk (xs[i := x])])"
  by (simp add: store_elem_def array_at_lower [where lo' = 0])

context array_kind begin

lemma array_at_new: "array_at sel (length m) (m @ [mk xs]) (length m) = Some xs"
  by (simp add: array_at_def sel_mk)

lemma array_at_updated:
  "array_at sel lo m a = Some xs \<Longrightarrow> array_at sel lo (m[a := mk ys]) a = Some ys"
  by (auto simp: array_at_def sel_mk split: if_splits)

lemma view_ref_keeps:
  assumes "deep_copier view into" and "view_ref sel view lo m p = Some v" and "keeps lo m m'"
  shows "view_ref sel view lo m' p = Some v"
  using assms(2) array_at_keeps [OF _ assms(3)] deep_copier.view_keeps [OF assms(1) _ assms(3)]
  by (fastforce simp: view_ref_def bind_eq_Some_conv split: if_splits)

lemma view_ref_lower:
  assumes "deep_copier view into" and "view_ref sel view lo m p = Some v" and "lo' \<le> lo"
  shows "view_ref sel view lo' m p = Some v"
  using assms(2) array_at_lower [OF _ assms(3)] deep_copier.view_lower [OF assms(1) _ assms(3)]
  by (fastforce simp: view_ref_def bind_eq_Some_conv split: if_splits)

text \<open>new(T) filled by DeepCopyInto.\<close>

lemma new_DeepCopyInto:
  assumes "deep_copier view into" and v: "view_ref sel view lo m p = Some v"
  shows "\<exists>q m'. ptr_DeepCopy sel mk zero into (Some p) m = Some (Some q, m') \<and> prefix m m' \<and>
    view_ref sel view (length m) m' q = Some v"
proof -
  let ?m1 = "m @ [mk [zero]]"
  obtain xs where xs: "array_at sel lo m (pt_Array p) = Some xs" "pt_Idx p < length xs"
      "view lo m (xs ! pt_Idx p) = Some v"
    using v by (auto simp: view_ref_def bind_eq_Some_conv split: if_splits)
  have k: "keeps lo m ?m1" by (rule prefix_keeps) simp
  have "view lo ?m1 (xs ! pt_Idx p) = Some v"
    using deep_copier.view_keeps [OF assms(1) xs(3) k] .
  then obtain y m2 where y: "into (xs ! pt_Idx p) ?m1 = Some (y, m2)" "prefix ?m1 m2"
      "view (length ?m1) m2 y = Some v"
    using deep_copier.into_copies [OF assms(1)] by blast
  let ?m3 = "m2[length m := mk [y]]"
  have new: "array_at sel (length m) m2 (length m) = Some [zero]"
    by (rule array_at_keeps [OF array_at_new prefix_keeps [OF y(2)]])
  have st: "store_elem sel mk (length m) 0 y m2 = Some ?m3"
    using store_elem_at [OF new, where i = 0] by simp
  have ld: "load_elem sel (pt_Array p) (pt_Idx p) ?m1 = Some (xs ! pt_Idx p)"
    by (rule load_elem_at [OF array_at_keeps [OF xs(1) k] xs(2)])
  have "view (length ?m1) ?m3 y = Some v"
    by (rule deep_copier.view_keeps [OF assms(1) y(3) keeps_update_below]) simp
  then have "view (length m) ?m3 y = Some v"
    by (rule deep_copier.view_lower [OF assms(1)]) simp
  moreover have "array_at sel (length m) ?m3 (length m) = Some [y]"
    by (rule array_at_updated [OF new])
  moreover have "prefix m ?m3"
    using append_prefixD [OF y(2)] by (rule prefix_update) simp
  ultimately show ?thesis
    by (simp add: ptr_DeepCopy_def alloc_def ld y(1) st view_ref_def)
qed

lemma deep_copier_ptr:
  assumes "deep_copier view into"
  shows "deep_copier (view_ptr sel view) (ptr_DeepCopy sel mk zero into)"
proof
  fix lo m h v m' assume "view_ptr sel view lo m h = Some v" "keeps lo m m'"
  then show "view_ptr sel view lo m' h = Some v"
    by (auto simp: view_ptr_def dest: view_ref_keeps [OF assms] split: option.splits)
next
  fix lo m h v lo' assume "view_ptr sel view lo m h = Some v" "lo' \<le> (lo :: nat)"
  then show "view_ptr sel view lo' m h = Some v"
    by (auto simp: view_ptr_def dest: view_ref_lower [OF assms] split: option.splits)
next
  fix lo m h v assume v: "view_ptr sel view lo m h = Some v"
  show "\<exists>h' m'. ptr_DeepCopy sel mk zero into h m = Some (h', m') \<and> prefix m m' \<and>
      view_ptr sel view (length m) m' h' = Some v"
  proof (cases h)
    case None
    then show ?thesis using v by (simp add: ptr_DeepCopy_def view_ptr_def)
  next
    case (Some p)
    then obtain w where "view_ref sel view lo m p = Some w" "v = Some w"
      using v by (auto simp: view_ptr_def)
    then show ?thesis
      using new_DeepCopyInto [OF assms, where p = p and zero = zero] Some
      by (fastforce simp: view_ptr_def)
  qed
qed

lemma view_slice_keeps:
  assumes "deep_copier view into" and "view_slice sel view lo m s = Some v" and "keeps lo m m'"
  shows "view_slice sel view lo m' s = Some v"
  using assms(2) slice_elems_keeps [OF _ assms(3)] deep_copier.views_keep [OF assms(1) _ assms(3)]
  by (fastforce simp: view_slice_def bind_eq_Some_conv split: option.splits)

lemma view_slice_lower:
  assumes "deep_copier view into" and "view_slice sel view lo m s = Some v" and "lo' \<le> lo"
  shows "view_slice sel view lo' m s = Some v"
  using assms(2) slice_elems_lower [OF _ assms(3)] deep_copier.views_lower [OF assms(1) _ assms(3)]
  by (fastforce simp: view_slice_def bind_eq_Some_conv split: option.splits)

text \<open>The loop over a slice: the elements done so far view as those of the source.\<close>

lemma copy_elems_loop:
  assumes dc: "deep_copier view into"
    and src: "slice_elems sel lo m s = Some hs"
      "list_all2 (\<lambda>h v. view lo m h = Some v) hs vs"
    and "i \<le> length hs" and "prefix m mc" and "dst = length m"
    and "array_at sel dst mc dst = Some (ys @ replicate (length hs - i) zero)"
    and "list_all2 (\<lambda>h v. view (Suc dst) mc h = Some v) ys (take i vs)"
  shows "\<exists>m' zs. copy_elems sel mk into s dst [i..<length hs] mc = Some m' \<and> prefix m m' \<and>
    array_at sel dst m' dst = Some zs \<and>
    list_all2 (\<lambda>h v. view (Suc dst) m' h = Some v) zs vs"
  using assms(4-)
proof (induction "length hs - i" arbitrary: i mc ys)
  case 0
  then show ?case using src(2) by (auto dest: list_all2_lengthD)
next
  case (Suc k)
  have i: "i < length hs" and len: "length hs = length vs" and leny: "length ys = i"
    using Suc.hyps(2) Suc.prems(5) list_all2_lengthD [OF src(2)] list_all2_lengthD [OF Suc.prems(5)]
    by simp_all
  have k: "keeps lo m mc" using Suc.prems(2) by (rule prefix_keeps)
  obtain xs where xs: "array_at sel lo m (sl_Array s) = Some xs"
      "sl_Off s + sl_Len s \<le> length xs" "hs = take (sl_Len s) (drop (sl_Off s) xs)"
    using src(1) unfolding slice_elems_Some by blast
  have ld: "load_elem sel (sl_Array s) (sl_Off s + i) mc = Some (hs ! i)"
    using load_elem_at [OF array_at_keeps [OF xs(1) k], where i = "sl_Off s + i"] xs(2,3) i
    by simp
  have "view lo mc (hs ! i) = Some (vs ! i)"
    using deep_copier.view_keeps [OF dc list_all2_nthD [OF src(2) i] k] .
  then obtain y m1 where y: "into (hs ! i) mc = Some (y, m1)" "prefix mc m1"
      "view (length mc) m1 y = Some (vs ! i)"
    using deep_copier.into_copies [OF dc] by blast
  have dst: "dst < length mc" using Suc.prems(4) by (simp add: array_at_def split: if_splits)
  let ?zs = "ys @ replicate (length hs - i) zero"
  have at1: "array_at sel dst m1 dst = Some ?zs"
    by (rule array_at_keeps [OF Suc.prems(4) prefix_keeps [OF y(2)]])
  let ?m2 = "m1[dst := mk (?zs[i := y])]"
  have st: "store_elem sel mk dst i y m1 = Some ?m2"
    using store_elem_at [OF at1, where i = i] i leny by simp
  have upd: "?zs[i := y] = (ys @ [y]) @ replicate (length hs - Suc i) zero"
    using leny Suc.hyps(2) by (simp add: list_update_append Suc_diff_le flip: replicate_Suc)
      (metis Suc_diff_Suc i list_update_code(2) replicate_Suc)
  have keep: "keeps (Suc dst) m1 ?m2" by (rule keeps_update_below) simp
  have ys: "list_all2 (\<lambda>h v. view (Suc dst) ?m2 h = Some v) ys (take i vs)"
    by (rule list_all2_mono [OF Suc.prems(5)])
      (rule deep_copier.view_keeps [OF dc _ keeps_trans [OF prefix_keeps [OF y(2)] keep]])
  have "view (Suc dst) m1 y = Some (vs ! i)"
    using deep_copier.view_lower [OF dc y(3)] dst by simp
  then have "view (Suc dst) ?m2 y = Some (vs ! i)"
    by (rule deep_copier.view_keeps [OF dc _ keep])
  then have all: "list_all2 (\<lambda>h v. view (Suc dst) ?m2 h = Some v) (ys @ [y]) (take (Suc i) vs)"
    using ys i len by (simp add: take_Suc_conv_app_nth list_all2_appendI)
  have "prefix m ?m2"
    using prefix_order.trans [OF Suc.prems(2) y(2)] by (rule prefix_update) (simp add: Suc.prems(3))
  moreover have "array_at sel dst ?m2 dst =
      Some ((ys @ [y]) @ replicate (length hs - Suc i) zero)"
    using array_at_updated [OF at1] upd by simp
  ultimately have "\<exists>m' zs. copy_elems sel mk into s dst [Suc i..<length hs] ?m2 = Some m' \<and>
      prefix m m' \<and> array_at sel dst m' dst = Some zs \<and>
      list_all2 (\<lambda>h v. view (Suc dst) m' h = Some v) zs vs"
    using Suc.hyps(1) [OF _ _ _ Suc.prems(3)] Suc.hyps(2) i all by simp
  then show ?case by (simp add: upt_conv_Cons i ld y(1) st)
qed

lemma slice_elems_length: "slice_elems sel lo m s = Some hs \<Longrightarrow> length hs = sl_Len s"
  unfolding slice_elems_Some by auto

lemma array_at_made:
  "array_at sel (length m) (m @ [mk (replicate n zero)]) (length m) = Some (replicate n zero)"
  by (rule array_at_new)

lemma made_slice_elems:
  "array_at sel lo m a = Some zs \<Longrightarrow> length zs = n \<Longrightarrow>
    slice_elems sel lo m \<lparr>sl_Array = a, sl_Off = 0, sl_Len = n\<rparr> = Some zs"
  by (simp add: slice_elems_Some)

lemma slice_DeepCopy_copies:
  assumes dc: "deep_copier view into" and v: "view_slice sel view lo m (Some s) = Some vs"
  shows "\<exists>h' m'. slice_DeepCopy sel mk zero into (Some s) m = Some (h', m') \<and> prefix m m' \<and>
    view_slice sel view (length m) m' h' = Some vs"
proof -
  let ?m1 = "m @ [mk (replicate (sl_Len s) zero)]"
  obtain hs where hs: "slice_elems sel lo m s = Some hs"
      "list_all2 (\<lambda>h v. view lo m h = Some v) hs vs"
    using v by (auto simp: view_slice_def bind_eq_Some_conv those_map_Some)
  have n: "length hs = sl_Len s" by (rule slice_elems_length [OF hs(1)])
  obtain m' zs where m': "copy_elems sel mk into s (length m) [0..<length hs] ?m1 = Some m'"
      "prefix m m'" "array_at sel (length m) m' (length m) = Some zs"
      "list_all2 (\<lambda>h v. view (Suc (length m)) m' h = Some v) zs vs"
    using copy_elems_loop [OF dc hs, where i = 0 and mc = ?m1 and dst = "length m" and ys = "[]"
        and zero = zero] array_at_made n
    by auto
  have "length zs = sl_Len s"
    using list_all2_lengthD [OF m'(4)] list_all2_lengthD [OF hs(2)] n by simp
  moreover have "list_all2 (\<lambda>h v. view (length m) m' h = Some v) zs vs"
    by (rule list_all2_mono [OF m'(4)]) (erule deep_copier.view_lower [OF dc], simp)
  ultimately show ?thesis
    using m' n
    by (simp add: slice_DeepCopy_def make_slice_def alloc_def view_slice_def made_slice_elems
        those_map_Some)
qed

lemma deep_copier_slice:
  assumes "deep_copier view into"
  shows "deep_copier (view_slice sel view) (slice_DeepCopy sel mk zero into)"
proof
  fix lo m h v assume v: "view_slice sel view lo m h = Some v"
  show "\<exists>h' m'. slice_DeepCopy sel mk zero into h m = Some (h', m') \<and> prefix m m' \<and>
      view_slice sel view (length m) m' h' = Some v"
    using v slice_DeepCopy_copies [OF assms]
    by (cases h) (simp_all add: slice_DeepCopy_def view_slice_def)
qed (blast intro: view_slice_keeps [OF assms] view_slice_lower [OF assms])+

lemma slice_copy_copies:
  assumes v: "view_slice sel view_plain lo m (Some s) = Some vs"
  shows "\<exists>h' m'. slice_copy sel mk zero (Some s) m = Some (h', m') \<and> prefix m m' \<and>
    view_slice sel view_plain (length m) m' h' = Some vs"
proof -
  let ?m1 = "m @ [mk (replicate (sl_Len s) zero)]"
  have vs: "slice_elems sel lo m s = Some vs"
    using v by (auto simp: view_slice_def bind_eq_Some_conv those_map_Some view_plain_def
        list_all2_eq)
  have n: "length vs = sl_Len s" by (rule slice_elems_length [OF vs])
  have k: "keeps lo m ?m1" by (rule prefix_keeps) simp
  have src: "slice_elems sel 0 ?m1 s = Some vs"
    using slice_elems_lower [OF slice_elems_keeps [OF vs k]] by simp
  have out: "array_at sel 0 ?m1 (length m) = Some (replicate (sl_Len s) zero)"
    using array_at_lower [OF array_at_made] by simp
  have "prefix m (?m1[length m := mk vs])" by (rule prefix_update) simp_all
  moreover have "array_at sel (length m) (?m1[length m := mk vs]) (length m) = Some vs"
    by (rule array_at_updated [OF array_at_made])
  moreover have "those (map (view_plain lo' m') vs) = Some vs" for lo' and m' :: "'c list"
    by (simp add: those_map_Some view_plain_def list.rel_refl)
  ultimately show ?thesis
    using n by (simp add: slice_copy_def make_slice_def alloc_def src out view_slice_def
        made_slice_elems)
qed

lemma deep_copier_slice_copy: "deep_copier (view_slice sel view_plain) (slice_copy sel mk zero)"
proof
  fix lo m h v assume v: "view_slice sel view_plain lo m h = Some v"
  show "\<exists>h' m'. slice_copy sel mk zero h m = Some (h', m') \<and> prefix m m' \<and>
      view_slice sel view_plain (length m) m' h' = Some v"
    using v slice_copy_copies by (cases h) (simp_all add: slice_copy_def view_slice_def)
qed (blast intro: view_slice_keeps [OF plain.deep_copier_axioms]
      view_slice_lower [OF plain.deep_copier_axioms])+

end

text \<open>A map.\<close>

lemma update_new: "k \<notin> set (map fst es) \<Longrightarrow> AList.update k v es = es @ [(k, v)]"
  by (induction es) auto

lemma copy_entries_loop:
  assumes "array_kind sel mk" and "prefix m mc" and "array_at sel (length m) mc (length m) = Some ds"
    and "distinct (map fst (ds @ es))"
  shows "\<exists>m'. copy_entries sel mk (length m) es mc = Some m' \<and> prefix m m' \<and>
    array_at sel (length m) m' (length m) = Some (ds @ es)"
  using assms(2-)
proof (induction es arbitrary: mc ds)
  case (Cons e es)
  let ?m1 = "mc[length m := mk (ds @ [e])]"
  have "prefix m ?m1" using Cons.prems(1) by (rule prefix_update) simp
  moreover have "array_at sel (length m) ?m1 (length m) = Some (ds @ [e])"
    by (rule array_kind.array_at_updated [OF assms(1) Cons.prems(2)])
  moreover have "array_at sel 0 mc (length m) = Some ds"
    using array_at_lower [OF Cons.prems(2)] by simp
  moreover have "AList.update (fst e) (snd e) ds = ds @ [e]"
    using Cons.prems(3) by (simp add: update_new)
  ultimately show ?case
    using Cons.IH [of ?m1 "ds @ [e]"] Cons.prems(3) by simp
qed simp

lemma deep_copier_map:
  assumes "array_kind sel mk"
  shows "deep_copier (view_map sel) (map_DeepCopy sel mk)"
proof
  fix lo m h v m' assume "view_map sel lo m h = Some v" "keeps lo m m'"
  then show "view_map sel lo m' h = Some v"
    by (auto simp: view_map_def bind_eq_Some_conv dest: array_at_keeps
        split: option.splits if_splits)
next
  fix lo m h v lo' assume "view_map sel lo m h = Some v" "lo' \<le> (lo :: nat)"
  then show "view_map sel lo' m h = Some v"
    by (auto simp: view_map_def bind_eq_Some_conv dest: array_at_lower
        split: option.splits if_splits)
next
  fix lo m h v assume v: "view_map sel lo m h = Some v"
  show "\<exists>h' m'. map_DeepCopy sel mk h m = Some (h', m') \<and> prefix m m' \<and>
      view_map sel (length m) m' h' = Some v"
  proof (cases h)
    case None
    then show ?thesis using v by (simp add: map_DeepCopy_def view_map_def)
  next
    case (Some a)
    then obtain es where es: "array_at sel lo m a = Some es" "distinct (map fst es)" "v = Some es"
      using v by (auto simp: view_map_def bind_eq_Some_conv split: if_splits)
    have "array_at sel 0 (m @ [mk []]) a = Some es"
      using array_at_lower [OF array_at_keeps [OF es(1) prefix_keeps]] by simp
    then show ?thesis
      using copy_entries_loop [OF assms, of m "m @ [mk []]" "[]" es] es Some
        array_kind.array_at_new [OF assms]
      by (auto simp: map_DeepCopy_def view_map_def alloc_def)
  qed
qed

end
