(* ===== verification/Deep_Copy_Types.thy ===== *)
theory Deep_Copy_Types
  imports Api_Types Go_Memory
begin

text \<open>
  The structs of api/v1alpha1 as they lie in memory.  Api_Types has their values: a slice is
  a list there, a pointer an option.  Here the same struct, with an m before its name and
  its fields, has slices, maps and pointers into the memory, whose cells are the arrays of
  each element type.  The view of a struct is its value of Api_Types, for an object with its
  TypeMeta.  The metadata has the fields of the model's ObjectMeta; a map is a reference to
  a cell with its entries.
\<close>

section \<open>Structs in memory\<close>

record TypeMeta =
  tm_Kind :: string
  tm_APIVersion :: string

record ListMeta =
  lm_SelfLink :: string
  lm_ResourceVersion :: string
  lm_Continue :: string
  lm_RemainingItemCount :: "int option"

record mOwnerReference =
  mor_APIVersion :: string
  mor_Kind :: string
  mor_Name :: string
  mor_UID :: string
  mor_BlockOwnerDeletion :: "goptr option"
  mor_Controller :: "goptr option"

record mObjectMeta =
  mom_Name :: string
  mom_Namespace :: string
  mom_UID :: string
  mom_ResourceVersion :: string
  mom_Generation :: int
  mom_DeletionTimestamp :: "goptr option"
  mom_Labels :: "addr option"
  mom_Finalizers :: "goslice option"
  mom_OwnerReferences :: "goslice option"

record mListMeta =
  mlm_SelfLink :: string
  mlm_ResourceVersion :: string
  mlm_Continue :: string
  mlm_RemainingItemCount :: "goptr option"

record mVolumeTypeFilesystem =
  mfs_FsType :: string
  mfs_MountOptions :: "goslice option"

record mVolumeType =
  mvt_Block :: "goptr option"
  mvt_Filesystem :: "goptr option"

record mVolumeContents =
  mvc_ContentsType :: VolumeContentsType
  mvc_CloneVolume :: "goptr option"
  mvc_CloneSnapshot :: "goptr option"

record mVolumeSpec =
  mvs_VgName :: string
  mvs_Binding :: string
  mvs_Mode :: VolumeMode
  mvs_WipePolicy :: VolumeWipePolicy
  mvs_Type :: mVolumeType
  mvs_Contents :: mVolumeContents
  mvs_AccessModes :: "goslice option"
  mvs_SizeBytes :: int
  mvs_AttachToNodes :: "goslice option"

record mVolumeStatus =
  mvst_ObservedGeneration :: int
  mvst_Conditions :: "goslice option"
  mvst_SizeBytes :: int
  mvst_AttachedToNodes :: "goslice option"
  mvst_Path :: string
  mvst_NBDExport :: string

record mSnapshotStatus =
  msst_ObservedGeneration :: int
  msst_Conditions :: "goslice option"
  msst_SizeBytes :: int

record mThinLvContents =
  mtc_ContentsType :: ThinLvContentsType
  mtc_Snapshot :: "goptr option"

record mThinLvSpec =
  mls_Name :: string
  mls_Binding :: string
  mls_Contents :: mThinLvContents
  mls_ReadOnly :: bool
  mls_SizeBytes :: int
  mls_State :: ThinLvSpecStateName

record mThinLvStatusState =
  mst_Name :: ThinLvStatusStateName
  mst_Active :: "goptr option"

record mThinLvStatus =
  mlst_Name :: string
  mlst_State :: mThinLvStatusState
  mlst_SizeBytes :: int

record mThinLv =
  mtl_Spec :: "goptr option"
  mtl_Status :: "goptr option"

record mThinPoolLvSpec =
  mps_VgName :: string
  mps_SizeBytes :: int
  mps_ThinLvs :: "goslice option"
  mps_ActiveOnNode :: string

record mThinPoolLvStatus =
  mpst_ObservedGeneration :: int
  mpst_Conditions :: "goslice option"
  mpst_ActiveOnNode :: string
  mpst_ThinLvs :: "goslice option"

record mNBDExportSpec =
  mes_Export :: string
  mes_Path :: string
  mes_Host :: string
  mes_SizeBytes :: int
  mes_Clients :: "goslice option"

record mNBDExportStatus =
  mest_ObservedGeneration :: int
  mest_Conditions :: "goslice option"
  mest_URI :: string

record mNBDExport =
  me_TypeMeta :: TypeMeta
  me_Meta :: mObjectMeta
  me_Spec :: mNBDExportSpec
  me_Status :: mNBDExportStatus

record mNBDExportList =
  mel_TypeMeta :: TypeMeta
  mel_ListMeta :: mListMeta
  mel_Items :: "goslice option"

record mSnapshot =
  ms_TypeMeta :: TypeMeta
  ms_Meta :: mObjectMeta
  ms_Spec :: SnapshotSpec
  ms_Status :: mSnapshotStatus

record mSnapshotList =
  msl_TypeMeta :: TypeMeta
  msl_ListMeta :: mListMeta
  msl_Items :: "goslice option"

record mThinPoolLv =
  mp_TypeMeta :: TypeMeta
  mp_Meta :: mObjectMeta
  mp_Spec :: mThinPoolLvSpec
  mp_Status :: mThinPoolLvStatus

record mThinPoolLvList =
  mpl_TypeMeta :: TypeMeta
  mpl_ListMeta :: mListMeta
  mpl_Items :: "goslice option"

record mVolume =
  mv_TypeMeta :: TypeMeta
  mv_Meta :: mObjectMeta
  mv_Spec :: mVolumeSpec
  mv_Status :: mVolumeStatus

record mVolumeList =
  mvl_TypeMeta :: TypeMeta
  mvl_ListMeta :: mListMeta
  mvl_Items :: "goslice option"

record NBDExportList =
  el_TypeMeta :: TypeMeta
  el_ListMeta :: ListMeta
  el_Items :: "(TypeMeta \<times> NBDExport) list"

record SnapshotList =
  sl_TypeMeta :: TypeMeta
  sl_ListMeta :: ListMeta
  sl_Items :: "(TypeMeta \<times> Snapshot) list"

record ThinPoolLvList =
  pl_TypeMeta :: TypeMeta
  pl_ListMeta :: ListMeta
  pl_Items :: "(TypeMeta \<times> ThinPoolLv) list"

record VolumeList =
  vl_TypeMeta :: TypeMeta
  vl_ListMeta :: ListMeta
  vl_Items :: "(TypeMeta \<times> Volume) list"

section \<open>The cells of the memory\<close>

datatype cell =
    StringMapCell "(string \<times> string) list"
  | StringArray "string list"
  | ConditionArray "Condition list"
  | VolumeAccessModeArray "VolumeAccessMode list"
  | Int64Array "int list"
  | BoolArray "bool list"
  | TimeArray "nat list"
  | SnapshotSpecArray "SnapshotSpec list"
  | ThinLvContentsSnapshotArray "string list"
  | ThinLvSpecStateArray "ThinLvSpecStateName list"
  | ThinLvStatusStateActiveArray "string list"
  | VolumeContentsCloneSnapshotArray "string list"
  | VolumeContentsCloneVolumeArray "string list"
  | VolumeTypeBlockArray "unit list"
  | OwnerReferenceArray "mOwnerReference list"
  | VolumeTypeFilesystemArray "mVolumeTypeFilesystem list"
  | VolumeTypeArray "mVolumeType list"
  | VolumeContentsArray "mVolumeContents list"
  | VolumeSpecArray "mVolumeSpec list"
  | VolumeStatusArray "mVolumeStatus list"
  | SnapshotStatusArray "mSnapshotStatus list"
  | ThinLvContentsArray "mThinLvContents list"
  | ThinLvSpecArray "mThinLvSpec list"
  | ThinLvStatusStateArray "mThinLvStatusState list"
  | ThinLvStatusArray "mThinLvStatus list"
  | ThinLvArray "mThinLv list"
  | ThinPoolLvSpecArray "mThinPoolLvSpec list"
  | ThinPoolLvStatusArray "mThinPoolLvStatus list"
  | NBDExportSpecArray "mNBDExportSpec list"
  | NBDExportStatusArray "mNBDExportStatus list"
  | NBDExportArray "mNBDExport list"
  | NBDExportListArray "mNBDExportList list"
  | SnapshotArray "mSnapshot list"
  | SnapshotListArray "mSnapshotList list"
  | ThinPoolLvArray "mThinPoolLv list"
  | ThinPoolLvListArray "mThinPoolLvList list"
  | VolumeArray "mVolume list"
  | VolumeListArray "mVolumeList list"

type_synonym memory = "cell list"

text \<open>What a DeepCopyInto makes of what its receiver points to.\<close>

type_synonym 'h copier = "'h \<Rightarrow> memory \<Rightarrow> ('h \<times> memory) option"

definition sel_StringMap :: "cell \<Rightarrow> (string \<times> string) list option" where
  "sel_StringMap c = (case c of StringMapCell es \<Rightarrow> Some es | _ \<Rightarrow> None)"

definition sel_String :: "cell \<Rightarrow> string list option" where
  "sel_String c = (case c of StringArray xs \<Rightarrow> Some xs | _ \<Rightarrow> None)"

definition sel_Condition :: "cell \<Rightarrow> Condition list option" where
  "sel_Condition c = (case c of ConditionArray xs \<Rightarrow> Some xs | _ \<Rightarrow> None)"

definition sel_VolumeAccessMode :: "cell \<Rightarrow> VolumeAccessMode list option" where
  "sel_VolumeAccessMode c = (case c of VolumeAccessModeArray xs \<Rightarrow> Some xs | _ \<Rightarrow> None)"

definition sel_Int64 :: "cell \<Rightarrow> int list option" where
  "sel_Int64 c = (case c of Int64Array xs \<Rightarrow> Some xs | _ \<Rightarrow> None)"

definition sel_Bool :: "cell \<Rightarrow> bool list option" where
  "sel_Bool c = (case c of BoolArray xs \<Rightarrow> Some xs | _ \<Rightarrow> None)"

definition sel_Time :: "cell \<Rightarrow> nat list option" where
  "sel_Time c = (case c of TimeArray xs \<Rightarrow> Some xs | _ \<Rightarrow> None)"

definition sel_SnapshotSpec :: "cell \<Rightarrow> SnapshotSpec list option" where
  "sel_SnapshotSpec c = (case c of SnapshotSpecArray xs \<Rightarrow> Some xs | _ \<Rightarrow> None)"

definition sel_ThinLvContentsSnapshot :: "cell \<Rightarrow> string list option" where
  "sel_ThinLvContentsSnapshot c = (case c of ThinLvContentsSnapshotArray xs \<Rightarrow> Some xs | _ \<Rightarrow>
      None)"

definition sel_ThinLvSpecState :: "cell \<Rightarrow> ThinLvSpecStateName list option" where
  "sel_ThinLvSpecState c = (case c of ThinLvSpecStateArray xs \<Rightarrow> Some xs | _ \<Rightarrow> None)"

definition sel_ThinLvStatusStateActive :: "cell \<Rightarrow> string list option" where
  "sel_ThinLvStatusStateActive c = (case c of ThinLvStatusStateActiveArray xs \<Rightarrow> Some xs | _
      \<Rightarrow> None)"

definition sel_VolumeContentsCloneSnapshot :: "cell \<Rightarrow> string list option" where
  "sel_VolumeContentsCloneSnapshot c = (case c of VolumeContentsCloneSnapshotArray xs \<Rightarrow> Some
      xs | _ \<Rightarrow> None)"

definition sel_VolumeContentsCloneVolume :: "cell \<Rightarrow> string list option" where
  "sel_VolumeContentsCloneVolume c = (case c of VolumeContentsCloneVolumeArray xs \<Rightarrow> Some xs
      | _ \<Rightarrow> None)"

definition sel_VolumeTypeBlock :: "cell \<Rightarrow> unit list option" where
  "sel_VolumeTypeBlock c = (case c of VolumeTypeBlockArray xs \<Rightarrow> Some xs | _ \<Rightarrow> None)"

definition sel_OwnerReference :: "cell \<Rightarrow> mOwnerReference list option" where
  "sel_OwnerReference c = (case c of OwnerReferenceArray xs \<Rightarrow> Some xs | _ \<Rightarrow> None)"

definition sel_VolumeTypeFilesystem :: "cell \<Rightarrow> mVolumeTypeFilesystem list option" where
  "sel_VolumeTypeFilesystem c = (case c of VolumeTypeFilesystemArray xs \<Rightarrow> Some xs | _ \<Rightarrow>
      None)"

definition sel_VolumeType :: "cell \<Rightarrow> mVolumeType list option" where
  "sel_VolumeType c = (case c of VolumeTypeArray xs \<Rightarrow> Some xs | _ \<Rightarrow> None)"

definition sel_VolumeContents :: "cell \<Rightarrow> mVolumeContents list option" where
  "sel_VolumeContents c = (case c of VolumeContentsArray xs \<Rightarrow> Some xs | _ \<Rightarrow> None)"

definition sel_VolumeSpec :: "cell \<Rightarrow> mVolumeSpec list option" where
  "sel_VolumeSpec c = (case c of VolumeSpecArray xs \<Rightarrow> Some xs | _ \<Rightarrow> None)"

definition sel_VolumeStatus :: "cell \<Rightarrow> mVolumeStatus list option" where
  "sel_VolumeStatus c = (case c of VolumeStatusArray xs \<Rightarrow> Some xs | _ \<Rightarrow> None)"

definition sel_SnapshotStatus :: "cell \<Rightarrow> mSnapshotStatus list option" where
  "sel_SnapshotStatus c = (case c of SnapshotStatusArray xs \<Rightarrow> Some xs | _ \<Rightarrow> None)"

definition sel_ThinLvContents :: "cell \<Rightarrow> mThinLvContents list option" where
  "sel_ThinLvContents c = (case c of ThinLvContentsArray xs \<Rightarrow> Some xs | _ \<Rightarrow> None)"

definition sel_ThinLvSpec :: "cell \<Rightarrow> mThinLvSpec list option" where
  "sel_ThinLvSpec c = (case c of ThinLvSpecArray xs \<Rightarrow> Some xs | _ \<Rightarrow> None)"

definition sel_ThinLvStatusState :: "cell \<Rightarrow> mThinLvStatusState list option" where
  "sel_ThinLvStatusState c = (case c of ThinLvStatusStateArray xs \<Rightarrow> Some xs | _ \<Rightarrow> None)"

definition sel_ThinLvStatus :: "cell \<Rightarrow> mThinLvStatus list option" where
  "sel_ThinLvStatus c = (case c of ThinLvStatusArray xs \<Rightarrow> Some xs | _ \<Rightarrow> None)"

definition sel_ThinLv :: "cell \<Rightarrow> mThinLv list option" where
  "sel_ThinLv c = (case c of ThinLvArray xs \<Rightarrow> Some xs | _ \<Rightarrow> None)"

definition sel_ThinPoolLvSpec :: "cell \<Rightarrow> mThinPoolLvSpec list option" where
  "sel_ThinPoolLvSpec c = (case c of ThinPoolLvSpecArray xs \<Rightarrow> Some xs | _ \<Rightarrow> None)"

definition sel_ThinPoolLvStatus :: "cell \<Rightarrow> mThinPoolLvStatus list option" where
  "sel_ThinPoolLvStatus c = (case c of ThinPoolLvStatusArray xs \<Rightarrow> Some xs | _ \<Rightarrow> None)"

definition sel_NBDExportSpec :: "cell \<Rightarrow> mNBDExportSpec list option" where
  "sel_NBDExportSpec c = (case c of NBDExportSpecArray xs \<Rightarrow> Some xs | _ \<Rightarrow> None)"

definition sel_NBDExportStatus :: "cell \<Rightarrow> mNBDExportStatus list option" where
  "sel_NBDExportStatus c = (case c of NBDExportStatusArray xs \<Rightarrow> Some xs | _ \<Rightarrow> None)"

definition sel_NBDExport :: "cell \<Rightarrow> mNBDExport list option" where
  "sel_NBDExport c = (case c of NBDExportArray xs \<Rightarrow> Some xs | _ \<Rightarrow> None)"

definition sel_NBDExportList :: "cell \<Rightarrow> mNBDExportList list option" where
  "sel_NBDExportList c = (case c of NBDExportListArray xs \<Rightarrow> Some xs | _ \<Rightarrow> None)"

definition sel_Snapshot :: "cell \<Rightarrow> mSnapshot list option" where
  "sel_Snapshot c = (case c of SnapshotArray xs \<Rightarrow> Some xs | _ \<Rightarrow> None)"

definition sel_SnapshotList :: "cell \<Rightarrow> mSnapshotList list option" where
  "sel_SnapshotList c = (case c of SnapshotListArray xs \<Rightarrow> Some xs | _ \<Rightarrow> None)"

definition sel_ThinPoolLv :: "cell \<Rightarrow> mThinPoolLv list option" where
  "sel_ThinPoolLv c = (case c of ThinPoolLvArray xs \<Rightarrow> Some xs | _ \<Rightarrow> None)"

definition sel_ThinPoolLvList :: "cell \<Rightarrow> mThinPoolLvList list option" where
  "sel_ThinPoolLvList c = (case c of ThinPoolLvListArray xs \<Rightarrow> Some xs | _ \<Rightarrow> None)"

definition sel_Volume :: "cell \<Rightarrow> mVolume list option" where
  "sel_Volume c = (case c of VolumeArray xs \<Rightarrow> Some xs | _ \<Rightarrow> None)"

definition sel_VolumeList :: "cell \<Rightarrow> mVolumeList list option" where
  "sel_VolumeList c = (case c of VolumeListArray xs \<Rightarrow> Some xs | _ \<Rightarrow> None)"

lemmas sel_defs = sel_StringMap_def sel_String_def sel_Condition_def
    sel_VolumeAccessMode_def sel_Int64_def sel_Bool_def sel_Time_def sel_SnapshotSpec_def
    sel_ThinLvContentsSnapshot_def sel_ThinLvSpecState_def sel_ThinLvStatusStateActive_def
    sel_VolumeContentsCloneSnapshot_def sel_VolumeContentsCloneVolume_def
    sel_VolumeTypeBlock_def sel_OwnerReference_def sel_VolumeTypeFilesystem_def
    sel_VolumeType_def sel_VolumeContents_def sel_VolumeSpec_def sel_VolumeStatus_def
    sel_SnapshotStatus_def sel_ThinLvContents_def sel_ThinLvSpec_def
    sel_ThinLvStatusState_def sel_ThinLvStatus_def sel_ThinLv_def sel_ThinPoolLvSpec_def
    sel_ThinPoolLvStatus_def sel_NBDExportSpec_def sel_NBDExportStatus_def sel_NBDExport_def
    sel_NBDExportList_def sel_Snapshot_def sel_SnapshotList_def sel_ThinPoolLv_def
    sel_ThinPoolLvList_def sel_Volume_def sel_VolumeList_def

interpretation arr_StringMap: array_kind sel_StringMap StringMapCell
  by unfold_locales (simp add: sel_StringMap_def)

interpretation arr_String: array_kind sel_String StringArray
  by unfold_locales (simp add: sel_String_def)

interpretation arr_Condition: array_kind sel_Condition ConditionArray
  by unfold_locales (simp add: sel_Condition_def)

interpretation arr_VolumeAccessMode: array_kind sel_VolumeAccessMode VolumeAccessModeArray
  by unfold_locales (simp add: sel_VolumeAccessMode_def)

interpretation arr_Int64: array_kind sel_Int64 Int64Array
  by unfold_locales (simp add: sel_Int64_def)

interpretation arr_Bool: array_kind sel_Bool BoolArray
  by unfold_locales (simp add: sel_Bool_def)

interpretation arr_Time: array_kind sel_Time TimeArray
  by unfold_locales (simp add: sel_Time_def)

interpretation arr_SnapshotSpec: array_kind sel_SnapshotSpec SnapshotSpecArray
  by unfold_locales (simp add: sel_SnapshotSpec_def)

interpretation arr_ThinLvContentsSnapshot: array_kind sel_ThinLvContentsSnapshot
    ThinLvContentsSnapshotArray
  by unfold_locales (simp add: sel_ThinLvContentsSnapshot_def)

interpretation arr_ThinLvSpecState: array_kind sel_ThinLvSpecState ThinLvSpecStateArray
  by unfold_locales (simp add: sel_ThinLvSpecState_def)

interpretation arr_ThinLvStatusStateActive: array_kind sel_ThinLvStatusStateActive
    ThinLvStatusStateActiveArray
  by unfold_locales (simp add: sel_ThinLvStatusStateActive_def)

interpretation arr_VolumeContentsCloneSnapshot: array_kind sel_VolumeContentsCloneSnapshot
    VolumeContentsCloneSnapshotArray
  by unfold_locales (simp add: sel_VolumeContentsCloneSnapshot_def)

interpretation arr_VolumeContentsCloneVolume: array_kind sel_VolumeContentsCloneVolume
    VolumeContentsCloneVolumeArray
  by unfold_locales (simp add: sel_VolumeContentsCloneVolume_def)

interpretation arr_VolumeTypeBlock: array_kind sel_VolumeTypeBlock VolumeTypeBlockArray
  by unfold_locales (simp add: sel_VolumeTypeBlock_def)

interpretation arr_OwnerReference: array_kind sel_OwnerReference OwnerReferenceArray
  by unfold_locales (simp add: sel_OwnerReference_def)

interpretation arr_VolumeTypeFilesystem: array_kind sel_VolumeTypeFilesystem
    VolumeTypeFilesystemArray
  by unfold_locales (simp add: sel_VolumeTypeFilesystem_def)

interpretation arr_VolumeType: array_kind sel_VolumeType VolumeTypeArray
  by unfold_locales (simp add: sel_VolumeType_def)

interpretation arr_VolumeContents: array_kind sel_VolumeContents VolumeContentsArray
  by unfold_locales (simp add: sel_VolumeContents_def)

interpretation arr_VolumeSpec: array_kind sel_VolumeSpec VolumeSpecArray
  by unfold_locales (simp add: sel_VolumeSpec_def)

interpretation arr_VolumeStatus: array_kind sel_VolumeStatus VolumeStatusArray
  by unfold_locales (simp add: sel_VolumeStatus_def)

interpretation arr_SnapshotStatus: array_kind sel_SnapshotStatus SnapshotStatusArray
  by unfold_locales (simp add: sel_SnapshotStatus_def)

interpretation arr_ThinLvContents: array_kind sel_ThinLvContents ThinLvContentsArray
  by unfold_locales (simp add: sel_ThinLvContents_def)

interpretation arr_ThinLvSpec: array_kind sel_ThinLvSpec ThinLvSpecArray
  by unfold_locales (simp add: sel_ThinLvSpec_def)

interpretation arr_ThinLvStatusState: array_kind sel_ThinLvStatusState
    ThinLvStatusStateArray
  by unfold_locales (simp add: sel_ThinLvStatusState_def)

interpretation arr_ThinLvStatus: array_kind sel_ThinLvStatus ThinLvStatusArray
  by unfold_locales (simp add: sel_ThinLvStatus_def)

interpretation arr_ThinLv: array_kind sel_ThinLv ThinLvArray
  by unfold_locales (simp add: sel_ThinLv_def)

interpretation arr_ThinPoolLvSpec: array_kind sel_ThinPoolLvSpec ThinPoolLvSpecArray
  by unfold_locales (simp add: sel_ThinPoolLvSpec_def)

interpretation arr_ThinPoolLvStatus: array_kind sel_ThinPoolLvStatus ThinPoolLvStatusArray
  by unfold_locales (simp add: sel_ThinPoolLvStatus_def)

interpretation arr_NBDExportSpec: array_kind sel_NBDExportSpec NBDExportSpecArray
  by unfold_locales (simp add: sel_NBDExportSpec_def)

interpretation arr_NBDExportStatus: array_kind sel_NBDExportStatus NBDExportStatusArray
  by unfold_locales (simp add: sel_NBDExportStatus_def)

interpretation arr_NBDExport: array_kind sel_NBDExport NBDExportArray
  by unfold_locales (simp add: sel_NBDExport_def)

interpretation arr_NBDExportList: array_kind sel_NBDExportList NBDExportListArray
  by unfold_locales (simp add: sel_NBDExportList_def)

interpretation arr_Snapshot: array_kind sel_Snapshot SnapshotArray
  by unfold_locales (simp add: sel_Snapshot_def)

interpretation arr_SnapshotList: array_kind sel_SnapshotList SnapshotListArray
  by unfold_locales (simp add: sel_SnapshotList_def)

interpretation arr_ThinPoolLv: array_kind sel_ThinPoolLv ThinPoolLvArray
  by unfold_locales (simp add: sel_ThinPoolLv_def)

interpretation arr_ThinPoolLvList: array_kind sel_ThinPoolLvList ThinPoolLvListArray
  by unfold_locales (simp add: sel_ThinPoolLvList_def)

interpretation arr_Volume: array_kind sel_Volume VolumeArray
  by unfold_locales (simp add: sel_Volume_def)

interpretation arr_VolumeList: array_kind sel_VolumeList VolumeListArray
  by unfold_locales (simp add: sel_VolumeList_def)

section \<open>Zero values\<close>

definition zero_Condition :: Condition where
  "zero_Condition =
     \<lparr>c_Type = OtherCondition [], c_Status = OtherStatus [], c_Reason = [], c_Message = [],
      c_LastTransitionTime = None, c_ObservedGeneration = 0\<rparr>"

definition zero_TypeMeta :: TypeMeta where
  "zero_TypeMeta = \<lparr>tm_Kind = [], tm_APIVersion = []\<rparr>"

definition zero_SnapshotSpec :: SnapshotSpec where
  "zero_SnapshotSpec = \<lparr>ss_VgName = [], ss_Binding = [], ss_SourceVolume = []\<rparr>"

definition zero_OwnerReference :: mOwnerReference where
  "zero_OwnerReference =
     \<lparr>mor_APIVersion = [], mor_Kind = [], mor_Name = [], mor_UID = [],
      mor_BlockOwnerDeletion = None, mor_Controller = None\<rparr>"

definition zero_ObjectMeta :: mObjectMeta where
  "zero_ObjectMeta =
     \<lparr>mom_Name = [], mom_Namespace = [], mom_UID = [], mom_ResourceVersion = [],
      mom_Generation = 0, mom_DeletionTimestamp = None, mom_Labels = None,
      mom_Finalizers = None, mom_OwnerReferences = None\<rparr>"

definition zero_ListMeta :: mListMeta where
  "zero_ListMeta =
     \<lparr>mlm_SelfLink = [], mlm_ResourceVersion = [], mlm_Continue = [],
      mlm_RemainingItemCount = None\<rparr>"

definition zero_VolumeTypeFilesystem :: mVolumeTypeFilesystem where
  "zero_VolumeTypeFilesystem =
     \<lparr>mfs_FsType = [], mfs_MountOptions = None\<rparr>"

definition zero_VolumeType :: mVolumeType where
  "zero_VolumeType =
     \<lparr>mvt_Block = None, mvt_Filesystem = None\<rparr>"

definition zero_VolumeContents :: mVolumeContents where
  "zero_VolumeContents =
     \<lparr>mvc_ContentsType = OtherVolumeContents [], mvc_CloneVolume = None,
      mvc_CloneSnapshot = None\<rparr>"

definition zero_VolumeSpec :: mVolumeSpec where
  "zero_VolumeSpec =
     \<lparr>mvs_VgName = [], mvs_Binding = [], mvs_Mode = OtherVolumeMode [],
      mvs_WipePolicy = OtherWipePolicy [], mvs_Type = zero_VolumeType,
      mvs_Contents = zero_VolumeContents, mvs_AccessModes = None, mvs_SizeBytes = 0,
      mvs_AttachToNodes = None\<rparr>"

definition zero_VolumeStatus :: mVolumeStatus where
  "zero_VolumeStatus =
     \<lparr>mvst_ObservedGeneration = 0, mvst_Conditions = None, mvst_SizeBytes = 0,
      mvst_AttachedToNodes = None, mvst_Path = [], mvst_NBDExport = []\<rparr>"

definition zero_SnapshotStatus :: mSnapshotStatus where
  "zero_SnapshotStatus =
     \<lparr>msst_ObservedGeneration = 0, msst_Conditions = None, msst_SizeBytes = 0\<rparr>"

definition zero_ThinLvContents :: mThinLvContents where
  "zero_ThinLvContents =
     \<lparr>mtc_ContentsType = OtherThinLvContents [], mtc_Snapshot = None\<rparr>"

definition zero_ThinLvSpec :: mThinLvSpec where
  "zero_ThinLvSpec =
     \<lparr>mls_Name = [], mls_Binding = [], mls_Contents = zero_ThinLvContents,
      mls_ReadOnly = False, mls_SizeBytes = 0, mls_State = OtherSpecState []\<rparr>"

definition zero_ThinLvStatusState :: mThinLvStatusState where
  "zero_ThinLvStatusState =
     \<lparr>mst_Name = OtherStatusState [], mst_Active = None\<rparr>"

definition zero_ThinLvStatus :: mThinLvStatus where
  "zero_ThinLvStatus =
     \<lparr>mlst_Name = [], mlst_State = zero_ThinLvStatusState, mlst_SizeBytes = 0\<rparr>"

definition zero_ThinLv :: mThinLv where
  "zero_ThinLv =
     \<lparr>mtl_Spec = None, mtl_Status = None\<rparr>"

definition zero_ThinPoolLvSpec :: mThinPoolLvSpec where
  "zero_ThinPoolLvSpec =
     \<lparr>mps_VgName = [], mps_SizeBytes = 0, mps_ThinLvs = None, mps_ActiveOnNode = []\<rparr>"

definition zero_ThinPoolLvStatus :: mThinPoolLvStatus where
  "zero_ThinPoolLvStatus =
     \<lparr>mpst_ObservedGeneration = 0, mpst_Conditions = None, mpst_ActiveOnNode = [],
      mpst_ThinLvs = None\<rparr>"

definition zero_NBDExportSpec :: mNBDExportSpec where
  "zero_NBDExportSpec =
     \<lparr>mes_Export = [], mes_Path = [], mes_Host = [], mes_SizeBytes = 0,
      mes_Clients = None\<rparr>"

definition zero_NBDExportStatus :: mNBDExportStatus where
  "zero_NBDExportStatus =
     \<lparr>mest_ObservedGeneration = 0, mest_Conditions = None, mest_URI = []\<rparr>"

definition zero_NBDExport :: mNBDExport where
  "zero_NBDExport =
     \<lparr>me_TypeMeta = zero_TypeMeta, me_Meta = zero_ObjectMeta,
      me_Spec = zero_NBDExportSpec, me_Status = zero_NBDExportStatus\<rparr>"

definition zero_NBDExportList :: mNBDExportList where
  "zero_NBDExportList =
     \<lparr>mel_TypeMeta = zero_TypeMeta, mel_ListMeta = zero_ListMeta, mel_Items = None\<rparr>"

definition zero_Snapshot :: mSnapshot where
  "zero_Snapshot =
     \<lparr>ms_TypeMeta = zero_TypeMeta, ms_Meta = zero_ObjectMeta,
      ms_Spec = zero_SnapshotSpec, ms_Status = zero_SnapshotStatus\<rparr>"

definition zero_SnapshotList :: mSnapshotList where
  "zero_SnapshotList =
     \<lparr>msl_TypeMeta = zero_TypeMeta, msl_ListMeta = zero_ListMeta, msl_Items = None\<rparr>"

definition zero_ThinPoolLv :: mThinPoolLv where
  "zero_ThinPoolLv =
     \<lparr>mp_TypeMeta = zero_TypeMeta, mp_Meta = zero_ObjectMeta,
      mp_Spec = zero_ThinPoolLvSpec, mp_Status = zero_ThinPoolLvStatus\<rparr>"

definition zero_ThinPoolLvList :: mThinPoolLvList where
  "zero_ThinPoolLvList =
     \<lparr>mpl_TypeMeta = zero_TypeMeta, mpl_ListMeta = zero_ListMeta, mpl_Items = None\<rparr>"

definition zero_Volume :: mVolume where
  "zero_Volume =
     \<lparr>mv_TypeMeta = zero_TypeMeta, mv_Meta = zero_ObjectMeta,
      mv_Spec = zero_VolumeSpec, mv_Status = zero_VolumeStatus\<rparr>"

definition zero_VolumeList :: mVolumeList where
  "zero_VolumeList =
     \<lparr>mvl_TypeMeta = zero_TypeMeta, mvl_ListMeta = zero_ListMeta, mvl_Items = None\<rparr>"

section \<open>Views\<close>

definition view_OwnerReference :: "(cell, mOwnerReference, OwnerReference) view" where
  "view_OwnerReference lo m h =
     do { controller \<leftarrow> view_ptr sel_Bool view_plain lo m (mor_Controller h);
          blockOwnerDeletion \<leftarrow> view_ptr sel_Bool view_plain lo m (mor_BlockOwnerDeletion h);
          Some \<lparr>or_APIVersion = mor_APIVersion h, or_Kind = mor_Kind h,
                or_Name = mor_Name h, or_UID = mor_UID h,
                or_BlockOwnerDeletion = blockOwnerDeletion, or_Controller = controller\<rparr> }"

definition view_ObjectMeta :: "(cell, mObjectMeta, ObjectMeta) view" where
  "view_ObjectMeta lo m h =
     do { deletionTimestamp \<leftarrow> view_ptr sel_Time view_plain lo m (mom_DeletionTimestamp h);
          labels \<leftarrow> view_map sel_StringMap lo m (mom_Labels h);
          ownerReferences \<leftarrow> view_slice sel_OwnerReference view_OwnerReference lo m
              (mom_OwnerReferences h);
          finalizers \<leftarrow> view_slice sel_String view_plain lo m (mom_Finalizers h);
          Some \<lparr>om_Name = mom_Name h, om_Namespace = mom_Namespace h,
                om_UID = mom_UID h, om_ResourceVersion = mom_ResourceVersion h,
                om_Generation = mom_Generation h,
                om_DeletionTimestamp = deletionTimestamp, om_Labels = labels,
                om_Finalizers = finalizers, om_OwnerReferences = ownerReferences\<rparr> }"

definition view_ListMeta :: "(cell, mListMeta, ListMeta) view" where
  "view_ListMeta lo m h =
     do { remainingItemCount \<leftarrow> view_ptr sel_Int64 view_plain lo m
              (mlm_RemainingItemCount h);
          Some \<lparr>lm_SelfLink = mlm_SelfLink h,
                lm_ResourceVersion = mlm_ResourceVersion h,
                lm_Continue = mlm_Continue h, lm_RemainingItemCount = remainingItemCount\<rparr> }"

definition view_VolumeTypeFilesystem :: "(cell, mVolumeTypeFilesystem,
    VolumeTypeFilesystem) view" where
  "view_VolumeTypeFilesystem lo m h =
     do { mountOptions \<leftarrow> view_slice sel_String view_plain lo m (mfs_MountOptions h);
          Some \<lparr>fs_FsType = mfs_FsType h, fs_MountOptions = mountOptions\<rparr> }"

definition view_VolumeType :: "(cell, mVolumeType, VolumeType) view" where
  "view_VolumeType lo m h =
     do { block \<leftarrow> view_ptr sel_VolumeTypeBlock view_plain lo m (mvt_Block h);
          filesystem \<leftarrow> view_ptr sel_VolumeTypeFilesystem view_VolumeTypeFilesystem lo m
              (mvt_Filesystem h);
          Some \<lparr>vt_Block = block, vt_Filesystem = filesystem\<rparr> }"

definition view_VolumeContents :: "(cell, mVolumeContents, VolumeContents) view" where
  "view_VolumeContents lo m h =
     do { cloneVolume \<leftarrow> view_ptr sel_VolumeContentsCloneVolume view_plain lo m
              (mvc_CloneVolume h);
          cloneSnapshot \<leftarrow> view_ptr sel_VolumeContentsCloneSnapshot view_plain lo m
              (mvc_CloneSnapshot h);
          Some \<lparr>vc_ContentsType = mvc_ContentsType h, vc_CloneVolume = cloneVolume,
                vc_CloneSnapshot = cloneSnapshot\<rparr> }"

definition view_VolumeSpec :: "(cell, mVolumeSpec, VolumeSpec) view" where
  "view_VolumeSpec lo m h =
     do { ty \<leftarrow> view_VolumeType lo m (mvs_Type h);
          contents \<leftarrow> view_VolumeContents lo m (mvs_Contents h);
          accessModes \<leftarrow> view_slice sel_VolumeAccessMode view_plain lo m (mvs_AccessModes h);
          attachToNodes \<leftarrow> view_slice sel_String view_plain lo m (mvs_AttachToNodes h);
          Some \<lparr>vs_VgName = mvs_VgName h, vs_Binding = mvs_Binding h,
                vs_Mode = mvs_Mode h, vs_WipePolicy = mvs_WipePolicy h, vs_Type = ty,
                vs_Contents = contents, vs_AccessModes = accessModes,
                vs_SizeBytes = mvs_SizeBytes h, vs_AttachToNodes = attachToNodes\<rparr> }"

definition view_VolumeStatus :: "(cell, mVolumeStatus, VolumeStatus) view" where
  "view_VolumeStatus lo m h =
     do { conditions \<leftarrow> view_slice sel_Condition view_plain lo m (mvst_Conditions h);
          attachedToNodes \<leftarrow> view_slice sel_String view_plain lo m (mvst_AttachedToNodes h);
          Some \<lparr>vst_ObservedGeneration = mvst_ObservedGeneration h,
                vst_Conditions = conditions, vst_SizeBytes = mvst_SizeBytes h,
                vst_AttachedToNodes = attachedToNodes, vst_Path = mvst_Path h,
                vst_NBDExport = mvst_NBDExport h\<rparr> }"

definition view_SnapshotStatus :: "(cell, mSnapshotStatus, SnapshotStatus) view" where
  "view_SnapshotStatus lo m h =
     do { conditions \<leftarrow> view_slice sel_Condition view_plain lo m (msst_Conditions h);
          Some \<lparr>sst_ObservedGeneration = msst_ObservedGeneration h,
                sst_Conditions = conditions, sst_SizeBytes = msst_SizeBytes h\<rparr> }"

definition view_ThinLvContents :: "(cell, mThinLvContents, ThinLvContents) view" where
  "view_ThinLvContents lo m h =
     do { snapshot \<leftarrow> view_ptr sel_ThinLvContentsSnapshot view_plain lo m (mtc_Snapshot h);
          Some \<lparr>tc_ContentsType = mtc_ContentsType h, tc_Snapshot = snapshot\<rparr> }"

definition view_ThinLvSpec :: "(cell, mThinLvSpec, ThinLvSpec) view" where
  "view_ThinLvSpec lo m h =
     do { contents \<leftarrow> view_ThinLvContents lo m (mls_Contents h);
          Some \<lparr>ls_Name = mls_Name h, ls_Binding = mls_Binding h,
                ls_Contents = contents, ls_ReadOnly = mls_ReadOnly h,
                ls_SizeBytes = mls_SizeBytes h, ls_State = mls_State h\<rparr> }"

definition view_ThinLvStatusState :: "(cell, mThinLvStatusState,
    ThinLvStatusState) view" where
  "view_ThinLvStatusState lo m h =
     do { active \<leftarrow> view_ptr sel_ThinLvStatusStateActive view_plain lo m (mst_Active h);
          Some \<lparr>st_Name = mst_Name h, st_Active = active\<rparr> }"

definition view_ThinLvStatus :: "(cell, mThinLvStatus, ThinLvStatus) view" where
  "view_ThinLvStatus lo m h =
     do { st \<leftarrow> view_ThinLvStatusState lo m (mlst_State h);
          Some \<lparr>lst_Name = mlst_Name h, lst_State = st, lst_SizeBytes = mlst_SizeBytes h\<rparr> }"

definition view_ThinLv :: "(cell, mThinLv, ThinLv) view" where
  "view_ThinLv lo m h =
     do { spec \<leftarrow> view_ptr sel_ThinLvSpec view_ThinLvSpec lo m (mtl_Spec h);
          status \<leftarrow> view_ptr sel_ThinLvStatus view_ThinLvStatus lo m (mtl_Status h);
          Some \<lparr>tl_Spec = spec, tl_Status = status\<rparr> }"

definition view_ThinPoolLvSpec :: "(cell, mThinPoolLvSpec, ThinPoolLvSpec) view" where
  "view_ThinPoolLvSpec lo m h =
     do { thinLvs \<leftarrow> view_slice sel_ThinLvSpec view_ThinLvSpec lo m (mps_ThinLvs h);
          Some \<lparr>ps_VgName = mps_VgName h, ps_SizeBytes = mps_SizeBytes h,
                ps_ThinLvs = thinLvs, ps_ActiveOnNode = mps_ActiveOnNode h\<rparr> }"

definition view_ThinPoolLvStatus :: "(cell, mThinPoolLvStatus, ThinPoolLvStatus) view" where
  "view_ThinPoolLvStatus lo m h =
     do { conditions \<leftarrow> view_slice sel_Condition view_plain lo m (mpst_Conditions h);
          thinLvs \<leftarrow> view_slice sel_ThinLvStatus view_ThinLvStatus lo m (mpst_ThinLvs h);
          Some \<lparr>pst_ObservedGeneration = mpst_ObservedGeneration h,
                pst_Conditions = conditions, pst_ActiveOnNode = mpst_ActiveOnNode h,
                pst_ThinLvs = thinLvs\<rparr> }"

definition view_NBDExportSpec :: "(cell, mNBDExportSpec, NBDExportSpec) view" where
  "view_NBDExportSpec lo m h =
     do { clients \<leftarrow> view_slice sel_String view_plain lo m (mes_Clients h);
          Some \<lparr>es_Export = mes_Export h, es_Path = mes_Path h, es_Host = mes_Host h,
                es_SizeBytes = mes_SizeBytes h, es_Clients = clients\<rparr> }"

definition view_NBDExportStatus :: "(cell, mNBDExportStatus, NBDExportStatus) view" where
  "view_NBDExportStatus lo m h =
     do { conditions \<leftarrow> view_slice sel_Condition view_plain lo m (mest_Conditions h);
          Some \<lparr>est_ObservedGeneration = mest_ObservedGeneration h,
                est_Conditions = conditions, est_URI = mest_URI h\<rparr> }"

definition view_NBDExport :: "(cell, mNBDExport, TypeMeta \<times> NBDExport) view" where
  "view_NBDExport lo m h =
     do { meta \<leftarrow> view_ObjectMeta lo m (me_Meta h);
          spec \<leftarrow> view_NBDExportSpec lo m (me_Spec h);
          status \<leftarrow> view_NBDExportStatus lo m (me_Status h);
          Some (me_TypeMeta h, \<lparr>e_Meta = meta, e_Spec = spec, e_Status = status\<rparr>) }"

definition view_NBDExportList :: "(cell, mNBDExportList, NBDExportList) view" where
  "view_NBDExportList lo m h =
     do { listMeta \<leftarrow> view_ListMeta lo m (mel_ListMeta h);
          items \<leftarrow> view_slice sel_NBDExport view_NBDExport lo m (mel_Items h);
          Some \<lparr>el_TypeMeta = mel_TypeMeta h, el_ListMeta = listMeta, el_Items = items\<rparr> }"

definition view_Snapshot :: "(cell, mSnapshot, TypeMeta \<times> Snapshot) view" where
  "view_Snapshot lo m h =
     do { meta \<leftarrow> view_ObjectMeta lo m (ms_Meta h);
          status \<leftarrow> view_SnapshotStatus lo m (ms_Status h);
          Some (ms_TypeMeta h, \<lparr>s_Meta = meta, s_Spec = ms_Spec h, s_Status = status\<rparr>) }"

definition view_SnapshotList :: "(cell, mSnapshotList, SnapshotList) view" where
  "view_SnapshotList lo m h =
     do { listMeta \<leftarrow> view_ListMeta lo m (msl_ListMeta h);
          items \<leftarrow> view_slice sel_Snapshot view_Snapshot lo m (msl_Items h);
          Some \<lparr>sl_TypeMeta = msl_TypeMeta h, sl_ListMeta = listMeta, sl_Items = items\<rparr> }"

definition view_ThinPoolLv :: "(cell, mThinPoolLv, TypeMeta \<times> ThinPoolLv) view" where
  "view_ThinPoolLv lo m h =
     do { meta \<leftarrow> view_ObjectMeta lo m (mp_Meta h);
          spec \<leftarrow> view_ThinPoolLvSpec lo m (mp_Spec h);
          status \<leftarrow> view_ThinPoolLvStatus lo m (mp_Status h);
          Some (mp_TypeMeta h, \<lparr>p_Meta = meta, p_Spec = spec, p_Status = status\<rparr>) }"

definition view_ThinPoolLvList :: "(cell, mThinPoolLvList, ThinPoolLvList) view" where
  "view_ThinPoolLvList lo m h =
     do { listMeta \<leftarrow> view_ListMeta lo m (mpl_ListMeta h);
          items \<leftarrow> view_slice sel_ThinPoolLv view_ThinPoolLv lo m (mpl_Items h);
          Some \<lparr>pl_TypeMeta = mpl_TypeMeta h, pl_ListMeta = listMeta, pl_Items = items\<rparr> }"

definition view_Volume :: "(cell, mVolume, TypeMeta \<times> Volume) view" where
  "view_Volume lo m h =
     do { meta \<leftarrow> view_ObjectMeta lo m (mv_Meta h);
          spec \<leftarrow> view_VolumeSpec lo m (mv_Spec h);
          status \<leftarrow> view_VolumeStatus lo m (mv_Status h);
          Some (mv_TypeMeta h, \<lparr>v_Meta = meta, v_Spec = spec, v_Status = status\<rparr>) }"

definition view_VolumeList :: "(cell, mVolumeList, VolumeList) view" where
  "view_VolumeList lo m h =
     do { listMeta \<leftarrow> view_ListMeta lo m (mvl_ListMeta h);
          items \<leftarrow> view_slice sel_Volume view_Volume lo m (mvl_Items h);
          Some \<lparr>vl_TypeMeta = mvl_TypeMeta h, vl_ListMeta = listMeta, vl_Items = items\<rparr> }"

end
