(* ===== verification/Deep_Copy.thy ===== *)
theory Deep_Copy
  imports Deep_Copy_Types
begin

text \<open>
  api/v1alpha1/zz_generated.deepcopy.go: DeepCopyInto, DeepCopy and DeepCopyObject of every
  type, with the DeepCopyInto of the metadata they call (apimachinery's meta/v1), over the
  memory of Go_Memory.  Each DeepCopyInto meets the contract of the locale deep_copier: the
  copy has the value of the original, reaches only memory allocated for it, and leaves all
  older memory as it was.  The last section is what the controllers use it for: the old
  object they keep before changing an object in place.
\<close>

section \<open>DeepCopyInto\<close>

text \<open>
  The receiver is what the pointer refers to and the result is what *out holds at the end.
  The assignment of the whole struct comes first, so each result starts from the receiver.
\<close>

lemmas struct_simps = view_pair_def into_pair_def map_conv_bind_option Option.bind_assoc
  comp_def case_prod_unfold

definition Condition_DeepCopyInto :: "Condition copier" where
  "Condition_DeepCopyInto src m = assign src m"

definition SnapshotSpec_DeepCopyInto :: "SnapshotSpec copier" where
  "SnapshotSpec_DeepCopyInto src m = assign src m"

definition ThinLvContentsSnapshot_DeepCopyInto :: "string copier" where
  "ThinLvContentsSnapshot_DeepCopyInto src m = assign src m"

definition ThinLvSpecState_DeepCopyInto :: "ThinLvSpecStateName copier" where
  "ThinLvSpecState_DeepCopyInto src m = assign src m"

definition ThinLvStatusStateActive_DeepCopyInto :: "string copier" where
  "ThinLvStatusStateActive_DeepCopyInto src m = assign src m"

definition VolumeContentsCloneSnapshot_DeepCopyInto :: "string copier" where
  "VolumeContentsCloneSnapshot_DeepCopyInto src m = assign src m"

definition VolumeContentsCloneVolume_DeepCopyInto :: "string copier" where
  "VolumeContentsCloneVolume_DeepCopyInto src m = assign src m"

definition VolumeTypeBlock_DeepCopyInto :: "unit copier" where
  "VolumeTypeBlock_DeepCopyInto src m = assign src m"

lemma Condition_copier: "deep_copier view_plain Condition_DeepCopyInto"
  by (simp add: Condition_DeepCopyInto_def [abs_def] plain.deep_copier_axioms)

definition OwnerReference_DeepCopyInto :: "mOwnerReference copier" where
  "OwnerReference_DeepCopyInto src m =
     do { (controller, m) \<leftarrow> ptr_DeepCopy sel_Bool BoolArray False assign
              (mor_Controller src) m;
          (blockOwnerDeletion, m) \<leftarrow> ptr_DeepCopy sel_Bool BoolArray False assign
              (mor_BlockOwnerDeletion src) m;
          Some (src\<lparr>mor_BlockOwnerDeletion := blockOwnerDeletion,
                    mor_Controller := controller\<rparr>, m) }"

lemma OwnerReference_copier: "deep_copier view_OwnerReference OwnerReference_DeepCopyInto"
  by (rule deep_copier_struct [OF deep_copier_pair [OF arr_Bool.deep_copier_ptr [where zero
      = False, OF plain.deep_copier_axioms]
        arr_Bool.deep_copier_ptr [where zero = False, OF plain.deep_copier_axioms]],
      where get = "\<lambda>h. (mor_Controller h, mor_BlockOwnerDeletion h)"
        and upd = "\<lambda>(controller, blockOwnerDeletion) h.
            h\<lparr>mor_BlockOwnerDeletion := blockOwnerDeletion, mor_Controller := controller\<rparr>"
        and mk = "\<lambda>h (controller, blockOwnerDeletion). \<lparr>or_APIVersion = mor_APIVersion h,
            or_Kind = mor_Kind h, or_Name = mor_Name h, or_UID = mor_UID h,
            or_BlockOwnerDeletion = blockOwnerDeletion, or_Controller = controller\<rparr>"])
    (simp_all add: view_OwnerReference_def OwnerReference_DeepCopyInto_def struct_simps)

definition ObjectMeta_DeepCopyInto :: "mObjectMeta copier" where
  "ObjectMeta_DeepCopyInto src m =
     do { (deletionTimestamp, m) \<leftarrow> ptr_DeepCopy sel_Time TimeArray 0 assign
              (mom_DeletionTimestamp src) m;
          (labels, m) \<leftarrow> map_DeepCopy sel_StringMap StringMapCell (mom_Labels src) m;
          (ownerReferences, m) \<leftarrow> slice_DeepCopy sel_OwnerReference OwnerReferenceArray
              zero_OwnerReference OwnerReference_DeepCopyInto (mom_OwnerReferences src) m;
          (finalizers, m) \<leftarrow> slice_copy sel_String StringArray [] (mom_Finalizers src) m;
          Some (src\<lparr>mom_DeletionTimestamp := deletionTimestamp, mom_Labels := labels,
                    mom_Finalizers := finalizers, mom_OwnerReferences := ownerReferences\<rparr>,
                        m) }"

lemma ObjectMeta_copier: "deep_copier view_ObjectMeta ObjectMeta_DeepCopyInto"
  by (rule deep_copier_struct [OF deep_copier_pair [OF arr_Time.deep_copier_ptr [where zero
      = 0, OF plain.deep_copier_axioms]
        deep_copier_pair [OF deep_copier_map [OF arr_StringMap.array_kind_axioms]
        deep_copier_pair [OF arr_OwnerReference.deep_copier_slice [where zero =
            zero_OwnerReference, OF OwnerReference_copier]
        arr_String.deep_copier_slice_copy [where zero = "[]"]]]],
      where get = "\<lambda>h. (mom_DeletionTimestamp h, mom_Labels h, mom_OwnerReferences h,
          mom_Finalizers h)"
        and upd = "\<lambda>(deletionTimestamp, labels, ownerReferences, finalizers) h.
            h\<lparr>mom_DeletionTimestamp := deletionTimestamp, mom_Labels := labels,
            mom_Finalizers := finalizers, mom_OwnerReferences := ownerReferences\<rparr>"
        and mk = "\<lambda>h (deletionTimestamp, labels, ownerReferences, finalizers). \<lparr>om_Name =
            mom_Name h, om_Namespace = mom_Namespace h, om_UID = mom_UID h,
            om_ResourceVersion = mom_ResourceVersion h, om_Generation = mom_Generation h,
            om_DeletionTimestamp = deletionTimestamp, om_Labels = labels,
            om_Finalizers = finalizers, om_OwnerReferences = ownerReferences\<rparr>"])
    (simp_all add: view_ObjectMeta_def ObjectMeta_DeepCopyInto_def struct_simps)

definition ListMeta_DeepCopyInto :: "mListMeta copier" where
  "ListMeta_DeepCopyInto src m =
     do { (remainingItemCount, m) \<leftarrow> ptr_DeepCopy sel_Int64 Int64Array 0 assign
              (mlm_RemainingItemCount src) m;
          Some (src\<lparr>mlm_RemainingItemCount := remainingItemCount\<rparr>, m) }"

lemma ListMeta_copier: "deep_copier view_ListMeta ListMeta_DeepCopyInto"
  by (rule deep_copier_struct [OF arr_Int64.deep_copier_ptr [where zero = 0,
      OF plain.deep_copier_axioms],
      where get = "\<lambda>h. mlm_RemainingItemCount h"
        and upd = "\<lambda>remainingItemCount h. h\<lparr>mlm_RemainingItemCount := remainingItemCount\<rparr>"
        and mk = "\<lambda>h remainingItemCount. \<lparr>lm_SelfLink = mlm_SelfLink h,
            lm_ResourceVersion = mlm_ResourceVersion h, lm_Continue = mlm_Continue h,
            lm_RemainingItemCount = remainingItemCount\<rparr>"])
    (simp_all add: view_ListMeta_def ListMeta_DeepCopyInto_def struct_simps)

definition VolumeTypeFilesystem_DeepCopyInto :: "mVolumeTypeFilesystem copier" where
  "VolumeTypeFilesystem_DeepCopyInto src m =
     do { (mountOptions, m) \<leftarrow> slice_copy sel_String StringArray [] (mfs_MountOptions src) m;
          Some (src\<lparr>mfs_MountOptions := mountOptions\<rparr>, m) }"

lemma VolumeTypeFilesystem_copier: "deep_copier view_VolumeTypeFilesystem
    VolumeTypeFilesystem_DeepCopyInto"
  by (rule deep_copier_struct [OF arr_String.deep_copier_slice_copy [where zero = "[]"],
      where get = "\<lambda>h. mfs_MountOptions h"
        and upd = "\<lambda>mountOptions h. h\<lparr>mfs_MountOptions := mountOptions\<rparr>"
        and mk = "\<lambda>h mountOptions. \<lparr>fs_FsType = mfs_FsType h,
            fs_MountOptions = mountOptions\<rparr>"])
    (simp_all add: view_VolumeTypeFilesystem_def VolumeTypeFilesystem_DeepCopyInto_def
        struct_simps)

definition VolumeType_DeepCopyInto :: "mVolumeType copier" where
  "VolumeType_DeepCopyInto src m =
     do { (block, m) \<leftarrow> ptr_DeepCopy sel_VolumeTypeBlock VolumeTypeBlockArray () assign
              (mvt_Block src) m;
          (filesystem, m) \<leftarrow> ptr_DeepCopy sel_VolumeTypeFilesystem VolumeTypeFilesystemArray
              zero_VolumeTypeFilesystem VolumeTypeFilesystem_DeepCopyInto
              (mvt_Filesystem src) m;
          Some (src\<lparr>mvt_Block := block, mvt_Filesystem := filesystem\<rparr>, m) }"

lemma VolumeType_copier: "deep_copier view_VolumeType VolumeType_DeepCopyInto"
  by (rule deep_copier_struct [OF deep_copier_pair [OF arr_VolumeTypeBlock.deep_copier_ptr
      [where zero = "()", OF plain.deep_copier_axioms]
        arr_VolumeTypeFilesystem.deep_copier_ptr [where zero = zero_VolumeTypeFilesystem,
            OF VolumeTypeFilesystem_copier]],
      where get = "\<lambda>h. (mvt_Block h, mvt_Filesystem h)"
        and upd = "\<lambda>(block, filesystem) h. h\<lparr>mvt_Block := block,
            mvt_Filesystem := filesystem\<rparr>"
        and mk = "\<lambda>h (block, filesystem). \<lparr>vt_Block = block, vt_Filesystem = filesystem\<rparr>"])
    (simp_all add: view_VolumeType_def VolumeType_DeepCopyInto_def struct_simps)

definition VolumeContents_DeepCopyInto :: "mVolumeContents copier" where
  "VolumeContents_DeepCopyInto src m =
     do { (cloneVolume, m) \<leftarrow> ptr_DeepCopy sel_VolumeContentsCloneVolume
              VolumeContentsCloneVolumeArray [] assign (mvc_CloneVolume src) m;
          (cloneSnapshot, m) \<leftarrow> ptr_DeepCopy sel_VolumeContentsCloneSnapshot
              VolumeContentsCloneSnapshotArray [] assign (mvc_CloneSnapshot src) m;
          Some (src\<lparr>mvc_CloneVolume := cloneVolume, mvc_CloneSnapshot := cloneSnapshot\<rparr>,
              m) }"

lemma VolumeContents_copier: "deep_copier view_VolumeContents VolumeContents_DeepCopyInto"
  by (rule deep_copier_struct [OF deep_copier_pair [OF
      arr_VolumeContentsCloneVolume.deep_copier_ptr [where zero = "[]",
      OF plain.deep_copier_axioms]
        arr_VolumeContentsCloneSnapshot.deep_copier_ptr [where zero = "[]",
            OF plain.deep_copier_axioms]],
      where get = "\<lambda>h. (mvc_CloneVolume h, mvc_CloneSnapshot h)"
        and upd = "\<lambda>(cloneVolume, cloneSnapshot) h. h\<lparr>mvc_CloneVolume := cloneVolume,
            mvc_CloneSnapshot := cloneSnapshot\<rparr>"
        and mk = "\<lambda>h (cloneVolume, cloneSnapshot). \<lparr>vc_ContentsType = mvc_ContentsType h,
            vc_CloneVolume = cloneVolume, vc_CloneSnapshot = cloneSnapshot\<rparr>"])
    (simp_all add: view_VolumeContents_def VolumeContents_DeepCopyInto_def struct_simps)

definition VolumeSpec_DeepCopyInto :: "mVolumeSpec copier" where
  "VolumeSpec_DeepCopyInto src m =
     do { (ty, m) \<leftarrow> VolumeType_DeepCopyInto (mvs_Type src) m;
          (contents, m) \<leftarrow> VolumeContents_DeepCopyInto (mvs_Contents src) m;
          (accessModes, m) \<leftarrow> slice_copy sel_VolumeAccessMode VolumeAccessModeArray
              (OtherAccessMode []) (mvs_AccessModes src) m;
          (attachToNodes, m) \<leftarrow> slice_copy sel_String StringArray []
              (mvs_AttachToNodes src) m;
          Some (src\<lparr>mvs_Type := ty, mvs_Contents := contents,
                    mvs_AccessModes := accessModes, mvs_AttachToNodes := attachToNodes\<rparr>,
                        m) }"

lemma VolumeSpec_copier: "deep_copier view_VolumeSpec VolumeSpec_DeepCopyInto"
  by (rule deep_copier_struct [OF deep_copier_pair [OF VolumeType_copier
        deep_copier_pair [OF VolumeContents_copier
        deep_copier_pair [OF arr_VolumeAccessMode.deep_copier_slice_copy [where zero =
            "OtherAccessMode []"]
        arr_String.deep_copier_slice_copy [where zero = "[]"]]]],
      where get = "\<lambda>h. (mvs_Type h, mvs_Contents h, mvs_AccessModes h, mvs_AttachToNodes h)"
        and upd = "\<lambda>(ty, contents, accessModes, attachToNodes) h. h\<lparr>mvs_Type := ty,
            mvs_Contents := contents, mvs_AccessModes := accessModes,
            mvs_AttachToNodes := attachToNodes\<rparr>"
        and mk = "\<lambda>h (ty, contents, accessModes, attachToNodes). \<lparr>vs_VgName = mvs_VgName h,
            vs_Binding = mvs_Binding h, vs_Mode = mvs_Mode h, vs_WipePolicy = mvs_WipePolicy
            h, vs_Type = ty, vs_Contents = contents, vs_AccessModes = accessModes,
            vs_SizeBytes = mvs_SizeBytes h, vs_AttachToNodes = attachToNodes\<rparr>"])
    (simp_all add: view_VolumeSpec_def VolumeSpec_DeepCopyInto_def struct_simps)

definition VolumeStatus_DeepCopyInto :: "mVolumeStatus copier" where
  "VolumeStatus_DeepCopyInto src m =
     do { (conditions, m) \<leftarrow> slice_DeepCopy sel_Condition ConditionArray zero_Condition
              Condition_DeepCopyInto (mvst_Conditions src) m;
          (attachedToNodes, m) \<leftarrow> slice_copy sel_String StringArray []
              (mvst_AttachedToNodes src) m;
          Some (src\<lparr>mvst_Conditions := conditions,
                    mvst_AttachedToNodes := attachedToNodes\<rparr>, m) }"

lemma VolumeStatus_copier: "deep_copier view_VolumeStatus VolumeStatus_DeepCopyInto"
  by (rule deep_copier_struct [OF deep_copier_pair [OF arr_Condition.deep_copier_slice
      [where zero = zero_Condition, OF Condition_copier]
        arr_String.deep_copier_slice_copy [where zero = "[]"]],
      where get = "\<lambda>h. (mvst_Conditions h, mvst_AttachedToNodes h)"
        and upd = "\<lambda>(conditions, attachedToNodes) h. h\<lparr>mvst_Conditions := conditions,
            mvst_AttachedToNodes := attachedToNodes\<rparr>"
        and mk = "\<lambda>h (conditions, attachedToNodes). \<lparr>vst_ObservedGeneration =
            mvst_ObservedGeneration h, vst_Conditions = conditions,
            vst_SizeBytes = mvst_SizeBytes h, vst_AttachedToNodes = attachedToNodes,
            vst_Path = mvst_Path h, vst_NBDExport = mvst_NBDExport h\<rparr>"])
    (simp_all add: view_VolumeStatus_def VolumeStatus_DeepCopyInto_def struct_simps)

definition SnapshotStatus_DeepCopyInto :: "mSnapshotStatus copier" where
  "SnapshotStatus_DeepCopyInto src m =
     do { (conditions, m) \<leftarrow> slice_DeepCopy sel_Condition ConditionArray zero_Condition
              Condition_DeepCopyInto (msst_Conditions src) m;
          Some (src\<lparr>msst_Conditions := conditions\<rparr>, m) }"

lemma SnapshotStatus_copier: "deep_copier view_SnapshotStatus SnapshotStatus_DeepCopyInto"
  by (rule deep_copier_struct [OF arr_Condition.deep_copier_slice [where zero =
      zero_Condition, OF Condition_copier],
      where get = "\<lambda>h. msst_Conditions h"
        and upd = "\<lambda>conditions h. h\<lparr>msst_Conditions := conditions\<rparr>"
        and mk = "\<lambda>h conditions. \<lparr>sst_ObservedGeneration = msst_ObservedGeneration h,
            sst_Conditions = conditions, sst_SizeBytes = msst_SizeBytes h\<rparr>"])
    (simp_all add: view_SnapshotStatus_def SnapshotStatus_DeepCopyInto_def struct_simps)

definition ThinLvContents_DeepCopyInto :: "mThinLvContents copier" where
  "ThinLvContents_DeepCopyInto src m =
     do { (snapshot, m) \<leftarrow> ptr_DeepCopy sel_ThinLvContentsSnapshot
              ThinLvContentsSnapshotArray [] assign (mtc_Snapshot src) m;
          Some (src\<lparr>mtc_Snapshot := snapshot\<rparr>, m) }"

lemma ThinLvContents_copier: "deep_copier view_ThinLvContents ThinLvContents_DeepCopyInto"
  by (rule deep_copier_struct [OF arr_ThinLvContentsSnapshot.deep_copier_ptr [where zero =
      "[]", OF plain.deep_copier_axioms],
      where get = "\<lambda>h. mtc_Snapshot h"
        and upd = "\<lambda>snapshot h. h\<lparr>mtc_Snapshot := snapshot\<rparr>"
        and mk = "\<lambda>h snapshot. \<lparr>tc_ContentsType = mtc_ContentsType h,
            tc_Snapshot = snapshot\<rparr>"])
    (simp_all add: view_ThinLvContents_def ThinLvContents_DeepCopyInto_def struct_simps)

definition ThinLvSpec_DeepCopyInto :: "mThinLvSpec copier" where
  "ThinLvSpec_DeepCopyInto src m =
     do { (contents, m) \<leftarrow> ThinLvContents_DeepCopyInto (mls_Contents src) m;
          Some (src\<lparr>mls_Contents := contents, mls_State := mls_State src\<rparr>, m) }"

lemma ThinLvSpec_copier: "deep_copier view_ThinLvSpec ThinLvSpec_DeepCopyInto"
  by (rule deep_copier_struct [OF ThinLvContents_copier,
      where get = "\<lambda>h. mls_Contents h"
        and upd = "\<lambda>contents h. h\<lparr>mls_Contents := contents\<rparr>"
        and mk = "\<lambda>h contents. \<lparr>ls_Name = mls_Name h, ls_Binding = mls_Binding h,
            ls_Contents = contents, ls_ReadOnly = mls_ReadOnly h,
            ls_SizeBytes = mls_SizeBytes h, ls_State = mls_State h\<rparr>"])
    (simp_all add: view_ThinLvSpec_def ThinLvSpec_DeepCopyInto_def struct_simps)

definition ThinLvStatusState_DeepCopyInto :: "mThinLvStatusState copier" where
  "ThinLvStatusState_DeepCopyInto src m =
     do { (active, m) \<leftarrow> ptr_DeepCopy sel_ThinLvStatusStateActive
              ThinLvStatusStateActiveArray [] assign (mst_Active src) m;
          Some (src\<lparr>mst_Active := active\<rparr>, m) }"

lemma ThinLvStatusState_copier: "deep_copier view_ThinLvStatusState
    ThinLvStatusState_DeepCopyInto"
  by (rule deep_copier_struct [OF arr_ThinLvStatusStateActive.deep_copier_ptr [where zero =
      "[]", OF plain.deep_copier_axioms],
      where get = "\<lambda>h. mst_Active h"
        and upd = "\<lambda>active h. h\<lparr>mst_Active := active\<rparr>"
        and mk = "\<lambda>h active. \<lparr>st_Name = mst_Name h, st_Active = active\<rparr>"])
    (simp_all add: view_ThinLvStatusState_def ThinLvStatusState_DeepCopyInto_def
        struct_simps)

definition ThinLvStatus_DeepCopyInto :: "mThinLvStatus copier" where
  "ThinLvStatus_DeepCopyInto src m =
     do { (st, m) \<leftarrow> ThinLvStatusState_DeepCopyInto (mlst_State src) m;
          Some (src\<lparr>mlst_State := st\<rparr>, m) }"

lemma ThinLvStatus_copier: "deep_copier view_ThinLvStatus ThinLvStatus_DeepCopyInto"
  by (rule deep_copier_struct [OF ThinLvStatusState_copier,
      where get = "\<lambda>h. mlst_State h"
        and upd = "\<lambda>st h. h\<lparr>mlst_State := st\<rparr>"
        and mk = "\<lambda>h st. \<lparr>lst_Name = mlst_Name h, lst_State = st,
            lst_SizeBytes = mlst_SizeBytes h\<rparr>"])
    (simp_all add: view_ThinLvStatus_def ThinLvStatus_DeepCopyInto_def struct_simps)

definition ThinLv_DeepCopyInto :: "mThinLv copier" where
  "ThinLv_DeepCopyInto src m =
     do { (spec, m) \<leftarrow> ptr_DeepCopy sel_ThinLvSpec ThinLvSpecArray zero_ThinLvSpec
              ThinLvSpec_DeepCopyInto (mtl_Spec src) m;
          (status, m) \<leftarrow> ptr_DeepCopy sel_ThinLvStatus ThinLvStatusArray zero_ThinLvStatus
              ThinLvStatus_DeepCopyInto (mtl_Status src) m;
          Some (src\<lparr>mtl_Spec := spec, mtl_Status := status\<rparr>, m) }"

lemma ThinLv_copier: "deep_copier view_ThinLv ThinLv_DeepCopyInto"
  by (rule deep_copier_struct [OF deep_copier_pair [OF arr_ThinLvSpec.deep_copier_ptr [where
      zero = zero_ThinLvSpec, OF ThinLvSpec_copier]
        arr_ThinLvStatus.deep_copier_ptr [where zero = zero_ThinLvStatus,
            OF ThinLvStatus_copier]],
      where get = "\<lambda>h. (mtl_Spec h, mtl_Status h)"
        and upd = "\<lambda>(spec, status) h. h\<lparr>mtl_Spec := spec, mtl_Status := status\<rparr>"
        and mk = "\<lambda>h (spec, status). \<lparr>tl_Spec = spec, tl_Status = status\<rparr>"])
    (simp_all add: view_ThinLv_def ThinLv_DeepCopyInto_def struct_simps)

definition ThinPoolLvSpec_DeepCopyInto :: "mThinPoolLvSpec copier" where
  "ThinPoolLvSpec_DeepCopyInto src m =
     do { (thinLvs, m) \<leftarrow> slice_DeepCopy sel_ThinLvSpec ThinLvSpecArray zero_ThinLvSpec
              ThinLvSpec_DeepCopyInto (mps_ThinLvs src) m;
          Some (src\<lparr>mps_ThinLvs := thinLvs\<rparr>, m) }"

lemma ThinPoolLvSpec_copier: "deep_copier view_ThinPoolLvSpec ThinPoolLvSpec_DeepCopyInto"
  by (rule deep_copier_struct [OF arr_ThinLvSpec.deep_copier_slice [where zero =
      zero_ThinLvSpec, OF ThinLvSpec_copier],
      where get = "\<lambda>h. mps_ThinLvs h"
        and upd = "\<lambda>thinLvs h. h\<lparr>mps_ThinLvs := thinLvs\<rparr>"
        and mk = "\<lambda>h thinLvs. \<lparr>ps_VgName = mps_VgName h, ps_SizeBytes = mps_SizeBytes h,
            ps_ThinLvs = thinLvs, ps_ActiveOnNode = mps_ActiveOnNode h\<rparr>"])
    (simp_all add: view_ThinPoolLvSpec_def ThinPoolLvSpec_DeepCopyInto_def struct_simps)

definition ThinPoolLvStatus_DeepCopyInto :: "mThinPoolLvStatus copier" where
  "ThinPoolLvStatus_DeepCopyInto src m =
     do { (conditions, m) \<leftarrow> slice_DeepCopy sel_Condition ConditionArray zero_Condition
              Condition_DeepCopyInto (mpst_Conditions src) m;
          (thinLvs, m) \<leftarrow> slice_DeepCopy sel_ThinLvStatus ThinLvStatusArray zero_ThinLvStatus
              ThinLvStatus_DeepCopyInto (mpst_ThinLvs src) m;
          Some (src\<lparr>mpst_Conditions := conditions, mpst_ThinLvs := thinLvs\<rparr>, m) }"

lemma ThinPoolLvStatus_copier: "deep_copier view_ThinPoolLvStatus
    ThinPoolLvStatus_DeepCopyInto"
  by (rule deep_copier_struct [OF deep_copier_pair [OF arr_Condition.deep_copier_slice
      [where zero = zero_Condition, OF Condition_copier]
        arr_ThinLvStatus.deep_copier_slice [where zero = zero_ThinLvStatus,
            OF ThinLvStatus_copier]],
      where get = "\<lambda>h. (mpst_Conditions h, mpst_ThinLvs h)"
        and upd = "\<lambda>(conditions, thinLvs) h. h\<lparr>mpst_Conditions := conditions,
            mpst_ThinLvs := thinLvs\<rparr>"
        and mk = "\<lambda>h (conditions, thinLvs). \<lparr>pst_ObservedGeneration =
            mpst_ObservedGeneration h, pst_Conditions = conditions,
            pst_ActiveOnNode = mpst_ActiveOnNode h, pst_ThinLvs = thinLvs\<rparr>"])
    (simp_all add: view_ThinPoolLvStatus_def ThinPoolLvStatus_DeepCopyInto_def struct_simps)

definition NBDExportSpec_DeepCopyInto :: "mNBDExportSpec copier" where
  "NBDExportSpec_DeepCopyInto src m =
     do { (clients, m) \<leftarrow> slice_copy sel_String StringArray [] (mes_Clients src) m;
          Some (src\<lparr>mes_Clients := clients\<rparr>, m) }"

lemma NBDExportSpec_copier: "deep_copier view_NBDExportSpec NBDExportSpec_DeepCopyInto"
  by (rule deep_copier_struct [OF arr_String.deep_copier_slice_copy [where zero = "[]"],
      where get = "\<lambda>h. mes_Clients h"
        and upd = "\<lambda>clients h. h\<lparr>mes_Clients := clients\<rparr>"
        and mk = "\<lambda>h clients. \<lparr>es_Export = mes_Export h, es_Path = mes_Path h,
            es_Host = mes_Host h, es_SizeBytes = mes_SizeBytes h, es_Clients = clients\<rparr>"])
    (simp_all add: view_NBDExportSpec_def NBDExportSpec_DeepCopyInto_def struct_simps)

definition NBDExportStatus_DeepCopyInto :: "mNBDExportStatus copier" where
  "NBDExportStatus_DeepCopyInto src m =
     do { (conditions, m) \<leftarrow> slice_DeepCopy sel_Condition ConditionArray zero_Condition
              Condition_DeepCopyInto (mest_Conditions src) m;
          Some (src\<lparr>mest_Conditions := conditions\<rparr>, m) }"

lemma NBDExportStatus_copier: "deep_copier view_NBDExportStatus
    NBDExportStatus_DeepCopyInto"
  by (rule deep_copier_struct [OF arr_Condition.deep_copier_slice [where zero =
      zero_Condition, OF Condition_copier],
      where get = "\<lambda>h. mest_Conditions h"
        and upd = "\<lambda>conditions h. h\<lparr>mest_Conditions := conditions\<rparr>"
        and mk = "\<lambda>h conditions. \<lparr>est_ObservedGeneration = mest_ObservedGeneration h,
            est_Conditions = conditions, est_URI = mest_URI h\<rparr>"])
    (simp_all add: view_NBDExportStatus_def NBDExportStatus_DeepCopyInto_def struct_simps)

definition NBDExport_DeepCopyInto :: "mNBDExport copier" where
  "NBDExport_DeepCopyInto src m =
     do { (meta, m) \<leftarrow> ObjectMeta_DeepCopyInto (me_Meta src) m;
          (spec, m) \<leftarrow> NBDExportSpec_DeepCopyInto (me_Spec src) m;
          (status, m) \<leftarrow> NBDExportStatus_DeepCopyInto (me_Status src) m;
          Some (src\<lparr>me_TypeMeta := me_TypeMeta src, me_Meta := meta, me_Spec := spec,
                    me_Status := status\<rparr>, m) }"

lemma NBDExport_copier: "deep_copier view_NBDExport NBDExport_DeepCopyInto"
  by (rule deep_copier_struct [OF deep_copier_pair [OF ObjectMeta_copier
        deep_copier_pair [OF NBDExportSpec_copier
        NBDExportStatus_copier]],
      where get = "\<lambda>h. (me_Meta h, me_Spec h, me_Status h)"
        and upd = "\<lambda>(meta, spec, status) h. h\<lparr>me_Meta := meta, me_Spec := spec,
            me_Status := status\<rparr>"
        and mk = "\<lambda>h (meta, spec, status). (me_TypeMeta h, \<lparr>e_Meta = meta, e_Spec = spec,
            e_Status = status\<rparr>)"])
    (simp_all add: view_NBDExport_def NBDExport_DeepCopyInto_def struct_simps)

definition NBDExportList_DeepCopyInto :: "mNBDExportList copier" where
  "NBDExportList_DeepCopyInto src m =
     do { (listMeta, m) \<leftarrow> ListMeta_DeepCopyInto (mel_ListMeta src) m;
          (items, m) \<leftarrow> slice_DeepCopy sel_NBDExport NBDExportArray zero_NBDExport
              NBDExport_DeepCopyInto (mel_Items src) m;
          Some (src\<lparr>mel_TypeMeta := mel_TypeMeta src, mel_ListMeta := listMeta,
                    mel_Items := items\<rparr>, m) }"

lemma NBDExportList_copier: "deep_copier view_NBDExportList NBDExportList_DeepCopyInto"
  by (rule deep_copier_struct [OF deep_copier_pair [OF ListMeta_copier
        arr_NBDExport.deep_copier_slice [where zero = zero_NBDExport, OF NBDExport_copier]],
      where get = "\<lambda>h. (mel_ListMeta h, mel_Items h)"
        and upd = "\<lambda>(listMeta, items) h. h\<lparr>mel_ListMeta := listMeta, mel_Items := items\<rparr>"
        and mk = "\<lambda>h (listMeta, items). \<lparr>el_TypeMeta = mel_TypeMeta h,
            el_ListMeta = listMeta, el_Items = items\<rparr>"])
    (simp_all add: view_NBDExportList_def NBDExportList_DeepCopyInto_def struct_simps)

definition Snapshot_DeepCopyInto :: "mSnapshot copier" where
  "Snapshot_DeepCopyInto src m =
     do { (meta, m) \<leftarrow> ObjectMeta_DeepCopyInto (ms_Meta src) m;
          (status, m) \<leftarrow> SnapshotStatus_DeepCopyInto (ms_Status src) m;
          Some (src\<lparr>ms_TypeMeta := ms_TypeMeta src, ms_Meta := meta,
                    ms_Spec := ms_Spec src, ms_Status := status\<rparr>, m) }"

lemma Snapshot_copier: "deep_copier view_Snapshot Snapshot_DeepCopyInto"
  by (rule deep_copier_struct [OF deep_copier_pair [OF ObjectMeta_copier
        SnapshotStatus_copier],
      where get = "\<lambda>h. (ms_Meta h, ms_Status h)"
        and upd = "\<lambda>(meta, status) h. h\<lparr>ms_Meta := meta, ms_Status := status\<rparr>"
        and mk = "\<lambda>h (meta, status). (ms_TypeMeta h, \<lparr>s_Meta = meta, s_Spec = ms_Spec h,
            s_Status = status\<rparr>)"])
    (simp_all add: view_Snapshot_def Snapshot_DeepCopyInto_def struct_simps)

definition SnapshotList_DeepCopyInto :: "mSnapshotList copier" where
  "SnapshotList_DeepCopyInto src m =
     do { (listMeta, m) \<leftarrow> ListMeta_DeepCopyInto (msl_ListMeta src) m;
          (items, m) \<leftarrow> slice_DeepCopy sel_Snapshot SnapshotArray zero_Snapshot
              Snapshot_DeepCopyInto (msl_Items src) m;
          Some (src\<lparr>msl_TypeMeta := msl_TypeMeta src, msl_ListMeta := listMeta,
                    msl_Items := items\<rparr>, m) }"

lemma SnapshotList_copier: "deep_copier view_SnapshotList SnapshotList_DeepCopyInto"
  by (rule deep_copier_struct [OF deep_copier_pair [OF ListMeta_copier
        arr_Snapshot.deep_copier_slice [where zero = zero_Snapshot, OF Snapshot_copier]],
      where get = "\<lambda>h. (msl_ListMeta h, msl_Items h)"
        and upd = "\<lambda>(listMeta, items) h. h\<lparr>msl_ListMeta := listMeta, msl_Items := items\<rparr>"
        and mk = "\<lambda>h (listMeta, items). \<lparr>sl_TypeMeta = msl_TypeMeta h,
            sl_ListMeta = listMeta, sl_Items = items\<rparr>"])
    (simp_all add: view_SnapshotList_def SnapshotList_DeepCopyInto_def struct_simps)

definition ThinPoolLv_DeepCopyInto :: "mThinPoolLv copier" where
  "ThinPoolLv_DeepCopyInto src m =
     do { (meta, m) \<leftarrow> ObjectMeta_DeepCopyInto (mp_Meta src) m;
          (spec, m) \<leftarrow> ThinPoolLvSpec_DeepCopyInto (mp_Spec src) m;
          (status, m) \<leftarrow> ThinPoolLvStatus_DeepCopyInto (mp_Status src) m;
          Some (src\<lparr>mp_TypeMeta := mp_TypeMeta src, mp_Meta := meta, mp_Spec := spec,
                    mp_Status := status\<rparr>, m) }"

lemma ThinPoolLv_copier: "deep_copier view_ThinPoolLv ThinPoolLv_DeepCopyInto"
  by (rule deep_copier_struct [OF deep_copier_pair [OF ObjectMeta_copier
        deep_copier_pair [OF ThinPoolLvSpec_copier
        ThinPoolLvStatus_copier]],
      where get = "\<lambda>h. (mp_Meta h, mp_Spec h, mp_Status h)"
        and upd = "\<lambda>(meta, spec, status) h. h\<lparr>mp_Meta := meta, mp_Spec := spec,
            mp_Status := status\<rparr>"
        and mk = "\<lambda>h (meta, spec, status). (mp_TypeMeta h, \<lparr>p_Meta = meta, p_Spec = spec,
            p_Status = status\<rparr>)"])
    (simp_all add: view_ThinPoolLv_def ThinPoolLv_DeepCopyInto_def struct_simps)

definition ThinPoolLvList_DeepCopyInto :: "mThinPoolLvList copier" where
  "ThinPoolLvList_DeepCopyInto src m =
     do { (listMeta, m) \<leftarrow> ListMeta_DeepCopyInto (mpl_ListMeta src) m;
          (items, m) \<leftarrow> slice_DeepCopy sel_ThinPoolLv ThinPoolLvArray zero_ThinPoolLv
              ThinPoolLv_DeepCopyInto (mpl_Items src) m;
          Some (src\<lparr>mpl_TypeMeta := mpl_TypeMeta src, mpl_ListMeta := listMeta,
                    mpl_Items := items\<rparr>, m) }"

lemma ThinPoolLvList_copier: "deep_copier view_ThinPoolLvList ThinPoolLvList_DeepCopyInto"
  by (rule deep_copier_struct [OF deep_copier_pair [OF ListMeta_copier
        arr_ThinPoolLv.deep_copier_slice [where zero = zero_ThinPoolLv,
            OF ThinPoolLv_copier]],
      where get = "\<lambda>h. (mpl_ListMeta h, mpl_Items h)"
        and upd = "\<lambda>(listMeta, items) h. h\<lparr>mpl_ListMeta := listMeta, mpl_Items := items\<rparr>"
        and mk = "\<lambda>h (listMeta, items). \<lparr>pl_TypeMeta = mpl_TypeMeta h,
            pl_ListMeta = listMeta, pl_Items = items\<rparr>"])
    (simp_all add: view_ThinPoolLvList_def ThinPoolLvList_DeepCopyInto_def struct_simps)

definition Volume_DeepCopyInto :: "mVolume copier" where
  "Volume_DeepCopyInto src m =
     do { (meta, m) \<leftarrow> ObjectMeta_DeepCopyInto (mv_Meta src) m;
          (spec, m) \<leftarrow> VolumeSpec_DeepCopyInto (mv_Spec src) m;
          (status, m) \<leftarrow> VolumeStatus_DeepCopyInto (mv_Status src) m;
          Some (src\<lparr>mv_TypeMeta := mv_TypeMeta src, mv_Meta := meta, mv_Spec := spec,
                    mv_Status := status\<rparr>, m) }"

lemma Volume_copier: "deep_copier view_Volume Volume_DeepCopyInto"
  by (rule deep_copier_struct [OF deep_copier_pair [OF ObjectMeta_copier
        deep_copier_pair [OF VolumeSpec_copier
        VolumeStatus_copier]],
      where get = "\<lambda>h. (mv_Meta h, mv_Spec h, mv_Status h)"
        and upd = "\<lambda>(meta, spec, status) h. h\<lparr>mv_Meta := meta, mv_Spec := spec,
            mv_Status := status\<rparr>"
        and mk = "\<lambda>h (meta, spec, status). (mv_TypeMeta h, \<lparr>v_Meta = meta, v_Spec = spec,
            v_Status = status\<rparr>)"])
    (simp_all add: view_Volume_def Volume_DeepCopyInto_def struct_simps)

definition VolumeList_DeepCopyInto :: "mVolumeList copier" where
  "VolumeList_DeepCopyInto src m =
     do { (listMeta, m) \<leftarrow> ListMeta_DeepCopyInto (mvl_ListMeta src) m;
          (items, m) \<leftarrow> slice_DeepCopy sel_Volume VolumeArray zero_Volume Volume_DeepCopyInto
              (mvl_Items src) m;
          Some (src\<lparr>mvl_TypeMeta := mvl_TypeMeta src, mvl_ListMeta := listMeta,
                    mvl_Items := items\<rparr>, m) }"

lemma VolumeList_copier: "deep_copier view_VolumeList VolumeList_DeepCopyInto"
  by (rule deep_copier_struct [OF deep_copier_pair [OF ListMeta_copier
        arr_Volume.deep_copier_slice [where zero = zero_Volume, OF Volume_copier]],
      where get = "\<lambda>h. (mvl_ListMeta h, mvl_Items h)"
        and upd = "\<lambda>(listMeta, items) h. h\<lparr>mvl_ListMeta := listMeta, mvl_Items := items\<rparr>"
        and mk = "\<lambda>h (listMeta, items). \<lparr>vl_TypeMeta = mvl_TypeMeta h,
            vl_ListMeta = listMeta, vl_Items = items\<rparr>"])
    (simp_all add: view_VolumeList_def VolumeList_DeepCopyInto_def struct_simps)

interpretation nBDExport_copy: deep_copier view_NBDExport NBDExport_DeepCopyInto
  by (rule NBDExport_copier)

interpretation snapshot_copy: deep_copier view_Snapshot Snapshot_DeepCopyInto
  by (rule Snapshot_copier)

interpretation thinPoolLv_copy: deep_copier view_ThinPoolLv ThinPoolLv_DeepCopyInto
  by (rule ThinPoolLv_copier)

interpretation volume_copy: deep_copier view_Volume Volume_DeepCopyInto
  by (rule Volume_copier)

section \<open>DeepCopy\<close>

definition NBDExport_DeepCopy :: "goptr option copier" where
  "NBDExport_DeepCopy = ptr_DeepCopy sel_NBDExport NBDExportArray zero_NBDExport
      NBDExport_DeepCopyInto"

definition NBDExportList_DeepCopy :: "goptr option copier" where
  "NBDExportList_DeepCopy = ptr_DeepCopy sel_NBDExportList NBDExportListArray
      zero_NBDExportList NBDExportList_DeepCopyInto"

definition NBDExportSpec_DeepCopy :: "goptr option copier" where
  "NBDExportSpec_DeepCopy = ptr_DeepCopy sel_NBDExportSpec NBDExportSpecArray
      zero_NBDExportSpec NBDExportSpec_DeepCopyInto"

definition NBDExportStatus_DeepCopy :: "goptr option copier" where
  "NBDExportStatus_DeepCopy = ptr_DeepCopy sel_NBDExportStatus NBDExportStatusArray
      zero_NBDExportStatus NBDExportStatus_DeepCopyInto"

definition Snapshot_DeepCopy :: "goptr option copier" where
  "Snapshot_DeepCopy = ptr_DeepCopy sel_Snapshot SnapshotArray zero_Snapshot
      Snapshot_DeepCopyInto"

definition SnapshotList_DeepCopy :: "goptr option copier" where
  "SnapshotList_DeepCopy = ptr_DeepCopy sel_SnapshotList SnapshotListArray zero_SnapshotList
      SnapshotList_DeepCopyInto"

definition SnapshotSpec_DeepCopy :: "goptr option copier" where
  "SnapshotSpec_DeepCopy = ptr_DeepCopy sel_SnapshotSpec SnapshotSpecArray zero_SnapshotSpec
      SnapshotSpec_DeepCopyInto"

definition SnapshotStatus_DeepCopy :: "goptr option copier" where
  "SnapshotStatus_DeepCopy = ptr_DeepCopy sel_SnapshotStatus SnapshotStatusArray
      zero_SnapshotStatus SnapshotStatus_DeepCopyInto"

definition ThinLv_DeepCopy :: "goptr option copier" where
  "ThinLv_DeepCopy = ptr_DeepCopy sel_ThinLv ThinLvArray zero_ThinLv ThinLv_DeepCopyInto"

definition ThinLvContents_DeepCopy :: "goptr option copier" where
  "ThinLvContents_DeepCopy = ptr_DeepCopy sel_ThinLvContents ThinLvContentsArray
      zero_ThinLvContents ThinLvContents_DeepCopyInto"

definition ThinLvContentsSnapshot_DeepCopy :: "goptr option copier" where
  "ThinLvContentsSnapshot_DeepCopy = ptr_DeepCopy sel_ThinLvContentsSnapshot
      ThinLvContentsSnapshotArray [] ThinLvContentsSnapshot_DeepCopyInto"

definition ThinLvSpec_DeepCopy :: "goptr option copier" where
  "ThinLvSpec_DeepCopy = ptr_DeepCopy sel_ThinLvSpec ThinLvSpecArray zero_ThinLvSpec
      ThinLvSpec_DeepCopyInto"

definition ThinLvSpecState_DeepCopy :: "goptr option copier" where
  "ThinLvSpecState_DeepCopy = ptr_DeepCopy sel_ThinLvSpecState ThinLvSpecStateArray
      (OtherSpecState []) ThinLvSpecState_DeepCopyInto"

definition ThinLvStatus_DeepCopy :: "goptr option copier" where
  "ThinLvStatus_DeepCopy = ptr_DeepCopy sel_ThinLvStatus ThinLvStatusArray zero_ThinLvStatus
      ThinLvStatus_DeepCopyInto"

definition ThinLvStatusState_DeepCopy :: "goptr option copier" where
  "ThinLvStatusState_DeepCopy = ptr_DeepCopy sel_ThinLvStatusState ThinLvStatusStateArray
      zero_ThinLvStatusState ThinLvStatusState_DeepCopyInto"

definition ThinLvStatusStateActive_DeepCopy :: "goptr option copier" where
  "ThinLvStatusStateActive_DeepCopy = ptr_DeepCopy sel_ThinLvStatusStateActive
      ThinLvStatusStateActiveArray [] ThinLvStatusStateActive_DeepCopyInto"

definition ThinPoolLv_DeepCopy :: "goptr option copier" where
  "ThinPoolLv_DeepCopy = ptr_DeepCopy sel_ThinPoolLv ThinPoolLvArray zero_ThinPoolLv
      ThinPoolLv_DeepCopyInto"

definition ThinPoolLvList_DeepCopy :: "goptr option copier" where
  "ThinPoolLvList_DeepCopy = ptr_DeepCopy sel_ThinPoolLvList ThinPoolLvListArray
      zero_ThinPoolLvList ThinPoolLvList_DeepCopyInto"

definition ThinPoolLvSpec_DeepCopy :: "goptr option copier" where
  "ThinPoolLvSpec_DeepCopy = ptr_DeepCopy sel_ThinPoolLvSpec ThinPoolLvSpecArray
      zero_ThinPoolLvSpec ThinPoolLvSpec_DeepCopyInto"

definition ThinPoolLvStatus_DeepCopy :: "goptr option copier" where
  "ThinPoolLvStatus_DeepCopy = ptr_DeepCopy sel_ThinPoolLvStatus ThinPoolLvStatusArray
      zero_ThinPoolLvStatus ThinPoolLvStatus_DeepCopyInto"

definition Volume_DeepCopy :: "goptr option copier" where
  "Volume_DeepCopy = ptr_DeepCopy sel_Volume VolumeArray zero_Volume Volume_DeepCopyInto"

definition VolumeContents_DeepCopy :: "goptr option copier" where
  "VolumeContents_DeepCopy = ptr_DeepCopy sel_VolumeContents VolumeContentsArray
      zero_VolumeContents VolumeContents_DeepCopyInto"

definition VolumeContentsCloneSnapshot_DeepCopy :: "goptr option copier" where
  "VolumeContentsCloneSnapshot_DeepCopy = ptr_DeepCopy sel_VolumeContentsCloneSnapshot
      VolumeContentsCloneSnapshotArray [] VolumeContentsCloneSnapshot_DeepCopyInto"

definition VolumeContentsCloneVolume_DeepCopy :: "goptr option copier" where
  "VolumeContentsCloneVolume_DeepCopy = ptr_DeepCopy sel_VolumeContentsCloneVolume
      VolumeContentsCloneVolumeArray [] VolumeContentsCloneVolume_DeepCopyInto"

definition VolumeList_DeepCopy :: "goptr option copier" where
  "VolumeList_DeepCopy = ptr_DeepCopy sel_VolumeList VolumeListArray zero_VolumeList
      VolumeList_DeepCopyInto"

definition VolumeSpec_DeepCopy :: "goptr option copier" where
  "VolumeSpec_DeepCopy = ptr_DeepCopy sel_VolumeSpec VolumeSpecArray zero_VolumeSpec
      VolumeSpec_DeepCopyInto"

definition VolumeStatus_DeepCopy :: "goptr option copier" where
  "VolumeStatus_DeepCopy = ptr_DeepCopy sel_VolumeStatus VolumeStatusArray zero_VolumeStatus
      VolumeStatus_DeepCopyInto"

definition VolumeType_DeepCopy :: "goptr option copier" where
  "VolumeType_DeepCopy = ptr_DeepCopy sel_VolumeType VolumeTypeArray zero_VolumeType
      VolumeType_DeepCopyInto"

definition VolumeTypeBlock_DeepCopy :: "goptr option copier" where
  "VolumeTypeBlock_DeepCopy = ptr_DeepCopy sel_VolumeTypeBlock VolumeTypeBlockArray
      () VolumeTypeBlock_DeepCopyInto"

definition VolumeTypeFilesystem_DeepCopy :: "goptr option copier" where
  "VolumeTypeFilesystem_DeepCopy = ptr_DeepCopy sel_VolumeTypeFilesystem
      VolumeTypeFilesystemArray zero_VolumeTypeFilesystem VolumeTypeFilesystem_DeepCopyInto"

section \<open>DeepCopyObject\<close>

text \<open>A runtime.Object: an interface value is the type with the pointer, and nil is None.\<close>

datatype runtime_Object =
    NBDExportObject goptr
  | NBDExportListObject goptr
  | SnapshotObject goptr
  | SnapshotListObject goptr
  | ThinPoolLvObject goptr
  | ThinPoolLvListObject goptr
  | VolumeObject goptr
  | VolumeListObject goptr

definition NBDExport_DeepCopyObject ::
  "goptr option \<Rightarrow> memory \<Rightarrow> (runtime_Object option \<times> memory) option" where
  "NBDExport_DeepCopyObject inp m =
     do { (c, m) \<leftarrow> NBDExport_DeepCopy inp m;
          case c of Some p \<Rightarrow> Some (Some (NBDExportObject p), m) | None \<Rightarrow> Some (None, m) }"

definition NBDExportList_DeepCopyObject ::
  "goptr option \<Rightarrow> memory \<Rightarrow> (runtime_Object option \<times> memory) option" where
  "NBDExportList_DeepCopyObject inp m =
     do { (c, m) \<leftarrow> NBDExportList_DeepCopy inp m;
          case c of Some p \<Rightarrow> Some (Some (NBDExportListObject p), m) | None \<Rightarrow> Some (None,
              m) }"

definition Snapshot_DeepCopyObject ::
  "goptr option \<Rightarrow> memory \<Rightarrow> (runtime_Object option \<times> memory) option" where
  "Snapshot_DeepCopyObject inp m =
     do { (c, m) \<leftarrow> Snapshot_DeepCopy inp m;
          case c of Some p \<Rightarrow> Some (Some (SnapshotObject p), m) | None \<Rightarrow> Some (None, m) }"

definition SnapshotList_DeepCopyObject ::
  "goptr option \<Rightarrow> memory \<Rightarrow> (runtime_Object option \<times> memory) option" where
  "SnapshotList_DeepCopyObject inp m =
     do { (c, m) \<leftarrow> SnapshotList_DeepCopy inp m;
          case c of Some p \<Rightarrow> Some (Some (SnapshotListObject p), m) | None \<Rightarrow> Some (None,
              m) }"

definition ThinPoolLv_DeepCopyObject ::
  "goptr option \<Rightarrow> memory \<Rightarrow> (runtime_Object option \<times> memory) option" where
  "ThinPoolLv_DeepCopyObject inp m =
     do { (c, m) \<leftarrow> ThinPoolLv_DeepCopy inp m;
          case c of Some p \<Rightarrow> Some (Some (ThinPoolLvObject p), m) | None \<Rightarrow> Some (None, m) }"

definition ThinPoolLvList_DeepCopyObject ::
  "goptr option \<Rightarrow> memory \<Rightarrow> (runtime_Object option \<times> memory) option" where
  "ThinPoolLvList_DeepCopyObject inp m =
     do { (c, m) \<leftarrow> ThinPoolLvList_DeepCopy inp m;
          case c of Some p \<Rightarrow> Some (Some (ThinPoolLvListObject p), m) | None \<Rightarrow> Some (None,
              m) }"

definition Volume_DeepCopyObject ::
  "goptr option \<Rightarrow> memory \<Rightarrow> (runtime_Object option \<times> memory) option" where
  "Volume_DeepCopyObject inp m =
     do { (c, m) \<leftarrow> Volume_DeepCopy inp m;
          case c of Some p \<Rightarrow> Some (Some (VolumeObject p), m) | None \<Rightarrow> Some (None, m) }"

definition VolumeList_DeepCopyObject ::
  "goptr option \<Rightarrow> memory \<Rightarrow> (runtime_Object option \<times> memory) option" where
  "VolumeList_DeepCopyObject inp m =
     do { (c, m) \<leftarrow> VolumeList_DeepCopy inp m;
          case c of Some p \<Rightarrow> Some (Some (VolumeListObject p), m) | None \<Rightarrow> Some (None, m) }"

end
