(* ===== verification/Pool_In_Memory.thy ===== *)
theory Pool_In_Memory
  imports Deep_Copy Node_Volume
begin

text \<open>
  What the deep copies are for: a controller keeps the object it read (oldThinPoolLv), changes
  the object in place through the pointers of FindThinLv, and UpdateThinPoolLv writes it back
  when the two differ.  Here the first steps of reconcileThinAttaching
  (internal/manager/node/volume_node_controller.go) and the write-back's copy run over the
  memory, and their values are those of the value-passing model of Node_Volume and
  Thin_Pool_Common.
\<close>

section \<open>The code on pointers\<close>

text \<open>for i := range elems: if elems[i].Name == name, return &elems[i].\<close>

primrec find_elem ::
  "('c \<Rightarrow> 'a list option) \<Rightarrow> ('a \<Rightarrow> bool) \<Rightarrow> goslice \<Rightarrow> nat list \<Rightarrow> 'c list \<Rightarrow> goptr option option" where
  "find_elem sel P s [] m = Some None"
| "find_elem sel P s (i # is) m =
     do { e \<leftarrow> load_elem sel (sl_Array s) (sl_Off s + i) m;
          if P e then Some (Some \<lparr>pt_Array = sl_Array s, pt_Idx = sl_Off s + i\<rparr>)
          else find_elem sel P s is m }"

definition mSpec_FindThinLv :: "mThinPoolLvSpec \<Rightarrow> string \<Rightarrow> memory \<Rightarrow> goptr option option" where
  "mSpec_FindThinLv spec name m =
     (case mps_ThinLvs spec of
        None \<Rightarrow> Some None
      | Some s \<Rightarrow> find_elem sel_ThinLvSpec (\<lambda>l. mls_Name l = name) s [0..<sl_Len s] m)"

definition mStatus_FindThinLv :: "mThinPoolLvStatus \<Rightarrow> string \<Rightarrow> memory \<Rightarrow> goptr option option" where
  "mStatus_FindThinLv status name m =
     (case mpst_ThinLvs status of
        None \<Rightarrow> Some None
      | Some s \<Rightarrow> find_elem sel_ThinLvStatus (\<lambda>l. mlst_Name l = name) s [0..<sl_Len s] m)"

text \<open>thinLvSpec.State.Name = state, through the pointer.\<close>

definition set_State :: "goptr \<Rightarrow> ThinLvSpecStateName \<Rightarrow> memory \<Rightarrow> memory option" where
  "set_State thinLvSpec state m =
     do { l \<leftarrow> load_elem sel_ThinLvSpec (pt_Array thinLvSpec) (pt_Idx thinLvSpec) m;
          store_elem sel_ThinLvSpec ThinLvSpecArray (pt_Array thinLvSpec) (pt_Idx thinLvSpec)
            (l\<lparr>mls_State := state\<rparr>) m }"

text \<open>thinPoolLv.Spec.ActiveOnNode = node.\<close>

definition set_Spec_ActiveOnNode :: "goptr \<Rightarrow> string \<Rightarrow> memory \<Rightarrow> memory option" where
  "set_Spec_ActiveOnNode thinPoolLv node m =
     do { pool \<leftarrow> load_elem sel_ThinPoolLv (pt_Array thinPoolLv) (pt_Idx thinPoolLv) m;
          store_elem sel_ThinPoolLv ThinPoolLvArray (pt_Array thinPoolLv) (pt_Idx thinPoolLv)
            (pool\<lparr>mp_Spec := (mp_Spec pool)\<lparr>mps_ActiveOnNode := node\<rparr>\<rparr>) m }"

text \<open>
  reconcileThinAttaching up to dm.Create: the kept copy with the size of the thin LV, or the
  error of a missing one.
\<close>

definition attaching_start ::
  "goptr \<Rightarrow> string \<Rightarrow> memory \<Rightarrow> ((goerr + goptr option \<times> int) \<times> memory) option" where
  "attaching_start thinPoolLv thinLvName m =
     do { (oldThinPoolLv, m) \<leftarrow> ThinPoolLv_DeepCopy (Some thinPoolLv) m;
          pool \<leftarrow> load_elem sel_ThinPoolLv (pt_Array thinPoolLv) (pt_Idx thinPoolLv) m;
          thinLvSpec \<leftarrow> mSpec_FindThinLv (mp_Spec pool) thinLvName m;
          thinLvStatus \<leftarrow> mStatus_FindThinLv (mp_Status pool) thinLvName m;
          case (thinLvSpec, thinLvStatus) of
            (Some spec, Some status) \<Rightarrow>
              do { l \<leftarrow> load_elem sel_ThinLvSpec (pt_Array spec) (pt_Idx spec) m;
                   if mls_State l = SpecRemoved
                   then Some (Inl (BadRequest ''unexpected missing blob''), m)
                   else do { m \<leftarrow> set_State spec SpecActive m;
                             st \<leftarrow> load_elem sel_ThinLvStatus (pt_Array status) (pt_Idx status) m;
                             Some (Inr (oldThinPoolLv, mlst_SizeBytes st), m) } }
          | _ \<Rightarrow> Some (Inl (BadRequest ''unexpected missing blob''), m) }"

text \<open>thinPoolLv.DeepCopyInto(oldThinPoolLv) of UpdateThinPoolLv.\<close>

definition sync_old :: "goptr \<Rightarrow> goptr \<Rightarrow> memory \<Rightarrow> memory option" where
  "sync_old thinPoolLv oldThinPoolLv m =
     do { pool \<leftarrow> load_elem sel_ThinPoolLv (pt_Array thinPoolLv) (pt_Idx thinPoolLv) m;
          (out, m) \<leftarrow> ThinPoolLv_DeepCopyInto pool m;
          store_elem sel_ThinPoolLv ThinPoolLvArray (pt_Array oldThinPoolLv) (pt_Idx oldThinPoolLv)
            out m }"

section \<open>Finding an element\<close>

lemma find_elem_index:
  assumes "array_at sel 0 m (sl_Array s) = Some xs" and "sl_Off s + sl_Len s \<le> length xs"
    and "i \<le> sl_Len s"
  shows "find_elem sel P s [i..<sl_Len s] m =
    Some (map_option (\<lambda>j. \<lparr>pt_Array = sl_Array s, pt_Idx = sl_Off s + i + j\<rparr>)
      (find_index P (drop i (take (sl_Len s) (drop (sl_Off s) xs)))))"
  using assms(3)
proof (induction "sl_Len s - i" arbitrary: i)
  case (Suc k)
  then have i: "i < sl_Len s" by simp
  let ?hs = "take (sl_Len s) (drop (sl_Off s) xs)"
  have "load_elem sel (sl_Array s) (sl_Off s + i) m = Some (?hs ! i)"
    using load_elem_at [OF assms(1), of "sl_Off s + i"] assms(2) i by simp
  moreover have "drop i ?hs = ?hs ! i # drop (Suc i) ?hs"
    using assms(2) i by (intro Cons_nth_drop_Suc [symmetric]) simp
  ultimately show ?case
    using Suc.hyps(1) [of "Suc i"] Suc.hyps(2) i
    by (simp add: upt_conv_Cons option.map_comp comp_def)
qed simp

lemma find_index_views:
  "list_all2 R hs vs \<Longrightarrow> (\<And>h v. R h v \<Longrightarrow> P h = Q v) \<Longrightarrow> find_index P hs = find_index Q vs"
  by (induction rule: list_all2_induct) auto

lemma find_thin_spec_index:
  "find_thin_spec ls n = map_option (\<lambda>j. ls ! j) (find_index (\<lambda>l. ls_Name l = n) ls)"
  by (induction ls) (auto simp: option.map_comp comp_def)

lemma find_thin_status_index:
  "find_thin_status ls n = map_option (\<lambda>j. ls ! j) (find_index (\<lambda>l. lst_Name l = n) ls)"
  by (induction ls) (auto simp: option.map_comp comp_def)

lemma update_first_index:
  "update_first P f xs = (case find_index P xs of None \<Rightarrow> xs | Some j \<Rightarrow> xs[j := f (xs ! j)])"
  by (induction xs) (auto split: option.splits)

lemma view_ThinLvSpec_fields:
  "view_ThinLvSpec lo m h = Some l \<Longrightarrow>
    ls_Name l = mls_Name h \<and> ls_State l = mls_State h"
  by (auto simp: view_ThinLvSpec_def bind_eq_Some_conv)

lemma view_ThinLvStatus_fields:
  "view_ThinLvStatus lo m h = Some l \<Longrightarrow>
    lst_Name l = mlst_Name h \<and> lst_SizeBytes l = mlst_SizeBytes h"
  by (auto simp: view_ThinLvStatus_def bind_eq_Some_conv)

lemma view_slice_Some:
  "view_slice sel view lo m (Some s) = Some vs \<longleftrightarrow>
    (\<exists>xs. array_at sel lo m (sl_Array s) = Some xs \<and> sl_Off s + sl_Len s \<le> length xs \<and>
      list_all2 (\<lambda>h v. view lo m h = Some v) (take (sl_Len s) (drop (sl_Off s) xs)) vs)"
  by (auto simp: view_slice_def bind_eq_Some_conv slice_elems_Some those_map_Some)

text \<open>Both lookups agree with those of the values, and give a pointer to the element.\<close>

lemma find_elem_view:
  assumes "view_slice sel view 0 m (Some s) = Some vs"
    and "\<And>h v. view 0 m h = Some v \<Longrightarrow> P h = Q v"
  shows "\<exists>xs. array_at sel 0 m (sl_Array s) = Some xs \<and> sl_Off s + sl_Len s \<le> length xs \<and>
    length vs = sl_Len s \<and>
    (\<forall>j < length vs. view 0 m (xs ! (sl_Off s + j)) = Some (vs ! j)) \<and>
    find_elem sel P s [0..<sl_Len s] m =
      Some (map_option (\<lambda>j. \<lparr>pt_Array = sl_Array s, pt_Idx = sl_Off s + j\<rparr>) (find_index Q vs))"
proof -
  obtain xs where xs: "array_at sel 0 m (sl_Array s) = Some xs" "sl_Off s + sl_Len s \<le> length xs"
      "list_all2 (\<lambda>h v. view 0 m h = Some v) (take (sl_Len s) (drop (sl_Off s) xs)) vs"
    using assms(1) unfolding view_slice_Some by blast
  have "length vs = sl_Len s" using list_all2_lengthD [OF xs(3)] xs(2) by simp
  moreover have "view 0 m (xs ! (sl_Off s + j)) = Some (vs ! j)" if "j < sl_Len s" for j
    using list_all2_nthD [OF xs(3), of j] that xs(2) by simp
  moreover have "find_index P (take (sl_Len s) (drop (sl_Off s) xs)) = find_index Q vs"
    by (rule find_index_views [OF xs(3) assms(2)])
  ultimately show ?thesis
    using xs(1,2) find_elem_index [OF xs(1,2), of 0 P] by auto
qed

section \<open>Writes through a pointer\<close>

lemma array_at_other:
  "sel (m ! a) = None \<Longrightarrow> sel c = None \<Longrightarrow> array_at sel lo (m[a := c]) b = array_at sel lo m b"
  by (cases "a < length m"; cases "a = b") (auto simp: array_at_def)

lemma sel_ThinLvSpec_iff: "sel_ThinLvSpec c = Some xs \<longleftrightarrow> c = ThinLvSpecArray xs"
  by (cases c) (auto simp: sel_ThinLvSpec_def)

lemma array_at_ThinLvSpec:
  "array_at sel_ThinLvSpec lo m a = Some xs \<Longrightarrow> m ! a = ThinLvSpecArray xs"
  by (auto simp: array_at_def sel_ThinLvSpec_iff split: if_splits)

text \<open>
  The code writes to the cell of a pool and to the array of its thin LVs.  The views of the
  parts of a pool go through neither, but for the list of thin LVs itself.
\<close>

definition pool_or_lvs :: "cell \<Rightarrow> bool" where
  "pool_or_lvs c = (case c of ThinLvSpecArray xs \<Rightarrow> True | ThinPoolLvArray xs \<Rightarrow> True | _ \<Rightarrow> False)"

lemma pool_or_lvs_simps [simp]:
  "pool_or_lvs (ThinLvSpecArray xs)" "pool_or_lvs (ThinPoolLvArray ps)"
  by (simp_all add: pool_or_lvs_def)

lemma pool_or_lvs_sel:
  assumes "pool_or_lvs c"
  shows "sel_String c = None" "sel_Bool c = None" "sel_Time c = None" "sel_StringMap c = None"
    "sel_OwnerReference c = None" "sel_Condition c = None" "sel_ThinLvStatus c = None"
    "sel_ThinLvStatusStateActive c = None" "sel_ThinLvContentsSnapshot c = None"
  using assms by (cases c; simp add: pool_or_lvs_def sel_defs)+

lemmas other_arrays = array_at_other pool_or_lvs_sel view_ptr_def [abs_def] view_ref_def [abs_def]
  view_slice_def [abs_def] slice_elems_def [abs_def] view_map_def [abs_def]
  view_plain_def [abs_def]

lemma view_OwnerReference_other:
  "pool_or_lvs (m ! a) \<Longrightarrow> pool_or_lvs c \<Longrightarrow>
    view_OwnerReference lo (m[a := c]) = view_OwnerReference lo m"
  by (rule ext) (simp add: view_OwnerReference_def other_arrays)

lemma view_ObjectMeta_other:
  "pool_or_lvs (m ! a) \<Longrightarrow> pool_or_lvs c \<Longrightarrow> view_ObjectMeta lo (m[a := c]) = view_ObjectMeta lo m"
  by (rule ext) (simp add: view_ObjectMeta_def view_OwnerReference_other other_arrays)

lemma view_ThinLvSpec_other:
  "pool_or_lvs (m ! a) \<Longrightarrow> pool_or_lvs c \<Longrightarrow> view_ThinLvSpec lo (m[a := c]) = view_ThinLvSpec lo m"
  by (rule ext) (simp add: view_ThinLvSpec_def view_ThinLvContents_def other_arrays)

lemma view_ThinLvStatus_other:
  "pool_or_lvs (m ! a) \<Longrightarrow> pool_or_lvs c \<Longrightarrow>
    view_ThinLvStatus lo (m[a := c]) = view_ThinLvStatus lo m"
  by (rule ext) (simp add: view_ThinLvStatus_def view_ThinLvStatusState_def other_arrays)

lemma view_ThinPoolLvStatus_other:
  "pool_or_lvs (m ! a) \<Longrightarrow> pool_or_lvs c \<Longrightarrow>
    view_ThinPoolLvStatus lo (m[a := c]) = view_ThinPoolLvStatus lo m"
  by (rule ext) (simp add: view_ThinPoolLvStatus_def view_ThinLvStatus_other other_arrays)

lemma array_at_ThinPoolLv_other:
  "m ! a = ThinLvSpecArray xs \<Longrightarrow>
    array_at sel_ThinPoolLv lo (m[a := ThinLvSpecArray ys]) b = array_at sel_ThinPoolLv lo m b"
  by (simp add: array_at_other sel_ThinPoolLv_def)

lemma view_ThinPoolLvSpec_other:
  "m ! a = ThinPoolLvArray ps \<Longrightarrow>
    view_ThinPoolLvSpec lo (m[a := ThinPoolLvArray qs]) = view_ThinPoolLvSpec lo m"
  by (rule ext) (simp add: view_ThinPoolLvSpec_def view_slice_def [abs_def]
    slice_elems_def [abs_def] array_at_other sel_ThinLvSpec_def view_ThinLvSpec_other)

lemma view_ThinPoolLvSpec_node:
  "view_ThinPoolLvSpec lo m h = Some s \<Longrightarrow>
    view_ThinPoolLvSpec lo m (h\<lparr>mps_ActiveOnNode := node\<rparr>) = Some (s\<lparr>ps_ActiveOnNode := node\<rparr>)"
  by (auto simp: view_ThinPoolLvSpec_def bind_eq_Some_conv)

lemma view_ThinPoolLvSpec_Some:
  "view_ThinPoolLvSpec lo m h = Some v \<longleftrightarrow>
    view_slice sel_ThinLvSpec view_ThinLvSpec lo m (mps_ThinLvs h) = Some (ps_ThinLvs v) \<and>
    v = \<lparr>ps_VgName = mps_VgName h, ps_SizeBytes = mps_SizeBytes h, ps_ThinLvs = ps_ThinLvs v,
         ps_ActiveOnNode = mps_ActiveOnNode h\<rparr>"
  by (cases v) (auto simp: view_ThinPoolLvSpec_def bind_eq_Some_conv)

lemma Spec_FindThinLv_index:
  "Spec_FindThinLv s n =
    map_option (\<lambda>j. ps_ThinLvs s ! j) (find_index (\<lambda>l. ls_Name l = n) (ps_ThinLvs s))"
  by (simp add: Spec_FindThinLv_def find_thin_spec_index)

lemma Status_FindThinLv_index:
  "Status_FindThinLv s n =
    map_option (\<lambda>j. pst_ThinLvs s ! j) (find_index (\<lambda>l. lst_Name l = n) (pst_ThinLvs s))"
  by (simp add: Status_FindThinLv_def find_thin_status_index)

lemma mSpec_FindThinLv_None:
  assumes "view_ThinPoolLvSpec 0 m h = Some s" and "Spec_FindThinLv s n = None"
  shows "mSpec_FindThinLv h n m = Some None"
proof (cases "mps_ThinLvs h")
  case (Some sl)
  then have "view_slice sel_ThinLvSpec view_ThinLvSpec 0 m (Some sl) = Some (ps_ThinLvs s)"
    using assms(1) unfolding view_ThinPoolLvSpec_Some by simp
  from find_elem_view [OF this, of "\<lambda>l. mls_Name l = n" "\<lambda>l. ls_Name l = n"] show ?thesis
    using assms(2) Some view_ThinLvSpec_fields
    by (auto simp: mSpec_FindThinLv_def Spec_FindThinLv_index)
qed (simp add: mSpec_FindThinLv_def)

text \<open>The pointer of the lookup, what it reads, and what a write through it makes of the spec.\<close>

lemma set_State_spec:
  assumes v: "view_ThinPoolLvSpec 0 m h = Some s" and l: "Spec_FindThinLv s n = Some l"
  shows "\<exists>q e xs ys. mSpec_FindThinLv h n m = Some (Some q) \<and>
    m ! pt_Array q = ThinLvSpecArray xs \<and> pt_Array q < length m \<and>
    load_elem sel_ThinLvSpec (pt_Array q) (pt_Idx q) m = Some e \<and> mls_State e = ls_State l \<and>
    set_State q st m = Some (m[pt_Array q := ThinLvSpecArray ys]) \<and>
    view_ThinPoolLvSpec 0 (m[pt_Array q := ThinLvSpecArray ys]) h =
      Some (s\<lparr>ps_ThinLvs := update_first (\<lambda>l. ls_Name l = n) (set_thin_state st) (ps_ThinLvs s)\<rparr>)"
proof -
  let ?P = "\<lambda>l. ls_Name l = n"
  obtain j where j: "find_index ?P (ps_ThinLvs s) = Some j" "l = ps_ThinLvs s ! j"
    using l by (auto simp: Spec_FindThinLv_index)
  then have jlen: "j < length (ps_ThinLvs s)" by (simp add: find_index_Some_iff)
  then obtain sl where sl: "mps_ThinLvs h = Some sl"
    using v by (cases "mps_ThinLvs h") (auto simp: view_ThinPoolLvSpec_Some view_slice_def)
  have vs: "view_slice sel_ThinLvSpec view_ThinLvSpec 0 m (Some sl) = Some (ps_ThinLvs s)"
    using v sl unfolding view_ThinPoolLvSpec_Some by simp
  obtain xs where xs: "array_at sel_ThinLvSpec 0 m (sl_Array sl) = Some xs"
      "sl_Off sl + sl_Len sl \<le> length xs" "length (ps_ThinLvs s) = sl_Len sl"
      "\<And>j. j < length (ps_ThinLvs s) \<Longrightarrow>
        view_ThinLvSpec 0 m (xs ! (sl_Off sl + j)) = Some (ps_ThinLvs s ! j)"
      "find_elem sel_ThinLvSpec (\<lambda>l. mls_Name l = n) sl [0..<sl_Len sl] m =
        Some (Some \<lparr>pt_Array = sl_Array sl, pt_Idx = sl_Off sl + j\<rparr>)"
    using find_elem_view [OF vs, of "\<lambda>l. mls_Name l = n" ?P] view_ThinLvSpec_fields j(1) by auto
  let ?i = "sl_Off sl + j" and ?a = "sl_Array sl"
  let ?e = "xs ! ?i" and ?ys = "xs[?i := (xs ! ?i)\<lparr>mls_State := st\<rparr>]"
  let ?m' = "m[?a := ThinLvSpecArray ?ys]"
  have i: "?i < length xs" using jlen xs(2,3) by simp
  have a: "m ! ?a = ThinLvSpecArray xs" "?a < length m"
    using array_at_ThinLvSpec [OF xs(1)] xs(1) by (auto simp: array_at_def split: if_splits)
  have e: "view_ThinLvSpec 0 m ?e = Some l" using xs(4) [OF jlen] j(2) by simp
  have e': "view_ThinLvSpec 0 m (?e\<lparr>mls_State := st\<rparr>) = Some (l\<lparr>ls_State := st\<rparr>)"
    using e by (auto simp: view_ThinLvSpec_def bind_eq_Some_conv)
  have set: "set_State \<lparr>pt_Array = ?a, pt_Idx = ?i\<rparr> st m = Some ?m'"
    using load_elem_at [OF xs(1) i] store_elem_at [OF xs(1) i] by (simp add: set_State_def)
  have "array_at sel_ThinLvSpec 0 ?m' ?a = Some ?ys"
    by (rule arr_ThinLvSpec.array_at_updated [OF xs(1)])
  moreover have "take (sl_Len sl) (drop (sl_Off sl) ?ys) =
      (take (sl_Len sl) (drop (sl_Off sl) xs))[j := ?e\<lparr>mls_State := st\<rparr>]"
    by (simp add: drop_update_swap take_update_swap)
  moreover have "list_all2 (\<lambda>h v. view_ThinLvSpec 0 ?m' h = Some v)
      ((take (sl_Len sl) (drop (sl_Off sl) xs))[j := ?e\<lparr>mls_State := st\<rparr>])
      ((ps_ThinLvs s)[j := l\<lparr>ls_State := st\<rparr>])"
    using xs(2-4) e'
    by (intro list_all2_update_cong)
      (simp_all add: list_all2_conv_all_nth view_ThinLvSpec_other a(1))
  ultimately have "view_slice sel_ThinLvSpec view_ThinLvSpec 0 ?m' (Some sl) =
      Some ((ps_ThinLvs s)[j := set_thin_state st l])"
    using xs(2) unfolding view_slice_Some by (auto simp: set_thin_state_def)
  then have "view_ThinPoolLvSpec 0 ?m' h =
      Some (s\<lparr>ps_ThinLvs := update_first ?P (set_thin_state st) (ps_ThinLvs s)\<rparr>)"
    using v sl j by (cases s) (simp add: view_ThinPoolLvSpec_Some update_first_index)
  then show ?thesis
    using a set xs(5) sl load_elem_at [OF xs(1) i] view_ThinLvSpec_fields [OF e]
    by (intro exI [of _ "\<lparr>pt_Array = ?a, pt_Idx = ?i\<rparr>"]) (auto simp: mSpec_FindThinLv_def)
qed

lemma view_ThinPoolLvStatus_Some:
  "view_ThinPoolLvStatus lo m h = Some v \<Longrightarrow>
    view_slice sel_ThinLvStatus view_ThinLvStatus lo m (mpst_ThinLvs h) = Some (pst_ThinLvs v)"
  by (auto simp: view_ThinPoolLvStatus_def bind_eq_Some_conv)

lemma mStatus_FindThinLv_view:
  assumes v: "view_ThinPoolLvStatus 0 m h = Some s"
  shows "case Status_FindThinLv s n of
      None \<Rightarrow> mStatus_FindThinLv h n m = Some None
    | Some l \<Rightarrow> \<exists>r e. mStatus_FindThinLv h n m = Some (Some r) \<and>
        load_elem sel_ThinLvStatus (pt_Array r) (pt_Idx r) m = Some e \<and>
        mlst_SizeBytes e = lst_SizeBytes l"
proof (cases "mpst_ThinLvs h")
  case None
  then have "pst_ThinLvs s = []" using view_ThinPoolLvStatus_Some [OF v] by (simp add: view_slice_def)
  then show ?thesis using None by (simp add: Status_FindThinLv_index mStatus_FindThinLv_def)
next
  case (Some sl)
  let ?P = "\<lambda>l. lst_Name l = n"
  have "view_slice sel_ThinLvStatus view_ThinLvStatus 0 m (Some sl) = Some (pst_ThinLvs s)"
    using view_ThinPoolLvStatus_Some [OF v] Some by simp
  then obtain xs where xs: "array_at sel_ThinLvStatus 0 m (sl_Array sl) = Some xs"
      "sl_Off sl + sl_Len sl \<le> length xs" "length (pst_ThinLvs s) = sl_Len sl"
      "\<And>j. j < length (pst_ThinLvs s) \<Longrightarrow>
        view_ThinLvStatus 0 m (xs ! (sl_Off sl + j)) = Some (pst_ThinLvs s ! j)"
      "find_elem sel_ThinLvStatus (\<lambda>l. mlst_Name l = n) sl [0..<sl_Len sl] m =
        Some (map_option (\<lambda>j. \<lparr>pt_Array = sl_Array sl, pt_Idx = sl_Off sl + j\<rparr>)
          (find_index ?P (pst_ThinLvs s)))"
    using find_elem_view [of sel_ThinLvStatus view_ThinLvStatus m sl "pst_ThinLvs s"
        "\<lambda>l. mlst_Name l = n" ?P] view_ThinLvStatus_fields by auto
  show ?thesis
  proof (cases "find_index ?P (pst_ThinLvs s)")
    case None
    then show ?thesis
      using xs(5) Some by (simp add: Status_FindThinLv_index mStatus_FindThinLv_def)
  next
    case (Some j)
    then have j: "j < length (pst_ThinLvs s)" by (simp add: find_index_Some_iff)
    then have "load_elem sel_ThinLvStatus (sl_Array sl) (sl_Off sl + j) m =
        Some (xs ! (sl_Off sl + j))"
      using xs(2,3) by (intro load_elem_at [OF xs(1)]) simp
    then show ?thesis
      using xs(5) \<open>mpst_ThinLvs h = Some sl\<close> Some view_ThinLvStatus_fields [OF xs(4) [OF j]]
      by (simp add: Status_FindThinLv_index mStatus_FindThinLv_def)
  qed
qed

text \<open>A pool through its pointer.\<close>

abbreviation pool_at :: "nat \<Rightarrow> memory \<Rightarrow> goptr \<Rightarrow> (TypeMeta \<times> ThinPoolLv) option" where
  "pool_at lo m p \<equiv> view_ref sel_ThinPoolLv view_ThinPoolLv lo m p"

lemma view_ThinPoolLv_Some:
  "view_ThinPoolLv lo m h = Some (tm, v) \<longleftrightarrow>
    tm = mp_TypeMeta h \<and> view_ObjectMeta lo m (mp_Meta h) = Some (p_Meta v) \<and>
    view_ThinPoolLvSpec lo m (mp_Spec h) = Some (p_Spec v) \<and>
    view_ThinPoolLvStatus lo m (mp_Status h) = Some (p_Status v)"
  by (cases v) (auto simp: view_ThinPoolLv_def bind_eq_Some_conv)

lemma pool_at_Some:
  "pool_at lo m p = Some w \<longleftrightarrow>
    (\<exists>xs. array_at sel_ThinPoolLv lo m (pt_Array p) = Some xs \<and> pt_Idx p < length xs \<and>
      view_ThinPoolLv lo m (xs ! pt_Idx p) = Some w)"
  by (auto simp: view_ref_def bind_eq_Some_conv)

lemma sel_ThinPoolLv_iff: "sel_ThinPoolLv c = Some xs \<longleftrightarrow> c = ThinPoolLvArray xs"
  by (cases c) (auto simp: sel_ThinPoolLv_def)

lemma array_at_ThinPoolLv:
  "array_at sel_ThinPoolLv lo m a = Some xs \<Longrightarrow> lo \<le> a \<and> a < length m \<and> m ! a = ThinPoolLvArray xs"
  by (auto simp: array_at_def sel_ThinPoolLv_iff split: if_splits)

lemma set_Spec_ActiveOnNode_view:
  assumes "pool_at 0 m p = Some (tm, v)"
  shows "\<exists>m'. set_Spec_ActiveOnNode p node m = Some m' \<and>
    pool_at 0 m' p = Some (tm, set_ActiveOnNode node v) \<and>
    (\<forall>lo. pt_Array p < lo \<longrightarrow> keeps lo m m')"
proof -
  obtain xs where xs: "array_at sel_ThinPoolLv 0 m (pt_Array p) = Some xs" "pt_Idx p < length xs"
      "view_ThinPoolLv 0 m (xs ! pt_Idx p) = Some (tm, v)"
    using assms unfolding pool_at_Some by blast
  let ?x = "xs ! pt_Idx p"
  let ?y = "?x\<lparr>mp_Spec := (mp_Spec ?x)\<lparr>mps_ActiveOnNode := node\<rparr>\<rparr>"
  let ?m' = "m[pt_Array p := ThinPoolLvArray (xs[pt_Idx p := ?y])]"
  have cell: "m ! pt_Array p = ThinPoolLvArray xs" using array_at_ThinPoolLv [OF xs(1)] by simp
  have "view_ThinPoolLv 0 ?m' ?y = Some (tm, set_ActiveOnNode node v)"
    using xs(3) cell
    by (simp add: view_ThinPoolLv_Some view_ObjectMeta_other view_ThinPoolLvStatus_other
        view_ThinPoolLvSpec_other view_ThinPoolLvSpec_node set_ActiveOnNode_def)
  moreover have "array_at sel_ThinPoolLv 0 ?m' (pt_Array p) = Some (xs[pt_Idx p := ?y])"
    by (rule arr_ThinPoolLv.array_at_updated [OF xs(1)])
  moreover have "set_Spec_ActiveOnNode p node m = Some ?m'"
    by (simp add: set_Spec_ActiveOnNode_def load_elem_at [OF xs(1,2)] store_elem_at [OF xs(1,2)])
  ultimately show ?thesis
    using xs(2) unfolding pool_at_Some by (intro exI [of _ ?m']) (auto intro: keeps_update_below)
qed

lemma set_State_view:
  assumes "pool_at 0 m p = Some (tm, v)" and "array_at sel_ThinPoolLv 0 m (pt_Array p) = Some xs"
    and "Spec_FindThinLv (p_Spec v) n = Some l"
  shows "\<exists>q e m'. mSpec_FindThinLv (mp_Spec (xs ! pt_Idx p)) n m = Some (Some q) \<and>
    load_elem sel_ThinLvSpec (pt_Array q) (pt_Idx q) m = Some e \<and> mls_State e = ls_State l \<and>
    set_State q st m = Some m' \<and>
    pool_at 0 m' p = Some (tm, modify_thin_spec n (set_thin_state st) v) \<and>
    (\<forall>lo. pt_Array q < lo \<longrightarrow> keeps lo m m') \<and>
    (\<forall>r :: goptr. load_elem sel_ThinLvStatus (pt_Array r) (pt_Idx r) m' =
      load_elem sel_ThinLvStatus (pt_Array r) (pt_Idx r) m)"
proof -
  let ?x = "xs ! pt_Idx p"
  have x: "pt_Idx p < length xs" "view_ThinPoolLv 0 m ?x = Some (tm, v)"
    using assms(1,2) unfolding pool_at_Some by auto
  obtain q e zs ys where q: "mSpec_FindThinLv (mp_Spec ?x) n m = Some (Some q)"
      "m ! pt_Array q = ThinLvSpecArray zs" "pt_Array q < length m"
      "load_elem sel_ThinLvSpec (pt_Array q) (pt_Idx q) m = Some e" "mls_State e = ls_State l"
      "set_State q st m = Some (m[pt_Array q := ThinLvSpecArray ys])"
      "view_ThinPoolLvSpec 0 (m[pt_Array q := ThinLvSpecArray ys]) (mp_Spec ?x) =
        Some ((p_Spec v)\<lparr>ps_ThinLvs := update_first (\<lambda>l. ls_Name l = n) (set_thin_state st)
          (ps_ThinLvs (p_Spec v))\<rparr>)"
    using set_State_spec [OF _ assms(3), where h = "mp_Spec ?x" and m = m and st = st] x(2)
    unfolding view_ThinPoolLv_Some by blast
  let ?m' = "m[pt_Array q := ThinLvSpecArray ys]"
  have "view_ThinPoolLv 0 ?m' ?x = Some (tm, modify_thin_spec n (set_thin_state st) v)"
    using x(2) q(2,7)
    by (simp add: view_ThinPoolLv_Some view_ObjectMeta_other view_ThinPoolLvStatus_other
        modify_thin_spec_def)
  then have "pool_at 0 ?m' p = Some (tm, modify_thin_spec n (set_thin_state st) v)"
    using assms(2) x(1) q(2) by (simp add: pool_at_Some array_at_ThinPoolLv_other)
  moreover have "load_elem sel_ThinLvStatus a i ?m' = load_elem sel_ThinLvStatus a i m" for a i
    using q(2) by (simp add: load_elem_def array_at_other sel_ThinLvStatus_def)
  ultimately show ?thesis
    using q by (intro exI [of _ q] exI [of _ e] exI [of _ ?m'])
      (auto intro: keeps_update_below)
qed

section \<open>The kept copy\<close>

lemma DeepCopy_pool:
  assumes "pool_at lo m p = Some w"
  shows "\<exists>old m'. ThinPoolLv_DeepCopy (Some p) m = Some (Some old, m') \<and> prefix m m' \<and>
    pool_at (length m) m' old = Some w"
  using arr_ThinPoolLv.new_DeepCopyInto [OF ThinPoolLv_copier assms]
  unfolding ThinPoolLv_DeepCopy_def .

lemma pool_at_keeps: "pool_at lo m p = Some w \<Longrightarrow> keeps lo m m' \<Longrightarrow> pool_at lo m' p = Some w"
  by (rule arr_ThinPoolLv.view_ref_keeps [OF ThinPoolLv_copier])

text \<open>The array of the thin LVs of the original is older than the copy.\<close>

lemma FindThinLv_below:
  assumes "view_ThinPoolLvSpec 0 m h = Some s" and "mSpec_FindThinLv h n m' = Some (Some q)"
  shows "pt_Array q < length m"
proof (rule ccontr)
  assume "\<not> pt_Array q < length m"
  obtain sl where sl: "mps_ThinLvs h = Some sl"
    using assms(2) by (auto simp: mSpec_FindThinLv_def split: option.splits)
  then obtain xs where xs: "array_at sel_ThinLvSpec 0 m (sl_Array sl) = Some xs"
    using assms(1) unfolding view_ThinPoolLvSpec_Some by (auto simp: view_slice_Some)
  have "find_elem sel_ThinLvSpec P sl is m' = Some (Some q) \<Longrightarrow> pt_Array q = sl_Array sl" for P "is"
    by (induction "is") (auto simp: bind_eq_Some_conv split: if_splits)
  then have "pt_Array q = sl_Array sl" using assms(2) sl by (auto simp: mSpec_FindThinLv_def)
  then show False
    using xs \<open>\<not> pt_Array q < length m\<close> by (simp add: array_at_def split: if_splits)
qed

text \<open>The error of a missing thin LV, with the pool as it was.\<close>

definition attaching_fails :: "goptr \<Rightarrow> string \<Rightarrow> memory \<Rightarrow> TypeMeta \<times> ThinPoolLv \<Rightarrow> bool" where
  "attaching_fails p n m w \<longleftrightarrow>
     (\<exists>m'. attaching_start p n m = Some (Inl (BadRequest ''unexpected missing blob''), m') \<and>
       pool_at 0 m' p = Some w)"

text \<open>The changes made in place, with the copy of the original beside them.\<close>

definition attaching_edits ::
  "goptr \<Rightarrow> string \<Rightarrow> string \<Rightarrow> memory \<Rightarrow> TypeMeta \<Rightarrow> ThinPoolLv \<Rightarrow> ThinLvStatus \<Rightarrow> bool" where
  "attaching_edits p n node m tm v status \<longleftrightarrow>
     (\<exists>old m1 m2. attaching_start p n m = Some (Inr (Some old, lst_SizeBytes status), m1) \<and>
       set_Spec_ActiveOnNode p node m1 = Some m2 \<and>
       pool_at 0 m2 p =
         Some (tm, set_ActiveOnNode node (modify_thin_spec n (set_thin_state SpecActive) v)) \<and>
       pool_at (length m) m2 old = Some (tm, v))"

lemma attaching_start_cases:
  assumes p: "pool_at 0 m p = Some (tm, v)"
  shows "case (Spec_FindThinLv (p_Spec v) n, Status_FindThinLv (p_Status v) n) of
      (Some l, Some st) \<Rightarrow>
        if ls_State l = SpecRemoved then attaching_fails p n m (tm, v)
        else attaching_edits p n node m tm v st
    | _ \<Rightarrow> attaching_fails p n m (tm, v)"
proof -
  obtain xs where xs: "array_at sel_ThinPoolLv 0 m (pt_Array p) = Some xs" "pt_Idx p < length xs"
      "view_ThinPoolLv 0 m (xs ! pt_Idx p) = Some (tm, v)"
    using p unfolding pool_at_Some by blast
  let ?x = "xs ! pt_Idx p"
  obtain old m1 where copy: "ThinPoolLv_DeepCopy (Some p) m = Some (Some old, m1)" "prefix m m1"
      "pool_at (length m) m1 old = Some (tm, v)"
    using DeepCopy_pool [OF p] by blast
  note k = prefix_keeps [OF copy(2), of 0]
  have p1: "pool_at 0 m1 p = Some (tm, v)" by (rule pool_at_keeps [OF p k])
  have xs1: "array_at sel_ThinPoolLv 0 m1 (pt_Array p) = Some xs"
    by (rule array_at_keeps [OF xs(1) k])
  have x1: "view_ThinPoolLv 0 m1 ?x = Some (tm, v)" using p1 xs1 unfolding pool_at_Some by auto
  have ld: "load_elem sel_ThinPoolLv (pt_Array p) (pt_Idx p) m1 = Some ?x"
    by (rule load_elem_at [OF xs1 xs(2)])
  have spec: "view_ThinPoolLvSpec 0 m (mp_Spec ?x) = Some (p_Spec v)"
      "view_ThinPoolLvSpec 0 m1 (mp_Spec ?x) = Some (p_Spec v)"
    using xs(3) x1 by (simp_all add: view_ThinPoolLv_Some)
  have status: "view_ThinPoolLvStatus 0 m1 (mp_Status ?x) = Some (p_Status v)"
    using x1 by (simp add: view_ThinPoolLv_Some)
  note find_status = mStatus_FindThinLv_view [OF status, of n]
  have fails: "attaching_fails p n m (tm, v)"
    if "attaching_start p n m = Some (Inl (BadRequest ''unexpected missing blob''), m1)"
    using that p1 by (auto simp: attaching_fails_def)
  note start = attaching_start_def copy(1) ld
  show ?thesis
  proof (cases "Spec_FindThinLv (p_Spec v) n")
    case None
    then have "mSpec_FindThinLv (mp_Spec ?x) n m1 = Some None"
      by (rule mSpec_FindThinLv_None [OF spec(2)])
    moreover obtain r where "mStatus_FindThinLv (mp_Status ?x) n m1 = Some r"
      using find_status by (auto split: option.splits)
    ultimately show ?thesis using None by (simp add: start fails)
  next
    case (Some l)
    obtain q e m2 where q: "mSpec_FindThinLv (mp_Spec ?x) n m1 = Some (Some q)"
        "load_elem sel_ThinLvSpec (pt_Array q) (pt_Idx q) m1 = Some e" "mls_State e = ls_State l"
        "set_State q SpecActive m1 = Some m2"
        "pool_at 0 m2 p = Some (tm, modify_thin_spec n (set_thin_state SpecActive) v)"
        "\<And>lo. pt_Array q < lo \<Longrightarrow> keeps lo m1 m2"
        "\<And>r :: goptr. load_elem sel_ThinLvStatus (pt_Array r) (pt_Idx r) m2 =
          load_elem sel_ThinLvStatus (pt_Array r) (pt_Idx r) m1"
      using set_State_view [OF p1 xs1 Some, of SpecActive] by blast
    have "pool_at (length m) m2 old = Some (tm, v)"
      by (rule pool_at_keeps [OF copy(3) q(6) [OF FindThinLv_below [OF spec(1) q(1)]]])
    moreover obtain m3 where m3: "set_Spec_ActiveOnNode p node m2 = Some m3"
        "pool_at 0 m3 p =
          Some (tm, set_ActiveOnNode node (modify_thin_spec n (set_thin_state SpecActive) v))"
        "\<And>lo. pt_Array p < lo \<Longrightarrow> keeps lo m2 m3"
      using set_Spec_ActiveOnNode_view [OF q(5)] by blast
    moreover have "pt_Array p < length m" using array_at_ThinPoolLv [OF xs(1)] by simp
    ultimately have old: "pool_at (length m) m3 old = Some (tm, v)" by (blast intro: pool_at_keeps)
    show ?thesis
    proof (cases "Status_FindThinLv (p_Status v) n")
      case None
      then show ?thesis using find_status Some q(1) by (simp add: start fails)
    next
      case st: (Some st)
      then obtain r es where r: "mStatus_FindThinLv (mp_Status ?x) n m1 = Some (Some r)"
          "load_elem sel_ThinLvStatus (pt_Array r) (pt_Idx r) m1 = Some es"
          "mlst_SizeBytes es = lst_SizeBytes st"
        using find_status by auto
      have "load_elem sel_ThinLvStatus (pt_Array r) (pt_Idx r) m2 = Some es"
        using r(2) q(7) by simp
      then show ?thesis
        using Some st q(1-4) r m3(1,2) old
        by (simp add: start fails attaching_edits_def)
    qed
  qed
qed

text \<open>
  The write-back's own copy: the kept object becomes the pool, and stays it when the pool is
  changed in place afterwards.
\<close>

lemma view_ThinPoolLv_other:
  "m ! a = ThinPoolLvArray ps \<Longrightarrow>
    view_ThinPoolLv lo (m[a := ThinPoolLvArray qs]) = view_ThinPoolLv lo m"
  by (rule ext) (simp add: view_ThinPoolLv_def view_ObjectMeta_other view_ThinPoolLvSpec_other
    view_ThinPoolLvStatus_other)

lemma sync_old_view:
  assumes p: "pool_at 0 m p = Some w" and old: "pool_at lo m old = Some u"
    and below: "pt_Array p < lo"
  shows "\<exists>m'. sync_old p old m = Some m' \<and> pool_at 0 m' p = Some w \<and> pool_at lo m' old = Some w"
proof -
  obtain xs where xs: "array_at sel_ThinPoolLv 0 m (pt_Array p) = Some xs" "pt_Idx p < length xs"
      "view_ThinPoolLv 0 m (xs ! pt_Idx p) = Some w"
    using p unfolding pool_at_Some by blast
  obtain ys where ys: "array_at sel_ThinPoolLv lo m (pt_Array old) = Some ys" "pt_Idx old < length ys"
    using old unfolding pool_at_Some by blast
  obtain y m1 where y: "ThinPoolLv_DeepCopyInto (xs ! pt_Idx p) m = Some (y, m1)" "prefix m m1"
      "view_ThinPoolLv (length m) m1 y = Some w"
    using deep_copier.into_copies [OF ThinPoolLv_copier xs(3)] by blast
  have ys1: "array_at sel_ThinPoolLv lo m1 (pt_Array old) = Some ys"
    by (rule array_at_keeps [OF ys(1) prefix_keeps [OF y(2)]])
  let ?m' = "m1[pt_Array old := ThinPoolLvArray (ys[pt_Idx old := y])]"
  note cell = array_at_ThinPoolLv [OF ys1] array_at_ThinPoolLv [OF ys(1)]
  have "sync_old p old m = Some ?m'"
    by (simp add: sync_old_def load_elem_at [OF xs(1,2)] y(1) store_elem_at [OF ys1 ys(2)])
  moreover have "pool_at 0 ?m' p = Some w"
  proof -
    have "array_at sel_ThinPoolLv 0 ?m' (pt_Array p) = array_at sel_ThinPoolLv 0 m1 (pt_Array p)"
      using below cell by (auto simp: array_at_def)
    then show ?thesis
      using pool_at_keeps [OF p prefix_keeps [OF y(2)]] cell
      by (simp add: pool_at_Some view_ThinPoolLv_other)
  qed
  moreover have "view_ThinPoolLv lo m1 y = Some w"
    using deep_copier.view_lower [OF ThinPoolLv_copier y(3)] cell by simp
  then have "pool_at lo ?m' old = Some w"
    using arr_ThinPoolLv.array_at_updated [OF ys1] ys(2) cell
    by (simp add: pool_at_Some view_ThinPoolLv_other)
  ultimately show ?thesis by blast
qed

end
