(* ===== verification/Nodes_In_Memory.thy ===== *)
theory Nodes_In_Memory
  imports Pool_In_Memory
begin

text \<open>
  InterestedNodes (internal/manager/common/thinpoollv/thinpoollv.go) on memory.  It hands the
  list of its caller to slices.DeleteFunc of the Go library, which moves the elements it keeps to
  the front of the array they are in and clears the rest: the caller's own slice changes.  The
  result and what the caller reads afterwards are those of the value-passing definitions in
  Thin_Pool_Common.
\<close>

section \<open>slices.DeleteFunc\<close>

text \<open>for j := ...: if v := s[j]; !del(v) then s[i] = v; i++.\<close>

primrec shift_elems ::
  "('c \<Rightarrow> 'a list option) \<Rightarrow> ('a list \<Rightarrow> 'c) \<Rightarrow> ('a \<Rightarrow> bool) \<Rightarrow> goslice \<Rightarrow> nat list \<Rightarrow> nat \<Rightarrow>
     'c list \<Rightarrow> (nat \<times> 'c list) option" where
  "shift_elems sel mk del s [] i m = Some (i, m)"
| "shift_elems sel mk del s (j # js) i m =
     do { v \<leftarrow> load_elem sel (sl_Array s) (sl_Off s + j) m;
          if \<not> del v
          then do { m \<leftarrow> store_elem sel mk (sl_Array s) (sl_Off s + i) v m;
                    shift_elems sel mk del s js (Suc i) m }
          else shift_elems sel mk del s js i m }"

text \<open>clear(s[i:]).\<close>

primrec clear_elems ::
  "('c \<Rightarrow> 'a list option) \<Rightarrow> ('a list \<Rightarrow> 'c) \<Rightarrow> 'a \<Rightarrow> goslice \<Rightarrow> nat list \<Rightarrow> 'c list \<Rightarrow> 'c list option"
  where
  "clear_elems sel mk zero s [] m = Some m"
| "clear_elems sel mk zero s (j # js) m =
     do { m \<leftarrow> store_elem sel mk (sl_Array s) (sl_Off s + j) zero m;
          clear_elems sel mk zero s js m }"

definition mDeleteFunc ::
  "('c \<Rightarrow> 'a list option) \<Rightarrow> ('a list \<Rightarrow> 'c) \<Rightarrow> 'a \<Rightarrow> goslice \<Rightarrow> ('a \<Rightarrow> bool) \<Rightarrow> 'c list \<Rightarrow>
     (goslice \<times> 'c list) option" where
  "mDeleteFunc sel mk zero s del m =
     do { first \<leftarrow> find_elem sel del s [0..<sl_Len s] m;
          case first of
            None \<Rightarrow> Some (s, m)
          | Some p \<Rightarrow>
              (let i = pt_Idx p - sl_Off s
               in do { (i, m) \<leftarrow> shift_elems sel mk del s [Suc i..<sl_Len s] i m;
                       m \<leftarrow> clear_elems sel mk zero s [i..<sl_Len s] m;
                       Some (s\<lparr>sl_Len := i\<rparr>, m) }) }"

text \<open>Only one array is written, in place.\<close>

definition changes_only :: "addr \<Rightarrow> 'c list \<Rightarrow> 'c list \<Rightarrow> bool" where
  "changes_only a m m' \<longleftrightarrow> length m' = length m \<and> (\<forall>b. b \<noteq> a \<longrightarrow> m' ! b = m ! b)"

lemma changes_only_refl [simp]: "changes_only a m m"
  by (simp add: changes_only_def)

lemma changes_only_update: "changes_only a (m[a := c]) m' \<Longrightarrow> changes_only a m m'"
  by (auto simp: changes_only_def)

lemma changes_only_trans: "changes_only a m m1 \<Longrightarrow> changes_only a m1 m2 \<Longrightarrow> changes_only a m m2"
  by (auto simp: changes_only_def)

lemma drop_take_Cons:
  "off + n \<le> length ys \<Longrightarrow> j < n \<Longrightarrow>
    drop j (take n (drop off ys)) = ys ! (off + j) # drop (Suc j) (take n (drop off ys))"
  by (subst Cons_nth_drop_Suc [symmetric]) simp_all

lemma shift_elems_view:
  assumes kind: "array_kind sel mk" and "array_at sel 0 m (sl_Array s) = Some ys"
    and "sl_Off s + sl_Len s \<le> length ys" and "j \<le> sl_Len s" and "i \<le> j"
  shows "\<exists>m' ys'. shift_elems sel mk del s [j..<sl_Len s] i m =
      Some (i + length (filter (\<lambda>v. \<not> del v) (drop j (take (sl_Len s) (drop (sl_Off s) ys)))), m') \<and>
    changes_only (sl_Array s) m m' \<and> array_at sel 0 m' (sl_Array s) = Some ys' \<and>
    length ys' = length ys \<and>
    take (i + length (filter (\<lambda>v. \<not> del v) (drop j (take (sl_Len s) (drop (sl_Off s) ys)))))
      (drop (sl_Off s) ys') =
      take i (drop (sl_Off s) ys) @
        filter (\<lambda>v. \<not> del v) (drop j (take (sl_Len s) (drop (sl_Off s) ys)))"
  using assms(2-)
proof (induction "sl_Len s - j" arbitrary: i j m ys)
  case 0
  then show ?case by (intro exI [of _ m] exI [of _ ys]) simp
next
  case (Suc k)
  let ?off = "sl_Off s" and ?n = "sl_Len s" and ?a = "sl_Array s"
  have j: "j < ?n" using Suc.hyps(2) by simp
  let ?v = "ys ! (?off + j)"
  have ld: "load_elem sel ?a (?off + j) m = Some ?v"
    using Suc.prems(2) j by (intro load_elem_at [OF Suc.prems(1)]) simp
  note split = drop_take_Cons [OF Suc.prems(2) j]
  show ?case
  proof (cases "del ?v")
    case True
    have "i \<le> Suc j" "k = ?n - Suc j" "Suc j \<le> ?n" using Suc.prems(4) Suc.hyps(2) j by simp_all
    from Suc.hyps(1) [OF this(2) Suc.prems(1,2) this(3,1)] show ?thesis
      using True by (simp add: upt_conv_Cons j ld split)
  next
    case False
    let ?ys = "ys[?off + i := ?v]" and ?m = "m[?a := mk (ys[?off + i := ?v])]"
    have i: "?off + i < length ys" using Suc.prems(2,4) j by simp
    have st: "store_elem sel mk ?a (?off + i) ?v m = Some ?m"
      by (rule store_elem_at [OF Suc.prems(1) i])
    have at: "array_at sel 0 ?m ?a = Some ?ys"
      by (rule array_kind.array_at_updated [OF kind Suc.prems(1)])
    have same: "drop (Suc j) (take ?n (drop ?off ?ys)) = drop (Suc j) (take ?n (drop ?off ys))"
      using Suc.prems(4) by (simp add: drop_update_swap take_update_swap)
    have front: "take (Suc i) (drop ?off ?ys) = take i (drop ?off ys) @ [?v]"
      using i by (simp add: drop_update_swap take_Suc_conv_app_nth)
    let ?rest = "filter (\<lambda>v. \<not> del v) (drop (Suc j) (take ?n (drop ?off ys)))"
    have step: "k = ?n - Suc j" "?off + ?n \<le> length ?ys" "Suc j \<le> ?n" "Suc i \<le> Suc j"
      using Suc.hyps(2) Suc.prems(2,4) j by simp_all
    obtain m' ys' where ih:
        "shift_elems sel mk del s [Suc j..<?n] (Suc i) ?m = Some (Suc i + length ?rest, m')"
        "changes_only ?a ?m m'" "array_at sel 0 m' ?a = Some ys'" "length ys' = length ?ys"
        "take (Suc i + length ?rest) (drop ?off ys') = (take i (drop ?off ys) @ [?v]) @ ?rest"
      using Suc.hyps(1) [OF step(1) at step(2-4), unfolded same front] by blast
    have "shift_elems sel mk del s [j..<?n] i m = Some (Suc i + length ?rest, m')"
      using False ih(1) by (simp add: upt_conv_Cons j ld st)
    moreover have "changes_only ?a m m'" using ih(2) by (rule changes_only_update)
    ultimately show ?thesis
      using False ih(3-5) by (intro exI [of _ m'] exI [of _ ys']) (simp add: split)
  qed
qed

lemma clear_elems_view:
  assumes kind: "array_kind sel mk" and "array_at sel 0 m (sl_Array s) = Some ys"
    and "\<forall>j\<in>set js. sl_Off s + j < length ys"
  shows "\<exists>m' ys'. clear_elems sel mk zero s js m = Some m' \<and> changes_only (sl_Array s) m m' \<and>
    array_at sel 0 m' (sl_Array s) = Some ys' \<and> length ys' = length ys \<and>
    (\<forall>k < length ys. ys' ! k = (if \<exists>j\<in>set js. k = sl_Off s + j then zero else ys ! k))"
  using assms(2-)
proof (induction js arbitrary: m ys)
  case Nil
  then show ?case by auto
next
  case (Cons j js)
  let ?ys = "ys[sl_Off s + j := zero]" and ?a = "sl_Array s"
  let ?m = "m[?a := mk ?ys]"
  have st: "store_elem sel mk ?a (sl_Off s + j) zero m = Some ?m"
    using Cons.prems(2) by (intro store_elem_at [OF Cons.prems(1)]) simp
  have at: "array_at sel 0 ?m ?a = Some ?ys"
    by (rule array_kind.array_at_updated [OF kind Cons.prems(1)])
  obtain m' ys' where ih: "clear_elems sel mk zero s js ?m = Some m'" "changes_only ?a ?m m'"
      "array_at sel 0 m' ?a = Some ys'" "length ys' = length ?ys"
      "\<forall>k < length ?ys. ys' ! k = (if \<exists>j\<in>set js. k = sl_Off s + j then zero else ?ys ! k)"
    using Cons.IH [OF at] Cons.prems(2) by auto
  have "\<forall>k < length ys. ys' ! k = (if \<exists>j\<in>set (j # js). k = sl_Off s + j then zero else ys ! k)"
    using ih(5) by (auto simp: nth_list_update)
  with ih st show ?case by (auto dest: changes_only_update)
qed

text \<open>The result, and the slice of the caller, are those of the definition on values.\<close>

lemma mDeleteFunc_view:
  assumes kind: "array_kind sel mk" and xs: "slice_elems sel 0 m s = Some xs"
  shows "\<exists>s' m'. mDeleteFunc sel mk zero s del m = Some (s', m') \<and>
    changes_only (sl_Array s) m m' \<and>
    slice_elems sel 0 m' s' = Some (fst (slices_DeleteFunc zero xs del)) \<and>
    slice_elems sel 0 m' s = Some (snd (slices_DeleteFunc zero xs del))"
proof -
  let ?off = "sl_Off s" and ?n = "sl_Len s" and ?a = "sl_Array s"
  obtain ys where ys: "array_at sel 0 m ?a = Some ys" "?off + ?n \<le> length ys"
      "xs = take ?n (drop ?off ys)"
    using xs unfolding slice_elems_Some by blast
  have find: "find_elem sel del s [0..<?n] m =
      Some (map_option (\<lambda>j. \<lparr>pt_Array = ?a, pt_Idx = ?off + j\<rparr>) (find_index del xs))"
    using find_elem_index [OF ys(1,2), of 0 del] ys(3) by simp
  show ?thesis
  proof (cases "find_index del xs")
    case None
    then have "slices_DeleteFunc zero xs del = (xs, xs)"
      by (simp add: slices_DeleteFunc_alias_none find_index_None_iff)
    with None xs find show ?thesis by (simp add: mDeleteFunc_def)
  next
    case (Some i)
    then have i: "i < length xs" "del (xs ! i)" "\<forall>j<i. \<not> del (xs ! j)"
      by (simp_all add: find_index_Some_iff)
    have n: "length xs = ?n" using ys(2,3) by simp
    let ?kept = "filter (\<lambda>v. \<not> del v) xs"
    have "xs = take i xs @ xs ! i # drop (Suc i) xs" using id_take_nth_drop i(1) by blast
    moreover have "\<forall>x\<in>set (take i xs). \<not> del x" using i(1,3) by (auto simp: in_set_conv_nth)
    ultimately have kept: "?kept = take i xs @ filter (\<lambda>v. \<not> del v) (drop (Suc i) xs)"
      using i(2) by (metis (mono_tags, lifting) filter.simps(2) filter_append filter_True)
    have front: "take i (drop ?off ys) = take i xs" using i(1) n ys(3) by (simp add: min_absorb1)
    have len: "length ?kept \<le> ?n" using n by (metis length_filter_le)
    have count: "i + length (filter (\<lambda>v. \<not> del v) (drop (Suc i) xs)) = length ?kept"
      using kept i(1) by simp
    obtain m1 zs where m1: "shift_elems sel mk del s [Suc i..<?n] i m = Some (length ?kept, m1)"
        "changes_only ?a m m1" "array_at sel 0 m1 ?a = Some zs" "length zs = length ys"
        "take (length ?kept) (drop ?off zs) = ?kept"
      using shift_elems_view [OF kind ys(1,2), of "Suc i" i del] i(1) n
      unfolding ys(3) [symmetric] front kept [symmetric] count by auto
    obtain m2 ws where m2: "clear_elems sel mk zero s [length ?kept..<?n] m1 = Some m2"
        "changes_only ?a m1 m2" "array_at sel 0 m2 ?a = Some ws" "length ws = length zs"
        "\<forall>k < length zs. ws ! k =
          (if \<exists>j\<in>set [length ?kept..<?n]. k = ?off + j then zero else zs ! k)"
      using clear_elems_view [OF kind m1(3), of "[length ?kept..<?n]" zero] m1(4) ys(2) by auto
    have elem: "ws ! (?off + k) = (if k < length ?kept then ?kept ! k else zero)" if "k < ?n" for k
    proof (cases "k < length ?kept")
      case True
      then have "ws ! (?off + k) = zs ! (?off + k)" using m2(5) m1(4) ys(2) that by auto
      also have "\<dots> = take (length ?kept) (drop ?off zs) ! k"
        using True len m1(4) ys(2) by simp
      finally show ?thesis using m1(5) True by simp
    next
      case False
      then show ?thesis using m2(5) m1(4) ys(2) that by auto
    qed
    have "take (length ?kept) (drop ?off ws) = ?kept"
      using elem len m1(4) m2(4) ys(2) by (intro nth_equalityI) auto
    moreover have "take ?n (drop ?off ws) = ?kept @ replicate (?n - length ?kept) zero"
      using elem len m1(4) m2(4) ys(2) by (intro nth_equalityI) (auto simp: nth_append)
    ultimately show ?thesis
      using find Some m1 m2 len ys(2) n
      by (auto simp: mDeleteFunc_def slice_elems_Some slices_DeleteFunc_def Let_def
          intro: changes_only_trans)
  qed
qed

section \<open>InterestedNodes\<close>

text \<open>append([]string{x}, kept...): the literal has no room, so that appending to it makes a new
  array.\<close>

definition append_strings :: "string \<Rightarrow> goslice option \<Rightarrow> memory \<Rightarrow> (goslice option \<times> memory) option" where
  "append_strings x kept m =
     (let (a, m) = alloc StringArray [x] m
      in do { xs \<leftarrow> (case kept of None \<Rightarrow> Some [] | Some s \<Rightarrow> slice_elems sel_String 0 m s);
              if xs = [] then Some (Some \<lparr>sl_Array = a, sl_Off = 0, sl_Len = 1\<rparr>, m)
              else let (b, m) = alloc StringArray (x # xs) m
                   in Some (Some \<lparr>sl_Array = b, sl_Off = 0, sl_Len = Suc (length xs)\<rparr>, m) })"

definition mInterestedNodes ::
  "goptr \<Rightarrow> goslice option \<Rightarrow> memory \<Rightarrow> (goslice option \<times> memory) option" where
  "mInterestedNodes thinPoolLv attachList m =
     do { pool \<leftarrow> load_elem sel_ThinPoolLv (pt_Array thinPoolLv) (pt_Idx thinPoolLv) m;
          let active = mps_ActiveOnNode (mp_Spec pool);
          pinned \<leftarrow> (if active = [] then Some None
                    else case mps_ThinLvs (mp_Spec pool) of
                           None \<Rightarrow> Some None
                         | Some s \<Rightarrow> find_elem sel_ThinLvSpec
                             (\<lambda>l. str_contains (mls_Name l) ''clone-'' \<and> mls_State l = SpecActive)
                             s [0..<sl_Len s] m);
          case pinned of
            None \<Rightarrow> Some (attachList, m)
          | Some p \<Rightarrow>
              do { (kept, m) \<leftarrow>
                     (case attachList of
                        None \<Rightarrow> Some (None, m)
                      | Some s \<Rightarrow> map_option (\<lambda>(kept, m). (Some kept, m))
                          (mDeleteFunc sel_String StringArray [] s (\<lambda>node. node = active) m));
                   append_strings active kept m } }"

lemma view_strings:
  "view_slice sel view_plain lo m s =
    (case s of None \<Rightarrow> Some [] | Some s \<Rightarrow> slice_elems sel lo m s)"
proof -
  have "those (map (view_plain lo m) xs) = Some xs" for xs
    by (simp add: those_map_Some view_plain_def list.rel_refl)
  then show ?thesis
    by (auto simp: view_slice_def split: option.splits) (cases "slice_elems sel lo m (the s)"; simp)
qed

lemma append_strings_view:
  assumes "view_slice sel_String view_plain 0 m kept = Some xs"
  shows "\<exists>s m'. append_strings x kept m = Some (s, m') \<and> prefix m m' \<and>
    view_slice sel_String view_plain 0 m' s = Some (x # xs)"
proof -
  let ?m1 = "m @ [StringArray [x]]"
  have k: "keeps 0 m ?m1" by (rule prefix_keeps) simp
  have xs: "(case kept of None \<Rightarrow> Some [] | Some s \<Rightarrow> slice_elems sel_String 0 ?m1 s) = Some xs"
    using assms slice_elems_keeps [OF _ k] by (auto simp: view_strings split: option.splits)
  have at: "array_at sel_String 0 (n @ [StringArray ys]) (length n) = Some ys" for n ys
    using array_at_lower [OF arr_String.array_at_new] by simp
  show ?thesis
  proof (cases "xs = []")
    case True
    then show ?thesis using xs at [of m "[x]"]
      by (simp add: append_strings_def alloc_def view_strings slice_elems_Some)
  next
    case False
    then show ?thesis using xs at [of ?m1 "x # xs"]
      by (simp add: append_strings_def alloc_def view_strings slice_elems_Some)
  qed
qed

lemma find_index_list_ex: "find_index P xs = None \<longleftrightarrow> \<not> list_ex P xs"
  by (simp add: find_index_None_iff list_ex_iff)

text \<open>Whether a clone pins the pool.\<close>

lemma pinned_view:
  assumes "view_ThinPoolLvSpec 0 m h = Some s"
  shows "\<exists>r. (case mps_ThinLvs h of
        None \<Rightarrow> Some None
      | Some sl \<Rightarrow> find_elem sel_ThinLvSpec
          (\<lambda>l. str_contains (mls_Name l) ''clone-'' \<and> mls_State l = SpecActive) sl [0..<sl_Len sl] m) =
      Some r \<and>
    (r = None \<longleftrightarrow> \<not> list_ex (\<lambda>l. str_contains (ls_Name l) ''clone-'' \<and> ls_State l = SpecActive)
      (ps_ThinLvs s))"
proof (cases "mps_ThinLvs h")
  case None
  then show ?thesis using assms by (auto simp: view_ThinPoolLvSpec_Some view_slice_def)
next
  case (Some sl)
  then have "view_slice sel_ThinLvSpec view_ThinLvSpec 0 m (Some sl) = Some (ps_ThinLvs s)"
    using assms unfolding view_ThinPoolLvSpec_Some by simp
  from find_elem_view [OF this, where P = "\<lambda>l. str_contains (mls_Name l) ''clone-'' \<and> mls_State l = SpecActive"
      and Q = "\<lambda>l. str_contains (ls_Name l) ''clone-'' \<and> ls_State l = SpecActive"]
  show ?thesis using Some view_ThinLvSpec_fields by (auto simp flip: find_index_list_ex)
qed

text \<open>The result is the list of InterestedNodes on values, and the caller's slice has become the
  list that the value-passing definition gives back beside it.\<close>

lemma mInterestedNodes_view:
  assumes p: "pool_at 0 m p = Some (tm, v)"
    and nodes: "view_slice sel_String view_plain 0 m attachList = Some nodes"
  shows "\<exists>res m'. mInterestedNodes p attachList m = Some (res, m') \<and>
    view_slice sel_String view_plain 0 m' res = Some (fst (InterestedNodes v nodes)) \<and>
    view_slice sel_String view_plain 0 m' attachList = Some (snd (InterestedNodes v nodes))"
proof -
  obtain xs where xs: "array_at sel_ThinPoolLv 0 m (pt_Array p) = Some xs" "pt_Idx p < length xs"
      "view_ThinPoolLv 0 m (xs ! pt_Idx p) = Some (tm, v)"
    using p unfolding pool_at_Some by blast
  let ?h = "mp_Spec (xs ! pt_Idx p)" and ?x = "ps_ActiveOnNode (p_Spec v)"
  have ld: "load_elem sel_ThinPoolLv (pt_Array p) (pt_Idx p) m = Some (xs ! pt_Idx p)"
    by (rule load_elem_at [OF xs(1,2)])
  have spec: "view_ThinPoolLvSpec 0 m ?h = Some (p_Spec v)" using xs(3) by (simp add: view_ThinPoolLv_Some)
  have active: "mps_ActiveOnNode ?h = ?x"
    using spec by (cases "p_Spec v") (auto simp: view_ThinPoolLvSpec_def bind_eq_Some_conv)
  obtain r where r: "(case mps_ThinLvs ?h of
        None \<Rightarrow> Some None
      | Some sl \<Rightarrow> find_elem sel_ThinLvSpec
          (\<lambda>l. str_contains (mls_Name l) ''clone-'' \<and> mls_State l = SpecActive) sl [0..<sl_Len sl] m) =
      Some r"
    and pins: "r = None \<longleftrightarrow> \<not> list_ex (\<lambda>l. str_contains (ls_Name l) ''clone-'' \<and>
      ls_State l = SpecActive) (ps_ThinLvs (p_Spec v))"
    using pinned_view [OF spec] by blast
  show ?thesis
  proof (cases "?x = [] \<or> r = None")
    case True
    then have "InterestedNodes v nodes = (nodes, nodes)" using pins by (auto simp: InterestedNodes_def)
    moreover have "mInterestedNodes p attachList m = Some (attachList, m)"
      using True r by (auto simp: mInterestedNodes_def Let_def ld active)
    ultimately show ?thesis using nodes by simp
  next
    case False
    let ?del = "\<lambda>node. node = ?x"
    have vals: "InterestedNodes v nodes =
        (?x # fst (slices_DeleteFunc [] nodes ?del), snd (slices_DeleteFunc [] nodes ?del))"
      using False pins by (auto simp: InterestedNodes_def split_beta)
    have "\<exists>kept m1. (case attachList of
          None \<Rightarrow> Some (None, m)
        | Some s \<Rightarrow> map_option (\<lambda>(kept, m). (Some kept, m))
            (mDeleteFunc sel_String StringArray [] s ?del m)) = Some (kept, m1) \<and>
        view_slice sel_String view_plain 0 m1 kept = Some (fst (slices_DeleteFunc [] nodes ?del)) \<and>
        view_slice sel_String view_plain 0 m1 attachList = Some (snd (slices_DeleteFunc [] nodes ?del))"
    proof (cases attachList)
      case None
      then show ?thesis using nodes by (auto simp: view_strings slices_DeleteFunc_def)
    next
      case (Some s)
      then have "slice_elems sel_String 0 m s = Some nodes" using nodes by (simp add: view_strings)
      from mDeleteFunc_view [OF arr_String.array_kind_axioms this, of "[]" ?del] Some
      show ?thesis by (auto simp: view_strings)
    qed
    then obtain kept m1 where kept: "(case attachList of
          None \<Rightarrow> Some (None, m)
        | Some s \<Rightarrow> map_option (\<lambda>(kept, m). (Some kept, m))
            (mDeleteFunc sel_String StringArray [] s ?del m)) = Some (kept, m1)"
        "view_slice sel_String view_plain 0 m1 kept = Some (fst (slices_DeleteFunc [] nodes ?del))"
        "view_slice sel_String view_plain 0 m1 attachList = Some (snd (slices_DeleteFunc [] nodes ?del))"
      by blast
    obtain res m2 where res: "append_strings ?x kept m1 = Some (res, m2)" "prefix m1 m2"
        "view_slice sel_String view_plain 0 m2 res =
          Some (?x # fst (slices_DeleteFunc [] nodes ?del))"
      using append_strings_view [OF kept(2)] by blast
    have "view_slice sel_String view_plain 0 m2 attachList =
        Some (snd (slices_DeleteFunc [] nodes ?del))"
      by (rule arr_String.view_slice_keeps [OF plain.deep_copier_axioms kept(3) prefix_keeps [OF res(2)]])
    moreover obtain q where "r = Some q" "?x \<noteq> []" using False by auto
    then have "mInterestedNodes p attachList m = append_strings ?x kept m1"
      using r kept(1) [folded active] by (simp add: mInterestedNodes_def Let_def ld active [symmetric])
    ultimately show ?thesis using res(1,3) unfolding vals by auto
  qed
qed

end
