(* ===== verification/Memory_Properties.thy ===== *)
theory Memory_Properties
  imports Nodes_In_Memory
begin

text \<open>
  What the deep copies of the API types guarantee to the code that shares objects by pointer,
  each as one theorem, with a memory in which it is applied.
\<close>

section \<open>Objects in a sample memory\<close>

text \<open>A pool named p in the group vg: its finalizer, its one thin LV and the status of it.\<close>

definition sample_heap :: "ThinLvSpecStateName \<Rightarrow> memory" where
  "sample_heap state =
     [ThinPoolLvArray [zero_ThinPoolLv
        \<lparr>mp_Meta := zero_ObjectMeta
           \<lparr>mom_Name := ''p'', mom_Finalizers := Some \<lparr>sl_Array = 3, sl_Off = 0, sl_Len = 1\<rparr>\<rparr>,
         mp_Spec := zero_ThinPoolLvSpec
           \<lparr>mps_ThinLvs := Some \<lparr>sl_Array = 1, sl_Off = 0, sl_Len = 1\<rparr>\<rparr>,
         mp_Status := zero_ThinPoolLvStatus
           \<lparr>mpst_ThinLvs := Some \<lparr>sl_Array = 2, sl_Off = 0, sl_Len = 1\<rparr>\<rparr>\<rparr>],
      ThinLvSpecArray [zero_ThinLvSpec\<lparr>mls_Name := ''v'', mls_State := state\<rparr>],
      ThinLvStatusArray [zero_ThinLvStatus\<lparr>mlst_Name := ''v'', mlst_SizeBytes := 512\<rparr>],
      StringArray [Finalizer]]"

abbreviation sample_ptr :: goptr where
  "sample_ptr \<equiv> \<lparr>pt_Array = 0, pt_Idx = 0\<rparr>"

definition sample_heap_pool :: "ThinLvSpecStateName \<Rightarrow> ThinPoolLv" where
  "sample_heap_pool state =
     \<lparr>p_Meta = \<lparr>om_Name = ''p'', om_Namespace = [], om_UID = [], om_ResourceVersion = [],
        om_Generation = 0, om_DeletionTimestamp = None, om_Labels = None,
        om_Finalizers = [Finalizer], om_OwnerReferences = []\<rparr>,
      p_Spec = \<lparr>ps_VgName = [], ps_SizeBytes = 0,
        ps_ThinLvs = [\<lparr>ls_Name = ''v'', ls_Binding = [],
          ls_Contents = \<lparr>tc_ContentsType = OtherThinLvContents [], tc_Snapshot = None\<rparr>,
          ls_ReadOnly = False, ls_SizeBytes = 0, ls_State = state\<rparr>], ps_ActiveOnNode = []\<rparr>,
      p_Status = \<lparr>pst_ObservedGeneration = 0, pst_Conditions = [], pst_ActiveOnNode = [],
        pst_ThinLvs = [\<lparr>lst_Name = ''v'',
          lst_State = \<lparr>st_Name = OtherStatusState [], st_Active = None\<rparr>,
          lst_SizeBytes = 512\<rparr>]\<rparr>\<rparr>"

lemma sample_heap_view:
  "view_ref sel_ThinPoolLv view_ThinPoolLv 0 (sample_heap state) sample_ptr =
    Some (zero_TypeMeta, sample_heap_pool state)"
  by (simp add: sample_heap_def sample_heap_pool_def view_ref_def array_at_def sel_defs
      view_ThinPoolLv_def view_ObjectMeta_def view_ThinPoolLvSpec_def view_ThinPoolLvStatus_def
      view_ThinLvSpec_def view_ThinLvContents_def view_ThinLvStatus_def view_ThinLvStatusState_def
      view_slice_def slice_elems_def view_map_def view_ptr_def view_plain_def zero_ThinPoolLv_def
      zero_ObjectMeta_def zero_ThinPoolLvSpec_def zero_ThinPoolLvStatus_def zero_ThinLvSpec_def
      zero_ThinLvContents_def zero_ThinLvStatus_def zero_ThinLvStatusState_def zero_TypeMeta_def)

section \<open>The properties\<close>

text \<open>C12: The code that keeps a deep copy of a pool and changes the pool in place through pointers
  does what the model does on values: on the pool as found in memory, attaching a thin volume
  leaves the pool changed as the value-passing model says, leaves the kept object with the value
  from before, and the copy made after the write-back brings the kept object up to date.\<close>

theorem attaching_in_place_refines:
  assumes "view_ref sel_ThinPoolLv view_ThinPoolLv 0 m p = Some (tm, v)"
    and "Spec_FindThinLv (p_Spec v) n = Some l" and "ls_State l \<noteq> SpecRemoved"
    and "Status_FindThinLv (p_Status v) n = Some status"
    and "changed = (tm, set_ActiveOnNode node (modify_thin_spec n (set_thin_state SpecActive) v))"
  shows "\<exists>old m1 m2 m3.
    attaching_start p n m = Some (Inr (Some old, lst_SizeBytes status), m1) \<and>
    set_Spec_ActiveOnNode p node m1 = Some m2 \<and>
    view_ref sel_ThinPoolLv view_ThinPoolLv 0 m2 p = Some changed \<and>
    view_ref sel_ThinPoolLv view_ThinPoolLv (length m) m2 old = Some (tm, v) \<and>
    sync_old p old m2 = Some m3 \<and>
    view_ref sel_ThinPoolLv view_ThinPoolLv 0 m3 p = Some changed \<and>
    view_ref sel_ThinPoolLv view_ThinPoolLv (length m) m3 old = Some changed"
proof -
  have "attaching_edits p n node m tm v status"
    using attaching_start_cases [OF assms(1), of n node] assms(2-4) by simp
  then obtain old m1 m2 where edits:
      "attaching_start p n m = Some (Inr (Some old, lst_SizeBytes status), m1)"
      "set_Spec_ActiveOnNode p node m1 = Some m2" "pool_at 0 m2 p = Some changed"
      "pool_at (length m) m2 old = Some (tm, v)"
    unfolding attaching_edits_def assms(5) by blast
  moreover have "pt_Array p < length m"
    using assms(1) array_at_ThinPoolLv unfolding pool_at_Some by blast
  ultimately show ?thesis using sync_old_view [OF edits(3,4)] by blast
qed

theorem attaching_in_place_refines_witness:
  "\<exists>old m1 m2 m3.
    attaching_start sample_ptr ''v'' (sample_heap SpecInactive) = Some (Inr (Some old, 512), m1) \<and>
    set_Spec_ActiveOnNode sample_ptr ''node1'' m1 = Some m2 \<and>
    view_ref sel_ThinPoolLv view_ThinPoolLv 4 m2 old =
      Some (zero_TypeMeta, sample_heap_pool SpecInactive) \<and>
    sync_old sample_ptr old m2 = Some m3 \<and>
    view_ref sel_ThinPoolLv view_ThinPoolLv 4 m3 old =
      Some (zero_TypeMeta, set_ActiveOnNode ''node1'' (sample_heap_pool SpecActive))"
proof -
  let ?v = "sample_heap_pool SpecInactive"
  obtain l where l: "Spec_FindThinLv (p_Spec ?v) ''v'' = Some l" "ls_State l = SpecInactive"
    by (simp add: sample_heap_pool_def Spec_FindThinLv_def)
  obtain status where status: "Status_FindThinLv (p_Status ?v) ''v'' = Some status"
      "lst_SizeBytes status = 512"
    by (simp add: sample_heap_pool_def Status_FindThinLv_def)
  have len: "length (sample_heap SpecInactive) = 4" by (simp add: sample_heap_def)
  have changed: "modify_thin_spec ''v'' (set_thin_state SpecActive) ?v = sample_heap_pool SpecActive"
    by (simp add: modify_thin_spec_def set_thin_state_def sample_heap_pool_def)
  show ?thesis
    using attaching_in_place_refines [OF sample_heap_view l(1) _ status(1) refl, of "''node1''"]
      l(2) status(2) len changed by auto
qed

text \<open>C29: A deep copy of a volume is equal to the volume and shares no memory with it: both read
  the same after the copy, writes to anything older than the copy leave the copy as it is, and
  writes to what was allocated for the copy leave the volume as it is.  A nil pointer gives a
  nil object and not an object around a nil pointer.\<close>

theorem volume_copy_independent:
  "Volume_DeepCopyObject None m = Some (None, m) \<and>
   (view_ref sel_Volume view_Volume 0 m p = Some v \<longrightarrow>
     (\<exists>q m'. Volume_DeepCopyObject (Some p) m = Some (Some (VolumeObject q), m') \<and>
       view_ref sel_Volume view_Volume 0 m' p = Some v \<and>
       view_ref sel_Volume view_Volume 0 m' q = Some v \<and>
       (\<forall>m''. keeps (length m) m' m'' \<longrightarrow> view_ref sel_Volume view_Volume 0 m'' q = Some v) \<and>
       (\<forall>m''. take (length m) m'' = m \<longrightarrow> view_ref sel_Volume view_Volume 0 m'' p = Some v)))"
proof (intro conjI impI)
  show "Volume_DeepCopyObject None m = Some (None, m)"
    by (simp add: Volume_DeepCopyObject_def Volume_DeepCopy_def ptr_DeepCopy_def)
next
  assume v: "view_ref sel_Volume view_Volume 0 m p = Some v"
  note keep = arr_Volume.view_ref_keeps [OF Volume_copier]
  obtain q m' where q: "Volume_DeepCopy (Some p) m = Some (Some q, m')" "prefix m m'"
      "view_ref sel_Volume view_Volume (length m) m' q = Some v"
    using arr_Volume.new_DeepCopyInto [OF Volume_copier v] unfolding Volume_DeepCopy_def by blast
  have low: "view_ref sel_Volume view_Volume 0 m'' q = Some v" if "keeps (length m) m' m''" for m''
    using arr_Volume.view_ref_lower [OF Volume_copier keep [OF q(3) that]] by simp
  have orig: "view_ref sel_Volume view_Volume 0 m'' p = Some v" if "take (length m) m'' = m" for m''
    using keep [OF v] prefix_keeps [of m m''] take_is_prefix [of "length m" m''] that by simp
  have "Volume_DeepCopyObject (Some p) m = Some (Some (VolumeObject q), m')"
    using q(1) by (simp add: Volume_DeepCopyObject_def)
  then show "\<exists>q m'. Volume_DeepCopyObject (Some p) m = Some (Some (VolumeObject q), m') \<and>
       view_ref sel_Volume view_Volume 0 m' p = Some v \<and>
       view_ref sel_Volume view_Volume 0 m' q = Some v \<and>
       (\<forall>m''. keeps (length m) m' m'' \<longrightarrow> view_ref sel_Volume view_Volume 0 m'' q = Some v) \<and>
       (\<forall>m''. take (length m) m'' = m \<longrightarrow> view_ref sel_Volume view_Volume 0 m'' p = Some v)"
    using low orig q(2) keep [OF v prefix_keeps [OF q(2)]]
    by (intro exI [of _ q] exI [of _ m']) auto
qed

text \<open>A volume to be attached to node1, and its copy after the list of the original is written.\<close>

definition sample_volume_heap :: memory where
  "sample_volume_heap =
     [VolumeArray [zero_Volume\<lparr>mv_Spec := zero_VolumeSpec
        \<lparr>mvs_AttachToNodes := Some \<lparr>sl_Array = 1, sl_Off = 0, sl_Len = 1\<rparr>\<rparr>\<rparr>],
      StringArray [''node1'']]"

lemma sample_volume_heap_view:
  "\<exists>v. view_ref sel_Volume view_Volume 0 sample_volume_heap sample_ptr = Some v \<and>
    vs_AttachToNodes (v_Spec (snd v)) = [''node1'']"
  by (simp add: sample_volume_heap_def view_ref_def array_at_def sel_defs view_Volume_def
      view_ObjectMeta_def view_VolumeSpec_def view_VolumeStatus_def view_VolumeType_def
      view_VolumeContents_def view_slice_def slice_elems_def view_map_def view_ptr_def
      view_plain_def zero_Volume_def zero_ObjectMeta_def zero_VolumeSpec_def zero_VolumeStatus_def
      zero_VolumeType_def zero_VolumeContents_def)

theorem volume_copy_independent_witness:
  "\<exists>q m' v. Volume_DeepCopyObject (Some sample_ptr) sample_volume_heap =
      Some (Some (VolumeObject q), m') \<and>
    vs_AttachToNodes (v_Spec (snd v)) = [''node1''] \<and>
    view_ref sel_Volume view_Volume 0 (m'[1 := StringArray [''node2'']]) q = Some v"
proof -
  obtain v where v: "view_ref sel_Volume view_Volume 0 sample_volume_heap sample_ptr = Some v"
      "vs_AttachToNodes (v_Spec (snd v)) = [''node1'']"
    using sample_volume_heap_view by blast
  have len: "length sample_volume_heap = 2" by (simp add: sample_volume_heap_def)
  have keep: "keeps 2 m' (m'[1 := c])" for m' :: memory and c by (rule keeps_update_below) simp
  show ?thesis
    using volume_copy_independent [of sample_volume_heap sample_ptr v] v keep unfolding len by blast
qed

section \<open>The caller of InterestedNodes\<close>

text \<open>C13: On memory, InterestedNodes returns the list that the value-passing model has, and turns
  the list of its caller, which stays in use, into the one that the model gives back beside it.\<close>

theorem interested_nodes_in_place:
  assumes "view_ref sel_ThinPoolLv view_ThinPoolLv 0 m p = Some (tm, v)"
    and "view_slice sel_String view_plain 0 m attachList = Some nodes"
  shows "\<exists>res m'. mInterestedNodes p attachList m = Some (res, m') \<and>
    view_slice sel_String view_plain 0 m' res = Some (fst (InterestedNodes v nodes)) \<and>
    view_slice sel_String view_plain 0 m' attachList = Some (snd (InterestedNodes v nodes))"
  by (rule mInterestedNodes_view [OF assms])

text \<open>A pool that a clone pins to n1, and the list of a volume attached to n1 and n2.\<close>

definition sample_pinned_heap :: memory where
  "sample_pinned_heap =
     [ThinPoolLvArray [zero_ThinPoolLv\<lparr>mp_Spec := zero_ThinPoolLvSpec
        \<lparr>mps_ThinLvs := Some \<lparr>sl_Array = 1, sl_Off = 0, sl_Len = 1\<rparr>, mps_ActiveOnNode := ''n1''\<rparr>\<rparr>],
      ThinLvSpecArray [zero_ThinLvSpec\<lparr>mls_Name := ''clone-v'', mls_State := SpecActive\<rparr>],
      StringArray [''n1'', ''n2'']]"

lemma sample_pinned_view:
  "\<exists>v. view_ref sel_ThinPoolLv view_ThinPoolLv 0 sample_pinned_heap sample_ptr = Some (zero_TypeMeta, v) \<and>
    ps_ActiveOnNode (p_Spec v) = ''n1'' \<and>
    (\<exists>l. ps_ThinLvs (p_Spec v) = [l] \<and> ls_Name l = ''clone-v'' \<and> ls_State l = SpecActive)"
  by (simp add: sample_pinned_heap_def view_ref_def array_at_def sel_defs
      view_ThinPoolLv_def view_ObjectMeta_def view_ThinPoolLvSpec_def view_ThinPoolLvStatus_def
      view_ThinLvSpec_def view_ThinLvContents_def
      view_slice_def slice_elems_def view_map_def view_ptr_def view_plain_def zero_ThinPoolLv_def
      zero_ObjectMeta_def zero_ThinPoolLvSpec_def zero_ThinPoolLvStatus_def zero_ThinLvSpec_def
      zero_ThinLvContents_def zero_TypeMeta_def)

theorem interested_nodes_in_place_witness:
  "let attachList = Some \<lparr>sl_Array = 2, sl_Off = 0, sl_Len = 2\<rparr>
   in \<exists>res m'. mInterestedNodes sample_ptr attachList sample_pinned_heap = Some (res, m') \<and>
     view_slice sel_String view_plain 0 m' res = Some [''n1'', ''n2''] \<and>
     view_slice sel_String view_plain 0 m' attachList = Some [''n2'', []]"
proof -
  let ?s = "Some \<lparr>sl_Array = 2, sl_Off = 0, sl_Len = 2\<rparr>"
  obtain v where v: "view_ref sel_ThinPoolLv view_ThinPoolLv 0 sample_pinned_heap sample_ptr =
      Some (zero_TypeMeta, v)" "ps_ActiveOnNode (p_Spec v) = ''n1''"
      "\<exists>l. ps_ThinLvs (p_Spec v) = [l] \<and> ls_Name l = ''clone-v'' \<and> ls_State l = SpecActive"
    using sample_pinned_view by blast
  have nodes: "view_slice sel_String view_plain 0 sample_pinned_heap ?s = Some [''n1'', ''n2'']"
    by (simp add: sample_pinned_heap_def view_strings slice_elems_def array_at_def sel_defs)
  have "InterestedNodes v [''n1'', ''n2''] = ([''n1'', ''n2''], [''n2'', []])"
    using v(2,3)
    by (auto simp: InterestedNodes_def slices_DeleteFunc_def str_contains_def sublist_code)
  with interested_nodes_in_place [OF v(1) nodes] show ?thesis by simp
qed

end
