(* ===== verification/Startup.thy ===== *)
theory Startup
  imports Cluster_Volume Io_Logic
begin

text \<open>
  The start-up of the processes: cmd/main.go, the namespace of internal/common/config/config.go, the
  managers of internal/manager/manager.go with the LVM profile of internal/common/commands/commands.go,
  and the CSI plugins of internal/csi, with the tables of capabilities they advertise.  The profile
  is written to a temporary file beside its destination, which is then renamed, so that a reader
  never sees a part of it.  The framework's steps are parameters.
\<close>

section \<open>Command line and namespace\<close>

datatype flavor =
    ControllerPlugin
  | NodePlugin
  | ClusterControllers
  | NodeControllers

text \<open>The first argument selects what runs; anything else prints the usage and exits.\<close>

definition main_flavor :: "string list \<Rightarrow> flavor option" where
  "main_flavor args =
     (if length args < 2 then None
      else
        let flavor = args ! 1
        in if flavor = ''csi-controller-plugin'' then Some ControllerPlugin
           else if flavor = ''csi-node-plugin'' then Some NodePlugin
           else if flavor = ''cluster-controller-manager'' then Some ClusterControllers
           else if flavor = ''node-controller-manager'' then Some NodeControllers
           else None)"

text \<open>The variable, or the file of the service account: what opening, reading and closing it give.\<close>

definition getNamespace ::
  "string option \<Rightarrow> goerr option \<Rightarrow> goerr + string \<Rightarrow> goerr option \<Rightarrow> goerr + string" where
  "getNamespace variable opened data closed =
     (case variable of
        Some namespace \<Rightarrow> Inr namespace
      | None \<Rightarrow>
          if opened \<noteq> None then Inl (Panic ''could not determine namespace'')
          else
            (case data of
               Inl err \<Rightarrow> Inl (Panic ''could not determine namespace'')
             | Inr namespace \<Rightarrow>
                 if closed \<noteq> None then Inl (Panic ''could not determine namespace'') else Inr namespace))"

section \<open>The CSI plugins\<close>

definition Version :: string where
  "Version = ''v0.10.3''"

definition CsiSocketPath :: string where
  "CsiSocketPath = ''/run/csi/socket''"

datatype plugin_capability =
    CONTROLLER_SERVICE
  | VOLUME_EXPANSION_ONLINE

datatype controller_capability =
    CREATE_DELETE_VOLUME
  | CLONE_VOLUME
  | CREATE_DELETE_SNAPSHOT
  | CONTROLLER_SINGLE_NODE_MULTI_WRITER
  | LIST_VOLUMES
  | CONTROLLER_VOLUME_CONDITION
  | GET_VOLUME
  | LIST_SNAPSHOTS
  | EXPAND_VOLUME

definition GetPluginInfo :: "(string \<times> string) io" where
  "GetPluginInfo = ret (Domain, Version)"

definition GetPluginCapabilities :: "plugin_capability list io" where
  "GetPluginCapabilities = ret [CONTROLLER_SERVICE, VOLUME_EXPANSION_ONLINE]"

definition Probe :: "bool io" where
  "Probe = ret True"

definition ControllerGetCapabilities :: "controller_capability list io" where
  "ControllerGetCapabilities =
     ret [CREATE_DELETE_VOLUME, CLONE_VOLUME, CREATE_DELETE_SNAPSHOT, CONTROLLER_SINGLE_NODE_MULTI_WRITER,
       LIST_VOLUMES, CONTROLLER_VOLUME_CONDITION, GET_VOLUME, LIST_SNAPSHOTS, EXPAND_VOLUME]"

text \<open>The client primes its cache by asking for objects that do not exist, with the answers ignored.\<close>

definition NewCsiK8sClient :: "bool \<Rightarrow> unit io \<Rightarrow> unit io" where
  "NewCsiK8sClient cluster NewManager =
     thenE NewManager
    (thenE (ignoreErr (volume_get ''nosuch''))
       (whenE cluster (ignoreErr (api_get snapshots SnapshotCall ''nosuch''))))"

text \<open>The socket of an earlier process is removed before the server listens on it.\<close>

definition serve :: "bool \<Rightarrow> unit io \<Rightarrow> unit io \<Rightarrow> unit io \<Rightarrow> unit io" where
  "serve cluster NewManager Listen Serve =
     thenE (NewCsiK8sClient cluster NewManager)
    (thenE (remove_if_exists CsiSocketPath)
    (thenE (bindE (attempt Listen) (\<lambda>listener.
              case listener of Inl err \<Rightarrow> fail (OtherError ''failed to listen'') | Inr u \<Rightarrow> ret ()))
       Serve))"

definition RunControllerPlugin :: "unit io \<Rightarrow> unit io \<Rightarrow> unit io \<Rightarrow> unit io" where
  "RunControllerPlugin = serve True"

definition RunNodePlugin :: "unit io \<Rightarrow> unit io \<Rightarrow> unit io \<Rightarrow> unit io" where
  "RunNodePlugin = serve False"

section \<open>Writing the profile\<close>

definition profileDir :: string where
  "profileDir = ''/proc/1/root/etc/lvm/profile''"

definition profilePath :: "string \<Rightarrow> string" where
  "profilePath name = profileDir @ ''/'' @ name @ ''.profile''"

definition CreateTemp :: "string io" where
  "CreateTemp = invoke (\<lambda>E h. env_temp E h) (OsCall (OsCreateTemp profileDir ''kubesan-*''))"

definition LvmProfileName :: string where
  "LvmProfileName = ''kubesan''"

text \<open>The deferred function, for a file that was not renamed: it closes what is open, removes the
  file, and panics where it cannot.\<close>

definition profile_cleanup :: "string \<Rightarrow> bool \<Rightarrow> unit io" where
  "profile_cleanup tmp fClosed =
     thenE (whenE (\<not> fClosed)
              (bindE (attempt (os_do (OsCloseFile tmp))) (\<lambda>closed.
                 case closed of Inl err \<Rightarrow> fail (Panic ''failed to close lvm profile'') | Inr u \<Rightarrow> ret ())))
       (bindE (attempt (os_do (OsRemove tmp))) (\<lambda>removed.
          case removed of
            Inl err \<Rightarrow> fail (Panic ''failed to remove temporary file for lvm profile'')
          | Inr u \<Rightarrow> ret ()))"

text \<open>One of the steps on the temporary file; an error of it is returned after the clean-up.\<close>

definition profile_step :: "string \<Rightarrow> bool \<Rightarrow> os_call \<Rightarrow> string \<Rightarrow> unit io \<Rightarrow> unit io" where
  "profile_step tmp fClosed c msg rest =
     bindE (attempt (os_do c)) (\<lambda>done.
       case done of
         Inl err \<Rightarrow> thenE (profile_cleanup tmp fClosed) (fail (OtherError msg))
       | Inr u \<Rightarrow> rest)"

definition LvmCreateProfile :: "string \<Rightarrow> string \<Rightarrow> unit io" where
  "LvmCreateProfile name contents =
     (if CHR ''/'' \<in> set name then fail (OtherError ''lvm profile name must not contain a slash'')
      else if name = ''..'' then fail (OtherError ''lvm profile name must not be dot dot'')
      else
        bindE (attempt CreateTemp) (\<lambda>created.
          case created of
            Inl err \<Rightarrow> fail (OtherError ''failed to create temporary file for lvm profile'')
          | Inr tmp \<Rightarrow>
              profile_step tmp False (OsChmod tmp) ''failed to chmod lvm profile''
             (profile_step tmp False (OsWriteString tmp contents) ''failed to write lvm profile''
             (profile_step tmp False (OsCloseFile tmp) ''failed to close lvm profile''
             (profile_step tmp True (OsRename tmp (profilePath name)) ''failed to rename lvm profile''
                (ret ()))))))"

section \<open>Starting a manager\<close>

text \<open>The profile comes first, then the manager, the controllers in their order, the two health
  checks, and the run of the manager.\<close>

definition runManager :: "string \<Rightarrow> unit io \<Rightarrow> unit io list \<Rightarrow> unit io \<Rightarrow> unit io \<Rightarrow> unit io \<Rightarrow> unit io" where
  "runManager profile NewManager controllerSetUpFuncs AddHealthzCheck AddReadyzCheck Start =
     thenE (LvmCreateProfile LvmProfileName profile)
    (thenE NewManager
    (thenE (foldE (\<lambda>f u. f) controllerSetUpFuncs ())
    (thenE AddHealthzCheck (thenE AddReadyzCheck (thenE Start (ret ()))))))"

text \<open>The contents of config.go's profile; the set-up functions of each of the two managers are in
  the order of the source.\<close>

definition LvmProfile :: string where
  "LvmProfile =
     ''# This file is part of the KubeSAN CSI plugin and may be automatically'' @ [CHR 0x0A] @
     ''# updated. Do not edit!'' @ [CHR 0x0A] @ [CHR 0x0A] @
     ''activation {'' @ [CHR 0x0A] @
     ''        thin_pool_autoextend_threshold=95'' @ [CHR 0x0A] @
     ''        thin_pool_autoextend_percent=20'' @ [CHR 0x0A] @
     ''}'' @ [CHR 0x0A]"

datatype controller =
    SnapshotReconciler
  | ThinPoolLvReconciler
  | VolumeReconciler
  | NBDExportNodeReconciler
  | ThinPoolLvNodeReconciler
  | VolumeNodeReconciler

definition RunClusterControllers ::
  "(controller \<Rightarrow> unit io) \<Rightarrow> unit io \<Rightarrow> unit io \<Rightarrow> unit io \<Rightarrow> unit io \<Rightarrow> unit io" where
  "RunClusterControllers SetUp NewManager = runManager LvmProfile NewManager
     (map SetUp [SnapshotReconciler, ThinPoolLvReconciler, VolumeReconciler])"

definition RunNodeControllers ::
  "(controller \<Rightarrow> unit io) \<Rightarrow> unit io \<Rightarrow> unit io \<Rightarrow> unit io \<Rightarrow> unit io \<Rightarrow> unit io" where
  "RunNodeControllers SetUp NewManager = runManager LvmProfile NewManager
     (map SetUp [NBDExportNodeReconciler, ThinPoolLvNodeReconciler, VolumeNodeReconciler])"

section \<open>All or nothing\<close>

text \<open>The steps on the temporary file in their order.\<close>

definition profile_plan :: "string \<Rightarrow> string \<Rightarrow> string \<Rightarrow> call list" where
  "profile_plan name contents tmp =
     [OsCall (OsChmod tmp), OsCall (OsWriteString tmp contents), OsCall (OsCloseFile tmp),
      OsCall (OsRename tmp (profilePath name))]"

definition cleanup_plan :: "string \<Rightarrow> call list" where
  "cleanup_plan tmp = [OsCall (OsCloseFile tmp), OsCall (OsRemove tmp)]"

text \<open>
  Success is the whole plan.  An error without a temporary file has made at most the call that did
  not give one, and any other error is a part of the plan followed by the clean-up, so it ends with
  the removal of the file.
\<close>

definition profile_written :: "string \<Rightarrow> string \<Rightarrow> env \<Rightarrow> world \<Rightarrow> goerr + unit \<Rightarrow> world \<Rightarrow> bool" where
  "profile_written name contents E w r w2 \<longleftrightarrow>
     (let create = OsCall (OsCreateTemp profileDir ''kubesan-*'');
          calls = new_calls w w2
      in case r of
           Inr u \<Rightarrow> CHR ''/'' \<notin> set name \<and> name \<noteq> ''..'' \<and>
             (\<exists>tmp. env_temp E (trace w) = Inr tmp \<and> calls = create # profile_plan name contents tmp)
         | Inl (Panic msg) \<Rightarrow> True
         | Inl err \<Rightarrow> calls = [] \<or> calls = [create] \<or>
             (\<exists>tmp n. env_temp E (trace w) = Inr tmp \<and> 0 < n \<and> n \<le> 4 \<and>
                (calls = create # take n (profile_plan name contents tmp) @ cleanup_plan tmp \<and> n < 4 \<or>
                 calls = create # profile_plan name contents tmp @ [OsCall (OsRemove tmp)] \<and> n = 4)))"

lemma os_do_run: "os_do c E w = (env_os E (trace w) c, after w (OsCall c))"
  by (simp add: os_do_def invoke_def after_def)

text \<open>The clean-up panics, or has made its calls.\<close>

lemma profile_cleanup_run:
  "(\<exists>msg. fst (profile_cleanup tmp fClosed E w) = Inl (Panic msg)) \<or>
   fst (profile_cleanup tmp fClosed E w) = Inr () \<and>
     trace (snd (profile_cleanup tmp fClosed E w)) =
       trace w @ (if fClosed then [OsCall (OsRemove tmp)] else cleanup_plan tmp)"
  by (auto simp: profile_cleanup_def cleanup_plan_def thenE_def bindE_def whenE_def attempt_def os_do_run
      fail_def ret_def split: sum.split)

text \<open>A step goes on after its call, or its error follows the clean-up.\<close>

lemma profile_step_run:
  "\<exists>msg. profile_step tmp fClosed c what rest E w = rest E (after w (OsCall c)) \<or>
     fst (profile_step tmp fClosed c what rest E w) = Inl (Panic msg) \<or>
     fst (profile_step tmp fClosed c what rest E w) = Inl (OtherError msg) \<and>
       trace (snd (profile_step tmp fClosed c what rest E w)) =
         trace w @ OsCall c # (if fClosed then [OsCall (OsRemove tmp)] else cleanup_plan tmp)"
proof (cases "env_os E (trace w) c")
  case (Inl err)
  let ?c = "profile_cleanup tmp fClosed E (after w (OsCall c))"
  have run: "profile_step tmp fClosed c what rest E w =
      (case fst ?c of Inl e \<Rightarrow> (Inl e, snd ?c) | Inr u \<Rightarrow> (Inl (OtherError what), snd ?c))"
    using Inl by (simp add: profile_step_def thenE_def bindE_def attempt_def os_do_run fail_def
        split: prod.split sum.split)
  from profile_cleanup_run [of tmp fClosed E "after w (OsCall c)"] show ?thesis
    unfolding run by (auto split: sum.split)
next
  case (Inr b)
  then show ?thesis by (simp add: profile_step_def bindE_def attempt_def os_do_run)
qed

lemma profile_step_cases [consumes 1, case_names ok panic error]:
  assumes "profile_step tmp fClosed c what rest E w = (r, w2)"
  obtains "rest E (after w (OsCall c)) = (r, w2)" | msg where "r = Inl (Panic msg)"
  | msg where "r = Inl (OtherError msg)"
    "trace w2 = trace w @ OsCall c # (if fClosed then [OsCall (OsRemove tmp)] else cleanup_plan tmp)"
  using profile_step_run [of tmp fClosed c what rest E w] assms by fastforce

lemma written_error:
  assumes "env_temp E (trace w) = Inr tmp" and "0 < n" and "n < 4"
    and "trace w2 = trace w @ OsCall (OsCreateTemp profileDir ''kubesan-*'') #
      take n (profile_plan name contents tmp) @ cleanup_plan tmp"
  shows "profile_written name contents E w (Inl (OtherError msg)) w2"
  using assms new_calls_append [OF assms(4)] by (auto simp: profile_written_def Let_def)

lemma LvmCreateProfile_run:
  assumes "CHR ''/'' \<notin> set name" and "name \<noteq> ''..''" and "env_temp E (trace w) = Inr tmp"
  shows "LvmCreateProfile name contents E w =
    profile_step tmp False (OsChmod tmp) ''failed to chmod lvm profile''
   (profile_step tmp False (OsWriteString tmp contents) ''failed to write lvm profile''
   (profile_step tmp False (OsCloseFile tmp) ''failed to close lvm profile''
   (profile_step tmp True (OsRename tmp (profilePath name)) ''failed to rename lvm profile''
      (ret ())))) E (after w (OsCall (OsCreateTemp profileDir ''kubesan-*'')))"
  unfolding LvmCreateProfile_def using assms
  by (simp add: CreateTemp_def bindE_def [of "attempt _"] attempt_def invoke_def after_def)

lemma LvmCreateProfile_refused:
  assumes "CHR ''/'' \<in> set name \<or> name = ''..'' \<or> env_temp E (trace w) = Inl err"
  shows "\<exists>msg. fst (LvmCreateProfile name contents E w) = Inl (OtherError msg) \<and>
    (snd (LvmCreateProfile name contents E w) = w \<or>
     snd (LvmCreateProfile name contents E w) = after w (OsCall (OsCreateTemp profileDir ''kubesan-*'')))"
  unfolding LvmCreateProfile_def using assms
  by (auto simp: CreateTemp_def bindE_def [of "attempt _"] attempt_def invoke_def after_def fail_def)

lemma LvmCreateProfile_written: "behaves (LvmCreateProfile name contents) (profile_written name contents)"
proof (rule behavesI)
  fix E w r w2
  assume run: "LvmCreateProfile name contents E w = (r, w2)"
  show "profile_written name contents E w r w2"
  proof (cases "(CHR ''/'' \<in> set name \<or> name = ''..'') \<or> isl (env_temp E (trace w))")
    case True
    then obtain err where "CHR ''/'' \<in> set name \<or> name = ''..'' \<or> env_temp E (trace w) = Inl err"
      by (auto simp: isl_def)
    from LvmCreateProfile_refused [OF this, of contents] run show ?thesis
      by (auto simp: profile_written_def Let_def)
  next
    case False
    then obtain tmp where tmp: "env_temp E (trace w) = Inr tmp" by (cases "env_temp E (trace w)") auto
    have name: "CHR ''/'' \<notin> set name" "name \<noteq> ''..''" using False by auto
    from run [unfolded LvmCreateProfile_run [OF name tmp]] show ?thesis
    proof (cases rule: profile_step_cases)
      case ok
      then show ?thesis
      proof (cases rule: profile_step_cases)
        case ok
        then show ?thesis
        proof (cases rule: profile_step_cases)
          case ok
          then show ?thesis
          proof (cases rule: profile_step_cases)
            case ok
            then show ?thesis using name tmp
              by (auto simp: profile_written_def profile_plan_def new_calls_def Let_def)
          next
            case (error msg)
            then have "new_calls w w2 = OsCall (OsCreateTemp profileDir ''kubesan-*'') #
                profile_plan name contents tmp @ [OsCall (OsRemove tmp)]"
              by (simp add: profile_plan_def new_calls_def)
            with error tmp show ?thesis by (auto simp: profile_written_def Let_def)
          qed (simp add: profile_written_def)
        next
          case (error msg)
          then show ?thesis using written_error [OF tmp, of 3 w2 name contents] by (simp add: profile_plan_def)
        qed (simp add: profile_written_def)
      next
        case (error msg)
        then show ?thesis using written_error [OF tmp, of 2 w2 name contents] by (simp add: profile_plan_def)
      qed (simp add: profile_written_def)
    next
      case (error msg)
      then show ?thesis using written_error [OF tmp, of 1 w2 name contents] by (simp add: profile_plan_def)
    qed (simp add: profile_written_def)
  qed
qed

text \<open>When the file cannot be closed, and the second close that the clean-up tries fails as well, as
  it does on a file that is closed already, the error becomes a panic and the file stays.\<close>

lemma LvmCreateProfile_close_panics:
  assumes "CHR ''/'' \<notin> set name" and "name \<noteq> ''..''" and "env_temp E (trace w) = Inr tmp"
    and "\<forall>h c. env_os E h c = (if c = OsCloseFile tmp then Inl err else Inr b)"
  shows "fst (LvmCreateProfile name contents E w) = Inl (Panic ''failed to close lvm profile'') \<and>
    OsCall (OsRemove tmp) \<notin> set (new_calls w (snd (LvmCreateProfile name contents E w)))"
  using assms(4) unfolding LvmCreateProfile_run [OF assms(1-3)]
  by (simp add: profile_step_def profile_cleanup_def bindE_def thenE_def attempt_def whenE_def os_do_run
      fail_def new_calls_def)

text \<open>No controller is set up, and no manager started, when the profile cannot be written.\<close>

lemma runManager_needs_profile:
  assumes "LvmCreateProfile LvmProfileName profile E w = (Inl err, w2)"
  shows "runManager profile NewManager fs AddHealthzCheck AddReadyzCheck Start E w = (Inl err, w2)"
  using assms by (simp add: runManager_def thenE_def bindE_def)

end
