(* ===== verification/Spec2Isabelle.thy ===== *)
theory Spec2Isabelle
  imports Storage_Properties Csi_Properties Node_Properties Nbd_Properties Memory_Properties Startup
begin

text \<open>
  KubeSAN is a CSI plugin for Kubernetes that provides volumes from LVM volume groups shared by
  the nodes of a cluster.  This is the root of the development; it imports every other theory.

  The parts of the program and how they interact.

  The state of the system is in four kinds of Kubernetes objects (api/v1alpha1): volumes,
  snapshots, thin pools and NBD exports.  The CSI controller service creates, expands, lists and
  deletes volumes and snapshots as objects, and waits until they are reported available.  The
  cluster controllers create the logical volumes behind the objects, set up clones, and remove
  what is deleted.  The controllers of each node activate pools and thin LVs, attach volumes
  (locally, or over NBD when another node has the pool), populate clones and zero linear volumes,
  and serve NBD exports with a storage daemon.  The CSI node service lists its node in a volume,
  waits until the node controllers have attached it, and mounts its device.  The parts call each
  other only through the objects, so each handler is modelled against an API server that may
  answer anything at any time.

  How the code is modelled.

  Go_IO: a procedure is a function from an environment and a world to an error or a result, and a
  new world.  The environment holds the answers of everything outside the repository: the API
  server, commands on the host, the storage daemon, background work, the file system and the
  mounter, as functions of all calls made so far; it is a parameter of every theorem.  The world
  holds that list of calls, the trace, and the tables the process keeps in memory.  Errors, early
  returns and panics are values of the type goerr.  An object that the source changes in place is
  passed along, and replaced by what the server returned.  Io_Logic: the weakest preconditions
  with which the properties of the longer handlers are proved; its predicates, and those of
  Go_IO, are emits and issues (every call of every run), yields (every successful run) and behaves
  (every run).

  Prelude: strings, numbers and lists of Go's standard library.  Slices: common/slices, each loop
  with the list function it equals.  Api_Types: the structs of api/v1alpha1 with their methods.
  K8s_Meta: finalizers, owner references and conditions of the vendored Kubernetes libraries.
  Commands and Lvm_Counter: common/commands, with the encoding of tags and the counter kept in
  them.  Dm: common/dm.  Nbd_Server and Nbd_Client: common/nbd; the sections under the lock are
  functions on the world, and the steps of a state machine.  Workers: manager/common/workers, and
  Worker_System: the same with the goroutines of the work, as a state machine that Run and Cancel
  refine.
  Thin_Pool_Common: manager/common/thinpoollv.  Blobs: manager/common/blobs, the interface as a
  locale with both managers as instances.  Cluster_ThinPool, Cluster_Volume, Cluster_Snapshot:
  manager/cluster.  Node_ThinPool, Node_Volume, Node_NBDExport and Node_Shutdown (events and signal
  handler): manager/node; Node_Volume_Props has the lemmas on volumes, Node_Pool_Settled those on
  a whole run of the thin pool controller, and Thin_Lifecycle puts it together with the blob manager.  Csi_Validate, Csi_Volume, Csi_Snapshot: csi/common and
  csi/controller.  Csi_Node: csi/node.  Startup: the start of the processes, with the LVM profile
  and the tables of capabilities.  Sample: the objects at which properties are applied.
  The names of definitions are those of the functions in the source; a function that several
  controllers have in common has the name of its component in front (volume_Reconcile), and the
  parts of a long function have names of their own, composed in the order of the source.

  Objects in memory.

  The controllers share objects by pointer, keep a deep copy of what they read, and change the
  original in place; the model passes values.  Go_Memory: a memory of arrays, with slices, pointers
  and maps, the shapes of the generated code, and the contract of a deep copy as a locale: equal
  value, fresh memory, older memory untouched.  Deep_Copy_Types: the structs of api/v1alpha1 in
  memory, and their views as the values of Api_Types.  Deep_Copy: every function of
  zz_generated.deepcopy.go, each an instance of the contract.  Pool_In_Memory: the in-place changes
  of reconcileThinAttaching beside the copy it keeps, which have the values that Node_Volume and
  Thin_Pool_Common pass.  Nodes_In_Memory: InterestedNodes, which deletes in place from the
  list of its caller, gives and leaves the lists of the value-passing definition.
  Memory_Properties states the results.

  The agreement on NBD exports.

  Where several nodes use an export, the parts of the program form a protocol over the NBDExport
  object, and the theories Nbd_* after the two components verify it as a whole.  Nbd_Protocol:
  what each party may do, as machines over the events of a run (what it read and wrote, the
  devices attached and detached, the stop of the server), and what the API server may answer.
  Nbd_System: the state machine of all nodes, the host and the server, its invariants, and that no
  server is stopped under a client in any interleaving.  Nbd_Trace: the events in the trace of a
  run of the code.  Nbd_Client_Role and Nbd_Host_Role: reconcileThin, export_Reconcile and
  triggerCleanup, whatever they are answered, stay within the machine of their party.
  Nbd_Deployment puts the two together: the nodes run Startup and then reconcileThin any number of
  times, the host export_Reconcile, a process told to stop triggerCleanup, and their events
  interleave freely.  Nbd_Runs: concrete runs of that kind, evaluated from the code.

  The conditions on the API server are those documented for it: a write is stored only with the
  current resource version, the status is a subresource, an update answers what was stored, the
  reads of one party never go back, and a party reads its own writes.  The last is no promise of
  an informer cache; without it the code does connect a node behind the back of the host, which
  is shown by a run.  A call that failed stored nothing; nbd-client names the device it attached;
  the object is not created again under its name; a node runs one process in the course of a run.

  What the theorems show.

  Storage_Properties, Csi_Properties, Node_Properties, Nbd_Properties and Memory_Properties state
  the properties.
  Safety: which command, removal, status update or finalizer update may be issued, under which
  condition read from which object, and in which order; no logical volume is removed, and no object
  released, before its users are gone, and a status is reported only after what it says has
  succeeded.  Functional behaviour: what an operation guarantees when it succeeds, such as the least
  capacity that answers a request; a run of the thin pool controller on the node in charge brings
  the status to the spec, and fails only if something outside failed; a removal that the blob
  manager asked for is completed by the node and then by the blob manager.  The state machine of the NBD server keeps its names distinct and short
  under every interleaving of its locked sections, its operations refine that machine, and the
  signal handler beside it lets the controllers go only when nothing is served.  Every volume that
  the CSI service creates meets the requirements of the controllers.  The code of the nodes and of
  the host refines the roles of the agreement on an export, and a node with a device attached is
  always recorded as a client.  At most one goroutine works for a name in the background, and no
  outcome is lost.  Attaching a thin volume on shared memory changes what the values say and keeps
  the copy as it was, and a deep copy shares nothing with its original.  Encodings are
  undone by their readers: tags, and the URI of an export.  Paging through volumes ends and is
  complete.  Some theorems show defects, at concrete inputs: following the tokens of
  ListSnapshots never ends, a pinned pool makes a node detach a volume in use, unstaging cannot
  be repeated, the shutdown channel can be closed twice.  Two equal file system capabilities
  are refused, a node whose device is gone stays recorded as a client, a start may pass a shutdown,
  a starting token on an empty list panics, a resize sets one condition of three, and a small limit
  is answered with capacity zero.

  Bounds.

  Capacities are 64-bit words in the CSI service, where they are rounded; sizes in the objects are
  integers, since the controllers only compare, store and print them, except for the product in
  dm_GetSize, which wraps at 64 bits.  The counter of block devices is a 64-bit word; its names
  are distinct for fewer than 2 ^ 64 steps.  The waits of the CSI services end with the context of
  the caller, so the number of polls before that is a parameter, and a theorem holds for each; a
  wait returns as soon as one of the polls sees the condition.  Retries on a conflict are the
  five of retry.DefaultRetry.  Lists are paged within their length plus one pages.

  What is not modelled.

  Glue: flags and options, the registration of controllers, the scheme, logging of requests, and the
  shutdown of the CSI server on a signal; the order of the steps of the start-up is in Startup, with
  the framework's steps as parameters.  In the memory, the fields of the metadata that the model has
  no use for (annotations, managed fields, the creation time), and arrays shared between the parts
  of one object: the values assume that an object read from the server shares none, except where
  InterestedNodes deletes from the list it is given, which is written out.  Logging, the texts of
  most error messages beyond their fixed part, the JSON of the monitor protocol, closing connections, and the
  contexts that cancel a command.  The cache of the API client is part of the environment.
\<close>

end
